(* ===== verification/Nmbm_Prelude.thy ===== *)
theory Nmbm_Prelude
  imports "HOL-Library.Word" "HOL-Library.Monad_Syntax"
begin

text \<open>
  Shared vocabulary of the development: the machine integers and error numbers of the C
  sources, bounds-checked access to the C arrays and buffers, little-endian encodings, and a
  small weakest-precondition calculus for the option monad in which the operations are
  written.

  Conventions used by every component theory:
  \<^item> \<^verbatim>\<open>uint32_t\<close> and \<^verbatim>\<open>uint64_t\<close> values are \<open>nat\<close>, and every expression of the source that can
    leave the range of its C type is written with \<open>u32\<close>, \<open>u64\<close>, \<open>sub32\<close> or \<open>sub64\<close>, which
    wrap around as C does;
  \<^item> \<^verbatim>\<open>int32_t\<close> values are \<open>int\<close>; \<open>s32\<close> and \<open>u32_of_int\<close> are the two conversions;
  \<^item> a result of type \<open>'a option\<close> is \<open>None\<close> exactly where the C code has no defined result:
    an access outside an array or buffer, a call through a NULL function pointer, the use of
    an output parameter that was never assigned, or a loop that does not end.
\<close>

unbundle bit_operations_syntax

section \<open>Machine integers\<close>

type_synonym byte = "8 word"

definition u16 :: "nat \<Rightarrow> nat" where
  "u16 n = n mod 2 ^ 16"

definition u32 :: "nat \<Rightarrow> nat" where
  "u32 n = n mod 2 ^ 32"

definition u64 :: "nat \<Rightarrow> nat" where
  "u64 n = n mod 2 ^ 64"

text \<open>Unsigned subtraction: modulo the width of the type.\<close>

definition sub32 :: "nat \<Rightarrow> nat \<Rightarrow> nat" where
  "sub32 a b = nat ((int a - int b) mod 2 ^ 32)"

definition sub64 :: "nat \<Rightarrow> nat \<Rightarrow> nat" where
  "sub64 a b = nat ((int a - int b) mod 2 ^ 64)"

text \<open>Conversions between \<^verbatim>\<open>int32_t\<close> and \<^verbatim>\<open>uint32_t\<close>.\<close>

definition s32 :: "nat \<Rightarrow> int" where
  "s32 n = (if u32 n < 2 ^ 31 then int (u32 n) else int (u32 n) - 2 ^ 32)"

definition u32_of_int :: "int \<Rightarrow> nat" where
  "u32_of_int i = nat (i mod 2 ^ 32)"

text \<open>The error numbers of \<^verbatim>\<open>linux/errno.h\<close> the sources use.\<close>

definition EIO :: int where "EIO = 5"
definition ENOMEM :: int where "ENOMEM = 12"
definition ENODEV :: int where "ENODEV = 19"
definition EINVAL :: int where "EINVAL = 22"
definition EROFS :: int where "EROFS = 30"
definition EBADMSG :: int where "EBADMSG = 74"
definition EUCLEAN :: int where "EUCLEAN = 117"
definition EPROBE_DEFER :: int where "EPROBE_DEFER = 517"
definition ENOTSUPP :: int where "ENOTSUPP = 524"

lemmas errno_defs = EIO_def ENOMEM_def ENODEV_def EINVAL_def EROFS_def EBADMSG_def
  EUCLEAN_def EPROBE_DEFER_def ENOTSUPP_def

section \<open>Arrays and buffers\<close>

text \<open>Array elements and byte ranges; \<open>None\<close> is an access out of bounds.\<close>

definition arr_get :: "'a list \<Rightarrow> nat \<Rightarrow> 'a option" where
  "arr_get xs i = (if i < length xs then Some (xs ! i) else None)"

definition arr_set :: "'a list \<Rightarrow> nat \<Rightarrow> 'a \<Rightarrow> 'a list option" where
  "arr_set xs i v = (if i < length xs then Some (xs[i := v]) else None)"

definition mem_read :: "byte list \<Rightarrow> nat \<Rightarrow> nat \<Rightarrow> byte list option" where
  "mem_read buf off n = (if off + n \<le> length buf then Some (take n (drop off buf)) else None)"

definition mem_write :: "byte list \<Rightarrow> nat \<Rightarrow> byte list \<Rightarrow> byte list option" where
  "mem_write buf off bs =
     (if off + length bs \<le> length buf
      then Some (take off buf @ bs @ drop (off + length bs) buf) else None)"

section \<open>Little-endian encodings\<close>

primrec le_enc :: "nat \<Rightarrow> nat \<Rightarrow> byte list" where
  "le_enc 0 n = []"
| "le_enc (Suc k) n = word_of_nat n # le_enc k (n div 256)"

primrec le_dec :: "byte list \<Rightarrow> nat" where
  "le_dec [] = 0"
| "le_dec (b # bs) = unat b + 256 * le_dec bs"

text \<open>An array of 32-bit values laid over a byte buffer.\<close>

fun le_words :: "byte list \<Rightarrow> 32 word list" where
  "le_words (a # b # c # d # bs) = word_of_nat (le_dec [a, b, c, d]) # le_words bs"
| "le_words _ = []"

definition words_le :: "32 word list \<Rightarrow> byte list" where
  "words_le ws = concat (map (\<lambda>w. le_enc 4 (unat w)) ws)"

definition le_ints :: "byte list \<Rightarrow> int list" where
  "le_ints bs = map (\<lambda>w. s32 (unat w)) (le_words bs)"

definition ints_le :: "int list \<Rightarrow> byte list" where
  "ints_le is = words_le (map word_of_int is)"

section \<open>Results of partial operations\<close>

text \<open>
  \<open>ensures m Q\<close>: the operation has a defined result and it satisfies \<open>Q\<close>. \<open>allows m Q\<close>: if
  it has one, it satisfies \<open>Q\<close>.
\<close>

definition ensures :: "'a option \<Rightarrow> ('a \<Rightarrow> bool) \<Rightarrow> bool" where
  "ensures m Q \<longleftrightarrow> (case m of None \<Rightarrow> False | Some x \<Rightarrow> Q x)"

definition allows :: "'a option \<Rightarrow> ('a \<Rightarrow> bool) \<Rightarrow> bool" where
  "allows m Q \<longleftrightarrow> (case m of None \<Rightarrow> True | Some x \<Rightarrow> Q x)"

lemma ensures_simps [simp]:
  "ensures (Some x) Q \<longleftrightarrow> Q x"
  "ensures None Q \<longleftrightarrow> False"
  by (simp_all add: ensures_def)

lemma allows_simps [simp]:
  "allows (Some x) Q \<longleftrightarrow> Q x"
  "allows None Q"
  by (simp_all add: allows_def)

lemma ensures_iff: "ensures m Q \<longleftrightarrow> (\<exists>x. m = Some x \<and> Q x)"
  by (cases m) auto

lemma allows_iff: "allows m Q \<longleftrightarrow> (\<forall>x. m = Some x \<longrightarrow> Q x)"
  by (cases m) auto

lemma allows_True [simp]: "allows m (\<lambda>_. True)"
  by (simp add: allows_iff)

lemma allows_True_pair [simp]: "allows m (\<lambda>(a, b). True)"
  by (simp add: allows_iff)

lemma ensures_bind: "ensures (Option.bind m f) Q \<longleftrightarrow> ensures m (\<lambda>x. ensures (f x) Q)"
  by (cases m) auto

lemma allows_bind: "allows (Option.bind m f) Q \<longleftrightarrow> allows m (\<lambda>x. allows (f x) Q)"
  by (cases m) auto

lemma ensures_mono: "ensures m P \<Longrightarrow> (\<And>x. P x \<Longrightarrow> Q x) \<Longrightarrow> ensures m Q"
  by (cases m) auto

lemma allows_mono: "allows m P \<Longrightarrow> (\<And>x. P x \<Longrightarrow> Q x) \<Longrightarrow> allows m Q"
  by (cases m) auto

lemma ensures_bindI:
  "ensures m P \<Longrightarrow> (\<And>x. P x \<Longrightarrow> ensures (f x) Q) \<Longrightarrow> ensures (Option.bind m f) Q"
  by (cases m) auto

lemma ensures_ifI:
  "(c \<Longrightarrow> ensures a Q) \<Longrightarrow> (\<not> c \<Longrightarrow> ensures b Q) \<Longrightarrow> ensures (if c then a else b) Q"
  by simp

lemma allows_bindI:
  "allows m P \<Longrightarrow> (\<And>x. P x \<Longrightarrow> allows (f x) Q) \<Longrightarrow> allows (Option.bind m f) Q"
  by (cases m) auto

lemma ensures_conjI: "ensures m P \<Longrightarrow> allows m Q \<Longrightarrow> ensures m (\<lambda>x. P x \<and> Q x)"
  by (cases m) auto

lemma ensures_allows: "ensures m Q \<Longrightarrow> allows m Q"
  by (cases m) auto

lemma ensures_Some: "ensures m Q \<Longrightarrow> m = Some x \<Longrightarrow> Q x"
  by simp

section \<open>Lemmas on machine integers\<close>

lemma u32_id [simp]: "n < 2 ^ 32 \<Longrightarrow> u32 n = n"
  by (simp add: u32_def)

lemma u64_id [simp]: "n < 2 ^ 64 \<Longrightarrow> u64 n = n"
  by (simp add: u64_def)

lemma u32_less [simp]: "u32 n < 2 ^ 32"
  by (simp add: u32_def)

lemma u64_less [simp]: "u64 n < 2 ^ 64"
  by (simp add: u64_def)

lemma u32_le: "u32 n \<le> n"
  by (simp add: u32_def)

lemma sub32_id: "b \<le> a \<Longrightarrow> a < 2 ^ 32 \<Longrightarrow> sub32 a b = a - b"
  by (simp add: sub32_def nat_diff_distrib mod_pos_pos_trivial flip: of_nat_diff)

lemma sub32_id': "b \<le> a \<Longrightarrow> a - b < 2 ^ 32 \<Longrightarrow> sub32 a b = a - b"
  by (simp add: sub32_def mod_pos_pos_trivial flip: of_nat_diff)

lemma sub64_id': "b \<le> a \<Longrightarrow> a - b < 2 ^ 64 \<Longrightarrow> sub64 a b = a - b"
  by (simp add: sub64_def mod_pos_pos_trivial flip: of_nat_diff)

lemma sub32_less [simp]: "sub32 a b < 2 ^ 32"
  by (simp add: sub32_def nat_less_iff)

lemma s32_id: "n < 2 ^ 31 \<Longrightarrow> s32 n = int n"
  by (simp add: s32_def u32_def)

lemma s32_0 [simp]: "s32 0 = 0"
  by (simp add: s32_def u32_def)

lemma s32_le: "s32 n \<le> int n"
  using u32_le [of n] by (simp add: s32_def)

lemma s32_less: "n < m \<Longrightarrow> s32 n < int m"
  using s32_le [of n] by simp

lemma u32_of_int_nonneg: "0 \<le> i \<Longrightarrow> i < 2 ^ 32 \<Longrightarrow> u32_of_int i = nat i"
  by (simp add: u32_of_int_def mod_pos_pos_trivial)

section \<open>Lemmas on arrays and buffers\<close>

lemma ensures_arr_get [simp]: "ensures (arr_get xs i) Q \<longleftrightarrow> i < length xs \<and> Q (xs ! i)"
  by (simp add: arr_get_def)

lemma ensures_arr_set [simp]: "ensures (arr_set xs i v) Q \<longleftrightarrow> i < length xs \<and> Q (xs[i := v])"
  by (simp add: arr_set_def)

lemma allows_arr_get [simp]: "allows (arr_get xs i) Q \<longleftrightarrow> (i < length xs \<longrightarrow> Q (xs ! i))"
  by (simp add: arr_get_def)

lemma allows_arr_set [simp]: "allows (arr_set xs i v) Q \<longleftrightarrow> (i < length xs \<longrightarrow> Q (xs[i := v]))"
  by (simp add: arr_set_def)

lemma mem_write_length: "mem_write buf off bs = Some buf' \<Longrightarrow> length buf' = length buf"
  by (auto simp: mem_write_def split: if_splits)

lemma mem_read_length: "mem_read buf off n = Some bs \<Longrightarrow> length bs = n"
  by (auto simp: mem_read_def split: if_splits)

lemma ensures_mem_write:
  "off + length bs \<le> length buf \<Longrightarrow>
   ensures (mem_write buf off bs) (\<lambda>b. length b = length buf \<and> mem_write buf off bs = Some b)"
  by (simp add: mem_write_def)

lemma ensures_mem_read:
  "off + n \<le> length buf \<Longrightarrow>
   ensures (mem_read buf off n) (\<lambda>bs. length bs = n \<and> bs = take n (drop off buf))"
  by (simp add: mem_read_def)

lemma ensures_mem_writeI:
  assumes "off + length bs \<le> length buf"
    and "\<And>b. length b = length buf \<Longrightarrow> mem_write buf off bs = Some b \<Longrightarrow> Q b"
  shows "ensures (mem_write buf off bs) Q"
  using ensures_mem_write [OF assms(1)] by (rule ensures_mono) (auto intro: assms(2))

lemma ensures_mem_readI:
  assumes "off + n \<le> length buf" and "\<And>bs. length bs = n \<Longrightarrow> mem_read buf off n = Some bs \<Longrightarrow> Q bs"
  shows "ensures (mem_read buf off n) Q"
  using assms by (simp add: mem_read_def)

lemma mem_read_write_same:
  "mem_write buf off bs = Some buf' \<Longrightarrow> n = length bs \<Longrightarrow> mem_read buf' off n = Some bs"
  by (auto simp: mem_write_def mem_read_def split: if_splits)

lemma mem_write_nth:
  "mem_write buf off bs = Some buf' \<Longrightarrow> i < length buf \<Longrightarrow>
   buf' ! i = (if off \<le> i \<and> i < off + length bs then bs ! (i - off) else buf ! i)"
  by (auto simp: mem_write_def nth_append nth_drop min_def split: if_splits)

lemma mem_write_slice_disjoint:
  assumes "mem_write buf off bs = Some buf'" and "p + n \<le> off \<or> off + length bs \<le> p"
    and "p + n \<le> length buf"
  shows "take n (drop p buf') = take n (drop p buf)"
proof (rule nth_equalityI)
  show "length (take n (drop p buf')) = length (take n (drop p buf))"
    using mem_write_length [OF assms(1)] by simp
next
  fix i assume "i < length (take n (drop p buf'))"
  then show "take n (drop p buf') ! i = take n (drop p buf) ! i"
    using assms mem_write_length [OF assms(1)]
    by (auto simp: mem_write_nth)
qed

lemma mem_write_slice_same:
  "mem_write buf off bs = Some buf' \<Longrightarrow> take (length bs) (drop off buf') = bs"
  by (auto simp: mem_write_def split: if_splits)

section \<open>Lemmas on encodings\<close>

lemma le_enc_4: "le_enc 4 n = [word_of_nat n, word_of_nat (n div 256), word_of_nat (n div 65536),
    word_of_nat (n div 16777216)]"
proof -
  have "le_enc (Suc (Suc (Suc (Suc 0)))) n = [word_of_nat n, word_of_nat (n div 256),
      word_of_nat (n div 65536), word_of_nat (n div 16777216)]"
    by (simp only: le_enc.simps div_mult2_eq [symmetric]) simp
  moreover have "4 = Suc (Suc (Suc (Suc 0)))" by simp
  ultimately show ?thesis by (simp only:)
qed

lemma le_dec_zeros [simp]: "le_dec (replicate n 0) = 0"
  by (induction n) simp_all

lemma length_le_enc [simp]: "length (le_enc k n) = k"
  by (induction k arbitrary: n) auto

lemma le_dec_le_enc: "le_dec (le_enc k n) = n mod 256 ^ k"
proof (induction k arbitrary: n)
  case (Suc k)
  have "le_dec (le_enc (Suc k) n) = n mod 256 + 256 * (n div 256 mod 256 ^ k)"
    by (simp add: Suc unat_word_ariths unsigned_of_nat take_bit_eq_mod)
  also have "\<dots> = n mod (256 * 256 ^ k)"
    by (simp add: mod_mult2_eq)
  finally show ?case by simp
qed simp

lemma le_dec_le_enc_id: "n < 256 ^ k \<Longrightarrow> le_dec (le_enc k n) = n"
  by (simp add: le_dec_le_enc)

lemma byte_less: "unat (b :: byte) < 256"
  using unsigned_less [of b, where ?'a = nat] by simp

lemma byte_256_mult: "(256 :: byte) * x = 0"
proof -
  have "(256 :: byte) = 0" by simp
  then show ?thesis by (simp only: mult_zero_left)
qed

lemma le_dec_less: "le_dec bs < 256 ^ length bs"
proof (induction bs)
  case (Cons b bs)
  have "unat b < 256"
    by (rule byte_less)
  with Cons show ?case by simp
qed simp

lemma le_enc_le_dec: "le_enc (length bs) (le_dec bs) = bs"
proof (induction bs)
  case (Cons b bs)
  have b: "unat b < 256"
    by (rule byte_less)
  then have "(unat b + 256 * le_dec bs) div 256 = le_dec bs"
    by simp
  moreover have "(word_of_nat (unat b + 256 * le_dec bs) :: byte) = b"
    by (simp add: byte_256_mult)
  ultimately show ?case
    using Cons by simp
qed simp

lemma length_words_le [simp]: "length (words_le ws) = 4 * length ws"
  by (induction ws) (auto simp: words_le_def)

lemma word32_less: "unat (w :: 32 word) < 2 ^ 32"
  using unsigned_less [of w, where ?'a = nat] by simp

lemma length_4E:
  assumes "length xs = 4" obtains a b c d where "xs = [a, b, c, d]"
proof -
  have "length xs = Suc (Suc (Suc (Suc 0)))" using assms by simp
  then show ?thesis using that by (auto simp only: length_Suc_conv length_0_conv)
qed

lemma le_words_enc: "le_words (le_enc 4 (unat w) @ bs) = w # le_words bs"
proof -
  have "le_dec (le_enc 4 (unat w)) = unat w"
    using word32_less [of w] by (intro le_dec_le_enc_id) simp
  moreover obtain a b c d where "le_enc 4 (unat w) = [a, b, c, d]"
    using length_4E [OF length_le_enc] by blast
  ultimately show ?thesis
    by simp
qed

lemma le_words_words_le [simp]: "le_words (words_le ws) = ws"
  by (induction ws) (auto simp: words_le_def le_words_enc)

lemma length_le_words: "length (le_words bs) = length bs div 4"
  by (induction bs rule: le_words.induct) auto

lemma length_le_ints: "length (le_ints bs) = length bs div 4"
  by (simp add: le_ints_def length_le_words)

lemma length_ints_le [simp]: "length (ints_le is) = 4 * length is"
  by (simp add: ints_le_def)

lemma s32_word_of_int:
  assumes "- (2 ^ 31) \<le> i" and "i < 2 ^ 31"
  shows "s32 (unat (word_of_int i :: 32 word)) = i"
proof (cases "0 \<le> i")
  case True
  then have "unat (word_of_int i :: 32 word) = nat i"
    using assms by (simp add: unsigned_of_int take_bit_int_eq_self)
  then show ?thesis
    using True assms by (simp add: s32_def)
next
  case False
  have "i mod 2 ^ 32 = (i + 2 ^ 32) mod 2 ^ 32"
    by simp
  also have "\<dots> = i + 2 ^ 32"
    using assms False by (intro mod_pos_pos_trivial) auto
  finally have "i mod 2 ^ 32 = i + 2 ^ 32" .
  then have "unat (word_of_int i :: 32 word) = nat (i + 2 ^ 32)"
    by (simp add: unsigned_of_int take_bit_eq_mod)
  then show ?thesis
    using False assms by (simp add: s32_def)
qed

lemma le_ints_ints_le:
  "(\<And>i. i \<in> set is \<Longrightarrow> - (2 ^ 31) \<le> i \<and> i < 2 ^ 31) \<Longrightarrow> le_ints (ints_le is) = is"
  by (induction "is") (auto simp: le_ints_def ints_le_def s32_word_of_int)

end
