(* ===== verification/Mtdsplit.thy ===== *)
theory Mtdsplit
  imports Nmbm_Prelude
begin

text \<open>
  The core of the MTD splitters, \<^verbatim>\<open>drivers/mtd/mtdsplit/mtdsplit.c\<close>: the types every splitter
  shares, the length of a squashfs image, and the search for a root file system. The two
  rounding helpers and the two partition accessors are those the repository's kernel patch
  \<^verbatim>\<open>404-mtd-add-more-helper-functions.patch\<close> adds.

  A device is what the splitters see of the kernel's \<^verbatim>\<open>struct mtd_info\<close>. Code of the kernel itself
  is a parameter: the fields \<open>mi_read\<close>, \<open>mi_mod_by_eb\<close> and \<open>mi_div_by_eb\<close> are \<^verbatim>\<open>mtd_read\<close>,
  \<^verbatim>\<open>mtd_mod_by_eb\<close> and \<^verbatim>\<open>mtd_div_by_eb\<close>, and the locale \<open>split_device\<close> states what the splitters
  rely on of them. A read yields its return code and the bytes stored, of which there are
  \<^verbatim>\<open>*retlen\<close>. A \<^verbatim>\<open>size_t\<close> has 64 bits and the processor is little-endian; signed arithmetic
  wraps around, as the kernel is built with \<^verbatim>\<open>-fno-strict-overflow\<close>.

  A parser yields its return code and what it stored in \<^verbatim>\<open>*pparts\<close>, if anything; \<open>None\<close> is a
  parser that does not return or reads memory that is not its own.
\<close>

section \<open>Types\<close>

record split_mtd =
  mi_name :: string
  mi_size :: nat
  mi_erasesize :: nat
  mi_read :: "nat \<Rightarrow> nat \<Rightarrow> int \<times> byte list"
  mi_mod_by_eb :: "nat \<Rightarrow> nat"
  mi_div_by_eb :: "nat \<Rightarrow> nat"

datatype mtdsplit_part_type =
    MTDSPLIT_PART_TYPE_UNK
  | MTDSPLIT_PART_TYPE_SQUASHFS
  | MTDSPLIT_PART_TYPE_JFFS2
  | MTDSPLIT_PART_TYPE_UBI

record mtd_partition =
  part_name :: string
  part_size :: nat
  part_offset :: nat
  part_mask_flags :: nat

type_synonym parsed = "(int \<times> mtd_partition list option) option"

definition KERNEL_PART_NAME :: string where "KERNEL_PART_NAME = ''kernel''"
definition ROOTFS_PART_NAME :: string where "ROOTFS_PART_NAME = ''rootfs''"
definition UBI_PART_NAME :: string where "UBI_PART_NAME = ''ubi''"
definition ROOTFS_SPLIT_NAME :: string where "ROOTFS_SPLIT_NAME = ''rootfs_data''"

definition SQUASHFS_MAGIC :: nat where "SQUASHFS_MAGIC = 0x73717368"
definition UBI_EC_MAGIC :: nat where "UBI_EC_MAGIC = 0x55424923"
definition ENOENT :: int where "ENOENT = 2"

text \<open>A partition entry of a zeroed array with its name, offset and size filled in.\<close>

definition mk_part :: "string \<Rightarrow> nat \<Rightarrow> nat \<Rightarrow> mtd_partition" where
  "mk_part name off sz =
     \<lparr>part_name = name, part_size = sz, part_offset = off, part_mask_flags = 0\<rparr>"

definition fail :: "int \<Rightarrow> parsed" where
  "fail err = Some (err, None)"

section \<open>Structures read from the device\<close>

text \<open>
  A member of a structure is read from its bytes as the processor loads it; \<open>be16_to_cpu\<close> and
  \<open>be32_to_cpu\<close> swap the bytes of a loaded value.
\<close>

definition bytes_at :: "byte list \<Rightarrow> nat \<Rightarrow> nat \<Rightarrow> byte list" where
  "bytes_at hb off n = take n (drop off hb)"

definition u8_at :: "byte list \<Rightarrow> nat \<Rightarrow> nat" where
  "u8_at hb off = le_dec (bytes_at hb off 1)"

definition u16_at :: "byte list \<Rightarrow> nat \<Rightarrow> nat" where
  "u16_at hb off = le_dec (bytes_at hb off 2)"

definition u32_at :: "byte list \<Rightarrow> nat \<Rightarrow> nat" where
  "u32_at hb off = le_dec (bytes_at hb off 4)"

definition u64_at :: "byte list \<Rightarrow> nat \<Rightarrow> nat" where
  "u64_at hb off = le_dec (bytes_at hb off 8)"

definition be16_to_cpu :: "nat \<Rightarrow> nat" where
  "be16_to_cpu n = le_dec (rev (le_enc 2 n))"

definition be32_to_cpu :: "nat \<Rightarrow> nat" where
  "be32_to_cpu n = le_dec (rev (le_enc 4 n))"

definition le32_to_cpu :: "nat \<Rightarrow> nat" where
  "le32_to_cpu n = n"

definition le64_to_cpu :: "nat \<Rightarrow> nat" where
  "le64_to_cpu n = n"

text \<open>A \<^verbatim>\<open>size_t\<close> plus an \<^verbatim>\<open>int\<close>.\<close>

definition add64_int :: "nat \<Rightarrow> int \<Rightarrow> nat" where
  "add64_int a i = nat ((int a + i) mod 2 ^ 64)"

text \<open>The kernel's \<^verbatim>\<open>memcmp\<close> against a string literal: true when the bytes agree.\<close>

definition str_bytes :: "string \<Rightarrow> byte list" where
  "str_bytes s = map (\<lambda>c. word_of_nat (of_char c)) s"

definition split_read :: "split_mtd \<Rightarrow> nat \<Rightarrow> nat \<Rightarrow> int + byte list" where
  "split_read m offset len =
     (case mi_read m offset len of (err, bs) \<Rightarrow>
        if err \<noteq> 0 then Inl err else if length bs \<noteq> len then Inl (- EIO) else Inr bs)"

section \<open>Erase blocks\<close>

definition mtd_roundup_to_eb :: "nat \<Rightarrow> split_mtd \<Rightarrow> nat" where
  "mtd_roundup_to_eb sz m =
     (if mi_mod_by_eb m sz = 0 then sz
      else u32 (u32 (mi_div_by_eb m sz + 1) * mi_erasesize m))"

definition mtd_rounddown_to_eb :: "nat \<Rightarrow> split_mtd \<Rightarrow> nat" where
  "mtd_rounddown_to_eb sz m =
     (if mi_mod_by_eb m sz = 0 then sz
      else u32 (mi_div_by_eb m sz * mi_erasesize m))"

text \<open>A device that is a partition comes with its parent and its offset there.\<close>

definition mtd_get_master :: "split_mtd \<Rightarrow> (split_mtd \<times> nat) option \<Rightarrow> split_mtd" where
  "mtd_get_master m part = (case part of None \<Rightarrow> m | Some (parent, offset) \<Rightarrow> parent)"

definition mtdpart_get_offset :: "(split_mtd \<times> nat) option \<Rightarrow> nat" where
  "mtdpart_get_offset part = (case part of None \<Rightarrow> 0 | Some (parent, offset) \<Rightarrow> offset)"

section \<open>\<^verbatim>\<open>mtdsplit.c\<close>\<close>

record squashfs_super_block =
  sb_s_magic :: nat
  sb_pad0 :: "byte list"
  sb_bytes_used :: nat

definition sizeof_squashfs_super_block :: nat where "sizeof_squashfs_super_block = 48"

definition dec_squashfs_super_block :: "byte list \<Rightarrow> squashfs_super_block" where
  "dec_squashfs_super_block hb =
     \<lparr>sb_s_magic = u32_at hb 0, sb_pad0 = bytes_at hb 4 36, sb_bytes_used = u64_at hb 40\<rparr>"

definition mtd_get_squashfs_len :: "split_mtd \<Rightarrow> nat \<Rightarrow> int + nat" where
  "mtd_get_squashfs_len master offset =
     (case mi_read master offset sizeof_squashfs_super_block of (err, bs) \<Rightarrow>
        if err \<noteq> 0 \<or> length bs \<noteq> sizeof_squashfs_super_block then Inl (- EIO)
        else (let sb = dec_squashfs_super_block bs in
          if le32_to_cpu (sb_s_magic sb) \<noteq> SQUASHFS_MAGIC then Inl (- EINVAL)
          else (let retlen = le64_to_cpu (sb_bytes_used sb) in
            if retlen \<le> 0 then Inl (- ENODEV)
            else if u64 (offset + retlen) > mi_size master then Inl (- EINVAL)
            else Inr retlen)))"

definition mtd_next_eb :: "split_mtd \<Rightarrow> nat \<Rightarrow> nat" where
  "mtd_next_eb m offset = u64 (mtd_rounddown_to_eb offset m + mi_erasesize m)"

definition mtd_check_rootfs_magic :: "split_mtd \<Rightarrow> nat \<Rightarrow> int + mtdsplit_part_type" where
  "mtd_check_rootfs_magic m offset =
     (case split_read m offset 4 of
        Inl ret \<Rightarrow> Inl ret
      | Inr bs \<Rightarrow>
          (let magic = u32_at bs 0 in
           if le32_to_cpu magic = SQUASHFS_MAGIC then Inr MTDSPLIT_PART_TYPE_SQUASHFS
           else if magic = 0x19852003 then Inr MTDSPLIT_PART_TYPE_JFFS2
           else if be32_to_cpu magic = UBI_EC_MAGIC then Inr MTDSPLIT_PART_TYPE_UBI
           else Inl (- EINVAL)))"

partial_function (option) mtd_find_rootfs_from ::
    "split_mtd \<Rightarrow> nat \<Rightarrow> nat \<Rightarrow> (int + nat \<times> mtdsplit_part_type) option" where [code]:
  "mtd_find_rootfs_from m offset limit =
     (if offset < limit
      then (case mtd_check_rootfs_magic m offset of
              Inl err \<Rightarrow> mtd_find_rootfs_from m (mtd_next_eb m offset) limit
            | Inr type \<Rightarrow> Some (Inr (offset, type)))
      else Some (Inl (- ENODEV)))"

text \<open>How the splitters name the partition of a root file system.\<close>

definition rootfs_name :: "mtdsplit_part_type \<Rightarrow> string" where
  "rootfs_name type =
     (if type = MTDSPLIT_PART_TYPE_UBI then UBI_PART_NAME else ROOTFS_PART_NAME)"

section \<open>Bounds of the members\<close>

lemma bytes_at_length [simp]: "length (bytes_at hb off n) \<le> n"
  by (simp add: bytes_at_def)

lemma le_dec_bound: "length bs \<le> k \<Longrightarrow> le_dec bs < 256 ^ k"
  by (rule less_le_trans [OF le_dec_less]) (simp add: power_increasing)

lemma member_bounds:
  "u16_at hb off < 2 ^ 16" "u32_at hb off < 2 ^ 32" "be16_to_cpu n < 2 ^ 16" "be32_to_cpu n < 2 ^ 32"
  using le_dec_bound [of "bytes_at hb off 2" 2] le_dec_bound [of "bytes_at hb off 4" 4]
    le_dec_bound [of "rev (le_enc 2 n)" 2] le_dec_bound [of "rev (le_enc 4 n)" 4]
  by (simp_all add: u16_at_def u32_at_def be16_to_cpu_def be32_to_cpu_def)

text \<open>Swapping the bytes, as arithmetic.\<close>

lemma be32_to_cpu_eq:
  "be32_to_cpu n = n mod 256 * 16777216 + n div 256 mod 256 * 65536 + n div 65536 mod 256 * 256
     + n div 16777216 mod 256"
  by (simp add: be32_to_cpu_def le_enc_4 unsigned_of_nat take_bit_eq_mod)

lemma split_read_length: "split_read m off len = Inr bs \<Longrightarrow> length bs = len"
  by (auto simp: split_read_def split: prod.splits if_splits)

section \<open>The search as a specification\<close>

text \<open>
  The offsets at which a root file system may start: the offset the search is given, and every
  erase block boundary behind it. The search is to return the first of them that carries one of
  the magic numbers.
\<close>

definition rootfs_candidates :: "split_mtd \<Rightarrow> nat \<Rightarrow> nat \<Rightarrow> nat list" where
  "rootfs_candidates m from limit =
     filter (\<lambda>off. off = from \<or> mi_erasesize m dvd off) [from..<limit]"

definition first_rootfs :: "split_mtd \<Rightarrow> nat \<Rightarrow> nat \<Rightarrow> int + nat \<times> mtdsplit_part_type" where
  "first_rootfs m from limit =
     (case find (\<lambda>off. \<not> isl (mtd_check_rootfs_magic m off)) (rootfs_candidates m from limit) of
        None \<Rightarrow> Inl (- ENODEV)
      | Some off \<Rightarrow> Inr (off, projr (mtd_check_rootfs_magic m off)))"

lemma first_rootfsD:
  assumes "first_rootfs m from limit = Inr (off, type)"
  shows "from \<le> off" and "off < limit" and "mtd_check_rootfs_magic m off = Inr type"
    and "off = from \<or> mi_erasesize m dvd off"
proof -
  have "find (\<lambda>off. \<not> isl (mtd_check_rootfs_magic m off)) (rootfs_candidates m from limit) = Some off"
    and t: "type = projr (mtd_check_rootfs_magic m off)"
    using assms by (auto simp: first_rootfs_def split: option.splits)
  then have "\<not> isl (mtd_check_rootfs_magic m off)" and "off \<in> set (rootfs_candidates m from limit)"
    by (auto simp: find_Some_iff)
  then show "from \<le> off" "off < limit" "mtd_check_rootfs_magic m off = Inr type"
    "off = from \<or> mi_erasesize m dvd off"
    using t by (auto simp: rootfs_candidates_def)
qed

lemma first_rootfs_error: "first_rootfs m from limit = Inl e \<Longrightarrow> e = - ENODEV"
  by (auto simp: first_rootfs_def split: option.splits)

section \<open>What a splitter delivers\<close>

text \<open>
  A parser that finds nothing reports a negative error code and stores no partitions; one that succeeds
  returns the number of the partitions it stores. \<open>kernel_then_rootfs\<close>: the partitions are the
  kernel and, right behind it up to the end of the device, the root file system, which begins
  with a magic number. \<open>inside_device\<close>: the partitions lie inside the device.
\<close>

definition split_post :: "(mtd_partition list \<Rightarrow> bool) \<Rightarrow> int \<times> mtd_partition list option \<Rightarrow> bool" where
  "split_post P r \<longleftrightarrow>
     (case r of (ret, None) \<Rightarrow> ret < 0 | (ret, Some parts) \<Rightarrow> ret = int (length parts) \<and> P parts)"

definition has_rootfs :: "split_mtd \<Rightarrow> mtd_partition \<Rightarrow> bool" where
  "has_rootfs m p \<longleftrightarrow> \<not> isl (mtd_check_rootfs_magic m (part_offset p))"

definition kernel_then_rootfs :: "split_mtd \<Rightarrow> mtd_partition list \<Rightarrow> bool" where
  "kernel_then_rootfs m parts \<longleftrightarrow>
     length parts = 2 \<and> has_rootfs m (parts ! 1) \<and> 0 < part_size (parts ! 1) \<and>
     part_offset (parts ! 0) + part_size (parts ! 0) = part_offset (parts ! 1) \<and>
     part_offset (parts ! 1) + part_size (parts ! 1) = mi_size m"

definition inside_device :: "split_mtd \<Rightarrow> mtd_partition list \<Rightarrow> bool" where
  "inside_device m parts \<longleftrightarrow> (\<forall>p \<in> set parts. part_offset p + part_size p \<le> mi_size m)"

lemma split_post_simps [simp]:
  "split_post P (ret, None) \<longleftrightarrow> ret < 0"
  "split_post P (ret, Some parts) \<longleftrightarrow> ret = int (length parts) \<and> P parts"
  by (simp_all add: split_post_def)

lemma ensures_fail [simp]: "ensures (fail err) (split_post P) \<longleftrightarrow> err < 0"
  by (simp add: fail_def)

lemma mk_part_simps [simp]:
  "part_name (mk_part n off sz) = n" "part_offset (mk_part n off sz) = off"
  "part_size (mk_part n off sz) = sz" "part_mask_flags (mk_part n off sz) = 0"
  by (simp_all add: mk_part_def)

section \<open>What the splitters rely on of a device\<close>

text \<open>
  The documented behaviour of the kernel's MTD interface: a device has erase blocks, a read
  that delivers what was asked for lies inside the device, no read delivers more than that, the error codes are negative, and the two helpers divide by the
  erase block size. The helpers return \<^verbatim>\<open>uint32_t\<close>, which is why a device is limited to 4 GiB
  here: behind that, \<open>mtd_rounddown_to_eb\<close> wraps around.
\<close>

locale split_device =
  fixes m :: split_mtd
  assumes erasesize_pos: "0 < mi_erasesize m"
    and erasesize_less: "mi_erasesize m < 2 ^ 32"
    and size_le: "mi_size m \<le> 2 ^ 32"
    and read_inside: "mi_read m off len = (0, bs) \<Longrightarrow> length bs = len \<Longrightarrow> off + len \<le> mi_size m"
    and read_code: "fst (mi_read m off len) \<le> 0"
    and read_length: "length (snd (mi_read m off len)) \<le> len"
    and mod_by_eb: "sz < 2 ^ 64 \<Longrightarrow> mi_mod_by_eb m sz = sz mod mi_erasesize m"
    and div_by_eb: "sz < 2 ^ 64 \<Longrightarrow> sz div mi_erasesize m < 2 ^ 32 \<Longrightarrow>
      mi_div_by_eb m sz = sz div mi_erasesize m"
begin

lemma split_read_inside: "split_read m off len = Inr bs \<Longrightarrow> off + len \<le> mi_size m"
  using read_inside by (auto simp: split_read_def split: prod.splits if_splits)

lemma split_read_error: "split_read m off len = Inl e \<Longrightarrow> e < 0"
  using read_code [of off len] by (auto simp: split_read_def EIO_def split: prod.splits if_splits)

lemma magic_inside: "mtd_check_rootfs_magic m off = Inr type \<Longrightarrow> off + 4 \<le> mi_size m"
  using split_read_inside by (auto simp: mtd_check_rootfs_magic_def split: sum.splits)

lemma magic_error: "mtd_check_rootfs_magic m off = Inl e \<Longrightarrow> e < 0"
  using split_read_error
  by (fastforce simp: mtd_check_rootfs_magic_def Let_def EINVAL_def split: sum.splits if_splits)

lemma rounddown_eq:
  assumes "sz < 2 ^ 32"
  shows "mtd_rounddown_to_eb sz m = sz div mi_erasesize m * mi_erasesize m"
proof -
  have 1: "sz < 2 ^ 64" using assms by simp
  have 2: "sz div mi_erasesize m * mi_erasesize m < 2 ^ 32"
    by (rule le_less_trans [OF div_times_less_eq_dividend assms])
  moreover have "sz div mi_erasesize m \<le> sz" by (rule div_le_dividend)
  ultimately have "mi_div_by_eb m sz = sz div mi_erasesize m"
    using assms by (intro div_by_eb [OF 1]) (rule le_less_trans)
  with 2 show ?thesis
    using mod_by_eb [OF 1] by (auto simp: mtd_rounddown_to_eb_def mult_div_mod_eq)
qed

lemma next_eb_eq:
  assumes "off < 2 ^ 32"
  shows "mtd_next_eb m off = (off div mi_erasesize m + 1) * mi_erasesize m"
proof -
  have "off div mi_erasesize m * mi_erasesize m + mi_erasesize m < 2 ^ 32 + 2 ^ 32"
    by (intro add_strict_mono erasesize_less le_less_trans [OF div_times_less_eq_dividend assms])
  then have "off div mi_erasesize m * mi_erasesize m + mi_erasesize m < 2 ^ 64"
    by simp
  then show ?thesis
    by (simp add: mtd_next_eb_def rounddown_eq [OF assms] algebra_simps)
qed

lemma next_eb_greater: "off < 2 ^ 32 \<Longrightarrow> off < mtd_next_eb m off"
  using erasesize_pos by (simp add: next_eb_eq dividend_less_div_times)

lemma no_boundary_between:
  assumes "off < 2 ^ 32" and "off < k" and "k < mtd_next_eb m off"
  shows "\<not> mi_erasesize m dvd k"
proof
  assume "mi_erasesize m dvd k"
  then obtain j where "k = j * mi_erasesize m" by (auto simp: dvd_def mult.commute)
  then have "off div mi_erasesize m < j"
    and "j * mi_erasesize m < (off div mi_erasesize m + 1) * mi_erasesize m"
    using assms erasesize_pos by (auto simp: next_eb_eq [OF assms(1)] div_less_iff_less_mult)
  then show False by (simp only: mult_less_cancel2) simp
qed

lemma candidates_step:
  assumes "from < 2 ^ 32" and "from < limit"
  shows "rootfs_candidates m from limit = from # rootfs_candidates m (mtd_next_eb m from) limit"
proof (cases "mtd_next_eb m from \<le> limit")
  case True
  let ?e = "mi_erasesize m" and ?n = "mtd_next_eb m from"
  have d: "?e dvd ?n" by (simp add: next_eb_eq [OF assms(1)])
  have "[from..<limit] = from # [Suc from..<?n] @ [?n..<limit]"
    using assms True next_eb_greater [OF assms(1)]
    using upt_add_eq_append [of "Suc from" ?n "limit - ?n"] by (simp add: upt_conv_Cons)
  moreover have "filter (\<lambda>k. k = from \<or> ?e dvd k) [Suc from..<?n] = []"
    using no_boundary_between [OF assms(1)] by (auto simp: filter_empty_conv)
  moreover have "filter (\<lambda>k. k = from \<or> ?e dvd k) [?n..<limit] = filter (\<lambda>k. k = ?n \<or> ?e dvd k) [?n..<limit]"
    using d next_eb_greater [OF assms(1)] by (intro filter_cong) auto
  ultimately show ?thesis
    by (simp add: rootfs_candidates_def)
next
  case False
  then have "filter (\<lambda>k. k = from \<or> mi_erasesize m dvd k) [Suc from..<limit] = []"
    using no_boundary_between [OF assms(1)] by (auto simp: filter_empty_conv)
  with False assms(2) show ?thesis
    by (simp add: rootfs_candidates_def upt_conv_Cons)
qed

text \<open>The search ends and returns the first candidate.\<close>

lemma find_rootfs_eq:
  "limit \<le> 2 ^ 32 \<Longrightarrow> mtd_find_rootfs_from m from limit = Some (first_rootfs m from limit)"
proof (induction "limit - from" arbitrary: "from" rule: less_induct)
  case less
  show ?case
  proof (cases "from < limit")
    case True
    then have f: "from < 2 ^ 32" using less(2) by (rule less_le_trans)
    have "mtd_find_rootfs_from m (mtd_next_eb m from) limit =
        Some (first_rootfs m (mtd_next_eb m from) limit)"
      using True next_eb_greater [OF f] by (intro less) auto
    then show ?thesis
      using True by (subst mtd_find_rootfs_from.simps)
        (auto simp: first_rootfs_def candidates_step [OF f True] split: sum.splits)
  next
    case False
    then show ?thesis
      by (subst mtd_find_rootfs_from.simps) (simp add: first_rootfs_def rootfs_candidates_def)
  qed
qed

lemmas find_rootfs = find_rootfs_eq [OF size_le]

lemma find_rootfs_post:
  "ensures (mtd_find_rootfs_from m from (mi_size m))
     (\<lambda>found. case found of Inl err \<Rightarrow> err < 0
      | Inr (off, type) \<Rightarrow> from \<le> off \<and> mtd_check_rootfs_magic m off = Inr type)"
  unfolding find_rootfs ensures_simps
  by (auto simp: ENODEV_def dest: first_rootfsD first_rootfs_error split: sum.split)

lemma rest_size:
  "mtd_check_rootfs_magic m off = Inr type \<Longrightarrow> sub64 (mi_size m) off = mi_size m - off"
  using magic_inside size_le by (intro sub64_id') (force, simp)

end

end
