(* ===== verification/Nmbm_Types.thy ===== *)
theory Nmbm_Types
  imports Nmbm_Prelude
begin

text \<open>
  The constants and structures of \<^verbatim>\<open>nmbm-private.h\<close> and \<^verbatim>\<open>nmbm.h\<close>: on-flash headers, the
  lower NAND device with its function pointers, and the NMBM instance. The structures that are
  stored on flash come with their byte layout (little-endian host, natural alignment:
  \<^verbatim>\<open>sizeof\<close> 16, 48 and 32).

  The type parameter \<open>'d\<close> is the state of the lower device, which the C code reaches through
  the opaque pointer \<^verbatim>\<open>arg\<close>; every call through a function pointer takes it and returns the
  new one. A pointer field of function type is an \<open>option\<close>, NULL being \<open>None\<close>.
\<close>

section \<open>Constants\<close>

definition NMBM_MAGIC_SIGNATURE :: nat where "NMBM_MAGIC_SIGNATURE = 0x304d4d4e"
definition NMBM_MAGIC_INFO_TABLE :: nat where "NMBM_MAGIC_INFO_TABLE = 0x314d4d4e"

definition NMBM_VERSION_MAKE :: "nat \<Rightarrow> nat \<Rightarrow> nat" where
  "NMBM_VERSION_MAKE major minor = (major AND 0xffff) OR push_bit 16 (minor AND 0xffff)"

definition NMBM_VER :: nat where "NMBM_VER = NMBM_VERSION_MAKE 1 0"

definition NMBM_BITMAP_UNIT_SIZE :: nat where "NMBM_BITMAP_UNIT_SIZE = 4"
definition NMBM_BITMAP_BITS_PER_BLOCK :: nat where "NMBM_BITMAP_BITS_PER_BLOCK = 2"
definition NMBM_BITMAP_BLOCKS_PER_UNIT :: nat where
  "NMBM_BITMAP_BLOCKS_PER_UNIT = (8 * NMBM_BITMAP_UNIT_SIZE) div NMBM_BITMAP_BITS_PER_BLOCK"

definition NMBM_SPARE_BLOCK_MULTI :: nat where "NMBM_SPARE_BLOCK_MULTI = 1"
definition NMBM_SPARE_BLOCK_DIV :: nat where "NMBM_SPARE_BLOCK_DIV = 2"
definition NMBM_SPARE_BLOCK_MIN :: nat where "NMBM_SPARE_BLOCK_MIN = 2"
definition NMBM_MGMT_DIV :: nat where "NMBM_MGMT_DIV = 16"
definition NMBM_MGMT_BLOCKS_MIN :: nat where "NMBM_MGMT_BLOCKS_MIN = 32"
definition NMBM_TRY_COUNT :: nat where "NMBM_TRY_COUNT = 3"

definition BLOCK_ST_BAD :: "32 word" where "BLOCK_ST_BAD = 0"
definition BLOCK_ST_NEED_REMAP :: "32 word" where "BLOCK_ST_NEED_REMAP = 2"
definition BLOCK_ST_GOOD :: "32 word" where "BLOCK_ST_GOOD = 3"
definition BLOCK_ST_MASK :: "32 word" where "BLOCK_ST_MASK = 3"

definition NMBM_F_CREATE :: "32 word" where "NMBM_F_CREATE = 1"
definition NMBM_F_EMPTY_PAGE_ECC_OK :: "32 word" where "NMBM_F_EMPTY_PAGE_ECC_OK = 2"
definition NMBM_F_READ_ONLY :: "32 word" where "NMBM_F_READ_ONLY = 4"

lemmas nmbm_const_defs = NMBM_MAGIC_SIGNATURE_def NMBM_MAGIC_INFO_TABLE_def NMBM_VER_def
  NMBM_VERSION_MAKE_def NMBM_BITMAP_UNIT_SIZE_def NMBM_BITMAP_BITS_PER_BLOCK_def
  NMBM_BITMAP_BLOCKS_PER_UNIT_def NMBM_SPARE_BLOCK_MULTI_def NMBM_SPARE_BLOCK_DIV_def
  NMBM_SPARE_BLOCK_MIN_def NMBM_MGMT_DIV_def NMBM_MGMT_BLOCKS_MIN_def NMBM_TRY_COUNT_def

lemmas block_st_defs = BLOCK_ST_BAD_def BLOCK_ST_NEED_REMAP_def BLOCK_ST_GOOD_def
  BLOCK_ST_MASK_def

lemmas nmbm_flag_defs = NMBM_F_CREATE_def NMBM_F_EMPTY_PAGE_ECC_OK_def NMBM_F_READ_ONLY_def

text \<open>The macro \<^verbatim>\<open>NMBM_ALIGN(v, a)\<close> on \<^verbatim>\<open>uint32_t\<close> operands.\<close>

definition NMBM_ALIGN :: "nat \<Rightarrow> nat \<Rightarrow> nat" where
  "NMBM_ALIGN v a = sub32 (v + a) 1 AND (2 ^ 32 - 1 - sub32 a 1)"

section \<open>Enumerations\<close>

datatype nmbm_log_category =
  NMBM_LOG_DEBUG | NMBM_LOG_INFO | NMBM_LOG_WARN | NMBM_LOG_ERR | NMBM_LOG_EMERG
| NMBM_LOG_MAX

datatype nmbm_oob_mode = NMBM_MODE_PLACE_OOB | NMBM_MODE_AUTO_OOB | NMBM_MODE_RAW

section \<open>Structures stored on flash\<close>

record nmbm_header =
  magic :: nat
  version :: nat
  hdr_size :: nat
  checksum :: nat

definition enc_header :: "nmbm_header \<Rightarrow> byte list" where
  "enc_header h = le_enc 4 (magic h) @ le_enc 4 (version h) @ le_enc 4 (hdr_size h) @
     le_enc 4 (checksum h)"

definition dec_header :: "byte list \<Rightarrow> nmbm_header" where
  "dec_header bs = \<lparr> magic = le_dec (take 4 bs), version = le_dec (take 4 (drop 4 bs)),
     hdr_size = le_dec (take 4 (drop 8 bs)), checksum = le_dec (take 4 (drop 12 bs)) \<rparr>"

definition sizeof_header :: nat where "sizeof_header = 16"

text \<open>
  \<^verbatim>\<open>sig_padding\<close> is the member \<^verbatim>\<open>padding[3]\<close>; \<^verbatim>\<open>sig_tail\<close> the four bytes the compiler adds
  to align the structure to 8 bytes. Both are covered by the checksum.
\<close>

record nmbm_signature =
  sig_header :: nmbm_header
  nand_size :: nat
  block_size :: nat
  page_size :: nat
  spare_size :: nat
  mgmt_start_pb :: nat
  max_try_count :: nat
  sig_padding :: "byte list"
  sig_tail :: "byte list"

definition sizeof_signature :: nat where "sizeof_signature = 48"

definition enc_signature :: "nmbm_signature \<Rightarrow> byte list" where
  "enc_signature s = enc_header (sig_header s) @ le_enc 8 (nand_size s) @
     le_enc 4 (block_size s) @ le_enc 4 (page_size s) @ le_enc 4 (spare_size s) @
     le_enc 4 (mgmt_start_pb s) @ le_enc 1 (max_try_count s) @ sig_padding s @ sig_tail s"

definition dec_signature :: "byte list \<Rightarrow> nmbm_signature" where
  "dec_signature bs = \<lparr> sig_header = dec_header bs, nand_size = le_dec (take 8 (drop 16 bs)),
     block_size = le_dec (take 4 (drop 24 bs)), page_size = le_dec (take 4 (drop 28 bs)),
     spare_size = le_dec (take 4 (drop 32 bs)), mgmt_start_pb = le_dec (take 4 (drop 36 bs)),
     max_try_count = le_dec (take 1 (drop 40 bs)), sig_padding = take 3 (drop 41 bs),
     sig_tail = take 4 (drop 44 bs) \<rparr>"

record nmbm_info_table_header =
  ift_header :: nmbm_header
  write_count :: nat
  state_table_off :: nat
  mapping_table_off :: nat
  ift_padding :: nat

definition sizeof_info_table_header :: nat where "sizeof_info_table_header = 32"

definition enc_info_table_header :: "nmbm_info_table_header \<Rightarrow> byte list" where
  "enc_info_table_header t = enc_header (ift_header t) @ le_enc 4 (write_count t) @
     le_enc 4 (state_table_off t) @ le_enc 4 (mapping_table_off t) @ le_enc 4 (ift_padding t)"

definition dec_info_table_header :: "byte list \<Rightarrow> nmbm_info_table_header" where
  "dec_info_table_header bs = \<lparr> ift_header = dec_header bs,
     write_count = le_dec (take 4 (drop 16 bs)), state_table_off = le_dec (take 4 (drop 20 bs)),
     mapping_table_off = le_dec (take 4 (drop 24 bs)),
     ift_padding = le_dec (take 4 (drop 28 bs)) \<rparr>"

lemmas sizeof_defs = sizeof_header_def sizeof_signature_def sizeof_info_table_header_def

section \<open>The lower device and the instance\<close>

text \<open>
  \<^verbatim>\<open>read_page\<close> takes the address, whether a data and an OOB buffer were passed, and the mode;
  it returns the code's result, the bytes it left in the two buffers and the new device.
  \<^verbatim>\<open>write_page\<close> takes the contents of the buffers that were passed.
\<close>

record 'd nmbm_lower_device =
  max_ratio :: nat
  max_reserved_blocks :: nat
  flags :: "32 word"
  chip_size :: nat
  erasesize :: nat
  writesize :: nat
  oobsize :: nat
  oobavail :: nat
  arg :: 'd
  reset_chip :: "('d \<Rightarrow> int \<times> 'd) option"
  read_page :: "('d \<Rightarrow> nat \<Rightarrow> bool \<Rightarrow> bool \<Rightarrow> nmbm_oob_mode \<Rightarrow>
                   int \<times> byte list \<times> byte list \<times> 'd) option"
  write_page :: "('d \<Rightarrow> nat \<Rightarrow> byte list option \<Rightarrow> byte list option \<Rightarrow> nmbm_oob_mode \<Rightarrow>
                   int \<times> 'd) option"
  erase_block :: "('d \<Rightarrow> nat \<Rightarrow> int \<times> 'd) option"
  is_bad_block :: "('d \<Rightarrow> nat \<Rightarrow> int \<times> 'd) option"
  mark_bad_block :: "('d \<Rightarrow> nat \<Rightarrow> int \<times> 'd) option"

record 'd nmbm_instance =
  lower :: "'d nmbm_lower_device"
  rawpage_size :: nat
  rawblock_size :: nat
  rawchip_size :: nat
  writesize_mask :: nat
  erasesize_mask :: nat
  writesize_shift :: nat
  erasesize_shift :: nat
  signature :: nmbm_signature
  info_table_cache :: "byte list"
  info_table_size :: nat
  info_table_spare_blocks :: nat
  info_table :: nmbm_info_table_header
  block_state :: "32 word list"
  block_state_changed :: nat
  state_table_size :: nat
  block_mapping :: "int list"
  block_mapping_changed :: nat
  mapping_table_size :: nat
  page_cache :: "byte list"
  protected :: bool
  block_count :: nat
  data_block_count :: nat
  mgmt_start_ba :: nat
  main_table_ba :: nat
  backup_table_ba :: nat
  mapping_blocks_ba :: nat
  mapping_blocks_top_ba :: nat
  signature_ba :: nat
  log_display_level :: nmbm_log_category

text \<open>\<^verbatim>\<open>ni->lower.flags & f\<close> as a condition, and the device state behind \<^verbatim>\<open>ni->lower.arg\<close>.\<close>

definition has_flag :: "'d nmbm_instance \<Rightarrow> 32 word \<Rightarrow> bool" where
  "has_flag ni f \<longleftrightarrow> flags (lower ni) AND f \<noteq> 0"

definition dev :: "'d nmbm_instance \<Rightarrow> 'd" where
  "dev ni = arg (lower ni)"

definition set_dev :: "'d \<Rightarrow> 'd nmbm_instance \<Rightarrow> 'd nmbm_instance" where
  "set_dev d ni = ni\<lparr>lower := (lower ni)\<lparr>arg := d\<rparr>\<rparr>"

section \<open>Lemmas on the encodings\<close>

lemma length_enc_header [simp]: "length (enc_header h) = 16"
  by (simp add: enc_header_def)

lemma length_enc_info_table_header [simp]: "length (enc_info_table_header t) = 32"
  by (simp add: enc_info_table_header_def)

lemma length_enc_signature [simp]:
  "length (sig_padding s) = 3 \<Longrightarrow> length (sig_tail s) = 4 \<Longrightarrow> length (enc_signature s) = 48"
  by (simp add: enc_signature_def)

text \<open>Values that fit their 32-bit members survive the encoding.\<close>

definition fits_header :: "nmbm_header \<Rightarrow> bool" where
  "fits_header h \<longleftrightarrow> magic h < 2 ^ 32 \<and> version h < 2 ^ 32 \<and> hdr_size h < 2 ^ 32 \<and>
     checksum h < 2 ^ 32"

definition fits_signature :: "nmbm_signature \<Rightarrow> bool" where
  "fits_signature s \<longleftrightarrow> fits_header (sig_header s) \<and> nand_size s < 2 ^ 64 \<and>
     block_size s < 2 ^ 32 \<and> page_size s < 2 ^ 32 \<and> spare_size s < 2 ^ 32 \<and>
     mgmt_start_pb s < 2 ^ 32 \<and> max_try_count s < 256 \<and>
     length (sig_padding s) = 3 \<and> length (sig_tail s) = 4"

definition fits_info_table_header :: "nmbm_info_table_header \<Rightarrow> bool" where
  "fits_info_table_header t \<longleftrightarrow> fits_header (ift_header t) \<and> write_count t < 2 ^ 32 \<and>
     state_table_off t < 2 ^ 32 \<and> mapping_table_off t < 2 ^ 32 \<and> ift_padding t < 2 ^ 32"

lemma dec_enc_header: "fits_header h \<Longrightarrow> dec_header (enc_header h @ bs) = h"
  by (simp add: fits_header_def dec_header_def enc_header_def le_dec_le_enc)

lemma dec_enc_info_table_header:
  assumes "fits_info_table_header t"
  shows "dec_info_table_header (enc_info_table_header t @ bs) = t"
proof -
  have "dec_header (enc_info_table_header t @ bs) = ift_header t"
    using assms dec_enc_header by (simp add: fits_info_table_header_def enc_info_table_header_def)
  then show ?thesis
    using assms
    by (simp add: fits_info_table_header_def dec_info_table_header_def enc_info_table_header_def
        le_dec_le_enc)
qed

lemma dec_enc_signature:
  assumes "fits_signature s"
  shows "dec_signature (enc_signature s @ bs) = s"
proof -
  have "dec_header (enc_signature s @ bs) = sig_header s"
    using assms dec_enc_header by (simp add: fits_signature_def enc_signature_def)
  then show ?thesis
    using assms
    by (simp add: fits_signature_def dec_signature_def enc_signature_def le_dec_le_enc
        unsigned_of_nat take_bit_eq_mod)
qed

lemma enc_header_update_checksum:
  assumes "16 \<le> length bs"
  shows "enc_header ((dec_header bs)\<lparr>checksum := c\<rparr>) = take 12 bs @ le_enc 4 c"
proof -
  have le4: "le_enc 4 (le_dec (take 4 (drop k bs))) = take 4 (drop k bs)" if "k + 4 \<le> 16" for k
    using le_enc_le_dec [of "take 4 (drop k bs)"] assms that by simp
  have "take 12 bs = take 4 bs @ take 4 (drop 4 bs) @ take 4 (drop 8 bs)"
    using take_add [of 4 8 bs] take_add [of 4 4 "drop 4 bs"] by simp
  then show ?thesis
    using le4 [of 0] le4 [of 4] le4 [of 8] by (simp add: enc_header_def dec_header_def)
qed

lemma dec_header_cong: "take 16 bs = take 16 bs' \<Longrightarrow> dec_header bs = dec_header bs'"
proof -
  have "dec_header bs = dec_header (take 16 bs)" for bs
    by (simp add: dec_header_def drop_take min_def)
  then show "take 16 bs = take 16 bs' \<Longrightarrow> dec_header bs = dec_header bs'"
    by metis
qed

end
