(* ===== verification/Nmbm_Header.thy ===== *)
theory Nmbm_Header
  imports Nmbm_Types
begin

text \<open>
  The checksummed structures of \<^verbatim>\<open>nmbm-core.c\<close> (lines 373 to 430) and the checksum wrapper of
  \<^verbatim>\<open>nmbm-os.h\<close>. The kernel's \<^verbatim>\<open>crc32_le\<close> is not part of the repository: it is the parameter
  \<open>crc\<close> of every definition that uses it.
\<close>

type_synonym crc_fun = "32 word \<Rightarrow> byte list \<Rightarrow> 32 word"

definition UINT_MAX :: nat where "UINT_MAX = 2 ^ 32 - 1"

function nmbm_crc32 :: "crc_fun \<Rightarrow> 32 word \<Rightarrow> byte list \<Rightarrow> 32 word" where
  "nmbm_crc32 crc crcval buf =
     (if buf = [] then crcval
      else (let chksz = (if length buf > UINT_MAX then UINT_MAX else length buf)
            in nmbm_crc32 crc (crc crcval (take chksz buf)) (drop chksz buf)))"
  by pat_completeness auto
termination
  by (relation "measure (\<lambda>(crc, v, buf). length buf)") (auto simp: UINT_MAX_def)

declare nmbm_crc32.simps [simp del]

definition nmbm_check_header :: "crc_fun \<Rightarrow> byte list \<Rightarrow> nat \<Rightarrow> bool option" where
  "nmbm_check_header crc data sz =
     do {
       hb \<leftarrow> mem_read data 0 sizeof_header;
       let header = dec_header hb;
       if hdr_size header > sz then Some False
       else do {
         let nhdr = header\<lparr>checksum := 0\<rparr>;
         let new_checksum = nmbm_crc32 crc 0 (enc_header nhdr);
         new_checksum \<leftarrow>
           (if hdr_size header > sizeof_header
            then do {
              rest \<leftarrow> mem_read data sizeof_header (hdr_size header - sizeof_header);
              Some (nmbm_crc32 crc new_checksum rest)
            }
            else Some new_checksum);
         if checksum header \<noteq> unat new_checksum then Some False
         else Some True
       }
     }"

text \<open>The structure is given by its bytes; the checksum is its fourth 32-bit member.\<close>

definition nmbm_update_checksum :: "crc_fun \<Rightarrow> byte list \<Rightarrow> byte list option" where
  "nmbm_update_checksum crc buf =
     do {
       buf \<leftarrow> mem_write buf 12 (le_enc 4 0);
       hb \<leftarrow> mem_read buf 0 sizeof_header;
       body \<leftarrow> mem_read buf 0 (hdr_size (dec_header hb));
       mem_write buf 12 (le_enc 4 (unat (nmbm_crc32 crc 0 body)))
     }"

section \<open>Incremental checksums\<close>

text \<open>
  What the code relies on of \<^verbatim>\<open>crc32_le\<close>: a checksum continued over a second buffer is the
  checksum of both.
\<close>

locale incremental_crc =
  fixes crc :: crc_fun
  assumes crc_append: "crc (crc c xs) ys = crc c (xs @ ys)"
begin

lemma nmbm_crc32_Nil: "nmbm_crc32 crc c [] = c"
  by (simp add: nmbm_crc32.simps)

lemma nmbm_crc32_eq: "buf \<noteq> [] \<Longrightarrow> nmbm_crc32 crc c buf = crc c buf"
proof (induction "length buf" arbitrary: c buf rule: less_induct)
  case less
  define n where "n = (if length buf > UINT_MAX then UINT_MAX else length buf)"
  have n: "0 < n" "n \<le> length buf"
    using less(2) by (auto simp: n_def UINT_MAX_def)
  have "nmbm_crc32 crc c buf = nmbm_crc32 crc (crc c (take n buf)) (drop n buf)"
    using less(2) by (subst nmbm_crc32.simps) (simp add: n_def Let_def)
  also have "\<dots> = crc c buf"
  proof (cases "drop n buf = []")
    case True
    then show ?thesis
      using n by (simp add: nmbm_crc32_Nil)
  next
    case False
    then have "nmbm_crc32 crc (crc c (take n buf)) (drop n buf) =
        crc (crc c (take n buf)) (drop n buf)"
      using n by (intro less(1)) auto
    then show ?thesis
      by (simp add: crc_append)
  qed
  finally show ?case .
qed

lemma nmbm_crc32_append: "nmbm_crc32 crc (nmbm_crc32 crc c xs) ys = nmbm_crc32 crc c (xs @ ys)"
proof (cases "xs = [] \<or> ys = []")
  case True
  then show ?thesis
    by (auto simp: nmbm_crc32_Nil)
next
  case False
  then show ?thesis
    by (simp add: nmbm_crc32_eq crc_append)
qed

end

section \<open>Updating and checking\<close>

lemma dec_header_take16: "dec_header (take 16 bs) = dec_header bs"
  by (rule dec_header_cong) simp

text \<open>A buffer with the four bytes at offset 12 replaced.\<close>

definition with_checksum :: "byte list \<Rightarrow> byte list \<Rightarrow> byte list" where
  "with_checksum buf c = take 12 buf @ c @ drop 16 buf"

lemma with_checksum_simps:
  assumes "16 \<le> length buf" and "length c = 4"
  shows "length (with_checksum buf c) = length buf"
    "take 12 (with_checksum buf c) = take 12 buf"
    "take 16 (with_checksum buf c) = take 12 buf @ c"
    "drop 16 (with_checksum buf c) = drop 16 buf"
    "hdr_size (dec_header (with_checksum buf c)) = hdr_size (dec_header buf)"
    "magic (dec_header (with_checksum buf c)) = magic (dec_header buf)"
    "checksum (dec_header (with_checksum buf c)) = le_dec c"
    "with_checksum (with_checksum buf c) c' = with_checksum buf c'"
  using assms by (simp_all add: with_checksum_def dec_header_def min_def drop_take)

lemma update_checksum_eq:
  assumes "16 \<le> length buf" and "hdr_size (dec_header buf) \<le> length buf"
  shows "nmbm_update_checksum crc buf =
    Some (with_checksum buf (le_enc 4 (unat (nmbm_crc32 crc 0
            (take (hdr_size (dec_header buf)) (with_checksum buf (le_enc 4 0)))))))"
proof -
  have w: "mem_write b 12 c = Some (with_checksum b c)"
    if "length b = length buf" "length c = 4" for b c
    using that assms(1) by (simp add: mem_write_def with_checksum_def)
  note z = with_checksum_simps [OF assms(1), of "le_enc 4 0", simplified]
  show ?thesis
    unfolding nmbm_update_checksum_def
    using assms z(1,5,8) w [of buf "le_enc 4 0"] w [of "with_checksum buf (le_enc 4 0)"]
    by (simp add: mem_read_def sizeof_header_def dec_header_take16)
qed

context incremental_crc
begin

lemma check_update_checksum:
  assumes "16 \<le> hdr_size (dec_header buf)" and "hdr_size (dec_header buf) \<le> length buf"
    and "hdr_size (dec_header buf) \<le> sz"
  shows "ensures (nmbm_update_checksum crc buf)
    (\<lambda>buf'. length buf' = length buf \<and> drop 16 buf' = drop 16 buf \<and> take 12 buf' = take 12 buf \<and>
       nmbm_check_header crc buf' sz = Some True)"
proof -
  let ?n = "hdr_size (dec_header buf)"
  have len: "16 \<le> length buf"
    using assms by simp
  define z where "z = with_checksum buf (le_enc 4 0)"
  define ck where "ck = nmbm_crc32 crc 0 (take ?n z)"
  define buf' where "buf' = with_checksum buf (le_enc 4 (unat ck))"
  note zs = with_checksum_simps [OF len, of "le_enc 4 0", simplified, folded z_def]
  note bs = with_checksum_simps [OF len, of "le_enc 4 (unat ck)", simplified, folded buf'_def]
  have ck: "le_dec (le_enc 4 (unat ck)) = unat ck"
    using word32_less [of ck] by (intro le_dec_le_enc_id) simp
  have hdr: "enc_header ((dec_header buf')\<lparr>checksum := 0\<rparr>) = take 16 z"
    using len bs(1,2) zs(3) by (simp add: enc_header_update_checksum)
  have "take 16 z @ take (?n - 16) (drop 16 buf') = take ?n z"
    using bs(4) zs(4) take_add [of 16 "?n - 16" z] assms(1) by simp
  then have crc: "nmbm_crc32 crc (nmbm_crc32 crc 0 (take 16 z)) (take (?n - 16) (drop 16 buf')) = ck"
    by (simp add: nmbm_crc32_append ck_def)
  have "nmbm_check_header crc buf' sz = Some True"
    using assms len bs(1,5,7) ck crc hdr
    by (cases "?n = 16")
      (simp_all add: nmbm_check_header_def mem_read_def sizeof_header_def dec_header_take16 Let_def
        nmbm_crc32_Nil)
  moreover have "nmbm_update_checksum crc buf = Some buf'"
    using update_checksum_eq [OF len assms(2)] by (simp add: buf'_def ck_def z_def)
  ultimately show ?thesis
    using bs by simp
qed

end

end
