(* ===== verification/Crc32.thy ===== *)
theory Crc32
  imports Nmbm_Header
begin

text \<open>
  The CRC-32 of the \<^verbatim>\<open>mtd\<close> tool (\<^verbatim>\<open>package/system/mtd/src/crc32.c\<close>, \<^verbatim>\<open>crc32.h\<close>): the table of 256
  feedback terms and the byte-wise update. It is the repository's own implementation of the
  checksum the kernel calls \<^verbatim>\<open>crc32_le\<close>, and the instance of the interface \<open>incremental_crc\<close>
  that the NMBM components rely on.
\<close>

section \<open>Model\<close>

definition crc32_table :: "32 word list" where
  "crc32_table = [
     0x00000000, 0x77073096, 0xee0e612c, 0x990951ba, 0x076dc419, 0x706af48f,
     0xe963a535, 0x9e6495a3, 0x0edb8832, 0x79dcb8a4, 0xe0d5e91e, 0x97d2d988,
     0x09b64c2b, 0x7eb17cbd, 0xe7b82d07, 0x90bf1d91, 0x1db71064, 0x6ab020f2,
     0xf3b97148, 0x84be41de, 0x1adad47d, 0x6ddde4eb, 0xf4d4b551, 0x83d385c7,
     0x136c9856, 0x646ba8c0, 0xfd62f97a, 0x8a65c9ec, 0x14015c4f, 0x63066cd9,
     0xfa0f3d63, 0x8d080df5, 0x3b6e20c8, 0x4c69105e, 0xd56041e4, 0xa2677172,
     0x3c03e4d1, 0x4b04d447, 0xd20d85fd, 0xa50ab56b, 0x35b5a8fa, 0x42b2986c,
     0xdbbbc9d6, 0xacbcf940, 0x32d86ce3, 0x45df5c75, 0xdcd60dcf, 0xabd13d59,
     0x26d930ac, 0x51de003a, 0xc8d75180, 0xbfd06116, 0x21b4f4b5, 0x56b3c423,
     0xcfba9599, 0xb8bda50f, 0x2802b89e, 0x5f058808, 0xc60cd9b2, 0xb10be924,
     0x2f6f7c87, 0x58684c11, 0xc1611dab, 0xb6662d3d, 0x76dc4190, 0x01db7106,
     0x98d220bc, 0xefd5102a, 0x71b18589, 0x06b6b51f, 0x9fbfe4a5, 0xe8b8d433,
     0x7807c9a2, 0x0f00f934, 0x9609a88e, 0xe10e9818, 0x7f6a0dbb, 0x086d3d2d,
     0x91646c97, 0xe6635c01, 0x6b6b51f4, 0x1c6c6162, 0x856530d8, 0xf262004e,
     0x6c0695ed, 0x1b01a57b, 0x8208f4c1, 0xf50fc457, 0x65b0d9c6, 0x12b7e950,
     0x8bbeb8ea, 0xfcb9887c, 0x62dd1ddf, 0x15da2d49, 0x8cd37cf3, 0xfbd44c65,
     0x4db26158, 0x3ab551ce, 0xa3bc0074, 0xd4bb30e2, 0x4adfa541, 0x3dd895d7,
     0xa4d1c46d, 0xd3d6f4fb, 0x4369e96a, 0x346ed9fc, 0xad678846, 0xda60b8d0,
     0x44042d73, 0x33031de5, 0xaa0a4c5f, 0xdd0d7cc9, 0x5005713c, 0x270241aa,
     0xbe0b1010, 0xc90c2086, 0x5768b525, 0x206f85b3, 0xb966d409, 0xce61e49f,
     0x5edef90e, 0x29d9c998, 0xb0d09822, 0xc7d7a8b4, 0x59b33d17, 0x2eb40d81,
     0xb7bd5c3b, 0xc0ba6cad, 0xedb88320, 0x9abfb3b6, 0x03b6e20c, 0x74b1d29a,
     0xead54739, 0x9dd277af, 0x04db2615, 0x73dc1683, 0xe3630b12, 0x94643b84,
     0x0d6d6a3e, 0x7a6a5aa8, 0xe40ecf0b, 0x9309ff9d, 0x0a00ae27, 0x7d079eb1,
     0xf00f9344, 0x8708a3d2, 0x1e01f268, 0x6906c2fe, 0xf762575d, 0x806567cb,
     0x196c3671, 0x6e6b06e7, 0xfed41b76, 0x89d32be0, 0x10da7a5a, 0x67dd4acc,
     0xf9b9df6f, 0x8ebeeff9, 0x17b7be43, 0x60b08ed5, 0xd6d6a3e8, 0xa1d1937e,
     0x38d8c2c4, 0x4fdff252, 0xd1bb67f1, 0xa6bc5767, 0x3fb506dd, 0x48b2364b,
     0xd80d2bda, 0xaf0a1b4c, 0x36034af6, 0x41047a60, 0xdf60efc3, 0xa867df55,
     0x316e8eef, 0x4669be79, 0xcb61b38c, 0xbc66831a, 0x256fd2a0, 0x5268e236,
     0xcc0c7795, 0xbb0b4703, 0x220216b9, 0x5505262f, 0xc5ba3bbe, 0xb2bd0b28,
     0x2bb45a92, 0x5cb36a04, 0xc2d7ffa7, 0xb5d0cf31, 0x2cd99e8b, 0x5bdeae1d,
     0x9b64c2b0, 0xec63f226, 0x756aa39c, 0x026d930a, 0x9c0906a9, 0xeb0e363f,
     0x72076785, 0x05005713, 0x95bf4a82, 0xe2b87a14, 0x7bb12bae, 0x0cb61b38,
     0x92d28e9b, 0xe5d5be0d, 0x7cdcefb7, 0x0bdbdf21, 0x86d3d2d4, 0xf1d4e242,
     0x68ddb3f8, 0x1fda836e, 0x81be16cd, 0xf6b9265b, 0x6fb077e1, 0x18b74777,
     0x88085ae6, 0xff0f6a70, 0x66063bca, 0x11010b5c, 0x8f659eff, 0xf862ae69,
     0x616bffd3, 0x166ccf45, 0xa00ae278, 0xd70dd2ee, 0x4e048354, 0x3903b3c2,
     0xa7672661, 0xd06016f7, 0x4969474d, 0x3e6e77db, 0xaed16a4a, 0xd9d65adc,
     0x40df0b66, 0x37d83bf0, 0xa9bcae53, 0xdebb9ec5, 0x47b2cf7f, 0x30b5ffe9,
     0xbdbdf21c, 0xcabac28a, 0x53b39330, 0x24b4a3a6, 0xbad03605, 0xcdd70693,
     0x54de5729, 0x23d967bf, 0xb3667a2e, 0xc4614ab8, 0x5d681b02, 0x2a6f2b94,
     0xb40bbe37, 0xc30c8ea1, 0x5a05df1b, 0x2d02ef8d]"

definition crc32 :: "32 word \<Rightarrow> byte list \<Rightarrow> 32 word" where
  "crc32 val ss =
     foldl (\<lambda>val s. (crc32_table ! unat ((val XOR ucast s) AND 0xff)) XOR drop_bit 8 val) val ss"

interpretation crc32: incremental_crc crc32
  by unfold_locales (simp add: crc32_def)

section \<open>The table against polynomial division\<close>

text \<open>
  One bit of the reflected CRC with the polynomial \<^verbatim>\<open>0xedb88320\<close>, the definition the table is
  derived from. \<open>crc_bit\<close> is linear over XOR, so the table is spanned by the values at the powers of
  two.
\<close>

definition crc_bit :: "32 word \<Rightarrow> 32 word" where
  "crc_bit w = (if bit w 0 then drop_bit 1 w XOR 0xedb88320 else drop_bit 1 w)"

lemma crc_bit_xor: "crc_bit (a XOR b) = crc_bit a XOR crc_bit b"
  by (rule bit_word_eqI) (auto simp: crc_bit_def bit_simps)

lemma crc_bits_xor: "(crc_bit ^^ n) (a XOR b) = (crc_bit ^^ n) a XOR (crc_bit ^^ n) b"
  by (induction n) (simp_all add: crc_bit_xor)

definition crc_tab :: "nat \<Rightarrow> 32 word list" where
  "crc_tab n = map (\<lambda>i. (crc_bit ^^ 8) (word_of_nat i)) [0..<n]"

lemma word_add_xor:
  assumes "i < 2 ^ k" shows "2 ^ k + (word_of_nat i :: 32 word) = 2 ^ k XOR word_of_nat i"
proof -
  have "word_of_nat i = take_bit k (word_of_nat i :: 32 word)"
    using assms by (simp add: of_nat_take_bit [symmetric] take_bit_nat_eq_self)
  then have "2 ^ k AND (word_of_nat i :: 32 word) = 0"
    by (metis (no_types) and.commute bit.conj_zero_right push_bit_take_bit and_exp_eq_0_iff_not_bit bit_take_bit_iff less_irrefl)
  then show ?thesis by (rule disjunctive_add_eq_xor)
qed

lemma crc_tab_double: "crc_tab (2 ^ Suc k) = crc_tab (2 ^ k) @ map (\<lambda>w. (crc_bit ^^ 8) (2 ^ k) XOR w) (crc_tab (2 ^ k))"
proof -
  have "[0..<2 ^ Suc k] = [0..<2 ^ k] @ map (\<lambda>i. 2 ^ k + i) [0..<2 ^ k]"
    using upt_add_eq_append [of 0 "2 ^ k" "2 ^ k"] map_add_upt [of "2^k" "2^k"] by (simp add: add.commute mult_2)
  then show ?thesis by (auto simp: crc_tab_def word_add_xor crc_bits_xor)
qed

lemma crc_bits_exp: "k < 32 \<Longrightarrow> (crc_bit ^^ k) (2 ^ k) = 1"
proof (induction k)
  case (Suc k)
  then have "crc_bit (2 ^ Suc k) = 2 ^ k"
    by (auto intro!: bit_word_eqI simp: crc_bit_def bit_simps)
  then show ?case
    using Suc by (simp add: funpow_Suc_right del: funpow.simps power_Suc)
qed simp

lemma crc_bits_basis: "k \<le> 8 \<Longrightarrow> (crc_bit ^^ 8) (2 ^ k) = (crc_bit ^^ (8 - k)) 1"
  using crc_bits_exp [of k] funpow_add [of "8 - k" k crc_bit] by simp

lemma crc_bit_steps:
  "crc_bit 0x1 = 0xedb88320"
  "crc_bit 0xedb88320 = 0x76dc4190"
  "crc_bit 0x76dc4190 = 0x3b6e20c8"
  "crc_bit 0x3b6e20c8 = 0x1db71064"
  "crc_bit 0x1db71064 = 0xedb8832"
  "crc_bit 0xedb8832 = 0x76dc419"
  "crc_bit 0x76dc419 = 0xee0e612c"
  "crc_bit 0xee0e612c = 0x77073096"
    by (simp_all add: crc_bit_def)

lemma crc_tab_1: "crc_tab 1 = [0]"
proof -
  have "(crc_bit ^^ n) 0 = 0" for n by (induction n) (simp_all add: crc_bit_def)
  then show ?thesis by (simp add: crc_tab_def)
qed

lemma crc_tab_basis: "(crc_bit ^^ 8) 1 = 0x77073096" "(crc_bit ^^ 8) 2 = 0xee0e612c"
  "(crc_bit ^^ 8) 4 = 0x76dc419" "(crc_bit ^^ 8) 8 = 0xedb8832"
  "(crc_bit ^^ 8) 16 = 0x1db71064" "(crc_bit ^^ 8) 32 = 0x3b6e20c8"
  "(crc_bit ^^ 8) 64 = 0x76dc4190" "(crc_bit ^^ 8) 128 = 0xedb88320"
  using crc_bits_basis [of 0] crc_bits_basis [of 1] crc_bits_basis [of 2] crc_bits_basis [of 3]
    crc_bits_basis [of 4] crc_bits_basis [of 5] crc_bits_basis [of 6] crc_bits_basis [of 7]
  by (simp_all add: numeral_eq_Suc [of "num.Bit0 n" for n] numeral_eq_Suc [of "num.Bit1 n" for n] crc_bit_steps)

lemma crc32_table_eq: "crc_tab 256 = crc32_table"
  using crc_tab_double [of 0] crc_tab_double [of 1] crc_tab_double [of 2] crc_tab_double [of 3]
    crc_tab_double [of 4] crc_tab_double [of 5] crc_tab_double [of 6] crc_tab_double [of 7]
  by (simp add: crc32_table_def crc_tab_1 [simplified] crc_tab_basis)

text \<open>A byte in one table lookup is eight single bits.\<close>

lemma crc_bits_high: "(crc_bit ^^ 8) (push_bit 8 (drop_bit 8 w)) = drop_bit 8 w"
proof -
  have step: "crc_bit (push_bit (Suc n) (drop_bit 8 w)) = push_bit n (drop_bit 8 w)" if "n < 8" for n
  proof (rule bit_word_eqI)
    fix i assume "i < LENGTH(32)"
    then show "bit (crc_bit (push_bit (Suc n) (drop_bit 8 w))) i = bit (push_bit n (drop_bit 8 w)) i"
      using that bit_imp_le_length [of w "8 + i - n"]
      by (auto simp: crc_bit_def bit_simps simp del: push_bit_Suc)
  qed
  have "(crc_bit ^^ n) (push_bit n (drop_bit 8 w)) = drop_bit 8 w" if "n \<le> 8" for n
    using that by (induction n) (simp_all add: funpow_Suc_right step del: funpow.simps push_bit_Suc)
  then show ?thesis by simp
qed

lemma crc_byte_table:
  "(crc_bit ^^ 8) (val XOR ucast (s :: byte)) =
     crc32_table ! unat ((val XOR ucast s) AND 0xff) XOR drop_bit 8 val"
proof -
  let ?w = "val XOR ucast s"
  have "?w = take_bit 8 ?w XOR push_bit 8 (drop_bit 8 ?w)"
  proof (rule bit_word_eqI)
    fix n assume "n < LENGTH(32)"
    then show "bit ?w n = bit (take_bit 8 ?w XOR push_bit 8 (drop_bit 8 ?w)) n"
      by (cases "n < 8") (auto simp: bit_simps)
  qed
  then have split: "?w = (?w AND 0xff) XOR push_bit 8 (drop_bit 8 ?w)"
    by (simp add: take_bit_eq_mask mask_eq_exp_minus_1)
  have "drop_bit 8 ?w = drop_bit 8 val"
    by (rule bit_word_eqI) (auto simp: bit_simps dest: bit_imp_le_length)
  moreover have "?w AND 0xff \<le> 0xff"
    by (simp add: word_and_le1 word_and_le2)
  then have "unat (?w AND 0xff) < 256"
    by (simp add: word_le_nat_alt)
  then have "crc32_table ! unat (?w AND 0xff) = (crc_bit ^^ 8) (?w AND 0xff)"
    by (simp add: crc32_table_eq [symmetric] crc_tab_def)
  ultimately show ?thesis
    using split crc_bits_xor [of 8 "?w AND 0xff" "push_bit 8 (drop_bit 8 ?w)"] crc_bits_high [of ?w]
    by (metis (no_types))
qed

end
