(* ===== verification/Md5.thy ===== *)
theory Md5
  imports Nmbm_Prelude
begin

text \<open>
  The MD5 digest of the \<^verbatim>\<open>mtd\<close> tool (\<^verbatim>\<open>package/system/mtd/src/md5.c\<close>, \<^verbatim>\<open>md5.h\<close>), which the tool stores
  in Seama, WRG and WRGG headers. \<open>Transform\<close> is the unrolled sequence of 64 steps of the source,
  \<open>MD5_Update\<close> its byte-wise loop over the 64-byte input buffer with the bit counter in two 32-bit
  words, \<open>MD5_Final\<close> the padding. A \<^verbatim>\<open>UINT4\<close> has 32 bits.

  The second part states the digest as RFC 1321 does (padding, blocks, a loop over 64 steps with the
  indices and shifts of the four rounds) and shows that the streaming code computes it, however the
  message is cut into calls of \<open>MD5_Update\<close>.
\<close>

section \<open>Model\<close>

type_synonym md5_buf = "32 word \<times> 32 word \<times> 32 word \<times> 32 word"

record MD5_CTX =
  ctx_i0 :: "32 word"
  ctx_i1 :: "32 word"
  ctx_buf :: md5_buf
  ctx_in :: "byte list"
  ctx_digest :: "byte list"

definition PADDING :: "byte list" where
  "PADDING = 0x80 # replicate 63 0x00"

definition F_basic :: "32 word \<Rightarrow> 32 word \<Rightarrow> 32 word \<Rightarrow> 32 word" where
  "F_basic x y z = (x AND y) OR (NOT x AND z)"

definition G_basic :: "32 word \<Rightarrow> 32 word \<Rightarrow> 32 word \<Rightarrow> 32 word" where
  "G_basic x y z = (x AND z) OR (y AND NOT z)"

definition H_basic :: "32 word \<Rightarrow> 32 word \<Rightarrow> 32 word \<Rightarrow> 32 word" where
  "H_basic x y z = x XOR y XOR z"

definition I_basic :: "32 word \<Rightarrow> 32 word \<Rightarrow> 32 word \<Rightarrow> 32 word" where
  "I_basic x y z = y XOR (x OR NOT z)"

definition ROTATE_LEFT :: "32 word \<Rightarrow> nat \<Rightarrow> 32 word" where
  "ROTATE_LEFT x n = push_bit n x OR drop_bit (32 - n) x"

definition FF :: "32 word \<Rightarrow> 32 word \<Rightarrow> 32 word \<Rightarrow> 32 word \<Rightarrow> 32 word \<Rightarrow> nat \<Rightarrow> 32 word \<Rightarrow> 32 word" where
  "FF a b c d x s ac = (let a = a + (F_basic b c d + x + ac); a = ROTATE_LEFT a s in a + b)"

definition GG :: "32 word \<Rightarrow> 32 word \<Rightarrow> 32 word \<Rightarrow> 32 word \<Rightarrow> 32 word \<Rightarrow> nat \<Rightarrow> 32 word \<Rightarrow> 32 word" where
  "GG a b c d x s ac = (let a = a + (G_basic b c d + x + ac); a = ROTATE_LEFT a s in a + b)"

definition HH :: "32 word \<Rightarrow> 32 word \<Rightarrow> 32 word \<Rightarrow> 32 word \<Rightarrow> 32 word \<Rightarrow> nat \<Rightarrow> 32 word \<Rightarrow> 32 word" where
  "HH a b c d x s ac = (let a = a + (H_basic b c d + x + ac); a = ROTATE_LEFT a s in a + b)"

definition II :: "32 word \<Rightarrow> 32 word \<Rightarrow> 32 word \<Rightarrow> 32 word \<Rightarrow> 32 word \<Rightarrow> nat \<Rightarrow> 32 word \<Rightarrow> 32 word" where
  "II a b c d x s ac = (let a = a + (I_basic b c d + x + ac); a = ROTATE_LEFT a s in a + b)"

definition S11 :: nat where "S11 = 7"
definition S12 :: nat where "S12 = 12"
definition S13 :: nat where "S13 = 17"
definition S14 :: nat where "S14 = 22"
definition S21 :: nat where "S21 = 5"
definition S22 :: nat where "S22 = 9"
definition S23 :: nat where "S23 = 14"
definition S24 :: nat where "S24 = 20"
definition S31 :: nat where "S31 = 4"
definition S32 :: nat where "S32 = 11"
definition S33 :: nat where "S33 = 16"
definition S34 :: nat where "S34 = 23"
definition S41 :: nat where "S41 = 6"
definition S42 :: nat where "S42 = 10"
definition S43 :: nat where "S43 = 15"
definition S44 :: nat where "S44 = 21"

definition Transform :: "md5_buf \<Rightarrow> 32 word list \<Rightarrow> md5_buf" where
  "Transform buf inp =
     (case buf of (a0, b0, c0, d0) \<Rightarrow>
       (let a = a0; b = b0; c = c0; d = d0;
        a = FF a b c d (inp ! 0) S11 3614090360;
        d = FF d a b c (inp ! 1) S12 3905402710;
        c = FF c d a b (inp ! 2) S13 606105819;
        b = FF b c d a (inp ! 3) S14 3250441966;
        a = FF a b c d (inp ! 4) S11 4118548399;
        d = FF d a b c (inp ! 5) S12 1200080426;
        c = FF c d a b (inp ! 6) S13 2821735955;
        b = FF b c d a (inp ! 7) S14 4249261313;
        a = FF a b c d (inp ! 8) S11 1770035416;
        d = FF d a b c (inp ! 9) S12 2336552879;
        c = FF c d a b (inp ! 10) S13 4294925233;
        b = FF b c d a (inp ! 11) S14 2304563134;
        a = FF a b c d (inp ! 12) S11 1804603682;
        d = FF d a b c (inp ! 13) S12 4254626195;
        c = FF c d a b (inp ! 14) S13 2792965006;
        b = FF b c d a (inp ! 15) S14 1236535329;
        a = GG a b c d (inp ! 1) S21 4129170786;
        d = GG d a b c (inp ! 6) S22 3225465664;
        c = GG c d a b (inp ! 11) S23 643717713;
        b = GG b c d a (inp ! 0) S24 3921069994;
        a = GG a b c d (inp ! 5) S21 3593408605;
        d = GG d a b c (inp ! 10) S22 38016083;
        c = GG c d a b (inp ! 15) S23 3634488961;
        b = GG b c d a (inp ! 4) S24 3889429448;
        a = GG a b c d (inp ! 9) S21 568446438;
        d = GG d a b c (inp ! 14) S22 3275163606;
        c = GG c d a b (inp ! 3) S23 4107603335;
        b = GG b c d a (inp ! 8) S24 1163531501;
        a = GG a b c d (inp ! 13) S21 2850285829;
        d = GG d a b c (inp ! 2) S22 4243563512;
        c = GG c d a b (inp ! 7) S23 1735328473;
        b = GG b c d a (inp ! 12) S24 2368359562;
        a = HH a b c d (inp ! 5) S31 4294588738;
        d = HH d a b c (inp ! 8) S32 2272392833;
        c = HH c d a b (inp ! 11) S33 1839030562;
        b = HH b c d a (inp ! 14) S34 4259657740;
        a = HH a b c d (inp ! 1) S31 2763975236;
        d = HH d a b c (inp ! 4) S32 1272893353;
        c = HH c d a b (inp ! 7) S33 4139469664;
        b = HH b c d a (inp ! 10) S34 3200236656;
        a = HH a b c d (inp ! 13) S31 681279174;
        d = HH d a b c (inp ! 0) S32 3936430074;
        c = HH c d a b (inp ! 3) S33 3572445317;
        b = HH b c d a (inp ! 6) S34 76029189;
        a = HH a b c d (inp ! 9) S31 3654602809;
        d = HH d a b c (inp ! 12) S32 3873151461;
        c = HH c d a b (inp ! 15) S33 530742520;
        b = HH b c d a (inp ! 2) S34 3299628645;
        a = II a b c d (inp ! 0) S41 4096336452;
        d = II d a b c (inp ! 7) S42 1126891415;
        c = II c d a b (inp ! 14) S43 2878612391;
        b = II b c d a (inp ! 5) S44 4237533241;
        a = II a b c d (inp ! 12) S41 1700485571;
        d = II d a b c (inp ! 3) S42 2399980690;
        c = II c d a b (inp ! 10) S43 4293915773;
        b = II b c d a (inp ! 1) S44 2240044497;
        a = II a b c d (inp ! 8) S41 1873313359;
        d = II d a b c (inp ! 15) S42 4264355552;
        c = II c d a b (inp ! 6) S43 2734768916;
        b = II b c d a (inp ! 13) S44 1309151649;
        a = II a b c d (inp ! 4) S41 4149444226;
        d = II d a b c (inp ! 11) S42 3174756917;
        c = II c d a b (inp ! 2) S43 718787259;
        b = II b c d a (inp ! 9) S44 3951481745
        in (a0 + a, b0 + b, c0 + c, d0 + d)))"

definition MD5_Init :: "MD5_CTX \<Rightarrow> MD5_CTX" where
  "MD5_Init ctx = ctx\<lparr>ctx_i0 := 0, ctx_i1 := 0,
     ctx_buf := (0x67452301, 0xefcdab89, 0x98badcfe, 0x10325476)\<rparr>"

text \<open>One word of the input buffer, and the words \<^verbatim>\<open>in[0]\<close> to \<^verbatim>\<open>in[n - 1]\<close>.\<close>

definition md5_word :: "byte list \<Rightarrow> nat \<Rightarrow> 32 word" where
  "md5_word inb ii =
     push_bit 24 (ucast (inb ! (ii + 3))) OR push_bit 16 (ucast (inb ! (ii + 2))) OR
     push_bit 8 (ucast (inb ! (ii + 1))) OR ucast (inb ! ii)"

definition md5_words :: "byte list \<Rightarrow> nat \<Rightarrow> 32 word list" where
  "md5_words inb n = map (\<lambda>i. md5_word inb (4 * i)) [0..<n]"

fun MD5_Update_loop :: "MD5_CTX \<Rightarrow> nat \<Rightarrow> byte list \<Rightarrow> MD5_CTX option" where
  "MD5_Update_loop ctx mdi [] = Some ctx"
| "MD5_Update_loop ctx mdi (b # inBuf) = do {
     inb \<leftarrow> arr_set (ctx_in ctx) mdi b;
     let ctx = ctx\<lparr>ctx_in := inb\<rparr>;
     if mdi + 1 = 0x40
     then MD5_Update_loop (ctx\<lparr>ctx_buf := Transform (ctx_buf ctx) (md5_words inb 16)\<rparr>) 0 inBuf
     else MD5_Update_loop ctx (mdi + 1) inBuf
   }"

definition md5_mdi :: "MD5_CTX \<Rightarrow> nat" where
  "md5_mdi ctx = unat (drop_bit 3 (ctx_i0 ctx) AND 0x3F)"

definition MD5_Update :: "MD5_CTX \<Rightarrow> byte list \<Rightarrow> nat \<Rightarrow> MD5_CTX option" where
  "MD5_Update ctx inBuf inLen =
     (let mdi = md5_mdi ctx;
          n = word_of_nat inLen :: 32 word;
          carry = (if ctx_i0 ctx + push_bit 3 n < ctx_i0 ctx then 1 else 0);
          ctx = ctx\<lparr>ctx_i0 := ctx_i0 ctx + push_bit 3 n, ctx_i1 := ctx_i1 ctx + carry + drop_bit 29 n\<rparr>
      in do {
        bs \<leftarrow> mem_read inBuf 0 inLen;
        MD5_Update_loop ctx mdi bs
      })"

definition md5_out :: "32 word \<Rightarrow> byte list" where
  "md5_out w = [ucast (w AND 0xFF), ucast (drop_bit 8 w AND 0xFF), ucast (drop_bit 16 w AND 0xFF),
     ucast (drop_bit 24 w AND 0xFF)]"

definition MD5_Final :: "MD5_CTX \<Rightarrow> (byte list \<times> MD5_CTX) option" where
  "MD5_Final ctx =
     (let in14 = ctx_i0 ctx; in15 = ctx_i1 ctx;
          mdi = md5_mdi ctx;
          padLen = (if mdi < 56 then 56 - mdi else 120 - mdi)
      in do {
        ctx \<leftarrow> MD5_Update ctx PADDING padLen;
        let buf = Transform (ctx_buf ctx) (md5_words (ctx_in ctx) 14 @ [in14, in15]);
        let digest = (case buf of (a, b, c, d) \<Rightarrow> md5_out a @ md5_out b @ md5_out c @ md5_out d);
        Some (digest, ctx\<lparr>ctx_buf := buf, ctx_digest := digest\<rparr>)
      })"

section \<open>The digest of RFC 1321\<close>

definition md5_T :: "32 word list" where
  "md5_T =
    [3614090360, 3905402710, 606105819, 3250441966,
     4118548399, 1200080426, 2821735955, 4249261313,
     1770035416, 2336552879, 4294925233, 2304563134,
     1804603682, 4254626195, 2792965006, 1236535329,
     4129170786, 3225465664, 643717713, 3921069994,
     3593408605, 38016083, 3634488961, 3889429448,
     568446438, 3275163606, 4107603335, 1163531501,
     2850285829, 4243563512, 1735328473, 2368359562,
     4294588738, 2272392833, 1839030562, 4259657740,
     2763975236, 1272893353, 4139469664, 3200236656,
     681279174, 3936430074, 3572445317, 76029189,
     3654602809, 3873151461, 530742520, 3299628645,
     4096336452, 1126891415, 2878612391, 4237533241,
     1700485571, 2399980690, 4293915773, 2240044497,
     1873313359, 4264355552, 2734768916, 1309151649,
     4149444226, 3174756917, 718787259, 3951481745]"

text \<open>Step \<open>i\<close> of the loop: the function of the round, the index of the word, and the shift.\<close>

definition md5_step :: "32 word list \<Rightarrow> md5_buf \<Rightarrow> nat \<Rightarrow> md5_buf" where
  "md5_step X s i = (case s of (a, b, c, d) \<Rightarrow>
     (let (f, k, r) =
        (if i < 16 then ((b AND c) OR (NOT b AND d), i, [7, 12, 17, 22] ! (i mod 4))
         else if i < 32 then ((b AND d) OR (c AND NOT d), (5 * i + 1) mod 16, [5, 9, 14, 20] ! (i mod 4))
         else if i < 48 then (b XOR c XOR d, (3 * i + 5) mod 16, [4, 11, 16, 23] ! (i mod 4))
         else (c XOR (b OR NOT d), (7 * i) mod 16, [6, 10, 15, 21] ! (i mod 4)))
      in (d, b + word_rotl r (a + f + X ! k + md5_T ! i), b, c)))"

definition md5_block :: "md5_buf \<Rightarrow> 32 word list \<Rightarrow> md5_buf" where
  "md5_block s X = (case (s, foldl (md5_step X) s [0..<64]) of
     ((a, b, c, d), (a', b', c', d')) \<Rightarrow> (a + a', b + b', c + c', d + d'))"

function md5_blocks :: "md5_buf \<Rightarrow> byte list \<Rightarrow> md5_buf" where
  "md5_blocks s bs =
     (if length bs < 64 then s else md5_blocks (md5_block s (le_words (take 64 bs))) (drop 64 bs))"
  by auto
termination
  by (relation "measure (\<lambda>(s, bs). length bs)") auto

declare md5_blocks.simps [simp del]

definition md5_pad :: "byte list \<Rightarrow> byte list" where
  "md5_pad msg =
     msg @ 0x80 # replicate ((119 - length msg mod 64) mod 64) 0 @ le_enc 8 (8 * length msg)"

definition md5_ref :: "byte list \<Rightarrow> byte list" where
  "md5_ref msg =
     (case md5_blocks (0x67452301, 0xefcdab89, 0x98badcfe, 0x10325476) (md5_pad msg) of
        (a, b, c, d) \<Rightarrow> words_le [a, b, c, d])"

section \<open>The unrolled steps\<close>

lemma rotate_left_rotl: "0 < n \<Longrightarrow> n < 32 \<Longrightarrow> ROTATE_LEFT x n = word_rotl n x"
proof (rule bit_word_eqI)
  fix i assume "0 < n" "n < 32" "i < LENGTH(32)"
  then show "bit (ROTATE_LEFT x n) i = bit (word_rotl n x) i"
    using bit_imp_le_length [of x "32 - n + i"]
    by (cases "i < n") (auto simp: ROTATE_LEFT_def bit_simps bit_word_rotl_iff mod_if add.commute [of i])
qed

lemmas md5_shift_defs = S11_def S12_def S13_def S14_def S21_def S22_def S23_def S24_def
  S31_def S32_def S33_def S34_def S41_def S42_def S43_def S44_def

definition md5_op :: "32 word \<Rightarrow> 32 word \<Rightarrow> 32 word \<Rightarrow> nat \<Rightarrow> 32 word \<Rightarrow> 32 word \<Rightarrow> 32 word" where
  "md5_op a b f r x ac = b + word_rotl r (a + f + x + ac)"

lemma md5_ops:
  "0 < s \<Longrightarrow> s < 32 \<Longrightarrow> FF a b c d x s ac = md5_op a b (F_basic b c d) s x ac"
  "0 < s \<Longrightarrow> s < 32 \<Longrightarrow> GG a b c d x s ac = md5_op a b (G_basic b c d) s x ac"
  "0 < s \<Longrightarrow> s < 32 \<Longrightarrow> HH a b c d x s ac = md5_op a b (H_basic b c d) s x ac"
  "0 < s \<Longrightarrow> s < 32 \<Longrightarrow> II a b c d x s ac = md5_op a b (I_basic b c d) s x ac"
  by (simp_all add: FF_def GG_def HH_def II_def md5_op_def rotate_left_rotl Let_def add_ac)

lemma md5_step_op:
  "md5_step X (a, b, c, d) i = (d,
     (if i < 16 then md5_op a b (F_basic b c d) ([7, 12, 17, 22] ! (i mod 4)) (X ! i) (md5_T ! i)
      else if i < 32 then md5_op a b (G_basic b c d) ([5, 9, 14, 20] ! (i mod 4)) (X ! ((5 * i + 1) mod 16)) (md5_T ! i)
      else if i < 48 then md5_op a b (H_basic b c d) ([4, 11, 16, 23] ! (i mod 4)) (X ! ((3 * i + 5) mod 16)) (md5_T ! i)
      else md5_op a b (I_basic b c d) ([6, 10, 15, 21] ! (i mod 4)) (X ! (7 * i mod 16)) (md5_T ! i)), b, c)"
  by (simp add: md5_step_def md5_op_def F_basic_def G_basic_def H_basic_def I_basic_def)

text \<open>An assignment of the source against a step of the loop.\<close>

lemma md5_assign:
  assumes "md5_step X (a, b, c, d) i = (d, e, b, c)" and "\<And>v. P v = fin (foldl (md5_step X) (d, v, b, c) xs)"
  shows "Let e P = fin (foldl (md5_step X) (a, b, c, d) (i # xs))"
  by (simp add: assms)

lemma upt_64: "[0..<64] = [0,1,2,3,4,5,6,7,8,9,10,11,12,13,14,15,16,17,18,19,20,21,22,23,24,25,26,27,
  28,29,30,31,32,33,34,35,36,37,38,39,40,41,42,43,44,45,46,47,48,49,50,51,52,53,54,55,56,57,58,59,60,61,62,63]"
  by (simp add: upt_rec)

lemma Transform_eq: "Transform s X = md5_block s X"
proof (cases s)
  case (fields a0 b0 c0 d0)
  show ?thesis
    unfolding fields Transform_def md5_block_def prod.case upt_64
    apply (simp only: Let_def [of a0] Let_def [of b0] Let_def [of c0] Let_def [of d0])
    apply ((rule md5_assign, (simp add: md5_step_op md5_ops md5_shift_defs md5_T_def; fail))+)
    apply simp
    done
qed

section \<open>Streaming\<close>

lemma md5_word_le:
  assumes "ii + 4 \<le> length inb"
  shows "md5_word inb ii = word_of_nat (le_dec (take 4 (drop ii inb)))"
proof -
  let ?b = "\<lambda>k. ucast (inb ! (ii + k)) :: 32 word"
  have bytes: "take 4 (drop ii inb) = [inb ! ii, inb ! (ii + 1), inb ! (ii + 2), inb ! (ii + 3)]"
    using assms by (auto intro!: nth_equalityI simp: less_Suc_eq numeral_eq_Suc)
  have or: "push_bit n x OR y = push_bit n x + y" if "\<And>m. n \<le> m \<Longrightarrow> \<not> bit y m" for n and x y :: "32 word"
    using that by (intro disjunctive_add [symmetric]) (auto simp: bit_simps)
  have "push_bit 8 (?b 1) OR ucast (inb ! ii) = push_bit 8 (?b 1) + ucast (inb ! ii)"
    by (rule or) (auto simp: bit_simps dest: bit_imp_le_length)
  moreover have "push_bit 16 (?b 2) OR (push_bit 8 (?b 1) OR ucast (inb ! ii)) =
      push_bit 16 (?b 2) + (push_bit 8 (?b 1) OR ucast (inb ! ii))"
    by (rule or) (auto simp: bit_simps dest!: bit_imp_le_length)
  moreover have "push_bit 24 (?b 3) OR (push_bit 16 (?b 2) OR (push_bit 8 (?b 1) OR ucast (inb ! ii))) =
      push_bit 24 (?b 3) + (push_bit 16 (?b 2) OR (push_bit 8 (?b 1) OR ucast (inb ! ii)))"
    by (rule or) (auto simp: bit_simps dest!: bit_imp_le_length)
  ultimately have "md5_word inb ii =
      ucast (inb ! ii) + push_bit 8 (?b 1) + push_bit 16 (?b 2) + push_bit 24 (?b 3)"
    by (simp add: md5_word_def or.assoc)
  then show ?thesis
    unfolding bytes by (simp add: push_bit_eq_mult algebra_simps)
qed

lemma le_words_append: "4 dvd length xs \<Longrightarrow> le_words (xs @ ys) = le_words xs @ le_words ys"
proof (induction xs rule: le_words.induct)
  case (1 a b c d bs)
  then have "4 dvd length bs"
    by simp presburger
  then show ?case using 1 by simp
qed (auto dest: dvd_imp_le)

lemma md5_words_le: "4 * n \<le> length inb \<Longrightarrow> md5_words inb n = le_words (take (4 * n) inb)"
proof (induction n)
  case (Suc n)
  have "take (4 * Suc n) inb = take (4 * n) inb @ take 4 (drop (4 * n) inb)"
    using take_add [of "4 * n" 4 inb] by (simp add: add.commute)
  moreover have "le_words (take 4 (drop (4 * n) inb)) = [md5_word inb (4 * n)]"
  proof -
    have len: "length (take 4 (drop (4 * n) inb)) = 4"
      using Suc.prems by simp
    obtain a b c d where "take 4 (drop (4 * n) inb) = [a, b, c, d]"
      using length_4E [OF len] .
    then show ?thesis
      using Suc.prems md5_word_le [of "4 * n" inb] by simp
  qed
  ultimately show ?case
    using Suc by (simp add: le_words_append md5_words_def)
qed (simp add: md5_words_def)

text \<open>The context after a message.\<close>

definition md5_has :: "md5_buf \<Rightarrow> byte list \<Rightarrow> MD5_CTX \<Rightarrow> bool" where
  "md5_has s0 msg ctx \<longleftrightarrow> length (ctx_in ctx) = 64 \<and>
     ctx_buf ctx = md5_blocks s0 msg \<and>
     take (length msg mod 64) (ctx_in ctx) = drop (length msg div 64 * 64) msg"

definition md5_counts :: "byte list \<Rightarrow> MD5_CTX \<Rightarrow> bool" where
  "md5_counts msg ctx \<longleftrightarrow> ctx_i0 ctx = word_of_nat (8 * length msg) \<and>
     ctx_i1 ctx = word_of_nat (8 * length msg div 2 ^ 32)"

lemma md5_blocks_short: "length bs < 64 \<Longrightarrow> md5_blocks s bs = s"
  by (simp add: md5_blocks.simps)

lemma md5_blocks_append:
  "64 dvd length xs \<Longrightarrow> md5_blocks s (xs @ ys) = md5_blocks (md5_blocks s xs) ys"
proof (induction s xs rule: md5_blocks.induct)
  case (1 s xs)
  show ?case
  proof (cases "length xs < 64")
    case True
    then have "xs = []"
      using 1(2) by (auto dest: dvd_imp_le)
    then show ?thesis by (simp add: md5_blocks_short)
  next
    case False
    then have "64 dvd length (drop 64 xs)"
      using 1(2) by simp
    then have "md5_blocks (md5_block s (le_words (take 64 xs))) (drop 64 xs @ ys) =
      md5_blocks (md5_blocks (md5_block s (le_words (take 64 xs))) (drop 64 xs)) ys"
      using 1(1) False by blast
    then show ?thesis
      using False by (simp add: md5_blocks.simps [of s])
  qed
qed

lemma md5_blocks_full: "md5_blocks s (take (length msg div 64 * 64) msg) = md5_blocks s msg"
proof -
  let ?n = "length msg div 64 * 64"
  have "md5_blocks s msg = md5_blocks s (take ?n msg @ drop ?n msg)"
    by simp
  also have "\<dots> = md5_blocks (md5_blocks s (take ?n msg)) (drop ?n msg)"
    by (rule md5_blocks_append) (simp add: min_absorb2)
  also have "\<dots> = md5_blocks s (take ?n msg)"
    by (rule md5_blocks_short) (simp add: minus_div_mult_eq_mod)
  finally show ?thesis by simp
qed

lemma md5_loop_step:
  assumes "md5_has s0 msg ctx"
  shows "\<exists>ctx'. MD5_Update_loop ctx (length msg mod 64) (b # bs) =
      MD5_Update_loop ctx' (length (msg @ [b]) mod 64) bs \<and> md5_has s0 (msg @ [b]) ctx' \<and>
      ctx_i0 ctx' = ctx_i0 ctx \<and> ctx_i1 ctx' = ctx_i1 ctx"
proof -
  let ?m = "length msg mod 64" and ?n = "length msg div 64 * 64"
  let ?inb = "(ctx_in ctx)[?m := b]"
  have len: "length (ctx_in ctx) = 64" and pre: "take ?m (ctx_in ctx) = drop ?n msg"
    and buf: "ctx_buf ctx = md5_blocks s0 msg"
    using assms by (auto simp: md5_has_def)
  have inb: "take (Suc ?m) ?inb = drop ?n msg @ [b]"
    using pre len by (simp add: take_Suc_conv_app_nth)
  have set: "arr_set (ctx_in ctx) ?m b = Some ?inb"
    using len by (simp add: arr_set_def)
  show ?thesis
  proof (cases "Suc ?m = 64")
    case True
    then have m0: "Suc (length msg) mod 64 = 0"
      by (simp add: mod_Suc)
    then have div: "Suc (length msg) div 64 = Suc (length msg div 64)"
      by (simp add: div_Suc)
    have full: "Suc (length msg) = Suc (length msg div 64) * 64"
      using div_mult_mod_eq [of "Suc (length msg)" 64] unfolding m0 div by simp
    have "md5_blocks s0 (msg @ [b]) = md5_blocks s0 (take ?n msg @ (drop ?n msg @ [b]))"
      by (metis append_assoc append_take_drop_id)
    also have "\<dots> = md5_blocks (md5_blocks s0 msg) (drop ?n msg @ [b])"
      by (subst md5_blocks_append) (simp_all add: min_absorb2 md5_blocks_full)
    also have "drop ?n msg @ [b] = ?inb"
      using inb True len by simp
    also have "md5_blocks (md5_blocks s0 msg) ?inb = Transform (ctx_buf ctx) (md5_words ?inb 16)"
      using len by (simp add: md5_blocks.simps [of _ ?inb] md5_blocks_short Transform_eq md5_words_le buf)
    finally have blocks: "md5_blocks s0 (msg @ [b]) = Transform (ctx_buf ctx) (md5_words ?inb 16)" .
    let ?ctx = "ctx\<lparr>ctx_in := ?inb, ctx_buf := Transform (ctx_buf ctx) (md5_words ?inb 16)\<rparr>"
    have rest: "drop (length (msg @ [b]) div 64 * 64) (msg @ [b]) = []"
      using full by (simp add: div)
    have "md5_has s0 (msg @ [b]) ?ctx"
      unfolding md5_has_def rest using len blocks m0 by simp
    moreover have "MD5_Update_loop ctx ?m (b # bs) = MD5_Update_loop ?ctx (length (msg @ [b]) mod 64) bs"
      using True m0 len by (simp add: arr_set_def)
    ultimately show ?thesis by (intro exI [of _ ?ctx]) simp
  next
    case False
    then have div: "Suc (length msg) div 64 = length msg div 64" and mod: "Suc (length msg) mod 64 = Suc ?m"
      by (simp_all add: div_Suc mod_Suc)
    have small: "md5_blocks s0 (msg @ [b]) = md5_blocks s0 msg"
      using md5_blocks_full [of s0 "msg @ [b]"] md5_blocks_full [of s0 msg] by (simp add: div)
    let ?ctx = "ctx\<lparr>ctx_in := ?inb\<rparr>"
    have "md5_has s0 (msg @ [b]) ?ctx"
      using len inb by (simp add: md5_has_def div mod small buf)
    moreover have "MD5_Update_loop ctx ?m (b # bs) = MD5_Update_loop ?ctx (length (msg @ [b]) mod 64) bs"
      using False by (simp add: set mod)
    ultimately show ?thesis by (intro exI [of _ ?ctx]) simp
  qed
qed

lemma md5_loop:
  assumes "md5_has s0 msg ctx"
  shows "\<exists>ctx'. MD5_Update_loop ctx (length msg mod 64) bs = Some ctx' \<and> md5_has s0 (msg @ bs) ctx' \<and>
      ctx_i0 ctx' = ctx_i0 ctx \<and> ctx_i1 ctx' = ctx_i1 ctx"
  using assms
proof (induction bs arbitrary: msg ctx)
  case (Cons b bs)
  obtain ctx1 where 1: "MD5_Update_loop ctx (length msg mod 64) (b # bs) =
      MD5_Update_loop ctx1 (length (msg @ [b]) mod 64) bs" "md5_has s0 (msg @ [b]) ctx1"
      "ctx_i0 ctx1 = ctx_i0 ctx" "ctx_i1 ctx1 = ctx_i1 ctx"
    using md5_loop_step [OF Cons.prems] by blast
  show ?case
    using Cons.IH [OF 1(2)] by (simp add: 1 del: MD5_Update_loop.simps)
qed simp


lemma md5_mdi_counts:
  assumes "md5_counts msg ctx" shows "md5_mdi ctx = length msg mod 64"
proof -
  have i0: "unat (ctx_i0 ctx) = 8 * length msg mod 2 ^ 32"
    using assms by (simp add: md5_counts_def unsigned_of_nat take_bit_eq_mod del: of_nat_mult)
  have "md5_mdi ctx = unat (take_bit 6 (drop_bit 3 (ctx_i0 ctx)))"
    by (simp add: md5_mdi_def take_bit_eq_mask mask_eq_exp_minus_1)
  also have "\<dots> = take_bit 6 (drop_bit 3 (unat (ctx_i0 ctx)))"
    using word32_less [of "ctx_i0 ctx"]
    by (simp add: unsigned_take_bit_eq unsigned_drop_bit_eq take_bit_nat_eq_self)
  also have "\<dots> = 8 * (length msg mod 2 ^ 29) div 8 mod 64"
    unfolding i0 mult_mod_right by (simp add: take_bit_eq_mod drop_bit_eq_div)
  also have "\<dots> = length msg mod 64"
    by (simp add: mod_mod_cancel)
  finally show ?thesis .
qed

lemma carry_iff:
  fixes a b M :: nat
  assumes "0 < M" shows "(a + b) mod M < a mod M \<longleftrightarrow> M \<le> a mod M + b mod M"
proof (cases "a mod M + b mod M < M")
  case True
  then have "(a + b) mod M = a mod M + b mod M"
    using mod_add_eq [of a M b] by simp
  then show ?thesis using True by simp
next
  case False
  then have "(a + b) mod M = a mod M + b mod M - M"
    using mod_add_eq [of a M b] assms mod_less_divisor [OF assms, of a] mod_less_divisor [OF assms, of b]
    by (simp add: mod_if [of "a mod M + b mod M"])
  then show ?thesis
    using False mod_less_divisor [OF assms, of b] by simp
qed

lemma carry_div:
  fixes a b M :: nat
  assumes "0 < M" shows "(a + b) div M = a div M + (if (a + b) mod M < a mod M then 1 else 0) + b div M"
proof -
  have "a mod M + b mod M < 2 * M"
    using mod_less_divisor [OF assms, of a] mod_less_divisor [OF assms, of b] by linarith
  then have "(a mod M + b mod M) div M = (if M \<le> a mod M + b mod M then 1 else 0)"
    using assms by (auto simp: div_if [of "a mod M + b mod M"])
  then show ?thesis
    by (simp add: div_add1_eq [of a b] carry_iff [OF assms])
qed

lemma MD5_Update_has:
  assumes "md5_has s0 msg ctx" and "md5_counts msg ctx" and "inLen \<le> length inBuf" and "inLen < 2 ^ 32"
  shows "\<exists>ctx'. MD5_Update ctx inBuf inLen = Some ctx' \<and> md5_has s0 (msg @ take inLen inBuf) ctx' \<and>
    md5_counts (msg @ take inLen inBuf) ctx'"
proof -
  let ?n = "word_of_nat inLen :: 32 word"
  let ?i0 = "ctx_i0 ctx + push_bit 3 ?n"
  let ?i1 = "ctx_i1 ctx + (if ?i0 < ctx_i0 ctx then 1 else 0) + drop_bit 29 ?n"
  let ?ctx = "ctx\<lparr>ctx_i0 := ?i0, ctx_i1 := ?i1\<rparr>"
  let ?a = "8 * length msg" and ?b = "8 * inLen"
  have i0: "?i0 = word_of_nat (?a + ?b)"
    using assms(2) by (simp add: md5_counts_def push_bit_eq_mult)
  have "drop_bit 29 ?n = word_of_nat (?b div 2 ^ 32)"
  proof -
    have "?b div (8 * 2 ^ 29) = inLen div 2 ^ 29" by (rule div_mult_mult1) simp
    then have "?b div 2 ^ 32 = inLen div 2 ^ 29" by simp
    moreover have "unat (drop_bit 29 ?n) = inLen div 2 ^ 29"
      using assms(4) unfolding unsigned_drop_bit_eq
      by (simp add: unsigned_of_nat take_bit_nat_eq_self drop_bit_eq_div)
    moreover have "inLen div 2 ^ 29 < 2 ^ 32"
      using assms(4) div_le_dividend [of inLen "2 ^ 29"] by linarith
    ultimately show ?thesis
      by (intro unsigned_word_eqI [where ?'a = nat]) (simp add: unsigned_of_nat take_bit_nat_eq_self)
  qed
  moreover have "?i0 < ctx_i0 ctx \<longleftrightarrow> (?a + ?b) mod 2 ^ 32 < ?a mod 2 ^ 32"
    using assms(2) unfolding i0 md5_counts_def
    by (simp add: word_less_nat_alt unsigned_of_nat take_bit_eq_mod del: of_nat_add of_nat_mult)
  ultimately have "?i1 = word_of_nat ((?a + ?b) div 2 ^ 32)"
    using assms(2) carry_div [of "2 ^ 32" ?a ?b] by (simp add: md5_counts_def)
  then have counts: "md5_counts (msg @ take inLen inBuf) ?ctx"
    using i0 assms(3) by (simp add: md5_counts_def min_absorb2 distrib_left)
  have "md5_has s0 msg ?ctx"
    using assms(1) by (simp add: md5_has_def)
  from md5_loop [OF this, of "take inLen inBuf"] obtain ctx' where
    "MD5_Update_loop ?ctx (length msg mod 64) (take inLen inBuf) = Some ctx'"
    "md5_has s0 (msg @ take inLen inBuf) ctx'" "ctx_i0 ctx' = ?i0" "ctx_i1 ctx' = ?i1"
    by auto
  then show ?thesis
    using counts assms(3)
    by (auto simp: MD5_Update_def Let_def md5_mdi_counts [OF assms(2)] mem_read_def md5_counts_def)
qed


lemma le_words_enc8: "le_words (le_enc 8 n) = [word_of_nat n, word_of_nat (n div 2 ^ 32)]"
proof -
  have split: "le_enc (j + k) n = le_enc j n @ le_enc k (n div 256 ^ j)" for j k n
    by (induction j arbitrary: n) (simp_all add: div_mult2_eq)
  have one: "le_words (le_enc 4 k) = [word_of_nat k]" for k
  proof -
    have kmod: "word_of_nat (k mod 2 ^ 32) = (word_of_nat k :: 32 word)"
      by (rule unsigned_word_eqI [where ?'a = nat]) (simp add: unsigned_of_nat take_bit_eq_mod)
    obtain a b c d where *: "le_enc 4 k = [a, b, c, d]"
      using length_4E [OF length_le_enc] .
    then have "le_dec [a, b, c, d] = k mod 2 ^ 32"
      using le_dec_le_enc [of 4 k] by simp
    then show ?thesis
      unfolding * le_words.simps by (metis kmod)
  qed
  have "le_enc 8 n = le_enc 4 n @ le_enc 4 (n div 2 ^ 32)"
    using split [of 4 4 n] by simp
  then show ?thesis
    by (simp add: le_words_append one)
qed

lemma md5_pad_eq:
  assumes "mdi = length msg mod 64" and "padLen = (if mdi < 56 then 56 - mdi else 120 - mdi)"
  shows "md5_pad msg = (msg @ take padLen PADDING) @ le_enc 8 (8 * length msg)"
    and "padLen \<le> 64" and "(length msg + padLen) mod 64 = 56"
proof -
  have mdi: "mdi < 64" using assms(1) by simp
  then have "padLen = Suc ((119 - mdi) mod 64)"
    by (auto simp: assms(2) mod_if)
  then show "md5_pad msg = (msg @ take padLen PADDING) @ le_enc 8 (8 * length msg)"
    by (simp add: md5_pad_def PADDING_def assms(1) min_def)
  show "padLen \<le> 64" using mdi by (cases "mdi < 56") (simp_all add: assms(2))
  show "(length msg + padLen) mod 64 = 56"
  proof -
    have "mdi + padLen = 56 \<or> mdi + padLen = 120"
      using mdi by (cases "mdi < 56") (simp_all add: assms(2))
    then show ?thesis
      using mod_add_left_eq [of "length msg" 64 padLen] assms(1) by auto
  qed
qed

lemma md5_out_le: "md5_out w = le_enc 4 (unat w)"
proof -
  have *: "(ucast (drop_bit n w AND 0xFF) :: byte) = word_of_nat (unat w div 2 ^ n)" for n
  proof -
    have "drop_bit n w AND 0xFF = take_bit 8 (drop_bit n w)"
      by (simp add: take_bit_eq_mask mask_eq_exp_minus_1)
    then show ?thesis
      by (intro bit_word_eqI) (auto simp: bit_simps drop_bit_eq_div [symmetric] dest: bit_imp_le_length)
  qed
  have "le_enc 4 n = [word_of_nat n, word_of_nat (n div 2 ^ 8), word_of_nat (n div 2 ^ 16), word_of_nat (n div 2 ^ 24)]" for n
  proof -
    have four: "(4 :: nat) = Suc (Suc (Suc (Suc 0)))" by simp
    show ?thesis
      unfolding four le_enc.simps div_mult2_eq [symmetric] by simp
  qed
  moreover have "(ucast (w AND 0xFF) :: byte) = word_of_nat (unat w)"
    using * [of 0] by (simp only: drop_bit_0 id_apply power_0 div_by_1)
  ultimately show ?thesis
    unfolding md5_out_def * by simp
qed

lemma MD5_Final_ref:
  assumes "md5_has s0 msg ctx" and "md5_counts msg ctx"
  shows "\<exists>ctx'. MD5_Final ctx = Some (case md5_blocks s0 (md5_pad msg) of (a, b, c, d) \<Rightarrow> words_le [a, b, c, d], ctx')"
proof -
  let ?m = "length msg mod 64"
  define padLen where "padLen = (if ?m < 56 then 56 - ?m else 120 - ?m)"
  define msg' where "msg' = msg @ take padLen PADDING"
  note pad = md5_pad_eq [OF refl padLen_def]
  have PAD: "length PADDING = 64" by (simp add: PADDING_def)
  obtain ctx1 where upd: "MD5_Update ctx PADDING padLen = Some ctx1" and has: "md5_has s0 msg' ctx1"
    using MD5_Update_has [OF assms, of padLen PADDING] pad(2) PAD by (auto simp: msg'_def)
  have len: "length msg' mod 64 = 56"
    using pad(2,3) PAD by (simp add: msg'_def min_absorb2)
  let ?full = "length msg' div 64 * 64"
  have in56: "take 56 (ctx_in ctx1) = drop ?full msg'" and in64: "length (ctx_in ctx1) = 64"
    and buf: "ctx_buf ctx1 = md5_blocks s0 msg'"
    using has len by (auto simp: md5_has_def)
  have words: "md5_words (ctx_in ctx1) 14 @ [ctx_i0 ctx, ctx_i1 ctx] =
      le_words (drop ?full msg' @ le_enc 8 (8 * length msg))"
    using assms(2) in64 in56 [symmetric] by (simp add: le_words_append md5_words_le le_words_enc8 md5_counts_def)
  have last: "length (drop ?full msg' @ le_enc 8 (8 * length msg)) = 64"
    using len by (simp add: minus_div_mult_eq_mod)
  have "md5_blocks s0 (md5_pad msg) = md5_blocks s0 (take ?full msg' @ (drop ?full msg' @ le_enc 8 (8 * length msg)))"
    unfolding pad(1) msg'_def [symmetric] by (metis append_assoc append_take_drop_id)
  also have "\<dots> = md5_blocks (md5_blocks s0 msg') (drop ?full msg' @ le_enc 8 (8 * length msg))"
    by (subst md5_blocks_append) (simp_all add: min_absorb2 md5_blocks_full)
  also have "\<dots> = Transform (ctx_buf ctx1) (md5_words (ctx_in ctx1) 14 @ [ctx_i0 ctx, ctx_i1 ctx])"
    unfolding words Transform_eq buf using last by (subst md5_blocks.simps) (simp add: md5_blocks_short)
  finally have blocks: "Transform (ctx_buf ctx1) (md5_words (ctx_in ctx1) 14 @ [ctx_i0 ctx, ctx_i1 ctx]) =
      md5_blocks s0 (md5_pad msg)" by simp
  show ?thesis
    using upd blocks unfolding MD5_Final_def md5_mdi_counts [OF assms(2)]
    by (auto simp: Let_def padLen_def md5_out_le words_le_def split: prod.splits)
qed


fun md5_update_all :: "MD5_CTX \<Rightarrow> byte list list \<Rightarrow> MD5_CTX option" where
  "md5_update_all ctx [] = Some ctx"
| "md5_update_all ctx (c # cs) = do { ctx \<leftarrow> MD5_Update ctx c (length c); md5_update_all ctx cs }"

lemma md5_update_all_has:
  assumes "md5_has s0 msg ctx" and "md5_counts msg ctx" and "\<And>c. c \<in> set cs \<Longrightarrow> length c < 2 ^ 32"
  shows "\<exists>ctx'. md5_update_all ctx cs = Some ctx' \<and> md5_has s0 (msg @ concat cs) ctx' \<and>
    md5_counts (msg @ concat cs) ctx'"
  using assms
proof (induction cs arbitrary: msg ctx)
  case (Cons c cs)
  obtain ctx1 where "MD5_Update ctx c (length c) = Some ctx1" "md5_has s0 (msg @ c) ctx1" "md5_counts (msg @ c) ctx1"
    using MD5_Update_has [OF Cons.prems(1,2), of "length c" c] Cons.prems(3) by auto
  moreover from this(2,3) obtain ctx2 where "md5_update_all ctx1 cs = Some ctx2"
      "md5_has s0 ((msg @ c) @ concat cs) ctx2" "md5_counts ((msg @ c) @ concat cs) ctx2"
    using Cons.IH [of "msg @ c" ctx1] Cons.prems(3) by auto
  ultimately show ?case by simp
qed simp

lemma MD5_stream:
  assumes "length (ctx_in ctx) = 64" and "\<And>c. c \<in> set cs \<Longrightarrow> length c < 2 ^ 32"
  shows "ensures (do { ctx \<leftarrow> md5_update_all (MD5_Init ctx) cs; MD5_Final ctx })
    (\<lambda>(digest, ctx'). digest = md5_ref (concat cs))"
proof -
  let ?s0 = "(0x67452301, 0xefcdab89, 0x98badcfe, 0x10325476)"
  have "md5_has ?s0 [] (MD5_Init ctx)" "md5_counts [] (MD5_Init ctx)"
    using assms(1) by (simp_all add: md5_has_def md5_counts_def MD5_Init_def md5_blocks_short)
  from md5_update_all_has [OF this assms(2)] obtain ctx1 where
    1: "md5_update_all (MD5_Init ctx) cs = Some ctx1" "md5_has ?s0 (concat cs) ctx1" "md5_counts (concat cs) ctx1"
    by auto
  show ?thesis
    using MD5_Final_ref [OF 1(2,3)] by (auto simp: 1(1) md5_ref_def)
qed

lemma length_md5_ref [simp]: "length (md5_ref msg) = 16"
  by (simp add: md5_ref_def split: prod.splits)

section \<open>A test vector\<close>

text \<open>The digest of \<^verbatim>\<open>abc\<close>, as in the test suite of RFC 1321.\<close>

lemma md5_op_rot: "0 < r \<Longrightarrow> r < 32 \<Longrightarrow> md5_op a b f r x ac = b + ROTATE_LEFT (a + f + x + ac) r"
  by (simp add: md5_op_def rotate_left_rotl)

lemma md5_block_abc:
  "md5_block (0x67452301, 0xefcdab89, 0x98badcfe, 0x10325476) [0x80636261, 0, 0, 0, 0, 0, 0, 0, 0, 0, 0, 0, 0, 0, 24, 0] =
   (0x98500190, 0xb04fd23c, 0x7d3f96d6, 0x727fe128)"
  by (simp add: md5_block_def upt_64 md5_step_op md5_op_rot ROTATE_LEFT_def F_basic_def G_basic_def H_basic_def
      I_basic_def md5_T_def)

lemma md5_ref_abc:
  "md5_ref [0x61, 0x62, 0x63] =
   [0x90, 0x01, 0x50, 0x98, 0x3c, 0xd2, 0x4f, 0xb0, 0xd6, 0x96, 0x3f, 0x7d, 0x28, 0xe1, 0x7f, 0x72]"
proof -
  have pad: "md5_pad [0x61, 0x62, 0x63] = [0x61, 0x62, 0x63, 0x80] @ replicate 52 0 @ le_enc 8 24"
    by (simp add: md5_pad_def)
  have z4: "replicate (4 + n) (0 :: byte) = 0 # 0 # 0 # 0 # replicate n 0" for n
    by (simp add: numeral_eq_Suc)
  have "le_words (replicate (4 * n) 0) = replicate n 0" for n
    by (induction n) (simp_all add: z4)
  from this [of 13] have z: "le_words (replicate 52 0) = replicate 13 0"
    by simp
  have z13: "replicate 13 (0 :: 32 word) = [0, 0, 0, 0, 0, 0, 0, 0, 0, 0, 0, 0, 0]"
    by (simp add: numeral_eq_Suc)
  have w: "le_words (md5_pad [0x61, 0x62, 0x63]) = [0x80636261, 0, 0, 0, 0, 0, 0, 0, 0, 0, 0, 0, 0, 0, 24, 0]"
    using le_words_append [of "[0x61, 0x62, 0x63, 0x80]" "replicate 52 0 @ le_enc 8 24"]
      le_words_append [of "replicate 52 0" "le_enc 8 24"]
    by (simp add: pad z z13 le_words_enc8)
  have len: "length (md5_pad [0x61, 0x62, 0x63]) = 64"
    by (simp add: pad)
  have "md5_blocks s (md5_pad [0x61, 0x62, 0x63]) = md5_block s (le_words (md5_pad [0x61, 0x62, 0x63]))" for s
    using len by (subst md5_blocks.simps) (simp add: md5_blocks_short)
  then have "md5_ref [0x61, 0x62, 0x63] = words_le [0x98500190, 0xb04fd23c, 0x7d3f96d6, 0x727fe128]"
    by (simp add: md5_ref_def w md5_block_abc)
  also have "words_le [0x98500190, 0xb04fd23c, 0x7d3f96d6, 0x727fe128] =
     le_enc 4 (0x98500190 :: nat) @ le_enc 4 0xb04fd23c @ le_enc 4 0x7d3f96d6 @ le_enc 4 0x727fe128"
    by (simp add: words_le_def)
  finally show ?thesis by (simp add: le_enc_4)
qed

end
