(* ===== verification/Mtdtool.thy ===== *)
theory Mtdtool
  imports Mtdsplit Crc32 Md5
begin

text \<open>
  The \<^verbatim>\<open>mtd\<close> tool (\<^verbatim>\<open>package/system/mtd/src\<close>), which writes firmware images to flash: the state of
  the program, the system calls it makes, and the functions of \<^verbatim>\<open>mtd.c\<close> that the other files of the
  tool call.

  The operating system is a parameter, the record \<open>mtd_sys\<close> of system calls on a state \<open>'w\<close>. A call
  that reads yields the bytes it stored in the buffer, or the failure; the \<^verbatim>\<open>ioctl\<close> calls and calls
  that write yield their return value. \<open>sys_open\<close> opens for reading and writing, \<open>sys_open_rd\<close> for
  reading. A shared mapping is the list of bytes \<open>sys_mmap\<close> yields;
  \<open>sys_msync\<close> stores it after it was modified. \<open>sys_malloc\<close> says whether an allocation of a given size
  succeeds. The locale \<open>mtd_chardev\<close> states what the tool relies on of a system whose MTD device is
  one flash: reads deliver the contents, erasing sets bits, and writing clears them.

  The tool is modelled for a 64-bit little-endian target (\<^verbatim>\<open>size_t\<close> has 64 bits, \<^verbatim>\<open>int\<close> has 32), without
  \<^verbatim>\<open>FIS_SUPPORT\<close>. Messages are left out, and with them \<^verbatim>\<open>quiet\<close>. A function that can end the program
  yields \<open>Exit\<close> with the exit code; \<open>None\<close> is undefined behaviour or a loop that does not end, as in
  the rest of the development.
\<close>

section \<open>The system\<close>

record mtd_info_user =
  miu_type :: nat
  miu_size :: nat
  miu_erasesize :: nat
  miu_writesize :: nat

definition MTD_NANDFLASH :: nat where "MTD_NANDFLASH = 4"

text \<open>The members of \<^verbatim>\<open>struct stat\<close> the tool uses.\<close>

record file_stat =
  st_mode :: nat
  st_size :: nat
  st_atime :: nat
  st_mtime :: nat
  st_ctime :: nat

record 'w mtd_sys =
  sys_malloc :: "nat \<Rightarrow> bool"
  sys_proc_mtd :: "'w \<Rightarrow> string list option"
  sys_open :: "string \<Rightarrow> 'w \<Rightarrow> int \<times> 'w"
  sys_open_rd :: "string \<Rightarrow> 'w \<Rightarrow> int \<times> 'w"
  sys_stat :: "string \<Rightarrow> 'w \<Rightarrow> file_stat option"
  sys_close :: "int \<Rightarrow> 'w \<Rightarrow> 'w"
  sys_MEMGETINFO :: "int \<Rightarrow> 'w \<Rightarrow> mtd_info_user option"
  sys_MEMGETBADBLOCK :: "int \<Rightarrow> int \<Rightarrow> 'w \<Rightarrow> int \<times> 'w"
  sys_MEMERASE :: "int \<Rightarrow> nat \<Rightarrow> nat \<Rightarrow> 'w \<Rightarrow> int \<times> 'w"
  sys_MEMUNLOCK :: "int \<Rightarrow> nat \<Rightarrow> nat \<Rightarrow> 'w \<Rightarrow> int \<times> 'w"
  sys_pread :: "int \<Rightarrow> nat \<Rightarrow> nat \<Rightarrow> 'w \<Rightarrow> byte list option \<times> 'w"
  sys_pwrite :: "int \<Rightarrow> byte list \<Rightarrow> nat \<Rightarrow> 'w \<Rightarrow> int \<times> 'w"
  sys_read :: "int \<Rightarrow> nat \<Rightarrow> 'w \<Rightarrow> (int + byte list) \<times> 'w"
  sys_write :: "int \<Rightarrow> byte list \<Rightarrow> 'w \<Rightarrow> int \<times> 'w"
  sys_lseek_set :: "int \<Rightarrow> int \<Rightarrow> 'w \<Rightarrow> 'w"
  sys_lseek_cur :: "int \<Rightarrow> int \<Rightarrow> 'w \<Rightarrow> 'w"
  sys_mmap :: "int \<Rightarrow> nat \<Rightarrow> 'w \<Rightarrow> byte list option"
  sys_msync :: "int \<Rightarrow> byte list \<Rightarrow> 'w \<Rightarrow> 'w"

section \<open>The program\<close>

text \<open>The variables of \<^verbatim>\<open>mtd.c\<close> the files of the tool share, and the state of the system.\<close>

record 'w tool =
  mtdsize :: int
  erasesize :: int
  mtdtype :: nat
  world :: 'w

datatype 'a outcome = Exit int | Ret 'a

type_synonym ('a, 'w) run = "('a outcome \<times> 'w tool) option"

definition exit1 :: "'w tool \<Rightarrow> ('a, 'w) run" where
  "exit1 t = Some (Exit 1, t)"

text \<open>Sequencing of calls that can end the program.\<close>

definition andthen ::
    "('a outcome \<times> 's) option \<Rightarrow> ('a \<Rightarrow> 's \<Rightarrow> ('b outcome \<times> 's) option) \<Rightarrow> ('b outcome \<times> 's) option" where
  "andthen m f = do {
     (r, t) \<leftarrow> m;
     case r of Exit c \<Rightarrow> Some (Exit c, t) | Ret x \<Rightarrow> f x t
   }"

lemma ensures_andthen:
  assumes "ensures m P" and "\<And>c t. P (Exit c, t) \<Longrightarrow> Q (Exit c, t)" and "\<And>x t. P (Ret x, t) \<Longrightarrow> ensures (f x t) Q"
  shows "ensures (andthen m f) Q"
  unfolding andthen_def using assms by (auto intro!: ensures_bindI [OF assms(1)] split: outcome.split)

text \<open>An \<^verbatim>\<open>int\<close> where a \<^verbatim>\<open>size_t\<close> is expected.\<close>

definition u64_of_int :: "int \<Rightarrow> nat" where
  "u64_of_int i = nat (i mod 2 ^ 64)"

text \<open>\<^verbatim>\<open>offset & ~(erasesize - 1)\<close>, with \<^verbatim>\<open>erasesize\<close> converted from \<^verbatim>\<open>int\<close> to \<^verbatim>\<open>size_t\<close>.\<close>

definition block_base :: "int \<Rightarrow> nat \<Rightarrow> nat" where
  "block_base es offset = unat (word_of_nat offset AND NOT (word_of_int (es - 1)) :: 64 word)"

section \<open>\<^verbatim>\<open>mtd.c\<close>\<close>

text \<open>
  \<^verbatim>\<open>sscanf(dev, "mtd%d:", &i)\<close>: \<open>None\<close> if the input ends before the number, in which case the result is
  not 0 but \<^verbatim>\<open>i\<close> is not set; otherwise the number, if there is one.
\<close>

definition is_space :: "char \<Rightarrow> bool" where
  "is_space c \<longleftrightarrow> c \<in> {CHR '' '', CHR 0x09, CHR 0x0A, CHR 0x0B, CHR 0x0C, CHR 0x0D}"

definition is_digit :: "char \<Rightarrow> bool" where
  "is_digit c \<longleftrightarrow> (48 :: nat) \<le> of_char c \<and> of_char c \<le> (57 :: nat)"

definition digits_value :: "string \<Rightarrow> int" where
  "digits_value s = foldl (\<lambda>n c. 10 * n + (of_char c - 48)) 0 s"

definition scan_int :: "string \<Rightarrow> int option option" where
  "scan_int s =
     (let s = dropWhile is_space s in
      if s = [] then None
      else (let (sgn, s) = (if hd s = CHR ''-'' then (- 1, tl s) else if hd s = CHR ''+'' then (1, tl s) else (1, s));
                ds = takeWhile is_digit s in
            if s = [] then None else if ds = [] then Some None else Some (Some (sgn * digits_value ds))))"

definition scan_mtd :: "string \<Rightarrow> int option option" where
  "scan_mtd line =
     (if length line < 3 \<and> take (length line) ''mtd'' = line then None
      else if take 3 line \<noteq> ''mtd'' then Some None
      else scan_int (drop 3 line))"

fun strstr :: "string \<Rightarrow> string \<Rightarrow> bool" where
  "strstr [] name = (name = [])"
| "strstr (c # cs) name = (take (length name) (c # cs) = name \<or> strstr cs name)"

fun show_nat :: "nat \<Rightarrow> string" where
  "show_nat n = (if n < 10 then [char_of (48 + n)] else show_nat (n div 10) @ [char_of (48 + n mod 10)])"

definition show_int :: "int \<Rightarrow> string" where
  "show_int i = (if i < 0 then CHR ''-'' # show_nat (nat (- i)) else show_nat (nat i))"

fun mtd_open_scan :: "'w mtd_sys \<Rightarrow> string \<Rightarrow> bool \<Rightarrow> string list \<Rightarrow> 'w tool \<Rightarrow> (int \<times> 'w tool) option" where
  "mtd_open_scan sys mtd block [] t =
     (case sys_open sys mtd (world t) of (fd, w) \<Rightarrow> Some (fd, t\<lparr>world := w\<rparr>))"
| "mtd_open_scan sys mtd block (line # lines) t = do {
     n \<leftarrow> scan_mtd line;
     case n of
       None \<Rightarrow> mtd_open_scan sys mtd block lines t
     | Some i \<Rightarrow>
         if \<not> strstr line (''\"'' @ mtd @ ''\"'') then mtd_open_scan sys mtd block lines t
         else (let pfx = ''/dev/mtd'' @ (if block then ''block'' else []);
                   (ret, w) = sys_open sys (pfx @ ''/'' @ show_int i) (world t) in
           if ret < 0
           then (case sys_open sys (pfx @ show_int i) w of (ret, w) \<Rightarrow> Some (ret, t\<lparr>world := w\<rparr>))
           else Some (ret, t\<lparr>world := w\<rparr>))
   }"

definition mtd_open :: "'w mtd_sys \<Rightarrow> string \<Rightarrow> bool \<Rightarrow> 'w tool \<Rightarrow> (int \<times> 'w tool) option" where
  "mtd_open sys mtd block t =
     mtd_open_scan sys mtd block
       (case sys_proc_mtd sys (world t) of None \<Rightarrow> [] | Some lines \<Rightarrow> lines) t"

definition mtd_check_open :: "'w mtd_sys \<Rightarrow> string \<Rightarrow> 'w tool \<Rightarrow> (int \<times> 'w tool) option" where
  "mtd_check_open sys mtd t = do {
     (fd, t) \<leftarrow> mtd_open sys mtd False t;
     if fd < 0 then Some (- 1, t)
     else (case sys_MEMGETINFO sys fd (world t) of
         None \<Rightarrow> Some (- 1, t\<lparr>world := sys_close sys fd (world t)\<rparr>)
       | Some mtdInfo \<Rightarrow>
           Some (fd, t\<lparr>mtdsize := s32 (miu_size mtdInfo), erasesize := s32 (miu_erasesize mtdInfo),
             mtdtype := miu_type mtdInfo\<rparr>))
   }"

definition mtd_block_is_bad :: "'w mtd_sys \<Rightarrow> int \<Rightarrow> int \<Rightarrow> 'w tool \<Rightarrow> (int, 'w) run" where
  "mtd_block_is_bad sys fd offset t =
     (if mtdtype t = MTD_NANDFLASH
      then (case sys_MEMGETBADBLOCK sys fd offset (world t) of (r, w) \<Rightarrow>
        if r < 0 then exit1 (t\<lparr>world := w\<rparr>) else Some (Ret r, t\<lparr>world := w\<rparr>))
      else Some (Ret 0, t))"

definition mtd_erase_block :: "'w mtd_sys \<Rightarrow> int \<Rightarrow> int \<Rightarrow> 'w tool \<Rightarrow> int \<times> 'w tool" where
  "mtd_erase_block sys fd offset t =
     (let start = u32_of_int offset; len = u32_of_int (erasesize t);
          (_, w) = sys_MEMUNLOCK sys fd start len (world t);
          (r, w) = sys_MEMERASE sys fd start len w in
      (if r < 0 then - 1 else 0, t\<lparr>world := w\<rparr>))"

definition mtd_write_buffer :: "'w mtd_sys \<Rightarrow> int \<Rightarrow> byte list \<Rightarrow> int \<Rightarrow> 'w tool \<Rightarrow> int \<times> 'w tool" where
  "mtd_write_buffer sys fd buf offset t =
     (let w = sys_lseek_set sys fd offset (world t);
          (_, w) = sys_write sys fd buf w in (0, t\<lparr>world := w\<rparr>))"

section \<open>Erase blocks\<close>

lemma block_base_eq:
  assumes "k < 63" and "off < 2 ^ 64"
  shows "block_base (2 ^ k) off = off div 2 ^ k * 2 ^ k"
proof -
  have "block_base (2 ^ k) off = unat (word_of_nat off AND NOT (mask k) :: 64 word)"
    by (simp add: block_base_def mask_eq_exp_minus_1)
  also have "\<dots> = push_bit k (drop_bit k off)"
  proof (rule bit_eqI)
    fix n
    have "bit off n \<Longrightarrow> n < 64"
      using assms(2) by (metis bit_take_bit_iff take_bit_nat_eq_self)
    then show "bit (unat (word_of_nat off AND NOT (mask k) :: 64 word)) n \<longleftrightarrow> bit (push_bit k (drop_bit k off)) n"
      by (auto simp: bit_simps)
  qed
  finally show ?thesis
    by (simp add: push_bit_eq_mult drop_bit_eq_div)
qed

section \<open>The interface of the MTD character device\<close>

text \<open>\<open>patch fl off bs\<close>: the bytes \<open>bs\<close> written over \<open>fl\<close> at \<open>off\<close>.\<close>

definition patch :: "byte list \<Rightarrow> nat \<Rightarrow> byte list \<Rightarrow> byte list" where
  "patch fl off bs = take off fl @ bs @ drop (off + length bs) fl"

definition same_outside :: "nat \<Rightarrow> nat \<Rightarrow> byte list \<Rightarrow> byte list \<Rightarrow> bool" where
  "same_outside off n fl fl' \<longleftrightarrow> length fl' = length fl \<and>
     (\<forall>i < length fl. i < off \<or> off + n \<le> i \<longrightarrow> fl' ! i = fl ! i)"

lemma length_patch [simp]: "off + length bs \<le> length fl \<Longrightarrow> length (patch fl off bs) = length fl"
  by (simp add: patch_def)

lemma nth_patch:
  "off + length bs \<le> length fl \<Longrightarrow> i < length fl \<Longrightarrow>
   patch fl off bs ! i = (if off \<le> i \<and> i < off + length bs then bs ! (i - off) else fl ! i)"
  by (auto simp: patch_def nth_append min_def)

lemma same_outside_refl [simp]: "same_outside off n fl fl"
  by (simp add: same_outside_def)

lemma same_outside_trans:
  "same_outside off n a b \<Longrightarrow> same_outside off n b c \<Longrightarrow> same_outside off n a c"
  by (auto simp: same_outside_def)

lemma same_outside_patch: "off + length bs \<le> length fl \<Longrightarrow> length bs = n \<Longrightarrow> same_outside off n fl (patch fl off bs)"
  by (auto simp: same_outside_def nth_patch)

lemma patch_patch: "length a = length b \<Longrightarrow> off + length a \<le> length fl \<Longrightarrow> patch (patch fl off a) off b = patch fl off b"
  by (rule nth_equalityI) (auto simp: nth_patch)

lemma patch_same: "off + n \<le> length fl \<Longrightarrow> patch fl off (take n (drop off fl)) = fl"
  by (rule nth_equalityI) (auto simp: nth_patch min_absorb2)

lemma slice_patch_same: "off + length bs \<le> length fl \<Longrightarrow> length bs = n \<Longrightarrow> take n (drop off (patch fl off bs)) = bs"
  by (auto simp: patch_def)

lemma slice_same_outside:
  assumes "same_outside off n fl fl'" and "p + k \<le> off \<or> off + n \<le> p" and "p + k \<le> length fl"
  shows "take k (drop p fl') = take k (drop p fl)"
  using assms by (intro nth_equalityI) (auto simp: same_outside_def)

lemma same_outsideI:
  "length fl' = length fl \<Longrightarrow> (\<And>i. i < length fl \<Longrightarrow> i < off \<or> off + n \<le> i \<Longrightarrow> fl' ! i = fl ! i) \<Longrightarrow> same_outside off n fl fl'"
  by (auto simp: same_outside_def)

text \<open>Only the bytes at positions in \<open>A\<close> may have changed.\<close>

definition changes_in :: "nat set \<Rightarrow> byte list \<Rightarrow> byte list \<Rightarrow> bool" where
  "changes_in A fl fl' \<longleftrightarrow> length fl' = length fl \<and> (\<forall>i < length fl. i \<notin> A \<longrightarrow> fl' ! i = fl ! i)"

lemma changes_in_refl [simp]: "changes_in A fl fl"
  by (simp add: changes_in_def)

lemma changes_in_patch2:
  assumes "off + length a \<le> length fl" and "p + length b \<le> length fl"
  shows "changes_in ({off..<off + length a} \<union> {p..<p + length b}) fl (patch (patch fl off a) p b)"
  using assms by (auto simp: changes_in_def nth_patch)

lemma patch_block:
  "off + length bs \<le> n \<Longrightarrow> n \<le> length fl \<Longrightarrow> patch fl 0 (patch (take n fl) off bs) = patch fl off bs"
  by (rule nth_equalityI) (auto simp: nth_patch)

lemma patch_block2:
  assumes "off + length bs \<le> n" and "p + length cs \<le> n" and "n \<le> length fl"
  shows "patch fl 0 (patch (patch (take n fl) off bs) p cs) = patch (patch fl off bs) p cs"
  using assms by (intro nth_equalityI) (auto simp: nth_patch)

lemma bytes_at_patch_other:
  assumes "off + length bs \<le> length fl" and "p + k \<le> off \<or> off + length bs \<le> p"
  shows "bytes_at (patch fl off bs) p k = bytes_at fl p k"
  using assms by (intro nth_equalityI) (auto simp: bytes_at_def nth_patch)

lemma bytes_at_patch_same: "off + length bs \<le> length fl \<Longrightarrow> k = length bs \<Longrightarrow> bytes_at (patch fl off bs) off k = bs"
  by (simp add: bytes_at_def patch_def)

lemma bytes_at_take: "p + k \<le> n \<Longrightarrow> bytes_at (take n fl) p k = bytes_at fl p k"
  by (simp add: bytes_at_def take_drop min_absorb1 add.commute)

lemma bytes_at_slice: "p + k \<le> n \<Longrightarrow> bytes_at (take n (drop b fl)) p k = bytes_at fl (b + p) k"
  by (simp add: bytes_at_def drop_take min_absorb1 add.commute)

lemma patch_block_at:
  assumes "p + length a \<le> n" and "q + length b \<le> n" and "bo + n \<le> length fl"
  shows "patch fl bo (patch (patch (take n (drop bo fl)) p a) q b) = patch (patch fl (bo + p) a) (bo + q) b"
  using assms by (intro nth_equalityI) (auto simp: nth_patch)

lemma mem_write_patch: "off + length bs \<le> length buf \<Longrightarrow> mem_write buf off bs = Some (patch buf off bs)"
  by (simp add: mem_write_def patch_def)

lemma mem_read_bytes: "off + n \<le> length buf \<Longrightarrow> mem_read buf off n = Some (bytes_at buf off n)"
  by (simp add: mem_read_def bytes_at_def)

text \<open>The variables of the tool after the device was opened.\<close>

definition tool_opened :: "mtd_info_user \<Rightarrow> 'w tool \<Rightarrow> bool" where
  "tool_opened info t \<longleftrightarrow> mtdsize t = int (miu_size info) \<and> erasesize t = int (miu_erasesize info) \<and>
     mtdtype t = miu_type info"

text \<open>
  \<open>isdev\<close> are the file descriptors of the device, \<open>flash\<close> is its contents, \<open>bad\<close> its bad erase
  blocks. Every path that can be opened for reading and writing is the device: the system has one.
\<close>

locale mtd_chardev =
  fixes sys :: "'w mtd_sys" and isdev :: "int \<Rightarrow> bool" and flash :: "'w \<Rightarrow> byte list"
    and info :: mtd_info_user and bad :: "nat \<Rightarrow> bool"
  assumes size_less: "miu_size info < 2 ^ 31"
    and erasesize_exp: "\<exists>k < 31. miu_erasesize info = 2 ^ k"
    and flash_size: "length (flash w) = miu_size info"
    and proc_mtd: "sys_proc_mtd sys w = Some lines \<Longrightarrow> line \<in> set lines \<Longrightarrow> scan_mtd line \<noteq> None"
    and open_dev: "sys_open sys path w = (fd, w') \<Longrightarrow> flash w' = flash w \<and> (0 \<le> fd \<longrightarrow> isdev fd)"
    and close_dev: "flash (sys_close sys fd w) = flash w"
    and no_info: "fd < 0 \<Longrightarrow> sys_MEMGETINFO sys fd w = None"
    and get_info: "isdev fd \<Longrightarrow> sys_MEMGETINFO sys fd w = Some i \<Longrightarrow> i = info"
    and get_bad: "isdev fd \<Longrightarrow> sys_MEMGETBADBLOCK sys fd (int off) w = (r, w') \<Longrightarrow>
      flash w' = flash w \<and> (0 \<le> r \<longrightarrow> (r \<noteq> 0 \<longleftrightarrow> bad off))"
    and unlock: "sys_MEMUNLOCK sys fd off n w = (r, w') \<Longrightarrow> flash w' = flash w"
    and erase: "isdev fd \<Longrightarrow> sys_MEMERASE sys fd off n w = (r, w') \<Longrightarrow>
      same_outside off n (flash w) (flash w') \<and>
      (0 \<le> r \<longrightarrow> off + n \<le> miu_size info \<and> flash w' = patch (flash w) off (replicate n 0xFF))"
    and pread: "isdev fd \<Longrightarrow> sys_pread sys fd n off w = (res, w') \<Longrightarrow>
      flash w' = flash w \<and> (\<forall>bs. res = Some bs \<longrightarrow> length bs \<le> n \<and> bs = take (length bs) (drop off (flash w)))"
    and pwrite: "isdev fd \<Longrightarrow> sys_pwrite sys fd bs off w = (r, w') \<Longrightarrow>
      same_outside off (length bs) (flash w) (flash w') \<and>
      (r = int (length bs) \<longrightarrow> off + length bs \<le> miu_size info \<and>
         flash w' = patch (flash w) off (map2 (AND) bs (take (length bs) (drop off (flash w)))))"
begin

abbreviation es :: nat where "es \<equiv> miu_erasesize info"

lemma es_pos: "0 < es" and es_less: "es < 2 ^ 31"
  using erasesize_exp power_strict_increasing [of _ 31 "2 :: nat"] by auto

lemma block_base_es: "off < 2 ^ 64 \<Longrightarrow> block_base (int es) off = off div es * es"
  using erasesize_exp block_base_eq by auto

abbreviation opened :: "'w tool \<Rightarrow> bool" where "opened \<equiv> tool_opened info"

text \<open>Opening keeps the contents and yields a descriptor of the device.\<close>

definition opens :: "'w tool \<Rightarrow> int \<times> 'w tool \<Rightarrow> bool" where
  "opens t r \<longleftrightarrow> flash (world (snd r)) = flash (world t) \<and> (0 \<le> fst r \<longrightarrow> isdev (fst r))"

lemma sys_open_ok: "sys_open sys path w = (fd, w') \<Longrightarrow> flash w = flash (world t) \<Longrightarrow> opens t (fd, t\<lparr>world := w'\<rparr>)"
  by (auto simp: opens_def dest: open_dev)

lemma open_scan_ok:
  assumes "\<And>line. line \<in> set lines \<Longrightarrow> scan_mtd line \<noteq> None"
  shows "ensures (mtd_open_scan sys mtd block lines t) (opens t)"
  using assms
proof (induction lines)
  case Nil
  then show ?case
    by (auto intro: sys_open_ok split: prod.split)
next
  case (Cons line lines)
  then obtain n where n: "scan_mtd line = Some n"
    by (metis list.set_intros(1) option.exhaust)
  have IH: "ensures (mtd_open_scan sys mtd block lines t) (opens t)"
    using Cons by simp
  have dev: "ensures (let (ret, w) = sys_open sys p (world t) in
      if ret < 0 then (case sys_open sys q w of (ret, w) \<Rightarrow> Some (ret, t\<lparr>world := w\<rparr>))
      else Some (ret, t\<lparr>world := w\<rparr>)) (opens t)" for p q
    by (auto intro: sys_open_ok dest: open_dev split: prod.split)
  show ?case
    using IH dev by (cases block) (simp_all add: n Let_def split: option.split)
qed

lemma open_ok: "ensures (mtd_open sys mtd block t) (opens t)"
  unfolding mtd_open_def
  by (rule open_scan_ok) (use proc_mtd [of "world t"] in \<open>cases "sys_proc_mtd sys (world t)"; auto\<close>)

lemma check_open_ok:
  "ensures (mtd_check_open sys mtd t) (\<lambda>(fd, t').
     flash (world t') = flash (world t) \<and> (0 \<le> fd \<longrightarrow> isdev fd \<and> opened t'))"
  unfolding mtd_check_open_def
proof (rule ensures_bindI [OF open_ok])
  fix r assume "opens t r"
  then obtain fd t' where r: "r = (fd, t')" and fl: "flash (world t') = flash (world t)" and fd: "0 \<le> fd \<longrightarrow> isdev fd"
    by (cases r) (simp add: opens_def)
  show "ensures (case r of (fd, t) \<Rightarrow> if fd < 0 then Some (- 1, t)
      else (case sys_MEMGETINFO sys fd (world t) of
          None \<Rightarrow> Some (- 1, t\<lparr>world := sys_close sys fd (world t)\<rparr>)
        | Some mtdInfo \<Rightarrow> Some (fd, t\<lparr>mtdsize := s32 (miu_size mtdInfo),
            erasesize := s32 (miu_erasesize mtdInfo), mtdtype := miu_type mtdInfo\<rparr>)))
    (\<lambda>(fd, t'). flash (world t') = flash (world t) \<and> (0 \<le> fd \<longrightarrow> isdev fd \<and> opened t'))"
  proof (cases "fd < 0")
    case False
    then show ?thesis
      using fl fd get_info [of fd "world t'"] size_less es_less
      by (cases "sys_MEMGETINFO sys fd (world t')") (simp_all add: r close_dev tool_opened_def s32_id)
  qed (simp add: r fl)
qed

lemma erase_block_ok:
  assumes "isdev fd" and "opened t" and "off < 2 ^ 31" and "mtd_erase_block sys fd (int off) t = (r, t')"
  shows "opened t' \<and> same_outside off es (flash (world t)) (flash (world t')) \<and>
    (r = 0 \<longrightarrow> off + es \<le> miu_size info \<and> flash (world t') = patch (flash (world t)) off (replicate es 0xFF))"
proof -
  have u: "u32_of_int (int off) = off" "u32_of_int (erasesize t) = es"
    using assms(2,3) es_less by (simp_all add: tool_opened_def u32_of_int_nonneg)
  obtain r1 w1 where 1: "sys_MEMUNLOCK sys fd off es (world t) = (r1, w1)"
    by fastforce
  obtain r2 w2 where 2: "sys_MEMERASE sys fd off es w1 = (r2, w2)"
    by fastforce
  have "r = (if r2 < 0 then - 1 else 0)" and "t' = t\<lparr>world := w2\<rparr>"
    using assms(4) by (simp_all add: mtd_erase_block_def Let_def u 1 2)
  then show ?thesis
    using erase [OF assms(1) 2] unlock [OF 1] assms(2) by (simp add: tool_opened_def split: if_splits)
qed

end

end
