(* ===== verification/Mtdtool_Fix.thy ===== *)
theory Mtdtool_Fix
  imports Mtdtool
begin

text \<open>
  The commands of the \<^verbatim>\<open>mtd\<close> tool that repair the header of an image on flash after the file system
  behind it has changed: \<^verbatim>\<open>fixtrx\<close> (\<^verbatim>\<open>trx.c\<close>), \<^verbatim>\<open>fixseama\<close> (\<^verbatim>\<open>seama.c\<close>), \<^verbatim>\<open>fixwrg\<close> (\<^verbatim>\<open>wrg.c\<close>) and
  \<^verbatim>\<open>fixwrgg\<close> (\<^verbatim>\<open>wrgg.c\<close>). Each reads the erase block with the header, computes the checksum of the
  data, and erases and rewrites the block with the new length and checksum.

  A header is modified in the buffer that holds the block; a pointer to it is its offset there.
\<close>

section \<open>Headers in a buffer\<close>

definition load16 :: "byte list \<Rightarrow> nat \<Rightarrow> nat option" where
  "load16 buf off = map_option le_dec (mem_read buf off 2)"

definition load32 :: "byte list \<Rightarrow> nat \<Rightarrow> nat option" where
  "load32 buf off = map_option le_dec (mem_read buf off 4)"

definition store32 :: "byte list \<Rightarrow> nat \<Rightarrow> nat \<Rightarrow> byte list option" where
  "store32 buf off n = mem_write buf off (le_enc 4 n)"

text \<open>\<^verbatim>\<open>crc32buf\<close> of \<^verbatim>\<open>crc32.h\<close>; the length is converted to \<^verbatim>\<open>int\<close>.\<close>

definition crc32buf :: "byte list \<Rightarrow> nat \<Rightarrow> 32 word" where
  "crc32buf buf len = crc32 0xFFFFFFFF (take (nat (s32 len)) buf)"

text \<open>An MD5 context on the stack; \<^verbatim>\<open>MD5_Init\<close> does not initialise its input buffer.\<close>

definition md5_stack_ctx :: MD5_CTX where
  "md5_stack_ctx = \<lparr>ctx_i0 = 0, ctx_i1 = 0, ctx_buf = (0, 0, 0, 0), ctx_in = replicate 64 0,
     ctx_digest = replicate 16 0\<rparr>"

section \<open>Reading and rewriting the block of a header\<close>

text \<open>
  The start of \<^verbatim>\<open>mtd_fixseama\<close>, \<^verbatim>\<open>mtd_fixwrg\<close> and \<^verbatim>\<open>mtd_fixwrgg\<close>. The block of the header is computed
  with the erase block size of the device that was opened before, if any.
\<close>

definition fix_read_block ::
    "'w mtd_sys \<Rightarrow> string \<Rightarrow> nat \<Rightarrow> 'w tool \<Rightarrow> (int \<times> byte list \<times> nat \<times> nat, 'w) run" where
  "fix_read_block sys mtd offset t =
     (let block_offset = block_base (erasesize t) offset;
          offset = sub64 offset block_offset in do {
        (fd, t) \<leftarrow> mtd_check_open sys mtd t;
        if fd < 0 then exit1 t
        else if u64 (block_offset + u64_of_int (erasesize t)) > u64_of_int (mtdsize t) then exit1 t
        else if \<not> sys_malloc sys (u64_of_int (erasesize t)) then exit1 t
        else (case sys_pread sys fd (u64_of_int (erasesize t)) block_offset (world t) of
            (None, w) \<Rightarrow> exit1 (t\<lparr>world := w\<rparr>)
          | (Some first_block, w) \<Rightarrow>
              if int (length first_block) \<noteq> erasesize t then exit1 (t\<lparr>world := w\<rparr>)
              else Some (Ret (fd, first_block, block_offset, offset), t\<lparr>world := w\<rparr>))
      })"

definition fix_write_block ::
    "'w mtd_sys \<Rightarrow> int \<Rightarrow> byte list \<Rightarrow> nat \<Rightarrow> 'w tool \<Rightarrow> (int, 'w) run" where
  "fix_write_block sys fd first_block block_offset t =
     (let (err, t) = mtd_erase_block sys fd (s32 block_offset) t in
      if err \<noteq> 0 then exit1 t
      else (case sys_pwrite sys fd first_block block_offset (world t) of (n, w) \<Rightarrow>
        if n \<noteq> erasesize t then exit1 (t\<lparr>world := w\<rparr>)
        else Some (Ret 0, t\<lparr>world := sys_close sys fd w\<rparr>)))"

section \<open>\<^verbatim>\<open>trx.c\<close>\<close>

definition TRX_HDR0 :: nat where "TRX_HDR0 = 0x30524448"
definition TRX_CRC32_DATA_OFFSET :: nat where "TRX_CRC32_DATA_OFFSET = 12"
definition TRX_CRC32_DATA_SIZE :: nat where "TRX_CRC32_DATA_SIZE = 16"
definition TRX_OFF_LEN :: nat where "TRX_OFF_LEN = 4"
definition TRX_OFF_CRC32 :: nat where "TRX_OFF_CRC32 = 8"

text \<open>\<^verbatim>\<open>data_offset & (erasesize - 1)\<close>.\<close>

definition block_rest :: "int \<Rightarrow> nat \<Rightarrow> nat" where
  "block_rest es offset = unat (word_of_nat offset AND word_of_int (es - 1) :: 64 word)"

text \<open>The loop that collects the data of good blocks; \<open>buf\<close> is what lies below \<^verbatim>\<open>to\<close>.\<close>

partial_function (option) fixtrx_data ::
    "'w mtd_sys \<Rightarrow> int \<Rightarrow> nat \<Rightarrow> nat \<Rightarrow> byte list \<Rightarrow> 'w tool \<Rightarrow> (byte list outcome \<times> 'w tool) option" where [code]:
  "fixtrx_data sys fd data_offset data_size buf t =
     (if data_size = 0 then Some (Ret buf, t)
      else (let read_block_offset = block_base (erasesize t) data_offset;
                read_chunk = min (sub64 (u64_of_int (erasesize t)) (block_rest (erasesize t) data_offset)) data_size;
                data_offset' = u64 (data_offset + read_chunk);
                data_size' = data_size - read_chunk in do {
          (r, t) \<leftarrow> mtd_block_is_bad sys fd (s32 read_block_offset) t;
          case r of
            Exit c \<Rightarrow> Some (Exit c, t)
          | Ret bad \<Rightarrow>
              if bad \<noteq> 0 then fixtrx_data sys fd data_offset' data_size' buf t
              else (case sys_pread sys fd read_chunk data_offset (world t) of
                  (None, w) \<Rightarrow> exit1 (t\<lparr>world := w\<rparr>)
                | (Some bs, w) \<Rightarrow>
                    if length bs \<noteq> read_chunk then exit1 (t\<lparr>world := w\<rparr>)
                    else fixtrx_data sys fd data_offset' data_size' (buf @ bs) (t\<lparr>world := w\<rparr>))
        }))"

definition trx_rewrite ::
    "'w mtd_sys \<Rightarrow> int \<Rightarrow> byte list \<Rightarrow> nat \<Rightarrow> nat \<Rightarrow> nat \<Rightarrow> nat \<Rightarrow> 'w tool \<Rightarrow> (int, 'w) run" where
  "trx_rewrite sys fd first_block block_offset offset data_offset data_size t = do {
     magic \<leftarrow> load32 first_block offset;
     if magic \<noteq> TRX_HDR0 then exit1 t
     else if \<not> sys_malloc sys data_size then exit1 t
     else andthen (fixtrx_data sys fd data_offset data_size [] t) (\<lambda>buf t. do {
       len \<leftarrow> load32 first_block (offset + TRX_OFF_LEN);
       crc \<leftarrow> load32 first_block (offset + TRX_OFF_CRC32);
       let data_size = length buf;
       if len = u64 (data_size + TRX_CRC32_DATA_OFFSET) \<and> crc = unat (crc32buf buf data_size)
       then Some (Ret 0, t\<lparr>world := sys_close sys fd (world t)\<rparr>)
       else do {
         first_block \<leftarrow> store32 first_block (offset + TRX_OFF_LEN) (u32 (data_size + TRX_CRC32_DATA_OFFSET));
         first_block \<leftarrow> store32 first_block (offset + TRX_OFF_CRC32) (unat (crc32buf buf data_size));
         fix_write_block sys fd first_block block_offset t
       }
     })
   }"

definition mtd_fixtrx :: "'w mtd_sys \<Rightarrow> string \<Rightarrow> nat \<Rightarrow> nat \<Rightarrow> 'w tool \<Rightarrow> (int, 'w) run" where
  "mtd_fixtrx sys mtd offset data_size t = do {
     (fd, t) \<leftarrow> mtd_check_open sys mtd t;
     if fd < 0 then exit1 t
     else (let data_offset = u64 (offset + TRX_CRC32_DATA_OFFSET);
               data_size = (if data_size \<noteq> 0 then u64 (data_size + TRX_CRC32_DATA_SIZE)
                            else u64_of_int (erasesize t - int TRX_CRC32_DATA_OFFSET));
               block_offset = block_base (erasesize t) offset;
               offset = sub64 offset block_offset in
       if u64 (data_offset + data_size) > u64_of_int (mtdsize t) then exit1 t
       else if \<not> sys_malloc sys (u64_of_int (erasesize t)) then exit1 t
       else (case sys_pread sys fd (u64_of_int (erasesize t)) block_offset (world t) of
           (None, w) \<Rightarrow> exit1 (t\<lparr>world := w\<rparr>)
         | (Some first_block, w) \<Rightarrow>
             if int (length first_block) \<noteq> erasesize t then exit1 (t\<lparr>world := w\<rparr>)
             else trx_rewrite sys fd first_block block_offset offset data_offset data_size (t\<lparr>world := w\<rparr>)))
   }"

text \<open>
  The two functions the write command calls: \<open>trx_fixup\<close> through a mapping of the block device, and
  the check of an image before it is written. \<open>trx_check\<close> yields its result and the buffer.
\<close>

definition trx_fixup :: "'w mtd_sys \<Rightarrow> int \<Rightarrow> string \<Rightarrow> 'w tool \<Rightarrow> (int \<times> 'w tool) option" where
  "trx_fixup sys fd name t =
     (case sys_MEMGETINFO sys fd (world t) of
        None \<Rightarrow> Some (- 1, t)
      | Some mtdInfo \<Rightarrow>
          if miu_size mtdInfo = 0 then Some (- 1, t)
          else do {
            (bfd, t) \<leftarrow> mtd_open sys name True t;
            case sys_mmap sys bfd (miu_size mtdInfo) (world t) of
              None \<Rightarrow> Some (- 1, t\<lparr>world := sys_close sys bfd (world t)\<rparr>)
            | Some ptr \<Rightarrow> do {
                magic \<leftarrow> load32 ptr 0;
                if magic \<noteq> TRX_HDR0 then Some (- 1, t)
                else do {
                  len \<leftarrow> load32 ptr TRX_OFF_LEN;
                  let n = nat (s32 (sub64 len TRX_CRC32_DATA_OFFSET));
                  scan \<leftarrow> mem_read ptr TRX_CRC32_DATA_OFFSET n;
                  ptr \<leftarrow> store32 ptr TRX_OFF_CRC32 (unat (crc32 0xFFFFFFFF scan));
                  Some (0, t\<lparr>world := sys_close sys bfd (sys_msync sys bfd ptr (world t))\<rparr>)
                }
              }
          })"

definition sizeof_trx_hdr :: nat where "sizeof_trx_hdr = 28"

definition trx_check ::
    "'w mtd_sys \<Rightarrow> int \<Rightarrow> string \<Rightarrow> byte list \<Rightarrow> int \<Rightarrow> 'w tool \<Rightarrow> (int \<times> byte list \<times> int, 'w) run" where
  "trx_check sys imagefd mtd buf len t =
     (if mtd \<noteq> ''firmware'' then Some (Ret (1, buf, len), t)
      else do {
        (buf, len, t) \<leftarrow>
          (if len < 32
           then (case sys_read sys imagefd (nat (32 - len)) (world t) of
               (Inl err, w) \<Rightarrow> Some (buf, len - 1, t\<lparr>world := w\<rparr>)
             | (Inr bs, w) \<Rightarrow> do {
                 buf \<leftarrow> mem_write buf (nat len) bs;
                 Some (buf, len + int (length bs), t\<lparr>world := w\<rparr>)
               })
           else Some (buf, len, t));
        if len < 32 then Some (Ret (0, buf, len), t)
        else do {
          magic \<leftarrow> load32 buf 0;
          trx_len \<leftarrow> load32 buf TRX_OFF_LEN;
          if magic \<noteq> TRX_HDR0 \<or> trx_len < sizeof_trx_hdr then Some (Ret (0, buf, len), t)
          else do {
            (fd, t) \<leftarrow> mtd_check_open sys mtd t;
            if fd < 0 then exit1 t
            else (let t' = t\<lparr>world := sys_close sys fd (world t)\<rparr> in
              if u32_of_int (mtdsize t) < trx_len then Some (Ret (0, buf, len), t')
              else Some (Ret (1, buf, len), t'))
          }
        }
      })"

section \<open>\<^verbatim>\<open>seama.c\<close>\<close>

definition SEAMA_HDR_MAGIC :: nat where "SEAMA_HDR_MAGIC = 0x5EA3A417"
definition SEAMA_OFF_METASIZE :: nat where "SEAMA_OFF_METASIZE = 6"
definition SEAMA_OFF_SIZE :: nat where "SEAMA_OFF_SIZE = 8"
definition SEAMA_OFF_MD5 :: nat where "SEAMA_OFF_MD5 = 12"
definition sizeof_seama_entity_header :: nat where "sizeof_seama_entity_header = 28"

text \<open>
  \<^verbatim>\<open>htonl\<close> and \<^verbatim>\<open>ntohl\<close> swap the bytes, as \<open>be32_to_cpu\<close> does. The functions \<open>fix_md5\<close> yield their
  result and the block with the updated header.
\<close>

definition fix_md5_data :: "'w mtd_sys \<Rightarrow> int \<Rightarrow> nat \<Rightarrow> nat \<Rightarrow> 'w tool \<Rightarrow> (int + byte list) \<times> 'w tool" where
  "fix_md5_data sys fd data_offset data_size t =
     (if \<not> sys_malloc sys data_size then (Inl (- ENOMEM), t)
      else (case sys_pread sys fd data_size data_offset (world t) of
          (None, w) \<Rightarrow> (Inl (- EIO), t\<lparr>world := w\<rparr>)
        | (Some buf, w) \<Rightarrow>
            if length buf \<noteq> data_size then (Inl (- EIO), t\<lparr>world := w\<rparr>)
            else (Inr buf, t\<lparr>world := w\<rparr>)))"

definition seama_fix_md5 ::
    "'w mtd_sys \<Rightarrow> byte list \<Rightarrow> nat \<Rightarrow> int \<Rightarrow> nat \<Rightarrow> nat \<Rightarrow> 'w tool \<Rightarrow> (int \<times> byte list \<times> 'w tool) option" where
  "seama_fix_md5 sys block shdr fd data_offset data_size t =
     (case fix_md5_data sys fd data_offset data_size t of
        (Inl err, t) \<Rightarrow> Some (err, block, t)
      | (Inr buf, t) \<Rightarrow> do {
          ctx \<leftarrow> MD5_Update (MD5_Init md5_stack_ctx) buf (u32 data_size);
          (digest, _) \<leftarrow> MD5_Final ctx;
          md5 \<leftarrow> mem_read block (shdr + SEAMA_OFF_MD5) 16;
          if digest = md5 then Some (- 1, block, t)
          else do {
            block \<leftarrow> store32 block (shdr + SEAMA_OFF_SIZE) (be32_to_cpu (u32 data_size));
            block \<leftarrow> mem_write block (shdr + SEAMA_OFF_MD5) digest;
            Some (0, block, t)
          }
        })"

definition seama_rewrite ::
    "'w mtd_sys \<Rightarrow> nat \<Rightarrow> int \<Rightarrow> byte list \<Rightarrow> nat \<Rightarrow> nat \<Rightarrow> 'w tool \<Rightarrow> (int, 'w) run" where
  "seama_rewrite sys data_size fd first_block block_offset shdr t = do {
     magic \<leftarrow> load32 first_block shdr;
     if magic \<noteq> be32_to_cpu SEAMA_HDR_MAGIC then exit1 t
     else do {
     size \<leftarrow> load32 first_block (shdr + SEAMA_OFF_SIZE);
     if be32_to_cpu size = 0 then exit1 t
     else do {
       metasize \<leftarrow> load16 first_block (shdr + SEAMA_OFF_METASIZE);
       let data_offset = u64 (shdr + sizeof_seama_entity_header + be16_to_cpu metasize);
       let data_size = (if data_size = 0 then sub64 (u64_of_int (mtdsize t)) data_offset else data_size);
       let data_size = (if data_size > be32_to_cpu size then be32_to_cpu size else data_size);
       (err, first_block, t) \<leftarrow> seama_fix_md5 sys first_block shdr fd data_offset data_size t;
       if err \<noteq> 0 then Some (Ret 0, t\<lparr>world := sys_close sys fd (world t)\<rparr>)
       else fix_write_block sys fd first_block block_offset t
     }}
   }"

definition mtd_fixseama :: "'w mtd_sys \<Rightarrow> string \<Rightarrow> nat \<Rightarrow> nat \<Rightarrow> 'w tool \<Rightarrow> (int, 'w) run" where
  "mtd_fixseama sys mtd offset data_size t =
     andthen (fix_read_block sys mtd offset t) (\<lambda>(fd, first_block, block_offset, shdr).
       seama_rewrite sys data_size fd first_block block_offset shdr)"

section \<open>\<^verbatim>\<open>wrg.c\<close> and \<^verbatim>\<open>wrgg.c\<close>\<close>

definition WRG_HDR_MAGIC :: nat where "WRG_HDR_MAGIC = 0x20040220"
definition WRG_OFF_MAGIC1 :: nat where "WRG_OFF_MAGIC1 = 32"
definition WRG_OFF_SIZE :: nat where "WRG_OFF_SIZE = 40"
definition WRG_OFF_OFFSET :: nat where "WRG_OFF_OFFSET = 44"
definition WRG_OFF_DEVNAME :: nat where "WRG_OFF_DEVNAME = 48"
definition WRG_OFF_DIGEST :: nat where "WRG_OFF_DIGEST = 80"
definition sizeof_wrg_hdr :: nat where "sizeof_wrg_hdr = 96"

definition WRGG03_HDR_MAGIC :: nat where "WRGG03_HDR_MAGIC = 0x20080321"
definition WRGG_OFF_MAGIC1 :: nat where "WRGG_OFF_MAGIC1 = 32"
definition WRGG_OFF_SIZE :: nat where "WRGG_OFF_SIZE = 104"
definition WRGG_OFF_OFFSET :: nat where "WRGG_OFF_OFFSET = 108"
definition WRGG_OFF_DEVNAME :: nat where "WRGG_OFF_DEVNAME = 112"
definition WRGG_OFF_DIGEST :: nat where "WRGG_OFF_DIGEST = 144"
definition sizeof_wrgg_hdr :: nat where "sizeof_wrgg_hdr = 160"

text \<open>The two files differ in the layout of the header only: the digest covers two of its fields.\<close>

definition wrg_fix_md5 ::
    "'w mtd_sys \<Rightarrow> byte list \<Rightarrow> nat \<Rightarrow> int \<Rightarrow> nat \<Rightarrow> nat \<Rightarrow> 'w tool \<Rightarrow> (int \<times> byte list \<times> 'w tool) option" where
  "wrg_fix_md5 sys block shdr fd data_offset data_size t =
     (case fix_md5_data sys fd data_offset data_size t of
        (Inl err, t) \<Rightarrow> Some (err, block, t)
      | (Inr buf, t) \<Rightarrow> do {
          offset \<leftarrow> mem_read block (shdr + WRG_OFF_OFFSET) 4;
          devname \<leftarrow> mem_read block (shdr + WRG_OFF_DEVNAME) 32;
          ctx \<leftarrow> MD5_Update (MD5_Init md5_stack_ctx) offset 4;
          ctx \<leftarrow> MD5_Update ctx devname 32;
          ctx \<leftarrow> MD5_Update ctx buf (u32 data_size);
          (digest, _) \<leftarrow> MD5_Final ctx;
          md5 \<leftarrow> mem_read block (shdr + WRG_OFF_DIGEST) 16;
          if digest = md5 then Some (- 1, block, t)
          else do {
            block \<leftarrow> store32 block (shdr + WRG_OFF_SIZE) (u32 data_size);
            block \<leftarrow> mem_write block (shdr + WRG_OFF_DIGEST) digest;
            Some (0, block, t)
          }
        })"

definition wrg_rewrite ::
    "'w mtd_sys \<Rightarrow> nat \<Rightarrow> int \<Rightarrow> byte list \<Rightarrow> nat \<Rightarrow> nat \<Rightarrow> 'w tool \<Rightarrow> (int, 'w) run" where
  "wrg_rewrite sys data_size fd first_block block_offset shdr t = do {
     magic1 \<leftarrow> load32 first_block (shdr + WRG_OFF_MAGIC1);
     if magic1 \<noteq> WRG_HDR_MAGIC then exit1 t
     else do {
     size \<leftarrow> load32 first_block (shdr + WRG_OFF_SIZE);
     if size = 0 then exit1 t
     else do {
       let data_offset = u64 (shdr + sizeof_wrg_hdr);
       let data_size = (if data_size = 0 then sub64 (u64_of_int (mtdsize t)) data_offset else data_size);
       let data_size = (if data_size > size then size else data_size);
       (err, first_block, t) \<leftarrow> wrg_fix_md5 sys first_block shdr fd data_offset data_size t;
       if err \<noteq> 0 then Some (Ret 0, t\<lparr>world := sys_close sys fd (world t)\<rparr>)
       else fix_write_block sys fd first_block block_offset t
     }}
   }"

definition mtd_fixwrg :: "'w mtd_sys \<Rightarrow> string \<Rightarrow> nat \<Rightarrow> nat \<Rightarrow> 'w tool \<Rightarrow> (int, 'w) run" where
  "mtd_fixwrg sys mtd offset data_size t =
     andthen (fix_read_block sys mtd offset t) (\<lambda>(fd, first_block, block_offset, shdr).
       wrg_rewrite sys data_size fd first_block block_offset shdr)"

definition wrgg_fix_md5 ::
    "'w mtd_sys \<Rightarrow> byte list \<Rightarrow> nat \<Rightarrow> int \<Rightarrow> nat \<Rightarrow> nat \<Rightarrow> 'w tool \<Rightarrow> (int \<times> byte list \<times> 'w tool) option" where
  "wrgg_fix_md5 sys block shdr fd data_offset data_size t =
     (case fix_md5_data sys fd data_offset data_size t of
        (Inl err, t) \<Rightarrow> Some (err, block, t)
      | (Inr buf, t) \<Rightarrow> do {
          offset \<leftarrow> mem_read block (shdr + WRGG_OFF_OFFSET) 4;
          dev_name \<leftarrow> mem_read block (shdr + WRGG_OFF_DEVNAME) 32;
          ctx \<leftarrow> MD5_Update (MD5_Init md5_stack_ctx) offset 4;
          ctx \<leftarrow> MD5_Update ctx dev_name 32;
          ctx \<leftarrow> MD5_Update ctx buf (u32 data_size);
          (digest, _) \<leftarrow> MD5_Final ctx;
          md5 \<leftarrow> mem_read block (shdr + WRGG_OFF_DIGEST) 16;
          if digest = md5 then Some (- 1, block, t)
          else do {
            block \<leftarrow> store32 block (shdr + WRGG_OFF_SIZE) (u32 data_size);
            block \<leftarrow> mem_write block (shdr + WRGG_OFF_DIGEST) digest;
            Some (0, block, t)
          }
        })"

definition wrgg_rewrite ::
    "'w mtd_sys \<Rightarrow> nat \<Rightarrow> int \<Rightarrow> byte list \<Rightarrow> nat \<Rightarrow> nat \<Rightarrow> 'w tool \<Rightarrow> (int, 'w) run" where
  "wrgg_rewrite sys data_size fd first_block block_offset shdr t = do {
     magic1 \<leftarrow> load32 first_block (shdr + WRGG_OFF_MAGIC1);
     if magic1 \<noteq> WRGG03_HDR_MAGIC then exit1 t
     else do {
     size \<leftarrow> load32 first_block (shdr + WRGG_OFF_SIZE);
     if size = 0 then exit1 t
     else do {
       let data_offset = u64 (shdr + sizeof_wrgg_hdr);
       let data_size = (if data_size = 0 then sub64 (u64_of_int (mtdsize t)) data_offset else data_size);
       let data_size = (if data_size > size then size else data_size);
       (err, first_block, t) \<leftarrow> wrgg_fix_md5 sys first_block shdr fd data_offset data_size t;
       if err \<noteq> 0 then Some (Ret 0, t\<lparr>world := sys_close sys fd (world t)\<rparr>)
       else fix_write_block sys fd first_block block_offset t
     }}
   }"

definition mtd_fixwrgg :: "'w mtd_sys \<Rightarrow> string \<Rightarrow> nat \<Rightarrow> nat \<Rightarrow> 'w tool \<Rightarrow> (int, 'w) run" where
  "mtd_fixwrgg sys mtd offset data_size t =
     andthen (fix_read_block sys mtd offset t) (\<lambda>(fd, first_block, block_offset, shdr).
       wrgg_rewrite sys data_size fd first_block block_offset shdr)"

section \<open>Lemmas on digests and fields\<close>

lemma length_md5_stack_ctx [simp]: "length (ctx_in md5_stack_ctx) = 64"
  by (simp add: md5_stack_ctx_def)

text \<open>The digest of data in one piece, and of two fields and data.\<close>

lemma md5_once:
  assumes "length buf < 2 ^ 32"
  shows "\<exists>ctx ctx'. MD5_Update (MD5_Init md5_stack_ctx) buf (length buf) = Some ctx \<and>
    MD5_Final ctx = Some (md5_ref buf, ctx')"
  using MD5_stream [of md5_stack_ctx "[buf]"] assms by (auto simp: ensures_iff bind_eq_Some_conv)

lemma md5_three:
  assumes "length a < 2 ^ 32" and "length b < 2 ^ 32" and "length buf < 2 ^ 32"
  shows "\<exists>ctx1 ctx2 ctx3 ctx'. MD5_Update (MD5_Init md5_stack_ctx) a (length a) = Some ctx1 \<and>
    MD5_Update ctx1 b (length b) = Some ctx2 \<and> MD5_Update ctx2 buf (length buf) = Some ctx3 \<and>
    MD5_Final ctx3 = Some (md5_ref (a @ b @ buf), ctx')"
  using MD5_stream [of md5_stack_ctx "[a, b, buf]"] assms by (auto simp: ensures_iff bind_eq_Some_conv)

lemma load32_eq: "off + 4 \<le> length buf \<Longrightarrow> load32 buf off = Some (u32_at buf off)"
  by (simp add: load32_def mem_read_bytes u32_at_def)

lemma load16_eq: "off + 2 \<le> length buf \<Longrightarrow> load16 buf off = Some (u16_at buf off)"
  by (simp add: load16_def mem_read_bytes u16_at_def)

lemma store32_eq: "off + 4 \<le> length buf \<Longrightarrow> store32 buf off n = Some (patch buf off (le_enc 4 n))"
  by (simp add: store32_def mem_write_patch)

lemma le_dec_less_exp: "length bs \<le> k \<Longrightarrow> le_dec bs < 256 ^ k"
  using le_dec_less [of bs] power_increasing [of "length bs" k "256 :: nat"] by linarith

lemma u32_at_less: "u32_at buf off < 2 ^ 32"
  using le_dec_less_exp [of "bytes_at buf off 4" 4] by (simp add: u32_at_def bytes_at_def)

lemma be32_less: "be32_to_cpu n < 2 ^ 32"
  using le_dec_less [of "rev (le_enc 4 n)"] by (simp add: be32_to_cpu_def)

lemma be32_twice: "n < 2 ^ 32 \<Longrightarrow> be32_to_cpu (be32_to_cpu n) = n"
proof -
  assume n: "n < 2 ^ 32"
  have "le_enc 4 (le_dec (rev (le_enc 4 n))) = rev (le_enc 4 n)"
    using le_enc_le_dec [of "rev (le_enc 4 n)"] by simp
  then show ?thesis
    using n by (simp add: be32_to_cpu_def le_dec_le_enc_id)
qed

lemma u32_at_patch_same: "off + 4 \<le> length fl \<Longrightarrow> n < 2 ^ 32 \<Longrightarrow> u32_at (patch fl off (le_enc 4 n)) off = n"
  by (simp add: u32_at_def bytes_at_patch_same le_dec_le_enc_id)

section \<open>What a repair leaves on flash\<close>

lemma map2_and_ones: "map2 (AND) bs (replicate (length bs) 0xFF) = (bs :: byte list)"
proof (induction bs)
  case (Cons b bs)
  have "b AND 0xFF = b"
    using take_bit_word_eq_self [of 8 b] by (simp add: take_bit_eq_mask mask_eq_exp_minus_1)
  then show ?case using Cons by simp
qed simp

text \<open>Allocations and reads inside the device succeed.\<close>

definition reads_work :: "'w mtd_sys \<Rightarrow> (int \<Rightarrow> bool) \<Rightarrow> mtd_info_user \<Rightarrow> bool" where
  "reads_work sys isdev info \<longleftrightarrow> (\<forall>n. sys_malloc sys n) \<and>
     (\<forall>fd n off w. isdev fd \<longrightarrow> off + n \<le> miu_size info \<longrightarrow>
        (\<exists>bs. fst (sys_pread sys fd n off w) = Some bs \<and> length bs = n))"

text \<open>
  What a repair of a header does: it fails and may have damaged the first block, or it changes no
  bytes but those in \<open>A\<close> and leaves a valid header if it changed it or was not given a size.
\<close>

definition header_fixed ::
    "(byte list \<Rightarrow> bool) \<Rightarrow> nat set \<Rightarrow> ('w \<Rightarrow> byte list) \<Rightarrow> mtd_info_user \<Rightarrow> nat \<Rightarrow> 'w tool \<Rightarrow> int outcome \<times> 'w tool \<Rightarrow> bool" where
  "header_fixed valid A flash info n t res \<longleftrightarrow>
     (let fl = flash (world t); fl' = flash (world (snd res)) in
      (fst res = Exit 1 \<and> same_outside 0 (miu_erasesize info) fl fl') \<or>
      (fst res = Ret 0 \<and> changes_in A fl fl' \<and> (n = 0 \<or> fl' \<noteq> fl \<longrightarrow> valid fl')))"

text \<open>A header whose digest is that of the data it announces.\<close>

definition seama_valid :: "byte list \<Rightarrow> bool" where
  "seama_valid fl \<longleftrightarrow> bytes_at fl SEAMA_OFF_MD5 16 =
     md5_ref (bytes_at fl (sizeof_seama_entity_header + be16_to_cpu (u16_at fl SEAMA_OFF_METASIZE))
       (be32_to_cpu (u32_at fl SEAMA_OFF_SIZE)))"

definition wrg_valid :: "byte list \<Rightarrow> bool" where
  "wrg_valid fl \<longleftrightarrow> bytes_at fl WRG_OFF_DIGEST 16 =
     md5_ref (bytes_at fl WRG_OFF_OFFSET 4 @ bytes_at fl WRG_OFF_DEVNAME 32 @
       bytes_at fl sizeof_wrg_hdr (u32_at fl WRG_OFF_SIZE))"

definition wrgg_valid :: "byte list \<Rightarrow> bool" where
  "wrgg_valid fl \<longleftrightarrow> bytes_at fl WRGG_OFF_DIGEST 16 =
     md5_ref (bytes_at fl WRGG_OFF_OFFSET 4 @ bytes_at fl WRGG_OFF_DEVNAME 32 @
       bytes_at fl sizeof_wrgg_hdr (u32_at fl WRGG_OFF_SIZE))"

lemmas seama_offs = SEAMA_OFF_METASIZE_def SEAMA_OFF_SIZE_def SEAMA_OFF_MD5_def sizeof_seama_entity_header_def
lemmas wrg_offs = WRG_OFF_MAGIC1_def WRG_OFF_SIZE_def WRG_OFF_OFFSET_def WRG_OFF_DEVNAME_def WRG_OFF_DIGEST_def
  sizeof_wrg_hdr_def
lemmas wrgg_offs = WRGG_OFF_MAGIC1_def WRGG_OFF_SIZE_def WRGG_OFF_OFFSET_def WRGG_OFF_DEVNAME_def
  WRGG_OFF_DIGEST_def sizeof_wrgg_hdr_def

text \<open>The repair of WRG and WRGG headers, with the offsets of the fields as arguments.\<close>

definition fields_fix_md5 ::
    "nat \<Rightarrow> nat \<Rightarrow> nat \<Rightarrow> nat \<Rightarrow> 'w mtd_sys \<Rightarrow> byte list \<Rightarrow> nat \<Rightarrow> int \<Rightarrow> nat \<Rightarrow> nat \<Rightarrow> 'w tool \<Rightarrow> (int \<times> byte list \<times> 'w tool) option" where
  "fields_fix_md5 so oo no dgo sys block shdr fd data_offset data_size t =
     (case fix_md5_data sys fd data_offset data_size t of
        (Inl err, t) \<Rightarrow> Some (err, block, t)
      | (Inr buf, t) \<Rightarrow> do {
          offset \<leftarrow> mem_read block (shdr + oo) 4;
          devname \<leftarrow> mem_read block (shdr + no) 32;
          ctx \<leftarrow> MD5_Update (MD5_Init md5_stack_ctx) offset 4;
          ctx \<leftarrow> MD5_Update ctx devname 32;
          ctx \<leftarrow> MD5_Update ctx buf (u32 data_size);
          (digest, _) \<leftarrow> MD5_Final ctx;
          md5 \<leftarrow> mem_read block (shdr + dgo) 16;
          if digest = md5 then Some (- 1, block, t)
          else do {
            block \<leftarrow> store32 block (shdr + so) (u32 data_size);
            block \<leftarrow> mem_write block (shdr + dgo) digest;
            Some (0, block, t)
          }
        })"

text \<open>The same for headers whose digest covers two fields.\<close>

definition fields_rewrite ::
    "nat \<Rightarrow> nat \<Rightarrow> nat \<Rightarrow> nat \<Rightarrow> nat \<Rightarrow> nat \<Rightarrow> nat \<Rightarrow> 'w mtd_sys \<Rightarrow> nat \<Rightarrow> int \<Rightarrow> byte list \<Rightarrow> nat \<Rightarrow> nat \<Rightarrow> 'w tool \<Rightarrow> (int, 'w) run" where
  "fields_rewrite mo mv so oo no dgo hs sys data_size fd first_block block_offset shdr t = do {
     magic1 \<leftarrow> load32 first_block (shdr + mo);
     if magic1 \<noteq> mv then exit1 t
     else do {
     size \<leftarrow> load32 first_block (shdr + so);
     if size = 0 then exit1 t
     else do {
       let data_offset = u64 (shdr + hs);
       let data_size = (if data_size = 0 then sub64 (u64_of_int (mtdsize t)) data_offset else data_size);
       let data_size = (if data_size > size then size else data_size);
       (err, first_block, t) \<leftarrow> fields_fix_md5 so oo no dgo sys first_block shdr fd data_offset data_size t;
       if err \<noteq> 0 then Some (Ret 0, t\<lparr>world := sys_close sys fd (world t)\<rparr>)
       else fix_write_block sys fd first_block block_offset t
     }}
   }"

definition fields_valid :: "nat \<Rightarrow> nat \<Rightarrow> nat \<Rightarrow> nat \<Rightarrow> nat \<Rightarrow> byte list \<Rightarrow> bool" where
  "fields_valid so oo no dgo hs fl \<longleftrightarrow> bytes_at fl dgo 16 =
     md5_ref (bytes_at fl oo 4 @ bytes_at fl no 32 @ bytes_at fl hs (u32_at fl so))"

text \<open>The bytes of a range that do not lie in a bad block.\<close>

definition good_bytes :: "mtd_info_user \<Rightarrow> (nat \<Rightarrow> bool) \<Rightarrow> byte list \<Rightarrow> nat \<Rightarrow> nat \<Rightarrow> byte list" where
  "good_bytes info bad fl off n = map ((!) fl)
     (filter (\<lambda>i. \<not> (miu_type info = MTD_NANDFLASH \<and> bad (i div miu_erasesize info * miu_erasesize info))) [off..<off + n])"

text \<open>A TRX header whose length and checksum are those of \<open>n\<close> bytes behind them.\<close>

definition trx_valid :: "mtd_info_user \<Rightarrow> (nat \<Rightarrow> bool) \<Rightarrow> nat \<Rightarrow> nat \<Rightarrow> byte list \<Rightarrow> bool" where
  "trx_valid info bad offset n fl \<longleftrightarrow>
     (let data = good_bytes info bad fl (offset + TRX_CRC32_DATA_OFFSET) n in
      u32_at fl (offset + TRX_OFF_LEN) = length data + TRX_CRC32_DATA_OFFSET \<and>
      u32_at fl (offset + TRX_OFF_CRC32) = unat (crc32 0xFFFFFFFF data))"

lemmas trx_offs = TRX_CRC32_DATA_OFFSET_def TRX_CRC32_DATA_SIZE_def TRX_OFF_LEN_def TRX_OFF_CRC32_def

lemma length_good_bytes: "length (good_bytes info bad fl off n) \<le> n"
  using length_filter_le [of _ "[off..<off + n]"] by (simp add: good_bytes_def)

lemma good_bytes_split:
  "c \<le> n \<Longrightarrow> good_bytes info bad fl off n = good_bytes info bad fl off c @ good_bytes info bad fl (off + c) (n - c)"
  using upt_add_eq_append [of off "off + c" "n - c"] by (simp add: good_bytes_def)

lemma good_bytes_chunk:
  assumes "off mod miu_erasesize info + c \<le> miu_erasesize info" and "off + c \<le> length fl"
  shows "good_bytes info bad fl off c =
    (if miu_type info = MTD_NANDFLASH \<and> bad (off div miu_erasesize info * miu_erasesize info) then [] else take c (drop off fl))"
proof -
  let ?es = "miu_erasesize info"
  have div: "i div ?es = off div ?es" if "off \<le> i" "i < off + c" for i
  proof -
    define r where "r = off mod ?es + (i - off)"
    have "i = r + off div ?es * ?es"
      using that by (simp add: r_def)
    moreover have "r < ?es"
      using assms(1) that by (simp add: r_def)
    ultimately show ?thesis
      by simp
  qed
  have "filter (\<lambda>i. \<not> (miu_type info = MTD_NANDFLASH \<and> bad (i div ?es * ?es))) [off..<off + c] =
      filter (\<lambda>i. \<not> (miu_type info = MTD_NANDFLASH \<and> bad (off div ?es * ?es))) [off..<off + c]"
    by (rule filter_cong [OF refl]) (simp only: div set_upt atLeastLessThan_iff)
  moreover have "map ((!) fl) [off..<off + c] = take c (drop off fl)"
    using assms(2) by (intro nth_equalityI) auto
  ultimately show ?thesis
    by (simp add: good_bytes_def)
qed

lemma good_bytes_changes:
  assumes "changes_in A fl fl'" and "\<And>i. i \<in> A \<Longrightarrow> i < off" and "off + n \<le> length fl"
  shows "good_bytes info bad fl' off n = good_bytes info bad fl off n"
  unfolding good_bytes_def
proof (rule map_cong [OF refl])
  fix i assume "i \<in> set (filter (\<lambda>i. \<not> (miu_type info = MTD_NANDFLASH \<and>
    bad (i div miu_erasesize info * miu_erasesize info))) [off..<off + n])"
  then have "off \<le> i" "i < length fl"
    using assms(3) by auto
  then show "fl' ! i = fl ! i"
    using assms(1) assms(2) [of i] by (auto simp: changes_in_def)
qed

lemma block_rest_eq:
  assumes "k < 63" and "off < 2 ^ 64"
  shows "block_rest (2 ^ k) off = off mod 2 ^ k"
proof -
  have "block_rest (2 ^ k) off = unat (take_bit k (word_of_nat off) :: 64 word)"
    by (simp add: block_rest_def take_bit_eq_mask mask_eq_exp_minus_1)
  also have "\<dots> = take_bit k off"
    using assms unfolding unsigned_take_bit_eq by (simp add: unsigned_of_nat take_bit_nat_eq_self)
  finally show ?thesis
    by (simp add: take_bit_eq_mod)
qed

context mtd_chardev
begin

lemma fix_write_block_ok:
  assumes "isdev fd" and "opened t" and "bo + es \<le> miu_size info" and "length fb = es"
  shows "ensures (fix_write_block sys fd fb bo t) (\<lambda>(r, t').
    same_outside bo es (flash (world t)) (flash (world t')) \<and>
    (r = Exit 1 \<or> r = Ret 0 \<and> flash (world t') = patch (flash (world t)) bo fb))"
proof -
  have bo: "bo < 2 ^ 31"
    using assms(3) size_less es_pos by linarith
  obtain err t1 where 1: "mtd_erase_block sys fd (int bo) t = (err, t1)"
    by fastforce
  note erased = erase_block_ok [OF assms(1,2) bo 1]
  show ?thesis
  proof (cases "err = 0")
    case True
    then have fl1: "flash (world t1) = patch (flash (world t)) bo (replicate es 0xFF)"
      using erased by simp
    obtain n w where 2: "sys_pwrite sys fd fb bo (world t1) = (n, w)"
      by fastforce
    have room: "bo + es \<le> length (flash (world t))"
      using assms(3) by (simp add: flash_size)
    have "same_outside bo es (flash (world t)) (flash w)"
      using same_outside_trans [of bo es "flash (world t)" "flash (world t1)"] erased
        pwrite [OF assms(1) 2] assms(4) by simp
    moreover have "n = int es \<Longrightarrow> flash w = patch (flash (world t)) bo fb"
    proof -
      assume "n = int es"
      then have "flash w = patch (flash (world t1)) bo (map2 (AND) fb (take es (drop bo (flash (world t1)))))"
        using pwrite [OF assms(1) 2] assms(4) by simp
      also have "take es (drop bo (flash (world t1))) = replicate (length fb) 0xFF"
        unfolding fl1 using room by (simp add: slice_patch_same assms(4))
      also have "map2 (AND) fb (replicate (length fb) 0xFF) = fb"
        by (rule map2_and_ones)
      finally show ?thesis
        unfolding fl1 using room assms(4) by (simp add: patch_patch)
    qed
    ultimately show ?thesis
      using True erased bo by (auto simp: fix_write_block_def s32_id 1 2 exit1_def tool_opened_def close_dev)
  next
    case False
    then show ?thesis
      using erased bo by (simp add: fix_write_block_def s32_id 1 exit1_def)
  qed
qed

lemma fix_read_block_ok:
  "ensures (fix_read_block sys mtd 0 t) (\<lambda>(r, t'). flash (world t') = flash (world t) \<and>
     (case r of Exit c \<Rightarrow> c = 1
      | Ret (fd, fb, bo, off) \<Rightarrow> isdev fd \<and> opened t' \<and> es \<le> miu_size info \<and>
          fb = take es (flash (world t)) \<and> bo = 0 \<and> off = 0))"
  unfolding fix_read_block_def Let_def
proof (rule ensures_bindI [OF check_open_ok], clarify)
  fix fd and t1 :: "'w tool"
  assume fl: "flash (world t1) = flash (world t)" and fd: "0 \<le> fd \<longrightarrow> isdev fd \<and> opened t1"
  have z: "block_base (erasesize t) 0 = 0" "sub64 0 0 = 0"
    by (simp_all add: block_base_def sub64_def)
  show "ensures (if fd < 0 then exit1 t1
      else if u64_of_int (mtdsize t1) < u64 (block_base (erasesize t) 0 + u64_of_int (erasesize t1)) then exit1 t1
      else if \<not> sys_malloc sys (u64_of_int (erasesize t1)) then exit1 t1
      else (case sys_pread sys fd (u64_of_int (erasesize t1)) (block_base (erasesize t) 0) (world t1) of
          (None, w) \<Rightarrow> exit1 (t1\<lparr>world := w\<rparr>)
        | (Some first_block, w) \<Rightarrow>
            if int (length first_block) \<noteq> erasesize t1 then exit1 (t1\<lparr>world := w\<rparr>)
            else Some (Ret (fd, first_block, block_base (erasesize t) 0, sub64 0 (block_base (erasesize t) 0)),
                  t1\<lparr>world := w\<rparr>)))
    (\<lambda>(r, t'). flash (world t') = flash (world t) \<and>
     (case r of Exit c \<Rightarrow> c = 1
      | Ret (fd, fb, bo, off) \<Rightarrow> isdev fd \<and> opened t' \<and> es \<le> miu_size info \<and>
          fb = take es (flash (world t)) \<and> bo = 0 \<and> off = 0))"
  proof (cases "fd < 0")
    case False
    then have dev: "isdev fd" and op: "opened t1"
      using fd by simp_all
    have u: "u64_of_int (int es) = es" "u64_of_int (int (miu_size info)) = miu_size info"
      using size_less es_less by (simp_all add: u64_of_int_def)
    obtain res w where 1: "sys_pread sys fd es 0 (world t1) = (res, w)"
      by fastforce
    show ?thesis
      using False fl op pread [OF dev 1] dev es_less
      by (cases res) (auto simp: z u 1 exit1_def tool_opened_def)
  qed (simp add: exit1_def fl)
qed

lemma fix_data_ok:
  assumes "isdev fd" and "fix_md5_data sys fd doff dsz t = (res, t')"
  shows "flash (world t') = flash (world t) \<and> (opened t \<longrightarrow> opened t') \<and>
    (case res of Inl e \<Rightarrow> e < 0 \<and> \<not> (reads_work sys isdev info \<and> doff + dsz \<le> miu_size info)
     | Inr buf \<Rightarrow> length buf = dsz \<and> buf = bytes_at (flash (world t)) doff dsz)"
proof -
  obtain r w where 1: "sys_pread sys fd dsz doff (world t) = (r, w)"
    by fastforce
  show ?thesis
    using pread [OF assms(1) 1] assms
    by (cases r) (auto simp: fix_md5_data_def 1 bytes_at_def tool_opened_def reads_work_def ENOMEM_def EIO_def
        split: if_splits; metis 1 fst_conv option.distinct(1) option.inject)+
qed

lemma fix_finish:
  assumes "isdev fd" and "opened t1" and "flash (world t1) = fl" and "flash (world t) = fl" and "es \<le> miu_size info"
    and "so + length a \<le> es" and "dof + length b \<le> es" and "valid (patch (patch fl so a) dof b)"
    and "A = {so..<so + length a} \<union> {dof..<dof + length b}"
  shows "ensures (fix_write_block sys fd (patch (patch (take es fl) so a) dof b) 0 t1) (header_fixed valid A flash info n t)"
proof -
  have len: "es \<le> length fl"
    using assms(3,5) flash_size by auto
  have ch: "changes_in A fl (patch (patch fl so a) dof b)"
    unfolding assms(9) using assms(6,7) len by (intro changes_in_patch2) simp_all
  have "ensures (fix_write_block sys fd (patch (patch (take es fl) so a) dof b) 0 t1) (\<lambda>(r, t').
      same_outside 0 es fl (flash (world t')) \<and>
      (r = Exit 1 \<or> r = Ret 0 \<and> flash (world t') = patch fl 0 (patch (patch (take es fl) so a) dof b)))"
    using fix_write_block_ok [OF assms(1,2), of 0 "patch (patch (take es fl) so a) dof b"] assms(3,5-7) len
    by simp
  then show ?thesis
    by (rule ensures_mono)
      (use assms len ch in \<open>auto simp: header_fixed_def Let_def patch_block2\<close>)
qed

lemma seama_md5_ok:
  assumes "isdev fd" and "opened t" and "length block = es" and "28 \<le> es" and "dsz < 2 ^ 32"
    and D: "D = md5_ref (bytes_at (flash (world t)) doff dsz)"
  shows "ensures (seama_fix_md5 sys block 0 fd doff dsz t) (\<lambda>(err, block', t').
    flash (world t') = flash (world t) \<and> opened t' \<and>
    (err = 0 \<and> block' = patch (patch block 8 (le_enc 4 (be32_to_cpu dsz))) 12 D \<or>
     err < 0 \<and> (reads_work sys isdev info \<and> doff + dsz \<le> miu_size info \<longrightarrow> bytes_at block 12 16 = D)))"
proof -
  obtain res t1 where 1: "fix_md5_data sys fd doff dsz t = (res, t1)"
    by fastforce
  note data = fix_data_ok [OF assms(1) 1]
  show ?thesis
  proof (cases res)
    case (Inr buf)
    then obtain ctx ctx' where ctx: "MD5_Update (MD5_Init md5_stack_ctx) (bytes_at (flash (world t)) doff dsz) dsz = Some ctx"
        "MD5_Final ctx = Some (D, ctx')"
      using data md5_once [of buf] assms(5) by (auto simp: D)
    have "length D = 16" by (simp add: D)
    then show ?thesis
      using data assms(2-5) Inr
      by (simp add: seama_fix_md5_def 1 ctx seama_offs mem_read_bytes store32_eq mem_write_patch)
  qed (use data assms(2) in \<open>auto simp: seama_fix_md5_def 1\<close>)
qed

lemma fields_md5_ok:
  assumes "isdev fd" and "opened t" and "length block = es" and "dsz < 2 ^ 32"
    and "so + 4 \<le> es" and "oo + 4 \<le> es" and "no + 32 \<le> es" and "dgo + 16 \<le> es"
    and D: "D = md5_ref (bytes_at block oo 4 @ bytes_at block no 32 @ bytes_at (flash (world t)) doff dsz)"
  shows "ensures (fields_fix_md5 so oo no dgo sys block 0 fd doff dsz t) (\<lambda>(err, block', t').
    flash (world t') = flash (world t) \<and> opened t' \<and>
    (err = 0 \<and> block' = patch (patch block so (le_enc 4 dsz)) dgo D \<or>
     err < 0 \<and> (reads_work sys isdev info \<and> doff + dsz \<le> miu_size info \<longrightarrow> bytes_at block dgo 16 = D)))"
proof -
  obtain res t1 where 1: "fix_md5_data sys fd doff dsz t = (res, t1)"
    by fastforce
  note data = fix_data_ok [OF assms(1) 1]
  show ?thesis
  proof (cases res)
    case (Inr buf)
    have len: "length (bytes_at block oo 4) = 4" "length (bytes_at block no 32) = 32"
      using assms(3,6,7) by (simp_all add: bytes_at_def)
    obtain c1 c2 c3 ctx' where ctx: "MD5_Update (MD5_Init md5_stack_ctx) (bytes_at block oo 4) 4 = Some c1"
        "MD5_Update c1 (bytes_at block no 32) 32 = Some c2"
        "MD5_Update c2 (bytes_at (flash (world t)) doff dsz) dsz = Some c3" "MD5_Final c3 = Some (D, ctx')"
      using Inr data md5_three [of "bytes_at block oo 4" "bytes_at block no 32" buf] len assms(4) by (auto simp: D)
    have "length D = 16" by (simp add: D)
    then show ?thesis
      using data assms(2-8) Inr
      by (simp add: fields_fix_md5_def 1 ctx mem_read_bytes store32_eq mem_write_patch)
  qed (use data assms(2) in \<open>auto simp: fields_fix_md5_def 1\<close>)
qed

lemma fix_andthen:
  assumes "\<And>fd t1. isdev fd \<Longrightarrow> opened t1 \<Longrightarrow> es \<le> miu_size info \<Longrightarrow> flash (world t1) = flash (world t) \<Longrightarrow>
      flash (world t) = flash (world t) \<Longrightarrow>
      ensures (f fd (take es (flash (world t))) 0 0 t1) (header_fixed valid A flash info n t)"
  shows "ensures (andthen (fix_read_block sys mtd 0 t) (\<lambda>(fd, first_block, block_offset, shdr).
    f fd first_block block_offset shdr)) (header_fixed valid A flash info n t)"
proof (rule ensures_andthen [OF fix_read_block_ok], goal_cases)
  case (1 c t1)
  then show ?case by (simp add: header_fixed_def Let_def)
next
  case (2 x t1)
  then show ?case using assms by (auto split: prod.splits)
qed

lemma u16_be_less: "be16_to_cpu n < 2 ^ 16"
  using le_dec_less [of "rev (le_enc 2 n)"] by (simp add: be16_to_cpu_def)

lemma seama_rewrite_ok:
  assumes "28 \<le> es" and "2 ^ 17 \<le> miu_size info" and "reads_work sys isdev info"
    and "isdev fd" and "opened t1" and "es \<le> miu_size info" and fl: "flash (world t1) = fl" "flash (world t) = fl"
  shows "ensures (seama_rewrite sys n fd (take es fl) 0 0 t1) (header_fixed seama_valid {8..<28} flash info n t)"
proof -
  let ?fb = "take es fl" and ?sz = "be32_to_cpu (u32_at fl 8)" and ?doff = "28 + be16_to_cpu (u16_at fl 6)"
  have len: "length ?fb = es" and lfl: "length fl = miu_size info"
    using assms(6) fl flash_size by auto
  have doff: "?doff < 2 ^ 17"
    using u16_be_less [of "u16_at fl 6"] by simp
  have fields: "u32_at ?fb 0 = u32_at fl 0" "u32_at ?fb 8 = u32_at fl 8" "u16_at ?fb 6 = u16_at fl 6"
    "bytes_at ?fb 12 16 = bytes_at fl 12 16"
    using assms(1) by (simp_all add: u32_at_def u16_at_def bytes_at_take)
  have same: "header_fixed seama_valid {8..<28} flash info n t (Exit 1, t1)"
    using fl by (simp add: header_fixed_def Let_def)
  define dsz where "dsz = (let d = if n = 0 then sub64 (miu_size info) ?doff else n in if d > ?sz then ?sz else d)"
  have dsz: "dsz < 2 ^ 32" "dsz \<le> ?sz"
    using be32_less [of "u32_at fl 8"] by (auto simp: dsz_def Let_def)
  have dsz0: "n = 0 \<Longrightarrow> dsz = min (miu_size info - ?doff) ?sz"
    using doff assms(2) size_less by (simp add: dsz_def sub64_id' Let_def min_def)
  let ?D = "md5_ref (bytes_at fl ?doff dsz)"
  have rest: "ensures (do {
      (err, first_block, t) \<leftarrow> seama_fix_md5 sys ?fb 0 fd ?doff dsz t1;
      if err \<noteq> 0 then Some (Ret 0, t\<lparr>world := sys_close sys fd (world t)\<rparr>)
      else fix_write_block sys fd first_block 0 t }) (header_fixed seama_valid {8..<28} flash info n t)"
  proof (rule ensures_bindI [OF seama_md5_ok [OF assms(4,5) len assms(1) dsz(1) refl]], clarify)
    fix err :: int and block and t2 :: "'w tool"
    assume t2: "flash (world t2) = flash (world t1)" "opened t2"
      and res: "err = 0 \<and> block = patch (patch ?fb 8 (le_enc 4 (be32_to_cpu dsz))) 12 (md5_ref (bytes_at (flash (world t1)) ?doff dsz)) \<or>
        err < 0 \<and> (reads_work sys isdev info \<and> ?doff + dsz \<le> miu_size info \<longrightarrow>
          bytes_at ?fb 12 16 = md5_ref (bytes_at (flash (world t1)) ?doff dsz))"
    show "ensures (if err \<noteq> 0 then Some (Ret 0, t2\<lparr>world := sys_close sys fd (world t2)\<rparr>)
      else fix_write_block sys fd block 0 t2) (header_fixed seama_valid {8..<28} flash info n t)"
    proof (cases "err = 0")
      case True
      let ?a = "le_enc 4 (be32_to_cpu dsz)"
      have "seama_valid (patch (patch fl 8 ?a) 12 ?D)"
        unfolding seama_valid_def seama_offs u16_at_def u32_at_def
        using assms(1,6) lfl be32_less [of dsz] dsz(1)
        by (simp add: bytes_at_patch_other bytes_at_patch_same le_dec_le_enc_id be32_twice u16_at_def [symmetric])
      moreover have "block = patch (patch ?fb 8 ?a) 12 ?D"
        using True res fl by auto
      ultimately show ?thesis
        using True t2 fl assms(1) fix_finish [OF assms(4) t2(2) _ fl(2) assms(6), of 8 ?a 12 ?D seama_valid "{8..<28}" n]
        by (simp add: ivl_disj_un)
    next
      case False
      have "seama_valid fl" if "n = 0"
      proof -
        have "bytes_at fl ?doff ?sz = bytes_at fl ?doff dsz"
          using dsz0 [OF that] lfl by (simp add: bytes_at_def min_def)
        then show ?thesis
          using False res fl assms(2,3) doff dsz0 [OF that] fields(4) by (simp add: seama_valid_def seama_offs)
      qed
      then show ?thesis
        using False fl t2 by (simp add: header_fixed_def Let_def close_dev)
    qed
  qed
  have u: "u64_of_int (mtdsize t1) = miu_size info"
    using assms(5) size_less by (simp add: tool_opened_def u64_of_int_def)
  show ?thesis
    unfolding seama_rewrite_def u
    using same rest assms(1,6) doff size_less lfl
    by (cases "u32_at fl 0 = be32_to_cpu SEAMA_HDR_MAGIC"; cases "?sz = 0")
      (simp_all add: seama_offs load32_eq load16_eq fields exit1_def dsz_def Let_def cong: if_cong split del: if_split)
qed

lemma fixseama_ok:
  assumes "28 \<le> es" and "2 ^ 17 \<le> miu_size info" and "reads_work sys isdev info"
  shows "ensures (mtd_fixseama sys mtd 0 n t) (header_fixed seama_valid {8..<28} flash info n t)"
  unfolding mtd_fixseama_def
  by (rule fix_andthen) (rule seama_rewrite_ok [OF assms])

lemma fields_rewrite_ok:
  assumes lay: "mo + 4 \<le> hs" "so + 4 \<le> oo" "oo + 4 \<le> no" "no + 32 \<le> dgo" "dgo + 16 \<le> hs" "hs \<le> es"
    and "reads_work sys isdev info"
    and "isdev fd" and "opened t1" and "es \<le> miu_size info" and fl: "flash (world t1) = fl" "flash (world t) = fl"
  shows "ensures (fields_rewrite mo mv so oo no dgo hs sys n fd (take es fl) 0 0 t1)
    (header_fixed (fields_valid so oo no dgo hs) ({so..<so + 4} \<union> {dgo..<dgo + 16}) flash info n t)"
    (is "ensures _ ?Q")
proof -
  let ?fb = "take es fl" and ?sz = "u32_at fl so"
  have len: "length ?fb = es" and lfl: "length fl = miu_size info"
    using assms(10) fl flash_size by auto
  have fields: "u32_at ?fb mo = u32_at fl mo" "u32_at ?fb so = u32_at fl so" "bytes_at ?fb oo 4 = bytes_at fl oo 4"
    "bytes_at ?fb no 32 = bytes_at fl no 32" "bytes_at ?fb dgo 16 = bytes_at fl dgo 16"
    using lay by (simp_all add: u32_at_def bytes_at_take)
  have same: "?Q (Exit 1, t1)"
    using fl by (simp add: header_fixed_def Let_def)
  define dsz where "dsz = (let d = if n = 0 then sub64 (miu_size info) hs else n in if d > ?sz then ?sz else d)"
  have dsz: "dsz < 2 ^ 32" "dsz \<le> ?sz"
    using u32_at_less [of fl so] by (auto simp: dsz_def Let_def)
  have dsz0: "n = 0 \<Longrightarrow> dsz = min (miu_size info - hs) ?sz"
    using lay(6) assms(10) size_less by (simp add: dsz_def sub64_id' Let_def min_def)
  let ?D = "md5_ref (bytes_at fl oo 4 @ bytes_at fl no 32 @ bytes_at fl hs dsz)"
  have "ensures (fields_fix_md5 so oo no dgo sys ?fb 0 fd hs dsz t1) (\<lambda>(err, block, t2).
      flash (world t2) = fl \<and> opened t2 \<and> (err = 0 \<and> block = patch (patch ?fb so (le_enc 4 dsz)) dgo ?D \<or>
      err < 0 \<and> (reads_work sys isdev info \<and> hs + dsz \<le> miu_size info \<longrightarrow> bytes_at ?fb dgo 16 = ?D)))"
    using fields_md5_ok [OF assms(8,9) len dsz(1), of so oo no dgo ?D hs] lay fl by (simp add: fields)
  then have rest: "ensures (do {
      (err, first_block, t) \<leftarrow> fields_fix_md5 so oo no dgo sys ?fb 0 fd hs dsz t1;
      if err \<noteq> 0 then Some (Ret 0, t\<lparr>world := sys_close sys fd (world t)\<rparr>)
      else fix_write_block sys fd first_block 0 t }) ?Q"
  proof (rule ensures_bindI, goal_cases)
    case (1 p)
    obtain err block t2 where p: "p = (err, block, t2)"
      by (cases p)
    have t2: "flash (world t2) = fl" "opened t2"
      and res: "err = 0 \<and> block = patch (patch ?fb so (le_enc 4 dsz)) dgo ?D \<or>
        err < 0 \<and> (reads_work sys isdev info \<and> hs + dsz \<le> miu_size info \<longrightarrow> bytes_at ?fb dgo 16 = ?D)"
      using 1 by (simp_all add: p)
    have "ensures (if err \<noteq> 0 then Some (Ret 0, t2\<lparr>world := sys_close sys fd (world t2)\<rparr>)
      else fix_write_block sys fd block 0 t2) ?Q"
    proof (cases "err = 0")
      case True
      let ?a = "le_enc 4 dsz"
      have "fields_valid so oo no dgo hs (patch (patch fl so ?a) dgo ?D)"
        unfolding fields_valid_def u32_at_def
        using lay assms(10) lfl dsz(1)
        by (simp add: bytes_at_patch_other bytes_at_patch_same le_dec_le_enc_id)
      then show ?thesis
        using True res t2 lay fix_finish [OF assms(8) t2(2) _ fl(2) assms(10), of so ?a dgo ?D "fields_valid so oo no dgo hs" _ n]
        by simp
    next
      case False
      have "fields_valid so oo no dgo hs fl" if "n = 0"
      proof -
        have "bytes_at fl hs ?sz = bytes_at fl hs dsz"
          using dsz0 [OF that] lfl by (simp add: bytes_at_def min_def)
        then show ?thesis
          using False res lay(6) assms(7,10) dsz0 [OF that] fields(5) by (simp add: fields_valid_def)
      qed
      then show ?thesis
        using False fl t2 by (simp add: header_fixed_def Let_def close_dev)
    qed
    then show ?case by (simp add: p)
  qed
  have u: "u64_of_int (mtdsize t1) = miu_size info"
    using assms(9) size_less by (simp add: tool_opened_def u64_of_int_def)
  show ?thesis
    unfolding fields_rewrite_def u
    using same rest lay assms(10) size_less lfl
    by (cases "u32_at fl mo = mv"; cases "?sz = 0")
      (simp_all add: load32_eq fields exit1_def dsz_def Let_def cong: if_cong split del: if_split)
qed

lemma wrg_rewrite_fields:
  "wrg_rewrite = fields_rewrite WRG_OFF_MAGIC1 WRG_HDR_MAGIC WRG_OFF_SIZE WRG_OFF_OFFSET WRG_OFF_DEVNAME WRG_OFF_DIGEST sizeof_wrg_hdr"
  unfolding fun_eq_iff wrg_rewrite_def fields_rewrite_def wrg_fix_md5_def fields_fix_md5_def by simp

lemma wrgg_rewrite_fields:
  "wrgg_rewrite = fields_rewrite WRGG_OFF_MAGIC1 WRGG03_HDR_MAGIC WRGG_OFF_SIZE WRGG_OFF_OFFSET WRGG_OFF_DEVNAME WRGG_OFF_DIGEST sizeof_wrgg_hdr"
  unfolding fun_eq_iff wrgg_rewrite_def fields_rewrite_def wrgg_fix_md5_def fields_fix_md5_def by simp

lemma fixwrg_ok:
  assumes "96 \<le> es" and "reads_work sys isdev info"
  shows "ensures (mtd_fixwrg sys mtd 0 n t) (header_fixed wrg_valid ({40..<44} \<union> {80..<96}) flash info n t)"
proof -
  have "wrg_valid = fields_valid 40 44 48 80 96"
    by (simp add: fun_eq_iff wrg_valid_def fields_valid_def wrg_offs)
  then show ?thesis
    unfolding mtd_fixwrg_def wrg_rewrite_fields
    using fields_rewrite_ok [of 32 96 40 44 48 80] assms by (auto intro!: fix_andthen simp: wrg_offs)
qed

lemma fixwrgg_ok:
  assumes "160 \<le> es" and "reads_work sys isdev info"
  shows "ensures (mtd_fixwrgg sys mtd 0 n t) (header_fixed wrgg_valid ({104..<108} \<union> {144..<160}) flash info n t)"
proof -
  have "wrgg_valid = fields_valid 104 108 112 144 160"
    by (simp add: fun_eq_iff wrgg_valid_def fields_valid_def wrgg_offs)
  then show ?thesis
    unfolding mtd_fixwrgg_def wrgg_rewrite_fields
    using fields_rewrite_ok [of 32 160 104 108 112 144] assms by (auto intro!: fix_andthen simp: wrgg_offs)
qed

lemma block_rest_es: "off < 2 ^ 64 \<Longrightarrow> block_rest (int es) off = off mod es"
  using erasesize_exp block_rest_eq by auto

lemma is_bad_ok:
  assumes "isdev fd" and "opened t"
  shows "ensures (mtd_block_is_bad sys fd (int off) t) (\<lambda>(r, t'). opened t' \<and> flash (world t') = flash (world t) \<and>
    (case r of Exit c \<Rightarrow> c = 1 | Ret b \<Rightarrow> b \<noteq> 0 \<longleftrightarrow> miu_type info = MTD_NANDFLASH \<and> bad off))"
proof -
  obtain r w where 1: "sys_MEMGETBADBLOCK sys fd (int off) (world t) = (r, w)"
    by fastforce
  show ?thesis
    using get_bad [OF assms(1) 1] assms(2)
    by (auto simp: mtd_block_is_bad_def 1 tool_opened_def exit1_def)
qed

lemma fixtrx_data_ok:
  assumes "isdev fd" and "opened t" and "off + n \<le> miu_size info"
  shows "ensures (fixtrx_data sys fd off n buf t) (\<lambda>(r, t'). opened t' \<and> flash (world t') = flash (world t) \<and>
    (r = Exit 1 \<or> r = Ret (buf @ good_bytes info bad (flash (world t)) off n)))"
  using assms(2,3)
proof (induction n arbitrary: off buf t rule: less_induct)
  case (less n)
  show ?case
  proof (cases "n = 0")
    case True
    then show ?thesis
      using less.prems by (subst fixtrx_data.simps) (simp add: good_bytes_def)
  next
    case False
    define c where "c = min (es - off mod es) n"
    define bo where "bo = off div es * es"
    let ?fl = "flash (world t)"
    have off: "off < 2 ^ 31" "off + c \<le> length ?fl" "off + c < 2 ^ 31"
      using less.prems size_less by (auto simp: c_def flash_size)
    have bo: "bo < 2 ^ 31"
      using div_times_less_eq_dividend [of off es] off(1) unfolding bo_def by linarith
    have c: "0 < c" "c \<le> n" "off mod es + c \<le> es"
      using False es_pos mod_less_divisor [OF es_pos, of off] by (auto simp: c_def)
    have off64: "off < 2 ^ 64" using off(1) by simp
    have u: "block_base (erasesize t) off = bo" "sub64 (u64_of_int (erasesize t)) (block_rest (erasesize t) off) = es - off mod es"
      using less.prems(1) es_less off64 mod_less_divisor [OF es_pos, of off]
      by (simp_all add: tool_opened_def block_base_es block_rest_es u64_of_int_def sub64_id' bo_def)
    note good = good_bytes_split [OF c(2), of info bad ?fl off] good_bytes_chunk [OF c(3) off(2), of bad, folded bo_def]
    have IH: "ensures (fixtrx_data sys fd (off + c) (n - c) buf' t') (\<lambda>(r, t''). opened t'' \<and> flash (world t'') = ?fl \<and>
        (r = Exit 1 \<or> r = Ret (buf' @ good_bytes info bad ?fl (off + c) (n - c))))"
      if "opened t'" "flash (world t') = ?fl" for buf' t'
      using less.IH [of "n - c" t' "off + c" buf', unfolded that(2)] c less.prems that by simp
    obtain r1 where bad: "mtd_block_is_bad sys fd (int bo) t = Some r1"
      using is_bad_ok [OF assms(1) less.prems(1), of bo] by (auto simp: ensures_iff)
    obtain r t1 where r1: "r1 = (r, t1)" by fastforce
    have t1: "opened t1" "flash (world t1) = ?fl" and
      r: "case r of Exit c \<Rightarrow> c = 1 | Ret b \<Rightarrow> b \<noteq> 0 \<longleftrightarrow> miu_type info = MTD_NANDFLASH \<and> bad bo"
      using is_bad_ok [OF assms(1) less.prems(1), of bo] by (simp_all add: bad r1)
    obtain res w where rd: "sys_pread sys fd c off (world t1) = (res, w)" by fastforce
    have pr: "flash w = ?fl" "opened (t1\<lparr>world := w\<rparr>)" "\<And>bs. res = Some bs \<Longrightarrow> length bs = c \<Longrightarrow> bs = take c (drop off ?fl)"
      using pread [OF assms(1) rd] t1 by (auto simp: tool_opened_def)
    show ?thesis
      using IH [OF t1] IH [OF pr(2), of "buf @ take c (drop off ?fl)"] t1 r pr False off bo good
      by (subst fixtrx_data.simps)
        (auto simp: u c_def [symmetric] s32_id bad r1 rd exit1_def Let_def split: outcome.split option.split)
  qed
qed

lemma trx_rewrite_ok:
  assumes "isdev fd" and "opened t1" and "offset div es * es + es \<le> miu_size info" and "offset mod es + 12 \<le> es"
    and "offset + 12 + n \<le> miu_size info"
  defines "bo \<equiv> offset div es * es" and "fl \<equiv> flash (world t1)"
  shows "ensures (trx_rewrite sys fd (take es (drop bo fl)) bo (offset mod es) (offset + 12) n t1) (\<lambda>(r, t').
    r = Exit 1 \<and> same_outside bo es fl (flash (world t')) \<or>
    r = Ret 0 \<and> changes_in {offset + 4..<offset + 12} fl (flash (world t')) \<and>
      trx_valid info bad offset n (flash (world t')))"
    (is "ensures _ ?Q")
proof -
  let ?fb = "take es (drop bo fl)" and ?o = "offset mod es"
  have len: "length ?fb = es" and lfl: "length fl = miu_size info"
    using assms(3) by (simp_all add: fl_def bo_def flash_size)
  have o: "bo + ?o = offset"
    by (simp add: bo_def)
  define data where "data = good_bytes info bad fl (offset + 12) n"
  have ld: "length data + 12 < 2 ^ 31"
    using length_good_bytes [of info bad fl "offset + 12" n] assms(5) size_less by (simp add: data_def)
  have crc: "crc32buf data (length data) = crc32 0xFFFFFFFF data"
    using ld by (simp add: crc32buf_def s32_id)
  have at: "u32_at ?fb (?o + k) = u32_at fl (offset + k)" if "k + 4 \<le> 12" for k
    using that assms(4) o by (simp add: u32_at_def bytes_at_slice add.assoc [symmetric])
  have exit: "?Q (Exit 1, t1)"
    by (simp add: fl_def)
  let ?a = "le_enc 4 (length data + 12)" and ?b = "le_enc 4 (unat (crc32 0xFFFFFFFF data))"
  let ?fl' = "patch (patch fl (offset + 4) ?a) (offset + 8) ?b"
  have room: "offset + 12 \<le> length fl"
    using assms(5) lfl by simp
  have ch: "changes_in {offset + 4..<offset + 12} fl ?fl'"
    using changes_in_patch2 [of "offset + 4" ?a fl "offset + 8" ?b] room by (simp add: ivl_disj_un add.assoc)
  have valid: "trx_valid info bad offset n ?fl'"
    using good_bytes_changes [OF ch, of "offset + 12" n info bad] room assms(5) lfl ld word32_less
    by (simp add: trx_valid_def trx_offs Let_def data_def [symmetric] u32_at_def bytes_at_patch_other
        bytes_at_patch_same le_dec_le_enc_id)
  have same: "trx_valid info bad offset n fl"
    if "u32_at fl (offset + 4) = length data + 12" "u32_at fl (offset + 8) = unat (crc32 0xFFFFFFFF data)"
    using that by (simp add: trx_valid_def trx_offs Let_def data_def)
  have wr: "ensures (fix_write_block sys fd (patch (patch ?fb (?o + 4) ?a) (?o + 8) ?b) bo t2) ?Q"
    if "opened t2" "flash (world t2) = fl" for t2
  proof (rule ensures_mono [OF fix_write_block_ok [OF assms(1) that(1)]])
    show "bo + es \<le> miu_size info" using assms(3) by (simp add: bo_def)
    show "length (patch (patch ?fb (?o + 4) ?a) (?o + 8) ?b) = es" using assms(4) len by simp
    fix q :: "int outcome \<times> 'w tool"
    assume "case q of (r, t') \<Rightarrow> same_outside bo es (flash (world t2)) (flash (world t')) \<and>
        (r = Exit 1 \<or> r = Ret 0 \<and> flash (world t') = patch (flash (world t2)) bo (patch (patch ?fb (?o + 4) ?a) (?o + 8) ?b))"
    moreover have "patch fl bo (patch (patch ?fb (?o + 4) ?a) (?o + 8) ?b) = ?fl'"
      using patch_block_at [of "?o + 4" ?a es "?o + 8" ?b bo fl] assms(3,4) lfl o by (simp add: bo_def [symmetric] add.assoc [symmetric])
    ultimately show "?Q q"
      using ch valid that(2) by auto
  qed
  have "ensures (andthen (fixtrx_data sys fd (offset + 12) n [] t1) (\<lambda>buf t. do {
       len \<leftarrow> load32 ?fb (?o + 4);
       crc \<leftarrow> load32 ?fb (?o + 8);
       let data_size = length buf;
       if len = u64 (data_size + 12) \<and> crc = unat (crc32buf buf data_size)
       then Some (Ret 0, t\<lparr>world := sys_close sys fd (world t)\<rparr>)
       else do {
         first_block \<leftarrow> store32 ?fb (?o + 4) (u32 (data_size + 12));
         first_block \<leftarrow> store32 first_block (?o + 8) (unat (crc32buf buf data_size));
         fix_write_block sys fd first_block bo t
       }
     })) ?Q"
  proof (rule ensures_andthen [OF fixtrx_data_ok [OF assms(1,2,5)]], goal_cases)
    case (2 x t2)
    then have t2: "opened t2" "flash (world t2) = fl" "x = data"
      by (simp_all add: data_def fl_def)
    show ?case
      using wr [OF t2(1,2)] t2 same ld assms(4) len at [of 4] at [of 8]
      by (auto simp: Let_def load32_eq store32_eq crc close_dev simp del: length_take length_drop)
  qed (simp add: fl_def)
  then show ?thesis
    unfolding trx_rewrite_def trx_offs
    using exit assms(4) len by (simp add: load32_eq exit1_def del: length_take length_drop)
qed

lemma fixtrx_ok:
  assumes "offset mod es + 12 \<le> es" and "offset < 2 ^ 31" and "n < 2 ^ 31"
  defines "dsz \<equiv> (if n = 0 then es - 12 else n + 16)"
  shows "ensures (mtd_fixtrx sys mtd offset n t) (\<lambda>(r, t').
    r = Exit 1 \<and> same_outside (offset div es * es) es (flash (world t)) (flash (world t')) \<or>
    r = Ret 0 \<and> changes_in {offset + 4..<offset + 12} (flash (world t)) (flash (world t')) \<and>
      trx_valid info bad offset dsz (flash (world t')))"
    (is "ensures _ ?Q")
  unfolding mtd_fixtrx_def
proof (rule ensures_bindI [OF check_open_ok], goal_cases)
  case (1 p)
  obtain fd t1 where p: "p = (fd, t1)" by (cases p)
  let ?fl = "flash (world t)"
  define bo where "bo = offset div es * es"
  have fl1: "flash (world t1) = ?fl" and fd: "0 \<le> fd \<longrightarrow> isdev fd \<and> opened t1"
    using 1 by (simp_all add: p)
  have exit: "?Q (Exit 1, t1)"
    using fl1 by simp
  show ?case
  proof (cases "fd < 0")
    case True
    then show ?thesis using exit by (simp add: p exit1_def)
  next
    case False
    then have dev: "isdev fd" and op: "opened t1" using fd by simp_all
    have bo: "bo \<le> offset" "offset - bo = offset mod es"
      by (simp_all add: bo_def div_times_less_eq_dividend minus_div_mult_eq_mod)
    have dsz: "dsz < 2 ^ 32" "u64_of_int (erasesize t1 - int 12) = es - 12"
      using assms(1,3) op es_less by (auto simp: dsz_def tool_opened_def u64_of_int_def)
    have u: "block_base (erasesize t1) offset = bo" "sub64 offset bo = offset mod es"
      "u64_of_int (erasesize t1) = es" "u64_of_int (mtdsize t1) = miu_size info" "u64 (offset + 12) = offset + 12"
      "(if n \<noteq> 0 then u64 (n + 16) else u64_of_int (erasesize t1 - int 12)) = dsz"
      "u64 (offset + 12 + dsz) = offset + 12 + dsz"
      using op es_less size_less assms(2,3) bo dsz
      by (simp_all add: tool_opened_def block_base_es bo_def [symmetric] u64_of_int_def sub64_id' dsz_def)
    obtain res w where rd: "sys_pread sys fd es bo (world t1) = (res, w)" by fastforce
    have w: "flash w = ?fl" "opened (t1\<lparr>world := w\<rparr>)"
      using pread [OF dev rd] fl1 op by (auto simp: tool_opened_def)
    have exitw: "?Q (Exit 1, t1\<lparr>world := w\<rparr>)"
      using w by simp
    have body: "ensures (trx_rewrite sys fd fb bo (offset mod es) (offset + 12) dsz (t1\<lparr>world := w\<rparr>)) ?Q"
      if "res = Some fb" "length fb = es" "offset + 12 + dsz \<le> miu_size info" for fb
    proof -
      have "fb = take es (drop bo ?fl)"
        using pread [OF dev rd] fl1 that by simp
      moreover from this have "bo + es \<le> miu_size info"
        using that(2) es_pos flash_size [of "world t"] by (simp add: min_def split: if_splits)
      ultimately show ?thesis
        using trx_rewrite_ok [OF dev w(2) _ assms(1) that(3)] w(1) bo by (simp add: bo_def)
    qed
    show ?thesis
      unfolding p prod.case trx_offs u Let_def
      using False exit exitw body op by (cases res) (auto simp: rd exit1_def tool_opened_def)
  qed
qed

end

end
