(* ===== verification/Mtdtool_Boot.thy ===== *)
theory Mtdtool_Boot
  imports Mtdtool_Fix
begin

text \<open>
  The two commands of the \<^verbatim>\<open>mtd\<close> tool that talk to the boot loader: \<^verbatim>\<open>resetbc\<close> appends an entry to the
  boot counter log of Linksys devices (\<^verbatim>\<open>linksys_bootcount.c\<close>), and the write command sets and clears
  the recovery flag of TP-Link devices (\<^verbatim>\<open>tpl_ramips_recoveryflag.c\<close>).

  The log is a sequence of entries of the size of a page: a magic number, the count of failed boots,
  and a checksum. The boot loader takes the last entry before the erased rest of the partition.
\<close>

section \<open>\<^verbatim>\<open>linksys_bootcount.c\<close>\<close>

definition BOOTCOUNT_MAGIC :: nat where "BOOTCOUNT_MAGIC = 0x20110811"
definition BC_OFFSET_INCREMENT_MIN :: nat where "BC_OFFSET_INCREMENT_MIN = 16"
definition sizeof_bootcounter :: nat where "sizeof_bootcounter = 12"

text \<open>The static buffer \<^verbatim>\<open>page\<close>, which the program uses once.\<close>

definition bc_page :: "byte list" where "bc_page = replicate 2048 0"

text \<open>
  The loop over the entries: the index where it stops, the last count, and the buffer, or the error.
  The result of \<^verbatim>\<open>pread\<close> is ignored; a failure leaves the previous entry in the buffer.
\<close>

function resetbc_scan ::
    "'w mtd_sys \<Rightarrow> int \<Rightarrow> nat \<Rightarrow> nat \<Rightarrow> nat \<Rightarrow> int \<Rightarrow> byte list \<Rightarrow> 'w \<Rightarrow> ((int + nat \<times> int) \<times> byte list \<times> 'w) option" where
  "resetbc_scan sys fd inc num_bc i last_count page w =
     (if i < num_bc
      then (case sys_pread sys fd sizeof_bootcounter (u32 (i * inc)) w of (res, w) \<Rightarrow> do {
          page \<leftarrow> (case res of None \<Rightarrow> Some page | Some bs \<Rightarrow> mem_write page 0 bs);
          magic \<leftarrow> load32 page 0;
          if magic \<noteq> BOOTCOUNT_MAGIC \<and> magic \<noteq> 0xffffffff then Some (Inl (- 2), page, w)
          else if magic = 0xffffffff then Some (Inr (i, last_count), page, w)
          else do {
            count \<leftarrow> load32 page 4;
            resetbc_scan sys fd inc num_bc (i + 1) (s32 count) page w
          }
        })
      else Some (Inr (i, last_count), page, w))"
  by auto
termination
  by (relation "measure (\<lambda>(sys, fd, inc, num_bc, i, _). num_bc - i)") auto

declare resetbc_scan.simps [simp del]

definition bc_increment :: "mtd_info_user \<Rightarrow> nat" where
  "bc_increment mtd_info =
     (if miu_writesize mtd_info < BC_OFFSET_INCREMENT_MIN then BC_OFFSET_INCREMENT_MIN else miu_writesize mtd_info)"

text \<open>The entry that is appended: the buffer from its start, filled with \<^verbatim>\<open>0xff\<close> behind the structure.\<close>

definition resetbc_append ::
    "'w mtd_sys \<Rightarrow> int \<Rightarrow> nat \<Rightarrow> nat \<Rightarrow> byte list \<Rightarrow> 'w \<Rightarrow> (int \<times> 'w) option" where
  "resetbc_append sys fd inc i page w = do {
     page \<leftarrow> mem_write page 0 (replicate inc 0xff);
     page \<leftarrow> store32 page 0 BOOTCOUNT_MAGIC;
     page \<leftarrow> store32 page 4 0;
     page \<leftarrow> store32 page 8 BOOTCOUNT_MAGIC;
     bs \<leftarrow> mem_read page 0 inc;
     case sys_pwrite sys fd bs (u32 (i * inc)) w of (ret, w) \<Rightarrow>
       Some (if ret < 0 then - 4 else 0, w)
   }"

definition mtd_resetbc :: "'w mtd_sys \<Rightarrow> string \<Rightarrow> 'w tool \<Rightarrow> (int \<times> 'w tool) option" where
  "mtd_resetbc sys mtd t = do {
     (fd, t) \<leftarrow> mtd_check_open sys mtd t;
     (retval, w) \<leftarrow> (case sys_MEMGETINFO sys fd (world t) of
         None \<Rightarrow> Some (- 1, world t)
       | Some mtd_info \<Rightarrow>
           (let inc = bc_increment mtd_info;
                num_bc = miu_size mtd_info div inc in do {
              (res, page, w) \<leftarrow> resetbc_scan sys fd inc num_bc 0 0 bc_page (world t);
              case res of
                Inl err \<Rightarrow> Some (err, w)
              | Inr (i, last_count) \<Rightarrow>
                  if last_count = 0 then Some (0, w)
                  else if i = num_bc
                  then (case sys_MEMERASE sys fd 0 (miu_size mtd_info) w of (ret, w) \<Rightarrow>
                      if ret < 0 then Some (- 3, w) else resetbc_append sys fd inc 0 page w)
                  else resetbc_append sys fd inc i page w
            }));
     Some (retval, t\<lparr>world := sys_close sys fd w\<rparr>)
   }"

section \<open>\<^verbatim>\<open>tpl_ramips_recoveryflag.c\<close>\<close>

definition TPL_RECOVER_MAGIC :: nat where "TPL_RECOVER_MAGIC = 0x89abcdef"
definition TPL_NO_RECOVER_MAGIC :: nat where "TPL_NO_RECOVER_MAGIC = 0x00000000"

text \<open>
  The buffer is allocated with the erase block size of the device opened before; a longer block does
  not fit. The bytes a short read leaves uninitialised are used afterwards, which has no defined
  result.
\<close>

definition mtd_tpl_recoverflag_write ::
    "'w mtd_sys \<Rightarrow> string \<Rightarrow> bool \<Rightarrow> 'w tool \<Rightarrow> (int \<times> 'w tool) option" where
  "mtd_tpl_recoverflag_write sys mtd recovery_active t =
     (let size = u64_of_int (erasesize t) in
      if \<not> sys_malloc sys size then Some (- 1, t)
      else do {
        (fd, t) \<leftarrow> mtd_check_open sys mtd t;
        if fd < 0 then Some (- 1, t\<lparr>world := sys_close sys fd (world t)\<rparr>)
        else (let es = u64_of_int (erasesize t) in
          case sys_pread sys fd es 0 (world t) of
            (None, w) \<Rightarrow> None
          | (Some args, w) \<Rightarrow>
              if length args \<noteq> es \<or> size < es then None
              else do {
                let magic = (if recovery_active then TPL_RECOVER_MAGIC else TPL_NO_RECOVER_MAGIC);
                old \<leftarrow> load32 args 0;
                (ret, w) \<leftarrow>
                  (if magic = old then Some (0, w)
                   else (case sys_MEMERASE sys fd 0 (u32_of_int (erasesize t)) w of (ret, w) \<Rightarrow>
                     if ret < 0 then Some (ret, w)
                     else do {
                       args \<leftarrow> store32 args 0 magic;
                       Some (sys_pwrite sys fd args 0 w)
                     }));
                Some (ret, t\<lparr>world := sys_close sys fd w\<rparr>)
              })
      })"

section \<open>The log\<close>

text \<open>
  A log of \<open>n\<close> entries of which the first \<open>k\<close> are written, and the count of the last one.
\<close>

definition bc_log :: "nat \<Rightarrow> nat \<Rightarrow> byte list \<Rightarrow> nat \<Rightarrow> bool" where
  "bc_log inc n fl k \<longleftrightarrow> k \<le> n \<and> n * inc \<le> length fl \<and>
     (\<forall>i < k. u32_at fl (i * inc) = BOOTCOUNT_MAGIC) \<and> (\<forall>i < n. k \<le> i \<longrightarrow> u32_at fl (i * inc) = 0xffffffff)"

definition bc_count :: "nat \<Rightarrow> byte list \<Rightarrow> nat \<Rightarrow> nat" where
  "bc_count inc fl k = (if k = 0 then 0 else u32_at fl ((k - 1) * inc + 4))"

text \<open>A write succeeds as a whole or fails.\<close>

definition writes_whole :: "'w mtd_sys \<Rightarrow> (int \<Rightarrow> bool) \<Rightarrow> bool" where
  "writes_whole sys isdev \<longleftrightarrow> (\<forall>fd bs off w. isdev fd \<longrightarrow>
     fst (sys_pwrite sys fd bs off w) < 0 \<or> fst (sys_pwrite sys fd bs off w) = int (length bs))"

lemma s32_eq_0: "n < 2 ^ 32 \<Longrightarrow> s32 n = 0 \<longleftrightarrow> n = 0"
  by (auto simp: s32_def)

section \<open>What the commands leave on flash\<close>

lemma bytes_at_patch_in:
  "off + length bs \<le> length fl \<Longrightarrow> p + k \<le> length bs \<Longrightarrow> bytes_at (patch fl off bs) (off + p) k = bytes_at bs p k"
  by (intro nth_equalityI) (auto simp: bytes_at_def nth_patch)

lemma bytes_at_map2: "bytes_at (map2 f xs ys) p k = map2 f (bytes_at xs p k) (bytes_at ys p k)"
  by (simp add: bytes_at_def take_map drop_map take_zip drop_zip)

lemma replicate_4: "replicate 4 x = [x, x, x, x]"
  by (simp add: numeral_eq_Suc)

lemma u32_at_ones:
  assumes "u32_at fl p = 0xffffffff" and "p + 4 \<le> length fl"
  shows "bytes_at fl p 4 = replicate 4 0xff"
proof -
  have "replicate 4 0xff = [0xff, 0xff, 0xff, 0xff :: byte]"
    by (rule replicate_4)
  moreover have "le_dec [0xff, 0xff, 0xff, 0xff] = 0xffffffff" and "length [0xff, 0xff, 0xff, 0xff :: byte] = 4"
    by simp_all
  ultimately have "le_enc 4 (0xffffffff :: nat) = replicate 4 0xff"
    by (metis le_enc_le_dec)
  moreover have "length (bytes_at fl p 4) = 4"
    using assms(2) by (simp add: bytes_at_def)
  ultimately show ?thesis
    using le_enc_le_dec [of "bytes_at fl p 4"] assms(1) by (simp add: u32_at_def)
qed

lemma map2_and_zeros: "map2 (AND) (replicate n 0) bs = (replicate (min n (length bs)) 0 :: byte list)"
  by (intro nth_equalityI) auto

lemma le_enc_zero: "le_enc n 0 = replicate n 0"
  by (induction n) auto

lemma u32_at_same_outside:
  assumes "same_outside off n fl fl'" and "p + 4 \<le> off \<or> off + n \<le> p" and "p + 4 \<le> length fl"
  shows "u32_at fl' p = u32_at fl p"
  using slice_same_outside [OF assms] by (simp add: u32_at_def bytes_at_def)

lemma entry_room: "i < n \<Longrightarrow> n * inc \<le> (m :: nat) \<Longrightarrow> i * inc + inc \<le> m"
proof -
  assume "i < n" "n * inc \<le> m"
  then have "Suc i * inc \<le> n * inc" by (intro mult_le_mono1) simp
  then show ?thesis using \<open>n * inc \<le> m\<close> by simp
qed

lemma bc_count_Suc: "bc_count inc fl (Suc i) = u32_at fl (i * inc + 4)"
  by (simp add: bc_count_def)

lemma bc_log_append:
  assumes "bc_log inc n fl k" and "k < n" and "same_outside (k * inc) inc fl fl'" and "4 \<le> inc"
    and "u32_at fl' (k * inc) = BOOTCOUNT_MAGIC"
  shows "bc_log inc n fl' (Suc k)"
proof -
  have "u32_at fl' (i * inc) = u32_at fl (i * inc)" if "i < n" "i \<noteq> k" for i
  proof (rule u32_at_same_outside [OF assms(3)])
    show "i * inc + 4 \<le> k * inc \<or> k * inc + inc \<le> i * inc"
      using that(2) entry_room [of i k inc "k * inc"] entry_room [of k i inc "i * inc"] assms(4)
      by (cases "i < k") auto
    show "i * inc + 4 \<le> length fl"
      using entry_room [OF that(1), of inc "length fl"] assms(1,4) by (simp add: bc_log_def)
  qed
  then show ?thesis
    using assms(1,2,3,5) by (auto simp: bc_log_def same_outside_def less_Suc_eq)
qed

lemma u32_at_erased: "p + 4 \<le> m \<Longrightarrow> u32_at (replicate m 0xff) p = 0xffffffff"
proof -
  assume "p + 4 \<le> m"
  then have "bytes_at (replicate m x) p 4 = [x, x, x, x]" for x :: byte
    by (simp add: bytes_at_def min_absorb2 replicate_4)
  then show ?thesis
    by (simp add: u32_at_def)
qed

lemma bc_log_erased: "n * inc \<le> m \<Longrightarrow> 4 \<le> inc \<Longrightarrow> bc_log inc n (replicate m 0xff) 0"
  using entry_room [of _ n inc m] by (fastforce simp: bc_log_def intro: u32_at_erased)

text \<open>What \<^verbatim>\<open>resetbc\<close> promises: unless it reports an error, the log is in order and its count is 0.\<close>

definition bc_reset :: "nat \<Rightarrow> nat \<Rightarrow> ('w \<Rightarrow> byte list) \<Rightarrow> int \<times> 'w tool \<Rightarrow> bool" where
  "bc_reset inc n flash res \<longleftrightarrow> fst res \<in> {- 1, - 3, - 4} \<or>
     fst res = 0 \<and> (\<exists>k. bc_log inc n (flash (world (snd res))) k \<and> bc_count inc (flash (world (snd res))) k = 0)"

context mtd_chardev
begin

lemma resetbc_read:
  assumes "isdev fd" and "reads_work sys isdev info" and "off + 12 \<le> miu_size info" and "length page = 2048" and "flash w = fl"
  obtains bs w1 page1 where "sys_pread sys fd 12 off w = (Some bs, w1)" and "flash w1 = fl" and "mem_write page 0 bs = Some page1"
    and "length page1 = 2048" and "load32 page1 0 = Some (u32_at fl off)" and "load32 page1 4 = Some (u32_at fl (off + 4))"
proof -
  obtain bs where "fst (sys_pread sys fd 12 off w) = Some bs" "length bs = 12"
    using assms(1-3) unfolding reads_work_def by blast
  then obtain w1 where rd: "sys_pread sys fd 12 off w = (Some bs, w1)" and lbs: "length bs = 12"
    by (cases "sys_pread sys fd 12 off w") auto
  have bs: "flash w1 = fl" "bs = take 12 (drop off fl)"
    using pread [OF assms(1) rd] assms(5) lbs by auto
  let ?page = "patch page 0 bs"
  have at: "load32 ?page p = Some (u32_at fl (off + p))" if "p + 4 \<le> 12" for p
    using that assms(4) lbs bytes_at_patch_in [of 0 bs page p 4] bytes_at_slice [of p 4 12 off fl]
    by (simp add: load32_eq u32_at_def bs(2))
  show ?thesis
    by (rule that [OF rd bs(1), of ?page])
      (use at [of 0] at [of 4] assms(4) lbs in \<open>simp_all add: mem_write_patch\<close>)
qed

lemma resetbc_scan_ok:
  assumes "isdev fd" and "reads_work sys isdev info" and "bc_log inc n fl k" and "12 \<le> inc" and "n * inc \<le> miu_size info"
    and "i \<le> k" and "length page = 2048" and "flash w = fl"
  shows "ensures (resetbc_scan sys fd inc n i (s32 (bc_count inc fl i)) page w) (\<lambda>(res, page', w').
    length page' = 2048 \<and> flash w' = fl \<and> res = Inr (k, s32 (bc_count inc fl k)))"
  using assms(6-8)
proof (induction "k - i" arbitrary: i page w)
  case (0 i page w)
  then have i: "i = k" by simp
  show ?case
  proof (cases "k < n")
    case True
    have room: "k * inc + 12 \<le> miu_size info"
      using entry_room [OF True assms(5)] assms(4) by simp
    have u: "u32 (k * inc) = k * inc"
      using room size_less by simp
    show ?thesis
      using True assms(3) i
      by (rule_tac resetbc_read [OF assms(1,2) room 0(3,4)])
        (simp add: resetbc_scan.simps [of sys fd inc n k] sizeof_bootcounter_def u bc_log_def BOOTCOUNT_MAGIC_def)
  next
    case False
    then show ?thesis using 0 i by (simp add: resetbc_scan.simps)
  qed
next
  case (Suc d i page w)
  then have ik: "i < k" "i < n" using assms(3) by (auto simp: bc_log_def)
  have room: "i * inc + 12 \<le> miu_size info"
    using entry_room [OF ik(2) assms(5)] assms(4) by simp
  have u: "u32 (i * inc) = i * inc"
    using room size_less by simp
  have magic: "u32_at fl (i * inc) = BOOTCOUNT_MAGIC"
    using assms(3) ik(1) by (simp add: bc_log_def)
  obtain bs w1 page1 where rd: "sys_pread sys fd 12 (i * inc) w = (Some bs, w1)" "flash w1 = fl"
      "mem_write page 0 bs = Some page1" "length page1 = 2048" "load32 page1 0 = Some (u32_at fl (i * inc))"
      "load32 page1 4 = Some (u32_at fl (i * inc + 4))"
    using resetbc_read [OF assms(1,2) room Suc.prems(2,3)] .
  have "ensures (resetbc_scan sys fd inc n (i + 1) (s32 (bc_count inc fl (i + 1))) page1 w1) (\<lambda>(res, page', w').
    length page' = 2048 \<and> flash w' = fl \<and> res = Inr (k, s32 (bc_count inc fl k)))"
    by (rule Suc.hyps(1)) (use Suc.hyps(2) ik rd in auto)
  then show ?case
    by (subst resetbc_scan.simps)
      (simp add: ik rd u sizeof_bootcounter_def magic BOOTCOUNT_MAGIC_def bc_count_Suc)
qed

lemma resetbc_append_ok:
  assumes "isdev fd" and "writes_whole sys isdev" and "12 \<le> inc" and "inc \<le> 2048" and "i * inc + inc \<le> miu_size info"
    and "length page = 2048" and "u32_at (flash w) (i * inc) = 0xffffffff"
  shows "ensures (resetbc_append sys fd inc i page w) (\<lambda>(ret, w').
    same_outside (i * inc) inc (flash w) (flash w') \<and> (ret = - 4 \<or>
    ret = 0 \<and> u32_at (flash w') (i * inc) = BOOTCOUNT_MAGIC \<and> u32_at (flash w') (i * inc + 4) = 0))"
proof -
  let ?p1 = "patch page 0 (replicate inc 0xff)"
  let ?p2 = "patch ?p1 0 (le_enc 4 BOOTCOUNT_MAGIC)"
  let ?p3 = "patch ?p2 4 (le_enc 4 0)"
  let ?p4 = "patch ?p3 8 (le_enc 4 BOOTCOUNT_MAGIC)"
  define bs where "bs = bytes_at ?p4 0 inc"
  have lens: "length ?p1 = 2048" "length ?p2 = 2048" "length ?p3 = 2048" "length ?p4 = 2048"
    using assms(4,6) by simp_all
  have lbs: "length bs = inc"
    using assms(3,4) lens by (simp add: bs_def bytes_at_def)
  have app: "resetbc_append sys fd inc i page w =
      (case sys_pwrite sys fd bs (i * inc) w of (ret, w) \<Rightarrow> Some (if ret < 0 then - 4 else 0, w))"
    using assms(3-6) lens size_less
    by (simp add: resetbc_append_def mem_write_patch store32_eq mem_read_bytes bs_def)
  have "bytes_at bs p 4 = bytes_at ?p4 p 4" if "p + 4 \<le> 12" for p
    using that assms(3) bytes_at_take [of p 4 inc ?p4] by (simp add: bs_def bytes_at_def [of _ 0])
  then have bs: "bytes_at bs 0 4 = le_enc 4 BOOTCOUNT_MAGIC" "bytes_at bs 4 4 = le_enc 4 0"
    using lens by (simp_all add: bytes_at_patch_other bytes_at_patch_same)
  obtain ret w' where wr: "sys_pwrite sys fd bs (i * inc) w = (ret, w')" by fastforce
  have ret: "ret < 0 \<or> ret = int (length bs)"
    using assms(1,2) wr unfolding writes_whole_def by (metis fst_conv)
  note pw = pwrite [OF assms(1) wr]
  have room: "i * inc + inc \<le> length (flash w)"
    using assms(5) by (simp add: flash_size)
  have fields: "u32_at (flash w') (i * inc) = BOOTCOUNT_MAGIC \<and> u32_at (flash w') (i * inc + 4) = 0"
    if "ret = int (length bs)"
  proof -
    let ?m = "map2 (AND) bs (take inc (drop (i * inc) (flash w)))"
    have fl': "flash w' = patch (flash w) (i * inc) ?m"
      using pw that lbs by simp
    have lm: "length ?m = inc" using lbs room by simp
    have slice: "bytes_at (flash w') (i * inc + p) 4 = map2 (AND) (bytes_at bs p 4) (bytes_at (flash w) (i * inc + p) 4)"
      if "p + 4 \<le> 12" for p
      unfolding fl' using that assms(3) room lm bytes_at_patch_in [of "i * inc" ?m "flash w" p 4]
      by (simp add: bytes_at_map2 bytes_at_slice)
    have ones: "bytes_at (flash w) (i * inc) 4 = replicate 4 0xff"
      using u32_at_ones [OF assms(7)] room assms(3) by simp
    have "bytes_at (flash w') (i * inc) 4 = le_enc 4 BOOTCOUNT_MAGIC"
      using slice [of 0] map2_and_ones [of "le_enc 4 BOOTCOUNT_MAGIC"] by (simp add: bs ones)
    moreover have "le_dec (bytes_at (flash w') (i * inc + 4) 4) = 0"
      using slice [of 4] by (simp add: bs le_enc_zero map2_and_zeros le_dec_zeros)
    ultimately show ?thesis
      by (simp add: u32_at_def le_dec_le_enc_id BOOTCOUNT_MAGIC_def)
  qed
  show ?thesis
    using ret pw fields lbs by (auto simp: app wr)
qed

lemma resetbc_ok:
  assumes "reads_work sys isdev info" and "writes_whole sys isdev" and "miu_writesize info \<le> 2048"
    and "inc = bc_increment info" and "n = miu_size info div inc" and "bc_log inc n (flash (world t)) k"
  shows "ensures (mtd_resetbc sys mtd t) (bc_reset inc n flash)"
  unfolding mtd_resetbc_def
proof (rule ensures_bindI [OF check_open_ok], goal_cases)
  case (1 p)
  obtain fd t1 where p: "p = (fd, t1)" by (cases p)
  let ?fl = "flash (world t)"
  have fl1: "flash (world t1) = ?fl" and fd: "0 \<le> fd \<longrightarrow> isdev fd"
    using 1 by (simp_all add: p)
  have inc: "12 \<le> inc" "4 \<le> inc" "inc \<le> 2048"
    using assms(3,4) by (auto simp: bc_increment_def BC_OFFSET_INCREMENT_MIN_def)
  have n: "n * inc \<le> miu_size info"
    by (simp add: assms(5) div_times_less_eq_dividend)
  show ?case
  proof (cases "sys_MEMGETINFO sys fd (world t1)")
    case None
    then show ?thesis by (simp add: p bc_reset_def)
  next
    case (Some i)
    then have dev: "isdev fd" and i: "i = info"
      using no_info [of fd] fd get_info [of fd] by (force simp: not_le [symmetric])+
    have append: "ensures (do { (retval, w) \<leftarrow> resetbc_append sys fd inc j page w1;
        Some (retval, t1\<lparr>world := sys_close sys fd w\<rparr>) }) (bc_reset inc n flash)"
      if "length page = 2048" "bc_log inc n (flash w1) j" "j < n" for page w1 j
    proof -
      have "u32_at (flash w1) (j * inc) = 0xffffffff"
        using that(2,3) by (simp add: bc_log_def)
      from resetbc_append_ok [OF dev assms(2) inc(1,3) entry_room [OF that(3) n] that(1) this]
      show ?thesis
        using bc_log_append [OF that(2,3) _ inc(2)]
        by (force simp: ensures_iff bc_reset_def close_dev bc_count_def intro!: exI [of _ "Suc j"])
    qed
    obtain w1 page where scan: "resetbc_scan sys fd inc n 0 0 bc_page (world t1) = Some (Inr (k, s32 (bc_count inc ?fl k)), page, w1)"
      and w1: "length page = 2048" "flash w1 = ?fl"
      using resetbc_scan_ok [OF dev assms(1,6) inc(1) n, of 0 bc_page "world t1"] fl1
      by (auto simp: ensures_iff bc_page_def bc_count_def)
    have cnt: "s32 (bc_count inc ?fl k) = 0 \<longleftrightarrow> bc_count inc ?fl k = 0"
      using u32_at_less by (intro s32_eq_0) (simp add: bc_count_def)
    have k: "k \<le> n" using assms(6) by (simp add: bc_log_def)
    obtain r w2 where er: "sys_MEMERASE sys fd 0 (miu_size info) w1 = (r, w2)" by fastforce
    have erased: "0 \<le> r \<Longrightarrow> flash w2 = replicate (miu_size info) 0xff"
      using erase [OF dev er] flash_size [of w1] by (simp add: patch_def)
    have "bc_reset inc n flash (0, t1\<lparr>world := sys_close sys fd w1\<rparr>)" if "bc_count inc ?fl k = 0"
      using that assms(6) w1 by (auto simp: bc_reset_def close_dev)
    moreover have "0 < n" "k \<noteq> 0" if "bc_count inc ?fl k \<noteq> 0"
      using that k by (auto simp: bc_count_def split: if_splits)
    ultimately show ?thesis
      using append [of page w1 k] append [of page w2 0] bc_log_erased [OF n inc(2)] w1 assms(6) k erased scan cnt
      by (auto simp: p Some i Let_def assms(4,5) [symmetric] er bc_reset_def [of inc n flash "(- 3, _)"])
  qed
qed

lemma tpl_flag_ok:
  assumes "reads_work sys isdev info" and "writes_whole sys isdev" and "erasesize t = int es" and "4 \<le> es"
    and "es \<le> miu_size info"
    and "flag = (if active then TPL_RECOVER_MAGIC else TPL_NO_RECOVER_MAGIC)"
  shows "ensures (mtd_tpl_recoverflag_write sys mtd active t) (\<lambda>(ret, t').
    same_outside 0 es (flash (world t)) (flash (world t')) \<and>
    (0 \<le> ret \<longrightarrow> flash (world t') = patch (flash (world t)) 0 (le_enc 4 flag)))"
proof -
  let ?fl = "flash (world t)"
  have u: "u64_of_int (int es) = es" "u32_of_int (int es) = es"
    using es_less by (simp_all add: u64_of_int_def u32_of_int_nonneg)
  have mal: "sys_malloc sys es" using assms(1) by (simp add: reads_work_def)
  have "ensures (do {
        (fd, t) \<leftarrow> mtd_check_open sys mtd t;
        if fd < 0 then Some (- 1, t\<lparr>world := sys_close sys fd (world t)\<rparr>)
        else (let es' = u64_of_int (erasesize t) in
          case sys_pread sys fd es' 0 (world t) of
            (None, w) \<Rightarrow> None
          | (Some args, w) \<Rightarrow>
              if length args \<noteq> es' \<or> es < es' then None
              else do {
                let magic = flag;
                old \<leftarrow> load32 args 0;
                (ret, w) \<leftarrow>
                  (if magic = old then Some (0, w)
                   else (case sys_MEMERASE sys fd 0 (u32_of_int (erasesize t)) w of (ret, w) \<Rightarrow>
                     if ret < 0 then Some (ret, w)
                     else do {
                       args \<leftarrow> store32 args 0 magic;
                       Some (sys_pwrite sys fd args 0 w)
                     }));
                Some (ret, t\<lparr>world := sys_close sys fd w\<rparr>)
              })
      }) (\<lambda>(ret, t'). same_outside 0 es ?fl (flash (world t')) \<and>
        (0 \<le> ret \<longrightarrow> flash (world t') = patch ?fl 0 (le_enc 4 flag)))" (is "ensures _ ?Q")
  proof (rule ensures_bindI [OF check_open_ok], goal_cases)
    case (1 p)
    obtain fd t1 where p: "p = (fd, t1)" by (cases p)
    have fl1: "flash (world t1) = ?fl" and fd: "0 \<le> fd \<longrightarrow> isdev fd \<and> opened t1"
      using 1 by (simp_all add: p)
    show ?case
    proof (cases "fd < 0")
      case True
      then show ?thesis using fl1 by (simp add: p close_dev)
    next
      case False
      then have dev: "isdev fd" and op: "erasesize t1 = int es"
        using fd by (simp_all add: tool_opened_def)
      obtain args w1 where rd: "sys_pread sys fd es 0 (world t1) = (Some args, w1)" and len: "length args = es"
        using assms(1,5) dev unfolding reads_work_def by (metis add_0 prod.collapse)
      have w1: "flash w1 = ?fl" "args = take es ?fl"
        using pread [OF dev rd] fl1 len by auto
      have room: "es \<le> length ?fl" using assms(5) by (simp add: flash_size)
      obtain r2 w2 where er: "sys_MEMERASE sys fd 0 es w1 = (r2, w2)" by fastforce
      note er' = erase [OF dev er, unfolded w1(1)]
      let ?args = "patch args 0 (le_enc 4 flag)"
      have la: "length ?args = es" using len assms(4) by simp
      obtain r3 w3 where wr: "sys_pwrite sys fd ?args 0 w2 = (r3, w3)" by fastforce
      have r3: "r3 < 0 \<or> r3 = int es"
        using assms(2) dev wr la unfolding writes_whole_def by (metis fst_conv)
      have written: "flash w3 = patch ?fl 0 (le_enc 4 flag)" if "0 \<le> r2" "r3 = int es"
      proof -
        have "take es (flash w2) = replicate (length ?args) 0xFF"
          using er' that(1) room la slice_patch_same [of 0 "replicate es 0xFF" ?fl es] by simp
        then have "flash w3 = patch (flash w2) 0 ?args"
          using pwrite [OF dev wr] that(2) la map2_and_ones [of ?args] by simp
        then show ?thesis
          using er' that(1) room la w1(2) assms(4) patch_patch [of "replicate es 0xFF" ?args 0 ?fl]
            patch_block [of 0 "le_enc 4 flag" es ?fl] by simp
      qed
      have out: "same_outside 0 es ?fl (flash w3)"
        using same_outside_trans [of 0 es ?fl "flash w2"] er' pwrite [OF dev wr] la by simp
      have same: "patch ?fl 0 (le_enc 4 flag) = ?fl" if "flag = u32_at args 0"
      proof -
        have "le_enc 4 flag = take 4 ?fl"
          using le_enc_le_dec [of "bytes_at args 0 4"] that len assms(4)
          by (simp add: u32_at_def bytes_at_def w1(2))
        then show ?thesis using patch_same [of 0 4 ?fl] room assms(4) by simp
      qed
      show ?thesis
        using False rd len w1(1) er' out written r3 same assms(4)
        by (auto simp: p op u Let_def load32_eq er store32_eq wr close_dev)
    qed
  qed
  then show ?thesis
    unfolding mtd_tpl_recoverflag_write_def assms(3) u Let_def assms(6) using mal by simp
qed

end

lemma resetbc_append_overflow:
  "length page = 2048 \<Longrightarrow> 2048 < inc \<Longrightarrow> resetbc_append sys fd inc i page w = None"
  by (simp add: resetbc_append_def mem_write_def)

end
