(* ===== verification/Mtdsplit_Fw.thy ===== *)
theory Mtdsplit_Fw
  imports Mtdsplit
begin

text \<open>
  The firmware splitters that expect a header at the start of the device and search for the
  root file system behind it: \<^verbatim>\<open>mtdsplit_seama.c\<close>, \<^verbatim>\<open>mtdsplit_lzma.c\<close>, \<^verbatim>\<open>mtdsplit_wrgg.c\<close> and
  \<^verbatim>\<open>mtdsplit_minor.c\<close>. The argument \<open>kz\<close> says whether the parser's \<^verbatim>\<open>kzalloc\<close> succeeds. The lemmas
  show that each of them divides the device into the kernel and the root file system.
\<close>

text \<open>The array of two entries with which these parsers end.\<close>

definition two_parts :: "bool \<Rightarrow> mtd_partition \<Rightarrow> mtd_partition \<Rightarrow> parsed" where
  "two_parts kz a b = (if kz then Some (2, Some [a, b]) else fail (- ENOMEM))"

section \<open>\<^verbatim>\<open>mtdsplit_seama.c\<close>\<close>

definition SEAMA_MAGIC :: nat where "SEAMA_MAGIC = 0x5EA3A417"
definition SEAMA_MIN_ROOTFS_OFFS :: nat where "SEAMA_MIN_ROOTFS_OFFS = 0x80000"

record seama_header =
  seama_magic :: nat
  seama_reserved :: nat
  seama_metasize :: nat
  seama_size :: nat
  seama_md5 :: "byte list"

definition sizeof_seama_header :: nat where "sizeof_seama_header = 28"

definition dec_seama_header :: "byte list \<Rightarrow> seama_header" where
  "dec_seama_header hb =
     \<lparr>seama_magic = u32_at hb 0, seama_reserved = u16_at hb 4, seama_metasize = u16_at hb 6,
      seama_size = u32_at hb 8, seama_md5 = bytes_at hb 12 16\<rparr>"

definition mtdsplit_parse_seama :: "bool \<Rightarrow> split_mtd \<Rightarrow> parsed" where
  "mtdsplit_parse_seama kz master =
     (case split_read master 0 sizeof_seama_header of
        Inl err \<Rightarrow> fail err
      | Inr hb \<Rightarrow>
        (let hdr = dec_seama_header hb in
         if be32_to_cpu (seama_magic hdr) \<noteq> SEAMA_MAGIC then fail (- EINVAL)
         else (let kernel_ent_size =
                     u64 (sizeof_seama_header + be32_to_cpu (seama_size hdr)
                          + be16_to_cpu (seama_metasize hdr)) in
           if kernel_ent_size > mi_size master then fail (- EINVAL)
           else do {
             found \<leftarrow> (case mtd_check_rootfs_magic master kernel_ent_size of
                          Inr type \<Rightarrow> Some (Inr (kernel_ent_size, type))
                        | Inl err \<Rightarrow> mtd_find_rootfs_from master SEAMA_MIN_ROOTFS_OFFS (mi_size master));
             case found of
               Inl err \<Rightarrow> fail err
             | Inr (rootfs_offset, type) \<Rightarrow>
                 (let offset = u64 (sizeof_seama_header + be16_to_cpu (seama_metasize hdr)) in
                  two_parts kz
                    (mk_part KERNEL_PART_NAME offset (sub64 rootfs_offset offset))
                    (mk_part (rootfs_name type) rootfs_offset (sub64 (mi_size master) rootfs_offset)))
           })))"

section \<open>\<^verbatim>\<open>mtdsplit_lzma.c\<close>\<close>

record lzma_header =
  lzma_props :: "byte list"
  lzma_size_low :: "byte list"
  lzma_size_high :: "byte list"

definition sizeof_lzma_header :: nat where "sizeof_lzma_header = 13"

definition dec_lzma_header :: "byte list \<Rightarrow> lzma_header" where
  "dec_lzma_header hb =
     \<lparr>lzma_props = bytes_at hb 0 5, lzma_size_low = bytes_at hb 5 4, lzma_size_high = bytes_at hb 9 4\<rparr>"

text \<open>\<^verbatim>\<open>is_power_of_2\<close> of the kernel's \<^verbatim>\<open>log2.h\<close>.\<close>

definition log2_is_power_of_2 :: "nat \<Rightarrow> bool" where
  "log2_is_power_of_2 n \<longleftrightarrow> n \<noteq> 0 \<and> n AND (n - 1) = 0"

definition mtdsplit_parse_lzma :: "bool \<Rightarrow> split_mtd \<Rightarrow> parsed" where
  "mtdsplit_parse_lzma kz master =
     (case split_read master 0 sizeof_lzma_header of
        Inl err \<Rightarrow> fail err
      | Inr hb \<Rightarrow>
        (let hdr = dec_lzma_header hb in
         if u8_at (lzma_props hdr) 0 \<ge> 9 * 5 * 5 then fail (- EINVAL)
         else if \<not> log2_is_power_of_2 (u32_at (lzma_props hdr) 1) then fail (- EINVAL)
         else if u32_at (lzma_size_high hdr) 0 \<noteq> 0 then fail (- EINVAL)
         else do {
           found \<leftarrow> mtd_find_rootfs_from master (mi_erasesize master) (mi_size master);
           case found of
             Inl err \<Rightarrow> fail err
           | Inr (rootfs_offset, type) \<Rightarrow>
               two_parts kz
                 (mk_part KERNEL_PART_NAME 0 rootfs_offset)
                 (mk_part ROOTFS_PART_NAME rootfs_offset (sub64 (mi_size master) rootfs_offset))
         }))"

section \<open>\<^verbatim>\<open>mtdsplit_wrgg.c\<close>\<close>

definition WRGG_MIN_ROOTFS_OFFS :: nat where "WRGG_MIN_ROOTFS_OFFS = 0x80000"
definition WRGG03_MAGIC :: nat where "WRGG03_MAGIC = 0x20080321"
definition WRG_MAGIC :: nat where "WRG_MAGIC = 0x20040220"

record wrgg03_header =
  wrgg_signature :: "byte list"
  wrgg_magic1 :: nat
  wrgg_magic2 :: nat
  wrgg_version :: "byte list"
  wrgg_model :: "byte list"
  wrgg_flag :: "nat list"
  wrgg_reserve :: "nat list"
  wrgg_buildno :: "byte list"
  wrgg_size :: nat
  wrgg_offset :: nat
  wrgg_devname :: "byte list"
  wrgg_digest :: "byte list"

definition sizeof_wrgg03_header :: nat where "sizeof_wrgg03_header = 160"

definition dec_wrgg03_header :: "byte list \<Rightarrow> wrgg03_header" where
  "dec_wrgg03_header hb =
     \<lparr>wrgg_signature = bytes_at hb 0 32, wrgg_magic1 = u32_at hb 32, wrgg_magic2 = u32_at hb 36,
      wrgg_version = bytes_at hb 40 16, wrgg_model = bytes_at hb 56 16,
      wrgg_flag = [u32_at hb 72, u32_at hb 76], wrgg_reserve = [u32_at hb 80, u32_at hb 84],
      wrgg_buildno = bytes_at hb 88 16, wrgg_size = u32_at hb 104, wrgg_offset = u32_at hb 108,
      wrgg_devname = bytes_at hb 112 32, wrgg_digest = bytes_at hb 144 16\<rparr>"

record wrg_header =
  wrg_signature :: "byte list"
  wrg_magic1 :: nat
  wrg_magic2 :: nat
  wrg_size :: nat
  wrg_offset :: nat
  wrg_devname :: "byte list"
  wrg_digest :: "byte list"

definition sizeof_wrg_header :: nat where "sizeof_wrg_header = 96"

definition dec_wrg_header :: "byte list \<Rightarrow> wrg_header" where
  "dec_wrg_header hb =
     \<lparr>wrg_signature = bytes_at hb 0 32, wrg_magic1 = u32_at hb 32, wrg_magic2 = u32_at hb 36,
      wrg_size = u32_at hb 40, wrg_offset = u32_at hb 44, wrg_devname = bytes_at hb 48 32,
      wrg_digest = bytes_at hb 80 16\<rparr>"

text \<open>The two sanity checks of the header, up to the size of the kernel entity.\<close>

definition wrgg_kernel_ent_size :: "split_mtd \<Rightarrow> byte list \<Rightarrow> int + nat" where
  "wrgg_kernel_ent_size master hb =
     (let hdr = dec_wrgg03_header hb in
      if le32_to_cpu (wrgg_magic1 hdr) = WRGG03_MAGIC
      then (let kernel_ent_size = sizeof_wrgg03_header + be32_to_cpu (wrgg_size hdr);
                kernel_ent_size = (if kernel_ent_size > mi_size master
                                   then sizeof_wrgg03_header + le32_to_cpu (wrgg_size hdr)
                                   else kernel_ent_size)
            in if kernel_ent_size > mi_size master then Inl (- EINVAL) else Inr kernel_ent_size)
      else if le32_to_cpu (wrgg_magic1 hdr) = WRG_MAGIC
      then Inr (sizeof_wrg_header + le32_to_cpu (wrg_size (dec_wrg_header hb)))
      else Inl (- EINVAL))"

definition mtdsplit_parse_wrgg :: "bool \<Rightarrow> split_mtd \<Rightarrow> parsed" where
  "mtdsplit_parse_wrgg kz master =
     (case split_read master 0 sizeof_wrgg03_header of
        Inl err \<Rightarrow> fail err
      | Inr hb \<Rightarrow>
        (case wrgg_kernel_ent_size master hb of
           Inl err \<Rightarrow> fail err
         | Inr kernel_ent_size \<Rightarrow>
             if kernel_ent_size > mi_size master then fail (- EINVAL)
             else do {
               found \<leftarrow> mtd_find_rootfs_from master WRGG_MIN_ROOTFS_OFFS (mi_size master);
               case found of
                 Inl err \<Rightarrow> fail err
               | Inr (rootfs_offset, type) \<Rightarrow>
                   two_parts kz
                     (mk_part KERNEL_PART_NAME 0 rootfs_offset)
                     (mk_part ROOTFS_PART_NAME rootfs_offset (sub64 (mi_size master) rootfs_offset))
             }))"

section \<open>\<^verbatim>\<open>mtdsplit_minor.c\<close>\<close>

definition YAFFS_OBJECT_TYPE_FILE :: int where "YAFFS_OBJECT_TYPE_FILE = 1"
definition YAFFS_OBJECTID_ROOT :: int where "YAFFS_OBJECTID_ROOT = 1"
definition YAFFS_SUM_UNUSED :: nat where "YAFFS_SUM_UNUSED = 0xFFFF"

text \<open>The string with its terminating NUL, which \<^verbatim>\<open>sizeof(YAFFS_NAME)\<close> counts.\<close>

definition YAFFS_NAME :: "byte list" where "YAFFS_NAME = str_bytes ''kernel'' @ [0]"

record minor_header =
  minor_yaffs_type :: int
  minor_yaffs_obj_id :: int
  minor_yaffs_sum_unused :: nat
  minor_yaffs_name :: "byte list"

text \<open>The structure is padded to the alignment of its \<^verbatim>\<open>int\<close> members.\<close>

definition sizeof_minor_header :: nat where "sizeof_minor_header = 20"

definition dec_minor_header :: "byte list \<Rightarrow> minor_header" where
  "dec_minor_header hb =
     \<lparr>minor_yaffs_type = s32 (u32_at hb 0), minor_yaffs_obj_id = s32 (u32_at hb 4),
      minor_yaffs_sum_unused = u16_at hb 8, minor_yaffs_name = bytes_at hb 10 7\<rparr>"

definition mtdsplit_parse_minor :: "bool \<Rightarrow> split_mtd \<Rightarrow> parsed" where
  "mtdsplit_parse_minor kz master =
     (case split_read master 0 sizeof_minor_header of
        Inl err \<Rightarrow> fail err
      | Inr hb \<Rightarrow>
        (let hdr = dec_minor_header hb in
         if minor_yaffs_type hdr \<noteq> YAFFS_OBJECT_TYPE_FILE then fail (- EINVAL)
         else if minor_yaffs_obj_id hdr \<noteq> YAFFS_OBJECTID_ROOT then fail (- EINVAL)
         else if minor_yaffs_sum_unused hdr \<noteq> YAFFS_SUM_UNUSED then fail (- EINVAL)
         else if minor_yaffs_name hdr \<noteq> YAFFS_NAME then fail (- EINVAL)
         else do {
           found \<leftarrow> mtd_find_rootfs_from master (mi_erasesize master) (mi_size master);
           case found of
             Inl err \<Rightarrow> fail err
           | Inr (rootfs_offset, type) \<Rightarrow>
               two_parts kz
                 (mk_part KERNEL_PART_NAME 0 rootfs_offset)
                 (mk_part ROOTFS_PART_NAME rootfs_offset (sub64 (mi_size master) rootfs_offset))
         }))"

section \<open>The device is divided in two\<close>

lemma ensures_two_parts:
  "P [a, b] \<Longrightarrow> ensures (two_parts kz a b) (split_post P)"
  by (simp add: two_parts_def ENOMEM_def)

context split_device
begin

text \<open>A root file system that is found gives the division.\<close>

lemma division:
  assumes "mtd_check_rootfs_magic m off = Inr type" and "start \<le> off"
  shows "kernel_then_rootfs m
    [mk_part kn start (sub64 off start), mk_part rn off (sub64 (mi_size m) off)]"
proof -
  have "off + 4 \<le> mi_size m" by (rule magic_inside [OF assms(1)])
  moreover have "sub64 off start = off - start"
    using assms(2) \<open>off + 4 \<le> mi_size m\<close> size_le by (intro sub64_id') simp_all
  ultimately show ?thesis
    using assms by (simp add: kernel_then_rootfs_def has_rootfs_def rest_size)
qed

lemma division0:
  assumes "mtd_check_rootfs_magic m off = Inr type"
  shows "kernel_then_rootfs m [mk_part kn 0 off, mk_part rn off (sub64 (mi_size m) off)]"
  using division [OF assms, of 0] magic_inside [OF assms] size_le by (simp add: sub64_id')

lemma search_divides:
  "ensures (do {
       found \<leftarrow> mtd_find_rootfs_from m from (mi_size m);
       case found of
         Inl err \<Rightarrow> fail err
       | Inr (off, type) \<Rightarrow>
           two_parts kz (mk_part kn 0 off) (mk_part (rn type) off (sub64 (mi_size m) off))
     }) (split_post (kernel_then_rootfs m))"
  by (rule ensures_bindI [OF find_rootfs_post])
    (auto simp: ensures_two_parts division0 split: sum.splits)

lemma parse_lzma_divides: "ensures (mtdsplit_parse_lzma kz m) (split_post (kernel_then_rootfs m))"
  using search_divides [where kz = kz and kn = KERNEL_PART_NAME and rn = "\<lambda>_. ROOTFS_PART_NAME"]
  by (auto simp: mtdsplit_parse_lzma_def Let_def EINVAL_def dest: split_read_error split: sum.split)

lemma parse_minor_divides: "ensures (mtdsplit_parse_minor kz m) (split_post (kernel_then_rootfs m))"
  using search_divides [where kz = kz and kn = KERNEL_PART_NAME and rn = "\<lambda>_. ROOTFS_PART_NAME"]
  by (auto simp: mtdsplit_parse_minor_def Let_def EINVAL_def dest: split_read_error split: sum.split)

lemma parse_wrgg_divides: "ensures (mtdsplit_parse_wrgg kz m) (split_post (kernel_then_rootfs m))"
proof -
  have "wrgg_kernel_ent_size m hb = Inl err \<Longrightarrow> err < 0" for hb err
    by (auto simp: wrgg_kernel_ent_size_def Let_def EINVAL_def split: if_splits)
  then show ?thesis
    using search_divides [where kz = kz and kn = KERNEL_PART_NAME and rn = "\<lambda>_. ROOTFS_PART_NAME"]
    by (auto simp: mtdsplit_parse_wrgg_def EINVAL_def dest: split_read_error split: sum.split)
qed

lemma parse_seama_divides: "ensures (mtdsplit_parse_seama kz m) (split_post (kernel_then_rootfs m))"
proof -
  have body: "ensures
      (do {
         found \<leftarrow> (case mtd_check_rootfs_magic m ent of
                      Inr type \<Rightarrow> Some (Inr (ent, type))
                    | Inl err \<Rightarrow> mtd_find_rootfs_from m SEAMA_MIN_ROOTFS_OFFS (mi_size m));
         case found of
           Inl err \<Rightarrow> fail err
         | Inr (off, type) \<Rightarrow>
             two_parts kz (mk_part kn start (sub64 off start))
               (mk_part (rootfs_name type) off (sub64 (mi_size m) off))
       }) (split_post (kernel_then_rootfs m))"
    if "start \<le> ent" and "start \<le> SEAMA_MIN_ROOTFS_OFFS" for ent start kn
  proof (rule ensures_bindI)
    show "ensures (case mtd_check_rootfs_magic m ent of
        Inr type \<Rightarrow> Some (Inr (ent, type))
      | Inl err \<Rightarrow> mtd_find_rootfs_from m SEAMA_MIN_ROOTFS_OFFS (mi_size m))
      (\<lambda>found. case found of Inl err \<Rightarrow> err < 0
       | Inr (off, type) \<Rightarrow> start \<le> off \<and> mtd_check_rootfs_magic m off = Inr type)"
      using that by (auto split: sum.split intro!: ensures_mono [OF find_rootfs_post])
  qed (auto simp: ensures_two_parts division split: sum.splits)
  have "u64 (sizeof_seama_header + be16_to_cpu x) \<le> u64 (sizeof_seama_header + be32_to_cpu y + be16_to_cpu x)"
    "u64 (sizeof_seama_header + be16_to_cpu x) \<le> SEAMA_MIN_ROOTFS_OFFS" for x y
    using member_bounds(3) [of x] member_bounds(4) [of y]
    by (simp_all add: sizeof_seama_header_def SEAMA_MIN_ROOTFS_OFFS_def)
  then show ?thesis
    by (auto simp: mtdsplit_parse_seama_def Let_def EINVAL_def body dest: split_read_error split: sum.split)
qed

end

end
