(* ===== verification/Mtdsplit_Vendor.thy ===== *)
theory Mtdsplit_Vendor
  imports Mtdsplit_Fw
begin

text \<open>
  The splitters whose images say themselves where the root file system is, or that search for
  it in their own way: \<^verbatim>\<open>mtdsplit_eva.c\<close>, \<^verbatim>\<open>mtdsplit_tplink.c\<close>, \<^verbatim>\<open>mtdsplit_brnimage.c\<close> and
  \<^verbatim>\<open>mtdsplit_cfe_bootfs.c\<close>, and \<^verbatim>\<open>mtdsplit_squashfs.c\<close>, which splits the writable overlay off a
  root file system. The lemmas bound the partitions.
\<close>

section \<open>\<^verbatim>\<open>mtdsplit_eva.c\<close>\<close>

definition EVA_MAGIC :: nat where "EVA_MAGIC = 0xfeed1281"
definition EVA_FOOTER_SIZE :: nat where "EVA_FOOTER_SIZE = 0x18"
definition EVA_DUMMY_SQUASHFS_SIZE :: nat where "EVA_DUMMY_SQUASHFS_SIZE = 0x100"

record eva_image_header =
  eva_magic :: nat
  eva_size :: nat

definition sizeof_eva_image_header :: nat where "sizeof_eva_image_header = 8"

definition dec_eva_image_header :: "byte list \<Rightarrow> eva_image_header" where
  "dec_eva_image_header hb = \<lparr>eva_magic = u32_at hb 0, eva_size = u32_at hb 4\<rparr>"

text \<open>The kernel's \<^verbatim>\<open>round_up\<close> of an \<^verbatim>\<open>unsigned long\<close> to a power of two.\<close>

definition round_up :: "nat \<Rightarrow> nat \<Rightarrow> nat" where
  "round_up x y = u64 ((sub64 x 1 OR (y - 1)) + 1)"

definition mtdsplit_parse_eva :: "bool \<Rightarrow> split_mtd \<Rightarrow> parsed" where
  "mtdsplit_parse_eva kz master =
     (case split_read master 0 sizeof_eva_image_header of
        Inl err \<Rightarrow> fail err
      | Inr hb \<Rightarrow>
        (let hdr = dec_eva_image_header hb in
         if le32_to_cpu (eva_magic hdr) \<noteq> EVA_MAGIC then fail (- EINVAL)
         else (let kernel_size = u32 (le32_to_cpu (eva_size hdr) + EVA_FOOTER_SIZE);
                   rootfs_offset = round_up kernel_size 0x10000;
                   rootfs_offset = u64 (rootfs_offset + EVA_DUMMY_SQUASHFS_SIZE) in
           if rootfs_offset \<ge> mi_size master then fail (- EINVAL)
           else (case mtd_check_rootfs_magic master rootfs_offset of
               Inl err \<Rightarrow> fail err
             | Inr type \<Rightarrow>
                 two_parts kz
                   (mk_part KERNEL_PART_NAME 0 kernel_size)
                   (mk_part ROOTFS_PART_NAME rootfs_offset (sub64 (mi_size master) rootfs_offset))))))"

section \<open>\<^verbatim>\<open>mtdsplit_tplink.c\<close>\<close>

definition TPLINK_MIN_ROOTFS_OFFS :: nat where "TPLINK_MIN_ROOTFS_OFFS = 0x80000"

record fw_v1 =
  v1_vendor_name :: "byte list"
  v1_fw_version :: "byte list"
  v1_hw_id :: nat
  v1_hw_rev :: nat
  v1_unk1 :: nat
  v1_md5sum1 :: "byte list"
  v1_unk2 :: nat
  v1_md5sum2 :: "byte list"
  v1_unk3 :: nat
  v1_kernel_la :: nat
  v1_kernel_ep :: nat
  v1_fw_length :: nat
  v1_kernel_ofs :: nat
  v1_kernel_len :: nat
  v1_rootfs_ofs :: nat
  v1_rootfs_len :: nat
  v1_boot_ofs :: nat
  v1_boot_len :: nat
  v1_pad :: "byte list"

definition dec_fw_v1 :: "byte list \<Rightarrow> fw_v1" where
  "dec_fw_v1 hb =
     \<lparr>v1_vendor_name = bytes_at hb 0 24, v1_fw_version = bytes_at hb 24 36,
      v1_hw_id = u32_at hb 60, v1_hw_rev = u32_at hb 64, v1_unk1 = u32_at hb 68,
      v1_md5sum1 = bytes_at hb 72 16, v1_unk2 = u32_at hb 88, v1_md5sum2 = bytes_at hb 92 16,
      v1_unk3 = u32_at hb 108, v1_kernel_la = u32_at hb 112, v1_kernel_ep = u32_at hb 116,
      v1_fw_length = u32_at hb 120, v1_kernel_ofs = u32_at hb 124, v1_kernel_len = u32_at hb 128,
      v1_rootfs_ofs = u32_at hb 132, v1_rootfs_len = u32_at hb 136, v1_boot_ofs = u32_at hb 140,
      v1_boot_len = u32_at hb 144, v1_pad = bytes_at hb 148 360\<rparr>"

record fw_v2 =
  v2_fw_version :: "byte list"
  v2_hw_id :: nat
  v2_hw_rev :: nat
  v2_unk1 :: nat
  v2_md5sum1 :: "byte list"
  v2_unk2 :: nat
  v2_md5sum2 :: "byte list"
  v2_unk3 :: nat
  v2_kernel_la :: nat
  v2_kernel_ep :: nat
  v2_fw_length :: nat
  v2_kernel_ofs :: nat
  v2_kernel_len :: nat
  v2_rootfs_ofs :: nat
  v2_rootfs_len :: nat
  v2_boot_ofs :: nat
  v2_boot_len :: nat
  v2_unk4 :: nat
  v2_sver_hi :: nat
  v2_sver_lo :: nat
  v2_unk5 :: nat
  v2_ver_hi :: nat
  v2_ver_mid :: nat
  v2_ver_lo :: nat
  v2_pad :: "byte list"

definition dec_fw_v2 :: "byte list \<Rightarrow> fw_v2" where
  "dec_fw_v2 hb =
     \<lparr>v2_fw_version = bytes_at hb 0 48, v2_hw_id = u32_at hb 48, v2_hw_rev = u32_at hb 52,
      v2_unk1 = u32_at hb 56, v2_md5sum1 = bytes_at hb 60 16, v2_unk2 = u32_at hb 76,
      v2_md5sum2 = bytes_at hb 80 16, v2_unk3 = u32_at hb 96, v2_kernel_la = u32_at hb 100,
      v2_kernel_ep = u32_at hb 104, v2_fw_length = u32_at hb 108, v2_kernel_ofs = u32_at hb 112,
      v2_kernel_len = u32_at hb 116, v2_rootfs_ofs = u32_at hb 120, v2_rootfs_len = u32_at hb 124,
      v2_boot_ofs = u32_at hb 128, v2_boot_len = u32_at hb 132, v2_unk4 = u16_at hb 136,
      v2_sver_hi = u8_at hb 138, v2_sver_lo = u8_at hb 139, v2_unk5 = u8_at hb 140,
      v2_ver_hi = u8_at hb 141, v2_ver_mid = u8_at hb 142, v2_ver_lo = u8_at hb 143,
      v2_pad = bytes_at hb 144 364\<rparr>"

text \<open>The version, and behind it the bytes of the union.\<close>

record tplink_fw_header =
  tplink_version :: nat
  tplink_union :: "byte list"

definition sizeof_tplink_fw_header :: nat where "sizeof_tplink_fw_header = 512"

definition dec_tplink_fw_header :: "byte list \<Rightarrow> tplink_fw_header" where
  "dec_tplink_fw_header hb = \<lparr>tplink_version = u32_at hb 0, tplink_union = bytes_at hb 4 508\<rparr>"

text \<open>The \<^verbatim>\<open>switch\<close> over the version: \<^verbatim>\<open>kernel_size\<close> and \<^verbatim>\<open>rootfs_offset\<close>.\<close>

definition tplink_sizes :: "tplink_fw_header \<Rightarrow> int + nat \<times> nat" where
  "tplink_sizes hdr =
     (let version = le32_to_cpu (tplink_version hdr);
          v1 = dec_fw_v1 (tplink_union hdr);
          v2 = dec_fw_v2 (tplink_union hdr)
      in if version = 1
         then if be32_to_cpu (v1_kernel_ofs v1) \<noteq> sizeof_tplink_fw_header then Inl (- EINVAL)
              else Inr (sizeof_tplink_fw_header + be32_to_cpu (v1_kernel_len v1),
                        be32_to_cpu (v1_rootfs_ofs v1))
         else if version = 2 \<or> version = 3
         then if be32_to_cpu (v2_kernel_ofs v2) \<noteq> sizeof_tplink_fw_header then Inl (- EINVAL)
              else Inr (sizeof_tplink_fw_header + be32_to_cpu (v2_kernel_len v2),
                        be32_to_cpu (v2_rootfs_ofs v2))
         else Inl (- EINVAL))"

definition mtdsplit_parse_tplink :: "bool \<Rightarrow> split_mtd \<Rightarrow> parsed" where
  "mtdsplit_parse_tplink kz master =
     (case split_read master 0 sizeof_tplink_fw_header of
        Inl err \<Rightarrow> fail err
      | Inr hb \<Rightarrow>
        (case tplink_sizes (dec_tplink_fw_header hb) of
           Inl err \<Rightarrow> fail err
         | Inr (kernel_size, rootfs_offset) \<Rightarrow>
             if kernel_size > mi_size master then fail (- EINVAL)
             else do {
               found \<leftarrow> (case mtd_check_rootfs_magic master rootfs_offset of
                            Inr type \<Rightarrow> Some (Inr (rootfs_offset, type))
                          | Inl err \<Rightarrow>
                              mtd_find_rootfs_from master TPLINK_MIN_ROOTFS_OFFS (mi_size master));
               case found of
                 Inl err \<Rightarrow> fail err
               | Inr (rootfs_offset, type) \<Rightarrow>
                   two_parts kz
                     (mk_part KERNEL_PART_NAME 0 kernel_size)
                     (mk_part ROOTFS_PART_NAME rootfs_offset (sub64 (mi_size master) rootfs_offset))
             }))"

section \<open>\<^verbatim>\<open>mtdsplit_brnimage.c\<close>\<close>

definition BRNIMAGE_ALIGN_BYTES :: nat where "BRNIMAGE_ALIGN_BYTES = 0x400"
definition BRNIMAGE_FOOTER_SIZE :: nat where "BRNIMAGE_FOOTER_SIZE = 12"
definition BRNIMAGE_MIN_OVERHEAD :: nat where "BRNIMAGE_MIN_OVERHEAD = BRNIMAGE_FOOTER_SIZE"
definition BRNIMAGE_MAX_OVERHEAD :: nat where
  "BRNIMAGE_MAX_OVERHEAD = BRNIMAGE_ALIGN_BYTES + BRNIMAGE_FOOTER_SIZE"

text \<open>The search loop: \<^verbatim>\<open>ret\<close> and \<^verbatim>\<open>rootfs_offset\<close> when it is left.\<close>

partial_function (option) brnimage_search :: "split_mtd \<Rightarrow> int \<Rightarrow> nat \<Rightarrow> (int \<times> nat) option" where [code]:
  "brnimage_search master ret rootfs_offset =
     (if rootfs_offset < mi_size master
      then (case mtd_check_rootfs_magic master rootfs_offset of
              Inr type \<Rightarrow> Some (0, rootfs_offset)
            | Inl ret \<Rightarrow>
                brnimage_search master ret (u64 (rootfs_offset + BRNIMAGE_ALIGN_BYTES)))
      else Some (ret, rootfs_offset))"

definition mtdsplit_parse_brnimage :: "bool \<Rightarrow> split_mtd \<Rightarrow> parsed" where
  "mtdsplit_parse_brnimage kz master =
     do {
       (ret, rootfs_offset) \<leftarrow> brnimage_search master 0 0;
       if ret \<noteq> 0 then fail ret
       else if rootfs_offset \<ge> mi_size master then fail (- EINVAL)
       else (case split_read master (sub64 rootfs_offset BRNIMAGE_FOOTER_SIZE) 4 of
           Inl ret \<Rightarrow> fail ret
         | Inr buf \<Rightarrow>
             (let kernel_size = le32_to_cpu (u32_at buf 0) in
              if kernel_size > sub64 rootfs_offset BRNIMAGE_MIN_OVERHEAD then fail (- EINVAL)
              else if kernel_size < sub64 rootfs_offset BRNIMAGE_MAX_OVERHEAD then fail (- EINVAL)
              else (let rootfs_size =
                          sub64 (sub64 (mi_size master) rootfs_offset) BRNIMAGE_FOOTER_SIZE in
                two_parts kz
                  (mk_part KERNEL_PART_NAME 0 kernel_size)
                  (mk_part ROOTFS_PART_NAME rootfs_offset rootfs_size))))
     }"

section \<open>\<^verbatim>\<open>mtdsplit_cfe_bootfs.c\<close>\<close>

definition JFFS2_MAGIC_BITMASK :: nat where "JFFS2_MAGIC_BITMASK = 0x1985"

text \<open>The directory entry of \<^verbatim>\<open>jffs2.h\<close>, whose fields \<^verbatim>\<open>je16_to_cpu\<close> and \<^verbatim>\<open>je32_to_cpu\<close> read as they are.\<close>

record jffs2_raw_dirent =
  de_magic :: nat
  de_nodetype :: nat
  de_totlen :: nat
  de_hdr_crc :: nat
  de_pino :: nat
  de_version :: nat
  de_ino :: nat
  de_mctime :: nat
  de_nsize :: nat
  de_type :: nat
  de_unused :: "byte list"
  de_node_crc :: nat
  de_name_crc :: nat

definition sizeof_jffs2_raw_dirent :: nat where "sizeof_jffs2_raw_dirent = 40"

definition dec_jffs2_raw_dirent :: "byte list \<Rightarrow> jffs2_raw_dirent" where
  "dec_jffs2_raw_dirent hb =
     \<lparr>de_magic = u16_at hb 0, de_nodetype = u16_at hb 2, de_totlen = u32_at hb 4,
      de_hdr_crc = u32_at hb 8, de_pino = u32_at hb 12, de_version = u32_at hb 16,
      de_ino = u32_at hb 20, de_mctime = u32_at hb 24, de_nsize = u8_at hb 28,
      de_type = u8_at hb 29, de_unused = bytes_at hb 30 2, de_node_crc = u32_at hb 32,
      de_name_crc = u32_at hb 36\<rparr>"

text \<open>\<^verbatim>\<open>(x + 0x3) & ~0x3\<close>\<close>

definition align4 :: "nat \<Rightarrow> nat" where
  "align4 x = push_bit 2 (drop_bit 2 (x + 3))"

text \<open>The loop that looks for the end of the boot file system.\<close>

partial_function (option) cfe_bootfs_walk :: "split_mtd \<Rightarrow> nat \<Rightarrow> nat option" where [code]:
  "cfe_bootfs_walk m offset =
     (case mi_read m offset sizeof_jffs2_raw_dirent of (err, bs) \<Rightarrow>
        if err \<noteq> 0 \<or> length bs \<noteq> sizeof_jffs2_raw_dirent then Some offset
        else if de_magic (dec_jffs2_raw_dirent bs) \<noteq> JFFS2_MAGIC_BITMASK then Some offset
        else (let offset = u64 (offset + de_totlen (dec_jffs2_raw_dirent bs));
                  offset = u64 (align4 offset)
              in if offset < mi_size m then cfe_bootfs_walk m offset else Some offset))"

definition mtdsplit_cfe_bootfs_parse :: "bool \<Rightarrow> split_mtd \<Rightarrow> parsed" where
  "mtdsplit_cfe_bootfs_parse kz m =
     (if mi_name m \<noteq> ''firmware'' then fail (- EINVAL)
      else do {
        offset \<leftarrow> cfe_bootfs_walk m 0;
        found \<leftarrow> mtd_find_rootfs_from m (mi_erasesize m) (mi_size m);
        case found of
          Inl err \<Rightarrow> fail err
        | Inr (rootfs_offset, type) \<Rightarrow>
            two_parts kz
              (mk_part ''bootfs'' 0 rootfs_offset)
              (mk_part (rootfs_name type) rootfs_offset (sub64 (mi_size m) rootfs_offset))
      })"

section \<open>\<^verbatim>\<open>mtdsplit_squashfs.c\<close>\<close>

definition mtdsplit_parse_squashfs ::
  "bool \<Rightarrow> split_mtd \<Rightarrow> (split_mtd \<times> nat) option \<Rightarrow> parsed" where
  "mtdsplit_parse_squashfs kz master part =
     (case mtd_get_squashfs_len master 0 of
        Inl err \<Rightarrow> fail err
      | Inr squashfs_len \<Rightarrow>
          (let parent_mtd = mtd_get_master master part;
               part_offs = mtdpart_get_offset part in
           if \<not> kz then fail (- ENOMEM)
           else (let off = sub64 (mtd_roundup_to_eb (u64 (part_offs + squashfs_len)) parent_mtd) part_offs;
                     sz = mtd_rounddown_to_eb (sub64 (mi_size master) off) master
                 in Some (1, Some [mk_part ROOTFS_SPLIT_NAME off sz]))))"

section \<open>Bounds of the partitions\<close>

text \<open>
  \<open>kernel_before_rootfs\<close>: the partitions are the kernel and, behind it with a gap allowed, the
  root file system, inside the device.
\<close>

definition kernel_before_rootfs :: "split_mtd \<Rightarrow> mtd_partition list \<Rightarrow> bool" where
  "kernel_before_rootfs m parts \<longleftrightarrow>
     length parts = 2 \<and> has_rootfs m (parts ! 1) \<and>
     part_offset (parts ! 0) + part_size (parts ! 0) \<le> part_offset (parts ! 1) \<and>
     part_offset (parts ! 1) + part_size (parts ! 1) \<le> mi_size m"

lemma or_mask_nat: "x OR (2 ^ k - 1) = x div 2 ^ k * 2 ^ k + (2 ^ k - 1 :: nat)"
proof -
  have "x OR mask k = push_bit k (drop_bit k (x OR mask k)) + take_bit k (x OR mask k)"
    by (simp only: bits_ident)
  also have "drop_bit k (x OR mask k) = drop_bit k x"
    by (simp add: bit_eq_iff bit_simps)
  also have "take_bit k (x OR mask k) = mask k"
    by (auto simp: bit_eq_iff bit_simps)
  finally show ?thesis
    by (simp add: push_bit_eq_mult drop_bit_eq_div mask_eq_exp_minus_1)
qed

lemma round_up_eq:
  assumes "x < 2 ^ 33" and "0 < x"
  shows "round_up x 0x10000 = ((x - 1) div 0x10000 + 1) * 0x10000"
proof -
  have "sub64 x 1 = x - 1"
    using assms by (intro sub64_id') simp_all
  moreover have "(x - 1) div 2 ^ 16 * 2 ^ 16 \<le> x - 1"
    by (rule div_times_less_eq_dividend)
  moreover have "(x - 1) OR (0x10000 - 1) = (x - 1) div 2 ^ 16 * 2 ^ 16 + (2 ^ 16 - 1)"
    using or_mask_nat [of "x - 1" 16] by simp
  ultimately show ?thesis
    using assms by (simp add: round_up_def)
qed

lemma round_up_ge: "x < 2 ^ 33 \<Longrightarrow> x \<le> round_up x 0x10000"
  using div_mult_mod_eq [of "x - 1" "0x10000"] mod_less_divisor [of "0x10000" "x - 1"]
  by (cases "x = 0") (simp_all add: round_up_eq)

lemma round_up_less: "x < 2 ^ 32 \<Longrightarrow> round_up x 0x10000 < 2 ^ 33"
proof (cases "x = 0")
  case True
  then show ?thesis by (simp add: round_up_def sub64_def) (simp add: u64_def)
next
  case False
  assume "x < 2 ^ 32"
  moreover have "(x - 1) div 2 ^ 16 * 2 ^ 16 \<le> x - 1"
    by (rule div_times_less_eq_dividend)
  ultimately show ?thesis
    using False by (simp add: round_up_eq)
qed

context split_device
begin

lemma parse_eva_bounds: "ensures (mtdsplit_parse_eva kz m) (split_post (kernel_before_rootfs m))"
proof -
  have bounds: "kernel_before_rootfs m
      [mk_part KERNEL_PART_NAME 0 ks, mk_part ROOTFS_PART_NAME off (sub64 (mi_size m) off)]"
    if "mtd_check_rootfs_magic m off = Inr type" "off = u64 (round_up ks 0x10000 + EVA_DUMMY_SQUASHFS_SIZE)"
      "ks < 2 ^ 32" for ks off type
  proof -
    have "ks \<le> off"
      using round_up_ge [of ks] round_up_less [of ks] that by (simp add: EVA_DUMMY_SQUASHFS_SIZE_def)
    then show ?thesis
      using that(1) magic_inside [OF that(1)] by (simp add: kernel_before_rootfs_def has_rootfs_def rest_size)
  qed
  have "u32 x < 4294967296" for x
    using u32_less [of x] by simp
  then show ?thesis
    by (auto simp: mtdsplit_parse_eva_def Let_def EINVAL_def
        dest: split_read_error magic_error intro!: ensures_two_parts bounds split: sum.split)
qed

text \<open>The kernel of a TP-Link image may cover the root file system.\<close>

lemma parse_tplink_bounds:
  "ensures (mtdsplit_parse_tplink kz m)
     (split_post (\<lambda>parts. length parts = 2 \<and> has_rootfs m (parts ! 1) \<and> inside_device m parts))"
proof -
  have sizes: "tplink_sizes hdr = Inl err \<Longrightarrow> err < 0" for hdr err
    by (auto simp: tplink_sizes_def Let_def EINVAL_def split: if_splits)
  have search: "ensures (case mtd_check_rootfs_magic m off of
        Inr type \<Rightarrow> Some (Inr (off, type))
      | Inl err \<Rightarrow> mtd_find_rootfs_from m TPLINK_MIN_ROOTFS_OFFS (mi_size m))
      (\<lambda>found. case found of Inl err \<Rightarrow> err < 0
       | Inr (off, type) \<Rightarrow> mtd_check_rootfs_magic m off = Inr type)" for off
    by (auto split: sum.split intro!: ensures_mono [OF find_rootfs_post])
  have inside: "mtd_check_rootfs_magic m off = Inr type \<Longrightarrow> off + (mi_size m - off) \<le> mi_size m" for off type
    using magic_inside [of off] by simp
  have body: "ensures (do {
      found \<leftarrow> (case mtd_check_rootfs_magic m off of
                   Inr type \<Rightarrow> Some (Inr (off, type))
                 | Inl err \<Rightarrow> mtd_find_rootfs_from m TPLINK_MIN_ROOTFS_OFFS (mi_size m));
      case found of
        Inl err \<Rightarrow> fail err
      | Inr (off, type) \<Rightarrow>
          two_parts kz (mk_part KERNEL_PART_NAME 0 ks) (mk_part ROOTFS_PART_NAME off (sub64 (mi_size m) off))
    }) (split_post (\<lambda>parts. length parts = 2 \<and> has_rootfs m (parts ! 1) \<and> inside_device m parts))"
    if "ks \<le> mi_size m" for ks off
    by (rule ensures_bindI [OF search])
      (use that in \<open>auto simp: has_rootfs_def inside_device_def rest_size inside
        intro!: ensures_two_parts split: sum.splits\<close>)
  show ?thesis
  proof (cases "split_read m 0 sizeof_tplink_fw_header")
    case (Inl err)
    then show ?thesis by (simp add: mtdsplit_parse_tplink_def split_read_error)
  next
    case (Inr hb)
    then show ?thesis
      using body sizes
      by (cases "tplink_sizes (dec_tplink_fw_header hb)") (auto simp: mtdsplit_parse_tplink_def EINVAL_def)
  qed
qed

lemma brnimage_search_post:
  "ret < 0 \<or> ret = 0 \<and> off = 0 \<Longrightarrow> BRNIMAGE_ALIGN_BYTES dvd off \<Longrightarrow>
   ensures (brnimage_search m ret off)
     (\<lambda>(ret, off). ret \<le> 0 \<and> BRNIMAGE_ALIGN_BYTES dvd off \<and>
        (ret = 0 \<longrightarrow> off < mi_size m \<longrightarrow> \<not> isl (mtd_check_rootfs_magic m off)))"
proof (induction "mi_size m - off" arbitrary: ret off rule: less_induct)
  case less
  show ?case
  proof (cases "off < mi_size m")
    case True
    have "u64 (off + BRNIMAGE_ALIGN_BYTES) = off + BRNIMAGE_ALIGN_BYTES"
      using True size_le by (intro u64_id) (simp add: BRNIMAGE_ALIGN_BYTES_def)
    then show ?thesis
      using less True magic_error [of off]
      by (subst brnimage_search.simps) (auto simp: BRNIMAGE_ALIGN_BYTES_def split: sum.split)
  next
    case False
    then show ?thesis
      using less by (subst brnimage_search.simps) auto
  qed
qed

lemma parse_brnimage_bounds:
  assumes "BRNIMAGE_ALIGN_BYTES dvd mi_size m"
  shows "ensures (mtdsplit_parse_brnimage kz m) (split_post (kernel_before_rootfs m))"
proof -
  have bounds: "kernel_before_rootfs m
      [mk_part KERNEL_PART_NAME 0 ks,
       mk_part ROOTFS_PART_NAME off (sub64 (sub64 (mi_size m) off) BRNIMAGE_FOOTER_SIZE)]"
    if off: "off < mi_size m" "\<not> isl (mtd_check_rootfs_magic m off)" "BRNIMAGE_ALIGN_BYTES dvd off"
      and read: "split_read m (sub64 off BRNIMAGE_FOOTER_SIZE) 4 = Inr buf"
      and ks: "\<not> ks > sub64 off BRNIMAGE_MIN_OVERHEAD" for off ks buf
  proof -
    have "off \<noteq> 0"
    proof
      assume "off = 0"
      then have "sub64 off BRNIMAGE_FOOTER_SIZE = 2 ^ 64 - 12"
        by (simp add: sub64_def BRNIMAGE_FOOTER_SIZE_def)
      then show False
        using split_read_inside [OF read] size_le by simp
    qed
    then have 1: "0x400 \<le> off"
      using off(3) by (auto simp: BRNIMAGE_ALIGN_BYTES_def dest!: dvd_imp_le)
    have "BRNIMAGE_ALIGN_BYTES dvd mi_size m - off"
      using assms off(3) by (rule dvd_diff_nat)
    then have 2: "off + 0x400 \<le> mi_size m"
      using off(1) by (auto simp: BRNIMAGE_ALIGN_BYTES_def dest!: dvd_imp_le)
    from 1 2 have "sub64 off BRNIMAGE_MIN_OVERHEAD = off - 12"
      "sub64 (sub64 (mi_size m) off) BRNIMAGE_FOOTER_SIZE = mi_size m - off - 12"
      using size_le by (simp_all add: BRNIMAGE_MIN_OVERHEAD_def BRNIMAGE_FOOTER_SIZE_def sub64_id')
    then show ?thesis
      using 1 2 off(2) ks by (simp add: kernel_before_rootfs_def has_rootfs_def)
  qed
  show ?thesis
    unfolding mtdsplit_parse_brnimage_def
    by (rule ensures_bindI [OF brnimage_search_post])
      (auto simp: Let_def EINVAL_def intro!: ensures_two_parts bounds dest: split_read_error split: sum.split)
qed

text \<open>
  The walk over the boot file system ends when no node has length 0. Where it ends has no
  influence on the division.
\<close>

lemma align4_eq: "align4 x = (x + 3) div 4 * 4"
  by (simp add: align4_def push_bit_eq_mult drop_bit_eq_div)

lemma bootfs_walk_total:
  assumes "\<And>off bs. mi_read m off sizeof_jffs2_raw_dirent = (0, bs) \<Longrightarrow>
      de_magic (dec_jffs2_raw_dirent bs) = JFFS2_MAGIC_BITMASK \<Longrightarrow>
      de_totlen (dec_jffs2_raw_dirent bs) \<noteq> 0"
  shows "ensures (cfe_bootfs_walk m off) (\<lambda>_. True)"
proof (induction "mi_size m - off" arbitrary: off rule: less_induct)
  case less
  obtain err bs where read: "mi_read m off sizeof_jffs2_raw_dirent = (err, bs)"
    by (cases "mi_read m off sizeof_jffs2_raw_dirent")
  show ?case
  proof (cases "err = 0 \<and> length bs = sizeof_jffs2_raw_dirent \<and>
      de_magic (dec_jffs2_raw_dirent bs) = JFFS2_MAGIC_BITMASK")
    case True
    define l where "l = de_totlen (dec_jffs2_raw_dirent bs)"
    have l: "0 < l" "l < 2 ^ 32"
      using True read assms member_bounds(2) [of bs 4] by (auto simp: l_def dec_jffs2_raw_dirent_def)
    have off: "off < 2 ^ 32"
      using read_inside [of off sizeof_jffs2_raw_dirent bs] True read size_le
      by (simp add: sizeof_jffs2_raw_dirent_def)
    have up: "off + l \<le> align4 (off + l)" "align4 (off + l) \<le> off + l + 3"
      using div_mult_mod_eq [of "off + l + 3" 4] mod_less_divisor [of 4 "off + l + 3"]
      unfolding align4_eq by simp_all
    then have "u64 (align4 (u64 (off + l))) = align4 (off + l)"
      using l off by simp
    then show ?thesis
      using True read less [of "align4 (off + l)"] up l
      by (subst cfe_bootfs_walk.simps) (auto simp: Let_def simp flip: l_def)
  next
    case False
    then show ?thesis
      using read by (subst cfe_bootfs_walk.simps) auto
  qed
qed

lemma parse_cfe_bootfs_divides:
  assumes "\<And>off bs. mi_read m off sizeof_jffs2_raw_dirent = (0, bs) \<Longrightarrow>
      de_magic (dec_jffs2_raw_dirent bs) = JFFS2_MAGIC_BITMASK \<Longrightarrow>
      de_totlen (dec_jffs2_raw_dirent bs) \<noteq> 0"
  shows "ensures (mtdsplit_cfe_bootfs_parse kz m) (split_post (kernel_then_rootfs m))"
  using search_divides [where kz = kz and kn = "''bootfs''" and rn = rootfs_name]
  by (auto simp: mtdsplit_cfe_bootfs_parse_def EINVAL_def intro: ensures_bindI [OF bootfs_walk_total [OF assms]])

lemma nat_le_mult_self: "0 < b \<Longrightarrow> a \<le> a * (b :: nat)"
  by (cases b) simp_all

lemma roundup_bounds:
  assumes "sz \<le> b" and "mi_erasesize m dvd b" and "b < 2 ^ 32"
  shows "sz \<le> mtd_roundup_to_eb sz m" "mtd_roundup_to_eb sz m \<le> b"
    "mi_erasesize m dvd mtd_roundup_to_eb sz m"
proof -
  let ?e = "mi_erasesize m" and ?r = "mtd_roundup_to_eb sz m"
  have sz: "sz < 2 ^ 64" "sz < 2 ^ 32" using assms by simp_all
  have "sz \<le> ?r \<and> ?r \<le> b \<and> ?e dvd ?r"
  proof (cases "sz mod ?e = 0")
    case True
    then show ?thesis
      using assms sz by (simp add: mtd_roundup_to_eb_def mod_by_eb mod_eq_0_iff_dvd)
  next
    case False
    then have "sz \<noteq> b" using assms(2) by auto
    obtain k where k: "b = ?e * k" using assms(2) by (rule dvdE)
    have "sz div ?e < k"
      using assms(1) \<open>sz \<noteq> b\<close> erasesize_pos k by (simp add: div_less_iff_less_mult mult.commute)
    then have le: "(sz div ?e + 1) * ?e \<le> b"
      unfolding k by (metis Suc_eq_plus1 Suc_leI mult.commute mult_le_mono1)
    have "sz div ?e + 1 \<le> (sz div ?e + 1) * ?e"
      by (rule nat_le_mult_self) (use erasesize_pos in simp)
    then have small: "sz div ?e + 1 < 2 ^ 32" "(sz div ?e + 1) * ?e < 2 ^ 32"
      using le assms(3) by linarith+
    then have "?r = (sz div ?e + 1) * ?e"
      using False sz by (simp add: mtd_roundup_to_eb_def mod_by_eb div_by_eb)
    then show ?thesis
      using le dividend_less_div_times [of ?e sz] erasesize_pos by simp
  qed
  then show "sz \<le> ?r" "?r \<le> b" "?e dvd ?r" by simp_all
qed

end

section \<open>The overlay behind a squashfs image\<close>

lemma squashfs_len_bounds:
  assumes "mtd_get_squashfs_len m 0 = Inr len"
  shows "0 < len" and "len \<le> mi_size m"
proof -
  have "le64_to_cpu (sb_bytes_used (dec_squashfs_super_block bs)) < 2 ^ 64" for bs
    using le_dec_bound [of "bytes_at bs 40 8" 8]
    by (simp add: le64_to_cpu_def dec_squashfs_super_block_def u64_at_def)
  then show "0 < len" and "len \<le> mi_size m"
    using assms by (auto simp: mtd_get_squashfs_len_def Let_def split: prod.splits if_splits)
qed

text \<open>
  \<open>overlay_ok\<close>: the overlay partition lies behind the squashfs image and inside the device,
  starts at an erase block of the parent and is a multiple of the erase block size.
\<close>

definition overlay_ok :: "split_mtd \<Rightarrow> split_mtd \<Rightarrow> nat \<Rightarrow> mtd_partition list \<Rightarrow> bool" where
  "overlay_ok m parent offset parts \<longleftrightarrow>
     length parts = 1 \<and> part_offset (hd parts) + part_size (hd parts) \<le> mi_size m \<and>
     (case mtd_get_squashfs_len m 0 of Inl err \<Rightarrow> False | Inr len \<Rightarrow> len \<le> part_offset (hd parts)) \<and>
     mi_erasesize parent dvd offset + part_offset (hd parts) \<and>
     mi_erasesize m dvd part_size (hd parts)"

lemma parse_squashfs_overlay:
  assumes m: "split_device m" and p: "split_device parent"
    and fits: "mi_erasesize parent dvd offset + mi_size m" "offset + mi_size m < 2 ^ 32"
  shows "ensures (mtdsplit_parse_squashfs kz m (Some (parent, offset))) (split_post (overlay_ok m parent offset))"
proof (cases "mtd_get_squashfs_len m 0")
  case (Inl err)
  then show ?thesis
    by (auto simp: mtdsplit_parse_squashfs_def mtd_get_squashfs_len_def Let_def errno_defs
        split: prod.splits if_splits)
next
  case (Inr len)
  note len = squashfs_len_bounds [OF Inr]
  define e where "e = mtd_roundup_to_eb (offset + len) parent"
  have e: "offset + len \<le> e" "e \<le> offset + mi_size m" "mi_erasesize parent dvd e"
    using split_device.roundup_bounds [OF p _ fits, of "offset + len"] len by (simp_all add: e_def)
  have u: "u64 (offset + len) = offset + len" and off: "sub64 e offset = e - offset"
    and sz: "sub64 (mi_size m) (e - offset) = mi_size m - (e - offset)"
    by (rule u64_id sub64_id'; use e len fits(2) in simp)+
  define r where "r = mtd_rounddown_to_eb (mi_size m - (e - offset)) m"
  have "r = (mi_size m - (e - offset)) div mi_erasesize m * mi_erasesize m"
    unfolding r_def using fits(2) by (intro split_device.rounddown_eq [OF m]) simp
  then have r: "r \<le> mi_size m - (e - offset)" "mi_erasesize m dvd r"
    by (simp_all del: diff_diff_right)
  then have "e - offset + r \<le> mi_size m" "len \<le> e - offset" "offset + (e - offset) = e"
    using e by linarith+
  then have "overlay_ok m parent offset [mk_part ROOTFS_SPLIT_NAME (e - offset) r]"
    using e(3) Inr r(2) by (simp add: overlay_ok_def)
  then show ?thesis
    using Inr u off sz
    by (simp add: mtdsplit_parse_squashfs_def mtd_get_master_def mtdpart_get_offset_def Let_def ENOMEM_def
        del: diff_diff_right flip: e_def r_def)
qed

end
