(* ===== verification/Mtdsplit_Wfi.thy ===== *)
theory Mtdsplit_Wfi
  imports Mtdsplit_Vendor
begin

text \<open>
  The splitters for Broadcom whole flash images, \<^verbatim>\<open>mtdsplit_bcm_wfi.c\<close>. They find files by walking
  over the JFFS2 nodes of every erase block. The kernel's \<^verbatim>\<open>crc32\<close> is the parameter \<open>crc\<close>; the
  device tree node, the two boot flag devices and the success of each allocation are arguments.
  A \<^verbatim>\<open>loff_t\<close> that is an offset is a \<open>nat\<close>, one that is a length that may become negative an
  \<open>int\<close>. The lemmas show where the partitions lie, and that the walks end on blocks whose nodes
  are well formed.
\<close>

section \<open>Constants\<close>

type_synonym wfi_crc = "32 word \<Rightarrow> byte list \<Rightarrow> 32 word"

definition char_to_num :: "byte \<Rightarrow> int" where
  "char_to_num c = (if 48 \<le> unat c \<and> unat c \<le> 57 then int (unat c) - 48 else 0)"

definition BCM_WFI_PARTS :: int where "BCM_WFI_PARTS = 3"
definition CFERAM_NAME :: "byte list" where "CFERAM_NAME = str_bytes ''cferam''"
definition CFERAM_NAME_MAX_LEN :: nat where "CFERAM_NAME_MAX_LEN = 32"
definition KERNEL_NAME :: "byte list" where "KERNEL_NAME = str_bytes ''vmlinux.lz''"
definition OPENWRT_NAME :: "byte list" where "OPENWRT_NAME = str_bytes ''1-openwrt''"
definition UBI_MAGIC :: nat where "UBI_MAGIC = 0x55424923"
definition CFE_MAGIC_PFX :: "byte list" where "CFE_MAGIC_PFX = str_bytes ''cferam.''"
definition CFE_MAGIC_LEN :: nat where "CFE_MAGIC_LEN = 10"
definition SERCOMM_MAGIC_PFX :: "byte list" where "SERCOMM_MAGIC_PFX = str_bytes ''eRcOmM.''"
definition SERCOMM_MAGIC_LEN :: nat where "SERCOMM_MAGIC_LEN = 10"
definition PART_CFERAM :: string where "PART_CFERAM = ''cferam''"
definition PART_FIRMWARE :: string where "PART_FIRMWARE = ''firmware''"
definition PART_IMAGE_1 :: string where "PART_IMAGE_1 = ''img1''"
definition PART_IMAGE_2 :: string where "PART_IMAGE_2 = ''img2''"
definition MTD_WRITEABLE :: nat where "MTD_WRITEABLE = 0x400"
definition JFFS2_NODETYPE_DIRENT :: nat where "JFFS2_NODETYPE_DIRENT = 0xe001"

section \<open>JFFS2 nodes\<close>

text \<open>Members of the node at an offset of the buffer; a read behind the buffer is undefined.\<close>

definition node_u16 :: "byte list \<Rightarrow> nat \<Rightarrow> nat option" where
  "node_u16 buf off = map_option le_dec (mem_read buf off 2)"

definition node_u32 :: "byte list \<Rightarrow> nat \<Rightarrow> nat option" where
  "node_u32 buf off = map_option le_dec (mem_read buf off 4)"

definition jffs2_dirent_crc :: "wfi_crc \<Rightarrow> byte list \<Rightarrow> nat \<Rightarrow> nat option" where
  "jffs2_dirent_crc crc buf node =
     map_option (\<lambda>bs. unat (crc 0 bs)) (mem_read buf node (sizeof_jffs2_raw_dirent - 8))"

definition jffs2_dirent_valid :: "wfi_crc \<Rightarrow> byte list \<Rightarrow> nat \<Rightarrow> bool option" where
  "jffs2_dirent_valid crc buf node =
     do {
       magic \<leftarrow> node_u16 buf node;
       if magic \<noteq> JFFS2_MAGIC_BITMASK then Some False
       else do {
         nodetype \<leftarrow> node_u16 buf (node + 2);
         if nodetype \<noteq> JFFS2_NODETYPE_DIRENT then Some False
         else do {
           ino \<leftarrow> node_u32 buf (node + 20);
           if ino = 0 then Some False
           else do {
             node_crc \<leftarrow> node_u32 buf (node + 32);
             c \<leftarrow> jffs2_dirent_crc crc buf node;
             Some (node_crc = c)
           }
         }
       }
     }"

text \<open>\<^verbatim>\<open>kstrndup\<close>: the bytes up to the first NUL, at most \<open>n\<close> of them.\<close>

definition kstrndup :: "byte list \<Rightarrow> nat \<Rightarrow> nat \<Rightarrow> byte list option" where
  "kstrndup buf off n =
     (let str = takeWhile (\<lambda>b. b \<noteq> 0) (take n (drop off buf)) in
      if length str = n \<or> off + length str < length buf then Some str else None)"

text \<open>
  The walk over the nodes of one block: either the function returns, with the name of the file
  and its length, or the next block follows, with the flag \<^verbatim>\<open>valid\<close>.
\<close>

partial_function (option) jffs2_block_walk ::
    "wfi_crc \<Rightarrow> byte list \<Rightarrow> byte list \<Rightarrow> bool \<Rightarrow> nat \<Rightarrow> bool \<Rightarrow> nat \<Rightarrow>
     ((int \<times> (byte list \<times> nat) option) + bool) option" where [code]:
  "jffs2_block_walk crc buf name out erasesize valid block_offs =
     (if block_offs < erasesize
      then do {
        ok \<leftarrow> jffs2_dirent_valid crc buf block_offs;
        if \<not> ok then jffs2_block_walk crc buf name out erasesize valid (u32 (block_offs + 4))
        else do {
          nm \<leftarrow> mem_read buf (block_offs + sizeof_jffs2_raw_dirent) (length OPENWRT_NAME);
          nm' \<leftarrow> (if nm = OPENWRT_NAME then Some []
                 else mem_read buf (block_offs + sizeof_jffs2_raw_dirent) (length name));
          if nm \<noteq> OPENWRT_NAME \<and> nm' = name
          then if \<not> valid then Some (Inl (- EINVAL, None))
               else if out
               then do {
                 nsize \<leftarrow> map_option le_dec (mem_read buf (block_offs + 28) 1);
                 str \<leftarrow> kstrndup buf (block_offs + sizeof_jffs2_raw_dirent) nsize;
                 Some (Inl (0, Some (str, nsize)))
               }
               else Some (Inl (0, None))
          else do {
            totlen \<leftarrow> node_u32 buf (block_offs + 4);
            let block_offs = u32 (block_offs + totlen);
            let block_offs = push_bit 2 (drop_bit 2 (u32 (block_offs + 3)));
            jffs2_block_walk crc buf name out erasesize (valid \<or> nm = OPENWRT_NAME) block_offs
          }
        }
      }
      else Some (Inr valid))"

section \<open>Searching for files and for UBI\<close>

text \<open>
  The loop of \<^verbatim>\<open>jffs2_find_file\<close>: the return code, \<^verbatim>\<open>*offs\<close>, and the name and its length when the
  caller asks for them. The buffer has the size of an erase block.
\<close>

partial_function (option) jffs2_find_file_loop ::
    "wfi_crc \<Rightarrow> split_mtd \<Rightarrow> byte list \<Rightarrow> bool \<Rightarrow> int \<Rightarrow> bool \<Rightarrow> nat \<Rightarrow>
     (int \<times> nat \<times> (byte list \<times> nat) option) option" where [code]:
  "jffs2_find_file_loop crc m name out end_offs valid offs =
     (if int offs < end_offs
      then (let next_offs = offs + mi_erasesize m in
        case mi_read m offs 2 of (rc, mb) \<Rightarrow>
          if rc \<noteq> 0 \<or> length mb \<noteq> 2
          then jffs2_find_file_loop crc m name out end_offs valid next_offs
          else if u16_at mb 0 \<noteq> JFFS2_MAGIC_BITMASK
          then jffs2_find_file_loop crc m name out end_offs valid next_offs
          else (case mi_read m offs (mi_erasesize m) of (rc, buf) \<Rightarrow>
            if rc \<noteq> 0 then Some (rc, offs, None)
            else if length buf \<noteq> mi_erasesize m then Some (- EINVAL, offs, None)
            else do {
              r \<leftarrow> jffs2_block_walk crc buf name out (mi_erasesize m) valid 0;
              case r of
                Inl (rc, found) \<Rightarrow> Some (rc, offs, found)
              | Inr valid \<Rightarrow> jffs2_find_file_loop crc m name out end_offs valid next_offs
            }))
      else Some (- ENOENT, offs, None))"

definition jffs2_find_file ::
  "wfi_crc \<Rightarrow> split_mtd \<Rightarrow> byte list \<Rightarrow> nat \<Rightarrow> int \<Rightarrow> bool \<Rightarrow>
   (int \<times> nat \<times> (byte list \<times> nat) option) option" where
  "jffs2_find_file crc m name offs sz out =
     jffs2_find_file_loop crc m name out (int offs + sz) False offs"

partial_function (option) ubifs_find_loop :: "split_mtd \<Rightarrow> int \<Rightarrow> nat \<Rightarrow> (int \<times> nat) option" where [code]:
  "ubifs_find_loop m end_offs offs =
     (if int offs < end_offs
      then (case mi_read m offs 4 of (rc, mb) \<Rightarrow>
        if rc \<noteq> 0 \<or> length mb \<noteq> 4 then ubifs_find_loop m end_offs (offs + mi_erasesize m)
        else if be32_to_cpu (u32_at mb 0) = UBI_MAGIC then Some (0, offs)
        else ubifs_find_loop m end_offs (offs + mi_erasesize m))
      else Some (- ENOENT, offs))"

definition ubifs_find :: "split_mtd \<Rightarrow> nat \<Rightarrow> int \<Rightarrow> (int \<times> nat) option" where
  "ubifs_find m offs sz = ubifs_find_loop m (int offs + sz) offs"

section \<open>The parsers\<close>

record wfi_node =
  wn_cferam :: "byte list option"
  wn_no_cferam :: bool

text \<open>The name of the CFE RAM file without its last character, as the code compares it.\<close>

definition cferam_name_of :: "wfi_node option \<Rightarrow> byte list" where
  "cferam_name_of mtd_node =
     (let cferam_name =
            (case mtd_node of
               Some node \<Rightarrow> (case wn_cferam node of Some s \<Rightarrow> s | None \<Rightarrow> CFERAM_NAME)
             | None \<Rightarrow> CFERAM_NAME);
          cferam_name_len = min (length cferam_name) CFERAM_NAME_MAX_LEN;
          cferam_name_len = (if cferam_name_len > 0 then cferam_name_len - 1 else cferam_name_len)
      in take cferam_name_len cferam_name)"

definition parse_bcm_wfi ::
  "wfi_crc \<Rightarrow> bool \<Rightarrow> wfi_node option \<Rightarrow> split_mtd \<Rightarrow> nat \<Rightarrow> nat \<Rightarrow> bool \<Rightarrow> parsed" where
  "parse_bcm_wfi crc kz mtd_node master off sz cfe_part =
     do {
       (ret, cfe_off, kernel_off) \<leftarrow>
         (if cfe_part
          then do {
            (ret, cfe_off, found) \<leftarrow>
              jffs2_find_file crc master (cferam_name_of mtd_node) off (int sz - (int off - int off)) False;
            Some (ret, cfe_off, cfe_off + mi_erasesize master)
          }
          else Some (0, off, off));
       if ret \<noteq> 0 then fail ret
       else do {
         (ret, kernel_off, found) \<leftarrow>
           jffs2_find_file crc master KERNEL_NAME kernel_off (int sz - (int kernel_off - int off)) False;
         if ret \<noteq> 0 then fail ret
         else do {
           let rootfs_off = kernel_off + mi_erasesize master;
           (ret, rootfs_off) \<leftarrow> ubifs_find master rootfs_off (int sz - (int rootfs_off - int off));
           if ret \<noteq> 0 then fail ret
           else if \<not> kz then fail (- ENOMEM)
           else (let num_parts = (if cfe_part then BCM_WFI_PARTS + 1 else BCM_WFI_PARTS) in
             Some (num_parts, Some (
               (if cfe_part
                then [(mk_part PART_CFERAM cfe_off (kernel_off - cfe_off))\<lparr>part_mask_flags := MTD_WRITEABLE\<rparr>]
                else []) @
               [mk_part PART_FIRMWARE kernel_off (sub64 sz (kernel_off - off)),
                mk_part KERNEL_PART_NAME kernel_off (rootfs_off - kernel_off),
                mk_part UBI_PART_NAME rootfs_off (sub64 sz (rootfs_off - off))])))
         }
       }
     }"

definition mtdsplit_parse_bcm_wfi ::
  "wfi_crc \<Rightarrow> bool \<Rightarrow> bool \<Rightarrow> wfi_node option \<Rightarrow> split_mtd \<Rightarrow> parsed" where
  "mtdsplit_parse_bcm_wfi crc kz_buf kz mtd_node master =
     (case mtd_node of
        None \<Rightarrow> fail (- EINVAL)
      | Some node \<Rightarrow>
          if \<not> kz_buf then fail (- ENOMEM)
          else parse_bcm_wfi crc kz mtd_node master 0 (mi_size master) (\<not> wn_no_cferam node))"

text \<open>The name is the memory \<^verbatim>\<open>kstrndup\<close> allocated, with its terminating NUL, or NULL.\<close>

definition cferam_bootflag_value :: "byte list option \<Rightarrow> nat \<Rightarrow> int option" where
  "cferam_bootflag_value name name_len =
     (case name of
        None \<Rightarrow> Some (- ENOENT)
      | Some mem \<Rightarrow>
          if name_len \<ge> CFE_MAGIC_LEN
          then do {
            pfx \<leftarrow> mem_read mem 0 (length CFE_MAGIC_PFX);
            if pfx = CFE_MAGIC_PFX
            then do {
              c0 \<leftarrow> arr_get mem (length CFE_MAGIC_PFX);
              c1 \<leftarrow> arr_get mem (length CFE_MAGIC_PFX + 1);
              c2 \<leftarrow> arr_get mem (length CFE_MAGIC_PFX + 2);
              Some (char_to_num c0 * 100 + char_to_num c1 * 10 + char_to_num c2)
            }
            else Some (- ENOENT)
          }
          else Some (- ENOENT))"

text \<open>
  The ending the two split parsers share: behind a successful parse of the active image the
  other image is appended; otherwise the two images are stored, and the error is returned.
  \<open>kz_more\<close> and \<open>kz_two\<close> are the allocations on the two branches, the second of which is not
  checked.
\<close>

definition wfi_split_parts ::
  "bool \<Rightarrow> bool \<Rightarrow> split_mtd \<Rightarrow> mtd_partition \<Rightarrow> int \<times> mtd_partition list option \<Rightarrow> parsed" where
  "wfi_split_parts kz_more kz_two master inactive r =
     (case r of (ret, pparts) \<Rightarrow>
        let img2_off = mi_size master div 2 in
        if ret > 0
        then if \<not> kz_more then Some (- ENOMEM, pparts)
             else do {
               parts \<leftarrow> pparts;
               Some (ret + 1, Some (parts @ [inactive]))
             }
        else if \<not> kz_two then None
        else Some (ret, Some [mk_part PART_IMAGE_1 0 img2_off,
                              mk_part PART_IMAGE_2 img2_off (mi_size master - img2_off)]))"

definition mtdsplit_parse_bcm_wfi_split ::
  "wfi_crc \<Rightarrow> (nat \<Rightarrow> bool) \<Rightarrow> wfi_node option \<Rightarrow> split_mtd \<Rightarrow> parsed" where
  "mtdsplit_parse_bcm_wfi_split crc kz mtd_node master =
     (let img1_off = 0; img2_off = mi_size master div 2;
          img1_size = img2_off - img1_off; img2_size = mi_size master - img2_off in
      if \<not> kz 0 then fail (- ENOMEM)
      else do {
        (ret, cfe_off, cfe1) \<leftarrow> jffs2_find_file crc master CFERAM_NAME img1_off (int img1_size) True;
        (ret, cfe_off, cfe2) \<leftarrow> jffs2_find_file crc master CFERAM_NAME img2_off (int img2_size) True;
        bf1 \<leftarrow> (case cfe1 of None \<Rightarrow> cferam_bootflag_value None 0
                 | Some (str, n) \<Rightarrow> cferam_bootflag_value (if kz 1 then Some (str @ [0]) else None) n);
        bf2 \<leftarrow> (case cfe2 of None \<Rightarrow> cferam_bootflag_value None 0
                 | Some (str, n) \<Rightarrow> cferam_bootflag_value (if kz 2 then Some (str @ [0]) else None) n);
        let (active_off, active_size, inactive) =
          (if bf1 \<ge> bf2 then (img1_off, img1_size, mk_part PART_IMAGE_2 img2_off img2_size)
           else (img2_off, img2_size, mk_part PART_IMAGE_1 img1_off img1_size));
        r \<leftarrow> parse_bcm_wfi crc (kz 3) mtd_node master active_off active_size True;
        wfi_split_parts (kz 4) (kz 5) master inactive r
      })"

partial_function (option) sercomm_bootflag_loop :: "split_mtd \<Rightarrow> nat \<Rightarrow> nat \<Rightarrow> int option" where [code]:
  "sercomm_bootflag_loop m buflen offs =
     (if offs < mi_size m
      then (case mi_read m offs SERCOMM_MAGIC_LEN of (rc, bs) \<Rightarrow>
        if buflen < length bs then None
        else if rc \<noteq> 0 \<or> length bs \<noteq> SERCOMM_MAGIC_LEN
        then sercomm_bootflag_loop m buflen (offs + mi_erasesize m)
        else if take (length SERCOMM_MAGIC_PFX) bs \<noteq> SERCOMM_MAGIC_PFX
        then sercomm_bootflag_loop m buflen (offs + mi_erasesize m)
        else Some (char_to_num (bs ! length SERCOMM_MAGIC_PFX) * 100
                   + char_to_num (bs ! (length SERCOMM_MAGIC_PFX + 1)) * 10
                   + char_to_num (bs ! (length SERCOMM_MAGIC_PFX + 2))))
      else Some (- ENOENT))"

definition sercomm_bootflag_value :: "split_mtd \<Rightarrow> nat \<Rightarrow> int option" where
  "sercomm_bootflag_value m buflen = sercomm_bootflag_loop m buflen 0"

text \<open>The first component of the result: whether the second boot flag device is erased.\<close>

definition mtdsplit_parse_ser_wfi ::
  "wfi_crc \<Rightarrow> (nat \<Rightarrow> bool) \<Rightarrow> wfi_node option \<Rightarrow> split_mtd option \<Rightarrow> split_mtd option \<Rightarrow> split_mtd \<Rightarrow>
   (bool \<times> int \<times> mtd_partition list option) option" where
  "mtdsplit_parse_ser_wfi crc kz mtd_node mtd_bf1 mtd_bf2 master =
     (let img1_off = 0; img2_off = mi_size master div 2;
          img1_size = img2_off - img1_off; img2_size = mi_size master - img2_off in
      case (mtd_bf1, mtd_bf2) of
        (Some d1, Some d2) \<Rightarrow>
          if \<not> kz 0 then Some (False, - ENOMEM, None)
          else do {
            bf1 \<leftarrow> sercomm_bootflag_value d1 (mi_erasesize master);
            bf2 \<leftarrow> sercomm_bootflag_value d2 (mi_erasesize master);
            let erase = (bf1 = bf2 \<and> bf2 \<ge> 0);
            let bf2 = (if erase then - ENOENT else bf2);
            let (active_off, active_size, inactive) =
              (if bf1 \<ge> bf2 then (img1_off, img1_size, mk_part PART_IMAGE_2 img2_off img2_size)
               else (img2_off, img2_size, mk_part PART_IMAGE_1 img1_off img1_size));
            r \<leftarrow> parse_bcm_wfi crc (kz 1) mtd_node master active_off active_size False;
            (ret, parts) \<leftarrow> wfi_split_parts (kz 2) (kz 3) master inactive r;
            Some (erase, ret, parts)
          }
      | _ \<Rightarrow> Some (False, - ENOENT, None))"

section \<open>The walks end on well-formed nodes\<close>

text \<open>
  \<open>node_ok\<close>: a directory entry that counts as valid has a length, a name without NUL inside the
  block, and as many bytes behind it as the code compares. Neither the length nor the room is
  checked by the code: an entry of length 0 keeps the walk where it is, and one at the end of
  the block is compared with what lies behind the buffer.
\<close>

definition node_ok :: "wfi_crc \<Rightarrow> byte list \<Rightarrow> nat \<Rightarrow> bool" where
  "node_ok crc buf node \<longleftrightarrow>
     (case jffs2_dirent_valid crc buf node of
        None \<Rightarrow> False
      | Some ok \<Rightarrow> ok \<longrightarrow>
          node + 72 \<le> length buf \<and> node + 40 + u8_at buf (node + 28) \<le> length buf \<and>
          0 \<notin> set (bytes_at buf (node + 40) (u8_at buf (node + 28))) \<and>
          0 < u32_at buf (node + 4) \<and> node + u32_at buf (node + 4) + 3 < 2 ^ 32)"

definition nodes_ok :: "wfi_crc \<Rightarrow> split_mtd \<Rightarrow> bool" where
  "nodes_ok crc m \<longleftrightarrow>
     4 dvd mi_erasesize m \<and>
     (\<forall>offs buf node. mi_erasesize m dvd offs \<longrightarrow> mi_read m offs (mi_erasesize m) = (0, buf) \<longrightarrow>
        length buf = mi_erasesize m \<longrightarrow> node < mi_erasesize m \<longrightarrow> 4 dvd node \<longrightarrow> node_ok crc buf node)"

text \<open>What a walk over a block returns: an error, or the name in full.\<close>

definition walk_result :: "bool \<Rightarrow> (int \<times> (byte list \<times> nat) option) + bool \<Rightarrow> bool" where
  "walk_result out r \<longleftrightarrow>
     (case r of
        Inl (rc, Some (str, n)) \<Rightarrow> rc = 0 \<and> length str = n
      | Inl (rc, None) \<Rightarrow> rc < 0 \<or> rc = 0 \<and> \<not> out
      | Inr valid \<Rightarrow> True)"

lemma name_lengths: "length OPENWRT_NAME = 9" "length KERNEL_NAME = 10" "length CFERAM_NAME = 6"
  "length CFE_MAGIC_PFX = 7" "length (cferam_name_of node) \<le> 32"
  by (auto simp: OPENWRT_NAME_def KERNEL_NAME_def CFERAM_NAME_def CFE_MAGIC_PFX_def str_bytes_def
      cferam_name_of_def CFERAM_NAME_MAX_LEN_def Let_def)

lemma node_u32_eq: "off + 4 \<le> length buf \<Longrightarrow> node_u32 buf off = Some (u32_at buf off)"
  by (simp add: node_u32_def mem_read_def u32_at_def bytes_at_def)

lemma kstrndup_full:
  assumes "off + n \<le> length buf" and "0 \<notin> set (bytes_at buf off n)"
  shows "kstrndup buf off n = Some (bytes_at buf off n)"
proof -
  have all: "takeWhile (\<lambda>b. b \<noteq> 0) (take n (drop off buf)) = take n (drop off buf)"
    using assms(2) by (auto simp: takeWhile_eq_all_conv bytes_at_def)
  show ?thesis
    using assms(1) unfolding kstrndup_def all Let_def bytes_at_def by simp
qed

lemma align_next:
  assumes "0 < l" and "node + l + 3 < 2 ^ 32"
  shows "push_bit 2 (drop_bit 2 (u32 (u32 (node + l) + 3))) = align4 (node + l)"
    and "node < align4 (node + l)" and "4 dvd align4 (node + l)"
proof -
  show "push_bit 2 (drop_bit 2 (u32 (u32 (node + l) + 3))) = align4 (node + l)"
    using assms(2) by (simp add: align4_def)
  show "node < align4 (node + l)"
    using assms(1) div_mult_mod_eq [of "node + l + 3" 4] mod_less_divisor [of 4 "node + l + 3"]
    unfolding align4_def by (simp add: push_bit_eq_mult drop_bit_eq_div)
  show "4 dvd align4 (node + l)"
    by (simp add: align4_def push_bit_eq_mult)
qed

lemma block_walk_total:
  assumes ok: "\<And>node. node < length buf \<Longrightarrow> 4 dvd node \<Longrightarrow> node_ok crc buf node"
    and len: "4 dvd length buf" "length buf < 2 ^ 32" and name: "length name \<le> 32"
  shows "4 dvd node \<Longrightarrow> ensures (jffs2_block_walk crc buf name out (length buf) valid node) (walk_result out)"
proof (induction "length buf - node" arbitrary: node valid rule: less_induct)
  case less
  show ?case
  proof (cases "node < length buf")
    case False
    then show ?thesis
      by (subst jffs2_block_walk.simps) (simp add: walk_result_def)
  next
    case True
    then obtain v where v: "jffs2_dirent_valid crc buf node = Some v"
      using ok [OF True less(2)] by (auto simp: node_ok_def split: option.splits)
    show ?thesis
    proof (cases v)
      case False
      have "length buf - node \<ge> 4"
        using True len(1) less(2) by (intro dvd_imp_le dvd_diff_nat) auto
      then have "u32 (node + 4) = node + 4" "length buf - (node + 4) < length buf - node"
        using len(2) by (auto intro!: u32_id)
      then have "ensures (jffs2_block_walk crc buf name out (length buf) valid (u32 (node + 4))) (walk_result out)"
        using less(2) by (simp add: less(1))
      then show ?thesis
        using True v False by (subst jffs2_block_walk.simps) simp
    next
      case valid_node: True
      define l where "l = u32_at buf (node + 4)"
      define k where "k = u8_at buf (node + 28)"
      have n: "node + 72 \<le> length buf" "node + 40 + k \<le> length buf"
        "0 \<notin> set (bytes_at buf (node + 40) k)" "0 < l" "node + l + 3 < 2 ^ 32"
        using ok [OF True less(2)] v valid_node by (auto simp: node_ok_def l_def k_def)
      have k: "le_dec (take (Suc 0) (drop (node + 28) buf)) = k"
        by (simp add: k_def u8_at_def bytes_at_def)
      have walk: "ensures (jffs2_block_walk crc buf name out (length buf) valid'
          (push_bit 2 (drop_bit 2 (u32 (u32 (node + l) + 3))))) (walk_result out)" for valid'
        unfolding align_next(1) [OF n(4,5)] using align_next [OF n(4,5)] True by (intro less(1)) auto
      show ?thesis
        using True v valid_node n(1,2) name walk kstrndup_full [OF n(2,3)]
        by (subst jffs2_block_walk.simps)
          (auto simp: mem_read_def name_lengths sizeof_jffs2_raw_dirent_def node_u32_eq walk_result_def
            EINVAL_def k bytes_at_def Let_def simp flip: l_def)
    qed
  qed
qed

section \<open>Where the partitions lie\<close>

definition found_at :: "split_mtd \<Rightarrow> bool \<Rightarrow> nat \<Rightarrow> int \<Rightarrow> int \<times> nat \<times> (byte list \<times> nat) option \<Rightarrow> bool" where
  "found_at m out offs end_offs r \<longleftrightarrow>
     (case r of (rc, offs', found) \<Rightarrow>
        rc \<le> 0 \<and> offs \<le> offs' \<and> mi_erasesize m dvd offs' \<and> (rc = 0 \<longrightarrow> int offs' < end_offs) \<and>
        (\<forall>str n. found = Some (str, n) \<longrightarrow> length str = n))"

text \<open>
  \<open>wfi_layout\<close>: the firmware partition runs from the kernel to the end of the image and consists of
  the kernel and the UBI partition, which starts with the UBI magic number; the CFE RAM partition,
  if there is one, comes before it.
\<close>

definition wfi_layout :: "split_mtd \<Rightarrow> nat \<Rightarrow> nat \<Rightarrow> bool \<Rightarrow> mtd_partition list \<Rightarrow> bool" where
  "wfi_layout m off sz cfe_part parts \<longleftrightarrow>
     (let fw = parts ! (if cfe_part then 1 else 0);
          kernel = parts ! (if cfe_part then 2 else 1);
          ubi = parts ! (if cfe_part then 3 else 2)
      in length parts = (if cfe_part then 4 else 3) \<and>
         off \<le> part_offset fw \<and> part_offset fw + part_size fw = off + sz \<and>
         part_offset kernel = part_offset fw \<and> 0 < part_size kernel \<and>
         part_offset kernel + part_size kernel = part_offset ubi \<and>
         part_offset ubi + part_size ubi = off + sz \<and> 0 < part_size ubi \<and>
         mtd_check_rootfs_magic m (part_offset ubi) = Inr MTDSPLIT_PART_TYPE_UBI \<and>
         (cfe_part \<longrightarrow> off \<le> part_offset (hd parts) \<and>
            part_offset (hd parts) + part_size (hd parts) = part_offset fw))"

context split_device
begin

lemma find_file_loop_total:
  assumes "nodes_ok crc m" and "length name \<le> 32"
  shows "mi_erasesize m dvd offs \<Longrightarrow>
    ensures (jffs2_find_file_loop crc m name out end_offs valid offs) (found_at m out offs end_offs)"
proof (induction "nat (end_offs - int offs)" arbitrary: offs valid rule: less_induct)
  case less
  show ?case
  proof (cases "int offs < end_offs")
    case False
    then show ?thesis
      using less(2) by (subst jffs2_find_file_loop.simps) (simp add: found_at_def ENOENT_def)
  next
    case True
    have "ensures (jffs2_find_file_loop crc m name out end_offs valid' (offs + mi_erasesize m))
        (found_at m out (offs + mi_erasesize m) end_offs)" for valid'
      using True erasesize_pos less(2) by (intro less(1)) simp_all
    then have rest: "ensures (jffs2_find_file_loop crc m name out end_offs valid' (offs + mi_erasesize m))
        (found_at m out offs end_offs)" for valid'
      by (rule ensures_mono) (auto simp: found_at_def)
    have walk: "ensures (jffs2_block_walk crc buf name out (mi_erasesize m) valid 0) (walk_result out)"
      if "mi_read m offs (mi_erasesize m) = (0, buf)" "length buf = mi_erasesize m" for buf
      using block_walk_total [of buf crc name 0 out valid] assms that erasesize_less less(2) by (auto simp: nodes_ok_def)
    show ?thesis
      using True rest less(2) read_code [of offs "mi_erasesize m"]
      by (subst jffs2_find_file_loop.simps)
        (auto simp: Let_def found_at_def EINVAL_def walk_result_def split: prod.split
          intro!: ensures_bindI [OF walk] split: sum.splits option.splits)
  qed
qed

lemma find_file_total:
  assumes "nodes_ok crc m" and "length name \<le> 32" and "mi_erasesize m dvd offs"
  shows "ensures (jffs2_find_file crc m name offs sz out) (found_at m out offs (int offs + sz))"
  unfolding jffs2_find_file_def by (rule find_file_loop_total [OF assms])

lemma ubi_magic:
  assumes "mi_read m offs 4 = (0, mb)" "length mb = 4" "be32_to_cpu (u32_at mb 0) = UBI_MAGIC"
  shows "mtd_check_rootfs_magic m offs = Inr MTDSPLIT_PART_TYPE_UBI"
proof -
  have "be32_to_cpu SQUASHFS_MAGIC \<noteq> UBI_MAGIC" "be32_to_cpu 0x19852003 \<noteq> UBI_MAGIC"
    by (simp_all add: be32_to_cpu_eq SQUASHFS_MAGIC_def UBI_MAGIC_def)
  then have "u32_at mb 0 \<noteq> SQUASHFS_MAGIC" "u32_at mb 0 \<noteq> 0x19852003"
    using assms(3) by metis+
  then show ?thesis
    using assms by (simp add: mtd_check_rootfs_magic_def split_read_def UBI_EC_MAGIC_def UBI_MAGIC_def
        le32_to_cpu_def)
qed

lemma ubifs_find_loop_total:
  "ensures (ubifs_find_loop m end_offs offs) (\<lambda>(rc, offs').
     rc \<le> 0 \<and> offs \<le> offs' \<and> (rc = 0 \<longrightarrow> int offs' < end_offs \<and>
       mtd_check_rootfs_magic m offs' = Inr MTDSPLIT_PART_TYPE_UBI))"
proof (induction "nat (end_offs - int offs)" arbitrary: offs rule: less_induct)
  case less
  show ?case
  proof (cases "int offs < end_offs")
    case False
    then show ?thesis
      by (subst ubifs_find_loop.simps) (simp add: ENOENT_def)
  next
    case True
    then have "ensures (ubifs_find_loop m end_offs (offs + mi_erasesize m)) (\<lambda>(rc, offs').
        rc \<le> 0 \<and> offs \<le> offs' \<and> (rc = 0 \<longrightarrow> int offs' < end_offs \<and>
          mtd_check_rootfs_magic m offs' = Inr MTDSPLIT_PART_TYPE_UBI))"
      using erasesize_pos by (intro ensures_mono [OF less(1)]) auto
    then show ?thesis
      using True ubi_magic [of offs]
      by (subst ubifs_find_loop.simps) (auto split: prod.split)
  qed
qed

lemma ubifs_find_total:
  "ensures (ubifs_find m offs sz) (\<lambda>(rc, offs').
     rc \<le> 0 \<and> offs \<le> offs' \<and> (rc = 0 \<longrightarrow> int offs' < int offs + sz \<and>
       mtd_check_rootfs_magic m offs' = Inr MTDSPLIT_PART_TYPE_UBI))"
  unfolding ubifs_find_def by (rule ubifs_find_loop_total)

lemma wfi_layoutI:
  assumes "off \<le> c" and "c \<le> k" and "k + mi_erasesize m \<le> r" and "r < off + sz"
    and "mtd_check_rootfs_magic m r = Inr MTDSPLIT_PART_TYPE_UBI" and "off + sz \<le> mi_size m"
  shows "wfi_layout m off sz cfe
    ((if cfe then [(mk_part PART_CFERAM c (k - c))\<lparr>part_mask_flags := MTD_WRITEABLE\<rparr>] else []) @
     [mk_part PART_FIRMWARE k (sub64 sz (k - off)), mk_part KERNEL_PART_NAME k (r - k),
      mk_part UBI_PART_NAME r (sub64 sz (r - off))])"
proof -
  have "sub64 sz (k - off) = sz - (k - off)" "sub64 sz (r - off) = sz - (r - off)"
    by (rule sub64_id'; use assms size_le in simp)+
  then show ?thesis
    using assms erasesize_pos by (cases cfe) (auto simp: wfi_layout_def Let_def)
qed

lemma parse_bcm_wfi_layout:
  assumes nodes: "nodes_ok crc m" and "off + sz \<le> mi_size m" and "mi_erasesize m dvd off"
  shows "ensures (parse_bcm_wfi crc kz node m off sz cfe) (split_post (wfi_layout m off sz cfe))"
proof -
  have cferam: "ensures
      (if cfe then do {
         (ret, cfe_off, found) \<leftarrow> jffs2_find_file crc m (cferam_name_of node) off (int sz - (int off - int off)) False;
         Some (ret, cfe_off, cfe_off + mi_erasesize m) }
       else Some (0, off, off))
      (\<lambda>(ret, cfe_off, kernel_off). ret \<le> 0 \<and> mi_erasesize m dvd kernel_off \<and> off \<le> cfe_off \<and> cfe_off \<le> kernel_off)"
    using assms(3) by (auto intro!: ensures_bindI [OF find_file_total [OF nodes name_lengths(5)]] simp: found_at_def)
  have kernel: "length KERNEL_NAME \<le> 32" by (simp add: name_lengths)
  show ?thesis
    unfolding parse_bcm_wfi_def
    by (rule ensures_bindI [OF cferam])
      (auto simp: Let_def ENOMEM_def BCM_WFI_PARTS_def found_at_def assms(2)
        intro!: ensures_bindI [OF find_file_total [OF nodes kernel]] ensures_bindI [OF ubifs_find_total]
          wfi_layoutI [where cfe = True, simplified] wfi_layoutI [where cfe = False and c = off, simplified])
qed

end

section \<open>Two images\<close>

lemma bootflag_total:
  "length str = n \<Longrightarrow> ensures (cferam_bootflag_value (if kz then Some (str @ [0]) else None) n) (\<lambda>_. True)"
  by (auto simp: cferam_bootflag_value_def mem_read_def arr_get_def name_lengths CFE_MAGIC_LEN_def)

lemma ensures_bind3I:
  "ensures m P \<Longrightarrow> (\<And>a b c. P (a, b, c) \<Longrightarrow> ensures (f a b c) Q) \<Longrightarrow>
   ensures (Option.bind m (\<lambda>(a, b, c). f a b c)) Q"
  by (cases m) auto

lemma bootflag_none: "cferam_bootflag_value None n = Some (- ENOENT)"
  by (simp add: cferam_bootflag_value_def)

lemma wfi_layout_inside:
  assumes "wfi_layout m off sz cfe parts" and "off + sz \<le> mi_size m"
  shows "inside_device m parts"
proof -
  have "length parts = 4 \<and> cfe \<or> length parts = 3 \<and> \<not> cfe"
    using assms(1) by (auto simp: wfi_layout_def Let_def split: if_splits)
  then obtain a b c d where "parts = [a, b, c, d] \<and> cfe \<or> parts = [b, c, d] \<and> \<not> cfe"
    by (auto simp: numeral_eq_Suc length_Suc_conv)
  then show ?thesis
    using assms by (auto simp: wfi_layout_def inside_device_def Let_def)
qed

text \<open>
  \<open>two_images\<close>: on success the partitions lie inside the device and the last of them is the
  image that is not active. An error may come with partitions nevertheless: the two images,
  which the caller never gets to see.
\<close>

definition two_images :: "split_mtd \<Rightarrow> int \<times> mtd_partition list option \<Rightarrow> bool" where
  "two_images m r \<longleftrightarrow>
     (case r of
        (ret, None) \<Rightarrow> ret < 0
      | (ret, Some parts) \<Rightarrow>
          inside_device m parts \<and>
          (ret \<ge> 0 \<longrightarrow> ret = int (length parts) \<and> 4 \<le> ret \<and>
             part_name (last parts) \<in> {PART_IMAGE_1, PART_IMAGE_2}))"

lemma split_parts_total:
  assumes r: "split_post (wfi_layout m off sz cfe) r" and "off + sz \<le> mi_size m"
    and p: "part_offset p + part_size p \<le> mi_size m" "part_name p \<in> {PART_IMAGE_1, PART_IMAGE_2}"
  shows "ensures (wfi_split_parts kz True m p r) (two_images m)"
proof (cases "snd r")
  case None
  then show ?thesis
    using r by (cases r) (auto simp: wfi_split_parts_def two_images_def inside_device_def Let_def)
next
  case (Some parts)
  then have ret: "fst r = int (length parts)" and lay: "wfi_layout m off sz cfe parts"
    using r by (auto simp: split_post_def split: prod.splits)
  have "3 \<le> length parts"
    using lay by (auto simp: wfi_layout_def Let_def)
  moreover have "inside_device m parts"
    by (rule wfi_layout_inside [OF lay assms(2)])
  ultimately show ?thesis
    using Some ret p by (cases r) (auto simp: wfi_split_parts_def two_images_def inside_device_def ENOMEM_def Let_def)
qed

context split_device
begin

lemma bootflag_of_file:
  assumes "found_at m True offs e (ret, offs', found)"
  shows "ensures (case found of None \<Rightarrow> cferam_bootflag_value None 0
    | Some (str, n) \<Rightarrow> cferam_bootflag_value (if k then Some (str @ [0]) else None) n) (\<lambda>_. True)"
  using assms by (auto simp: found_at_def bootflag_none bootflag_total split: option.split)

lemma image_parts:
  assumes "nodes_ok crc m" and "kz2" and "mi_erasesize m dvd off" and "off + sz \<le> mi_size m"
    and "part_offset p + part_size p \<le> mi_size m" and "part_name p \<in> {PART_IMAGE_1, PART_IMAGE_2}"
  shows "ensures (parse_bcm_wfi crc kz node m off sz cfe) (\<lambda>r. ensures (wfi_split_parts kz1 kz2 m p r) (two_images m))"
  using assms(2) split_parts_total [OF _ assms(4-6)]
  by (auto intro: ensures_mono [OF parse_bcm_wfi_layout [OF assms(1,4,3)]])

lemma active_parts:
  assumes "nodes_ok crc m" and "kz2" and "mi_erasesize m dvd mi_size m div 2"
  shows "ensures (case (if c then (0, mi_size m div 2, mk_part PART_IMAGE_2 (mi_size m div 2) (mi_size m - mi_size m div 2))
         else (mi_size m div 2, mi_size m - mi_size m div 2, mk_part PART_IMAGE_1 0 (mi_size m div 2)))
       of (off, sz, p) \<Rightarrow> parse_bcm_wfi crc kz node m off sz cfe \<bind> wfi_split_parts kz1 kz2 m p) (two_images m)"
  by (cases c) (simp_all add: ensures_bind image_parts [OF assms(1,2)] assms(3))

lemma parse_wfi_split_total:
  assumes "nodes_ok crc m" and "kz 5" and "mi_erasesize m dvd mi_size m div 2"
  shows "ensures (mtdsplit_parse_bcm_wfi_split crc kz node m) (two_images m)"
proof -
  have n: "length CFERAM_NAME \<le> 32" by (simp add: name_lengths)
  note find = find_file_total [OF assms(1) n]
  note parts = active_parts [where kz = "kz 3" and ?kz1.0 = "kz 4" and cfe = True and node = node, OF assms]
  show ?thesis
    unfolding mtdsplit_parse_bcm_wfi_split_def Let_def diff_zero
    by (rule ensures_ifI, simp add: two_images_def fail_def ENOMEM_def)
      (intro ensures_bind3I [OF find] ensures_bindI [OF bootflag_of_file] parts; simp add: assms(3))
qed

lemma sercomm_loop_total:
  assumes "SERCOMM_MAGIC_LEN \<le> buflen"
  shows "ensures (sercomm_bootflag_loop m buflen offs) (\<lambda>bf. bf = - ENOENT \<or> 0 \<le> bf \<and> bf \<le> 999)"
proof (induction "mi_size m - offs" arbitrary: offs rule: less_induct)
  case less
  have "0 \<le> char_to_num c" "char_to_num c \<le> 9" for c
    by (auto simp: char_to_num_def simp del: of_nat_unat)
  then have val: "0 \<le> char_to_num a * 100 + char_to_num b * 10 + char_to_num c \<and>
      char_to_num a * 100 + char_to_num b * 10 + char_to_num c \<le> 999" for a b c
    by (smt (verit))
  have "offs < mi_size m \<Longrightarrow> ensures (sercomm_bootflag_loop m buflen (offs + mi_erasesize m))
      (\<lambda>bf. bf = - ENOENT \<or> 0 \<le> bf \<and> bf \<le> 999)"
    using erasesize_pos by (intro less) simp
  then show ?case
    using le_trans [OF read_length [of offs] assms] val
    by (subst sercomm_bootflag_loop.simps) (auto split: prod.split)
qed

lemma parse_ser_wfi_total:
  assumes "nodes_ok crc m" and "kz 3" and half: "mi_erasesize m dvd mi_size m div 2" and "SERCOMM_MAGIC_LEN \<le> mi_erasesize m"
    and "\<And>d. d1 = Some d \<or> d2 = Some d \<Longrightarrow> split_device d"
  shows "ensures (mtdsplit_parse_ser_wfi crc kz node d1 d2 m) (\<lambda>(erase, r). two_images m r)"
proof -
  have flag: "ensures (sercomm_bootflag_value d (mi_erasesize m)) (\<lambda>_. True)"
    if "d1 = Some d \<or> d2 = Some d" for d
    unfolding sercomm_bootflag_value_def
    using split_device.sercomm_loop_total [OF assms(5) [OF that] assms(4)] by (rule ensures_mono) simp
  have both: "ensures (mtdsplit_parse_ser_wfi crc kz node (Some a) (Some b) m) (\<lambda>(erase, r). two_images m r)"
    if "d1 = Some a" "d2 = Some b" for a b
    unfolding mtdsplit_parse_ser_wfi_def Let_def diff_zero prod.case option.case
    by (rule ensures_ifI, simp add: two_images_def ENOMEM_def, intro ensures_bindI [OF flag])
      (auto simp: that ensures_bind case_prod_unfold half image_parts [OF assms(1,2)])
  show ?thesis
    using both by (cases d1; cases d2) (auto simp: mtdsplit_parse_ser_wfi_def Let_def two_images_def ENOENT_def)
qed

end

end
