(* ===== verification/Mtdtool_Jffs2.thy ===== *)
theory Mtdtool_Jffs2
  imports Mtdtool_Boot Mtdsplit_Wfi
begin

text \<open>
  \<^verbatim>\<open>jffs2.c\<close> of the \<^verbatim>\<open>mtd\<close> tool, which appends a file to a JFFS2 file system: it collects nodes in a
  buffer of one erase block and writes the buffer to the next good block when it is full.

  The static variables of the file are the record \<open>jffs2\<close>. A node is written into the buffer field by
  field at its offset; the fields of a node are those of \<^verbatim>\<open>jffs2.h\<close> in little-endian order. The
  functions that can reach \<^verbatim>\<open>exit\<close> through \<^verbatim>\<open>mtd_block_is_bad\<close> yield an outcome.
\<close>

section \<open>State\<close>

record 'w jffs2 =
  j_last_ino :: int
  j_last_version :: int
  j_buf :: "byte list"
  j_ofs :: int
  j_outfd :: int
  j_mtdofs :: int
  j_target_ino :: int
  j_tool :: "'w tool"

type_synonym ('a, 'w) jrun = "('a outcome \<times> 'w jffs2) option"

definition CLEANMARKER :: "byte list" where
  "CLEANMARKER = [0x85, 0x19, 0x03, 0x20, 0x0c, 0x00, 0x00, 0x00, 0xb1, 0xb0, 0x1e, 0xe4]"

definition JFFS2_EOF :: "byte list" where "JFFS2_EOF = [0xde, 0xad, 0xc0, 0xde]"
definition JFFS2_NODETYPE_INODE :: nat where "JFFS2_NODETYPE_INODE = 0xe002"
definition sizeof_jffs2_raw_inode :: nat where "sizeof_jffs2_raw_inode = 68"
definition DT_DIR :: nat where "DT_DIR = 4"
definition DT_REG :: nat where "DT_REG = 8"
definition S_IFDIR :: nat where "S_IFDIR = 0x4000"

text \<open>\<^verbatim>\<open>PAD\<close> on a 32-bit number.\<close>

definition PAD :: "nat \<Rightarrow> nat" where
  "PAD x = u32 (x + 3) div 4 * 4"

definition jes :: "'w jffs2 \<Rightarrow> int" where
  "jes j = erasesize (j_tool j)"

text \<open>Incrementing an \<^verbatim>\<open>int\<close>, which is undefined for the largest one.\<close>

definition inc_int :: "int \<Rightarrow> int option" where
  "inc_int i = (if i < 2 ^ 31 - 1 then Some (i + 1) else None)"

text \<open>A system call on the state behind the tool.\<close>

definition on_world :: "('w \<Rightarrow> 'a \<times> 'w) \<Rightarrow> 'w jffs2 \<Rightarrow> 'a \<times> 'w jffs2" where
  "on_world f j = (case f (world (j_tool j)) of (r, w) \<Rightarrow> (r, j\<lparr>j_tool := (j_tool j)\<lparr>world := w\<rparr>\<rparr>))"

section \<open>Filling the block\<close>

text \<open>
  \<^verbatim>\<open>pad\<close>: the loop over bad blocks and the writing of the block. C divides with truncation; the
  offset is never negative.
\<close>

partial_function (option) pad_skip :: "'w mtd_sys \<Rightarrow> 'w jffs2 \<Rightarrow> (unit outcome \<times> 'w jffs2) option" where [code]:
  "pad_skip sys j = do {
     (r, t) \<leftarrow> mtd_block_is_bad sys (j_outfd j) (j_mtdofs j) (j_tool j);
     let j = j\<lparr>j_tool := t\<rparr>;
     case r of
       Exit c \<Rightarrow> Some (Exit c, j)
     | Ret bad \<Rightarrow>
         if bad \<noteq> 0 \<and> j_mtdofs j < mtdsize t
         then pad_skip sys (j\<lparr>j_mtdofs := j_mtdofs j + jes j,
                j_tool := t\<lparr>world := sys_lseek_cur sys (j_outfd j) (jes j) (world t)\<rparr>\<rparr>)
         else Some (Ret (), j)
   }"

definition pad_flush :: "'w mtd_sys \<Rightarrow> 'w jffs2 \<Rightarrow> (unit, 'w) jrun" where
  "pad_flush sys j = andthen (pad_skip sys j) (\<lambda>_ j.
     case mtd_erase_block sys (j_outfd j) (j_mtdofs j) (j_tool j) of (_, t) \<Rightarrow> do {
       bs \<leftarrow> mem_read (j_buf j) 0 (nat (jes j));
       case sys_write sys (j_outfd j) bs (world t) of (_, w) \<Rightarrow>
         Some (Ret (), j\<lparr>j_mtdofs := j_mtdofs j + jes j, j_tool := t\<lparr>world := w\<rparr>\<rparr>)
     })"

definition pad :: "'w mtd_sys \<Rightarrow> int \<Rightarrow> 'w jffs2 \<Rightarrow> (unit, 'w) jrun" where
  "pad sys sz j =
     (if j_ofs j mod sz = 0 \<and> j_ofs j < jes j then Some (Ret (), j)
      else do {
        j \<leftarrow> (if j_ofs j < jes j
             then (let n = sz - j_ofs j mod sz in do {
               buf \<leftarrow> mem_write (j_buf j) (nat (j_ofs j)) (replicate (nat n) 0xff);
               Some (j\<lparr>j_buf := buf, j_ofs := j_ofs j + n\<rparr>)
             })
             else Some j);
        let j = j\<lparr>j_ofs := j_ofs j mod jes j\<rparr>;
        if j_ofs j = 0 then pad_flush sys j else Some (Ret (), j)
      })"

definition rbytes :: "'w jffs2 \<Rightarrow> int" where
  "rbytes j = jes j - j_ofs j mod jes j"

text \<open>
  \<^verbatim>\<open>add_data\<close> and \<^verbatim>\<open>prep_eraseblock\<close> call each other: at the start of a block, the marker is added. If
  a block cannot hold the marker, the two call each other forever.
\<close>

definition put_data :: "byte list \<Rightarrow> 'w jffs2 \<Rightarrow> (unit, 'w) jrun" where
  "put_data bs j = do {
     buf \<leftarrow> mem_write (j_buf j) (nat (j_ofs j)) bs;
     Some (Ret (), j\<lparr>j_buf := buf, j_ofs := j_ofs j + int (length bs)\<rparr>)
   }"

definition prep_eraseblock :: "'w jffs2 \<Rightarrow> (unit, 'w) jrun" where
  "prep_eraseblock j =
     (if j_ofs j > 0 then Some (Ret (), j)
      else if j_ofs j + int (length CLEANMARKER) > jes j then None
      else put_data CLEANMARKER j)"

definition add_data :: "'w mtd_sys \<Rightarrow> byte list \<Rightarrow> 'w jffs2 \<Rightarrow> (unit, 'w) jrun" where
  "add_data sys bs j =
     (if j_ofs j + int (length bs) > jes j
      then andthen (pad sys (jes j) j) (\<lambda>_ j. andthen (prep_eraseblock j) (\<lambda>_. put_data bs))
      else put_data bs j)"

section \<open>Nodes\<close>

text \<open>
  A directory entry: the checksums cover the fields that are stored before them, with zeroes in the
  others. The name is stored behind the structure, its length in one byte.
\<close>

definition node_head :: "nat \<Rightarrow> nat \<Rightarrow> byte list" where
  "node_head nodetype totlen =
     (let head = le_enc 2 JFFS2_MAGIC_BITMASK @ le_enc 2 nodetype @ le_enc 4 totlen in
      head @ le_enc 4 (unat (crc32 0 head)))"

definition dirent_bytes :: "byte list \<Rightarrow> nat \<Rightarrow> nat \<Rightarrow> nat \<Rightarrow> nat \<Rightarrow> byte list" where
  "dirent_bytes name type pino ino vers =
     (let body = node_head JFFS2_NODETYPE_DIRENT (sizeof_jffs2_raw_dirent + length name) @
            le_enc 4 pino @ le_enc 4 vers @ le_enc 4 ino @
            le_enc 4 0 @ le_enc 1 (length name) @ le_enc 1 type @ le_enc 2 0 in
      body @ le_enc 4 (unat (crc32 0 body)) @ le_enc 4 (unat (crc32 0 name)) @ name)"

text \<open>
  \<^verbatim>\<open>add_dirent\<close>. The space left in the block is computed as \<^verbatim>\<open>ofs - erasesize\<close> and compared as an
  unsigned number: the comparison holds only when the block is full.
\<close>

definition add_dirent :: "'w mtd_sys \<Rightarrow> byte list \<Rightarrow> nat \<Rightarrow> int \<Rightarrow> 'w jffs2 \<Rightarrow> (int, 'w) jrun" where
  "add_dirent sys name type parent j =
     andthen
       (if u64_of_int (j_ofs j - jes j) < sizeof_jffs2_raw_dirent + length name
        then pad sys (jes j) j else Some (Ret (), j))
       (\<lambda>_ j. andthen (prep_eraseblock j) (\<lambda>_ j. do {
          ino \<leftarrow> inc_int (j_last_ino j);
          next_ino \<leftarrow> inc_int ino;
          vers \<leftarrow> inc_int (j_last_version j);
          buf \<leftarrow> mem_write (j_buf j) (nat (j_ofs j))
                   (dirent_bytes name type (u32_of_int parent) (u32_of_int ino) (u32_of_int (j_last_version j)));
          let j = j\<lparr>j_buf := buf, j_last_ino := next_ino, j_last_version := vers,
                j_ofs := j_ofs j + int (sizeof_jffs2_raw_dirent + length name mod 256)\<rparr>;
          andthen (pad sys 4 j) (\<lambda>_ j. Some (Ret ino, j))
        }))"

text \<open>An inode; \<^verbatim>\<open>node_crc\<close> covers the fields before the two checksums.\<close>

definition inode_bytes ::
    "nat \<Rightarrow> nat \<Rightarrow> nat \<Rightarrow> nat \<Rightarrow> nat \<Rightarrow> nat \<Rightarrow> nat \<Rightarrow> nat \<Rightarrow> nat \<Rightarrow> byte list \<Rightarrow> byte list" where
  "inode_bytes ino vers mode isize atime mtime ctime offset dsize data_crc =
     (let body = node_head JFFS2_NODETYPE_INODE (sizeof_jffs2_raw_inode + dsize) @
            le_enc 4 ino @ le_enc 4 vers @ le_enc 4 mode @ le_enc 2 0 @ le_enc 2 0 @ le_enc 4 isize @
            le_enc 4 atime @ le_enc 4 mtime @ le_enc 4 ctime @ le_enc 4 offset @ le_enc 4 dsize @
            le_enc 4 dsize @ le_enc 1 0 @ le_enc 1 0 @ le_enc 2 0 in
      body @ data_crc @ le_enc 4 (unat (crc32 0 body)))"

definition add_dir :: "'w mtd_sys \<Rightarrow> byte list \<Rightarrow> int \<Rightarrow> 'w jffs2 \<Rightarrow> (int, 'w) jrun" where
  "add_dir sys name parent j =
     andthen (add_dirent sys name DT_DIR parent j) (\<lambda>ino j.
     andthen (if u64_of_int (rbytes j) < sizeof_jffs2_raw_inode then pad sys (jes j) j else Some (Ret (), j)) (\<lambda>_ j.
     andthen (prep_eraseblock j) (\<lambda>_ j.
     andthen (add_data sys (inode_bytes (u32_of_int ino) 1 (S_IFDIR OR 0x1ED) 0 0 0 0 0 0 (le_enc 4 0)) j) (\<lambda>_ j.
     andthen (pad sys 4 j) (\<lambda>_ j. Some (Ret ino, j))))))"

section \<open>Files\<close>

text \<open>The part of a path behind the last \<^verbatim>\<open>/\<close>.\<close>

definition basename :: "string \<Rightarrow> string" where
  "basename name = rev (takeWhile (\<lambda>c. c \<noteq> CHR ''/'') (rev name))"

text \<open>The inner loop of \<^verbatim>\<open>add_file\<close>: it yields the room for data in the block.\<close>

partial_function (option) find_room :: "'w mtd_sys \<Rightarrow> 'w jffs2 \<Rightarrow> (int outcome \<times> 'w jffs2) option" where [code]:
  "find_room sys j =
     (let len = rbytes j - int sizeof_jffs2_raw_inode in
      if len > 128 then Some (Ret len, j)
      else do {
        (r, j) \<leftarrow> pad sys (jes j) j;
        case r of
          Exit c \<Rightarrow> Some (Exit c, j)
        | Ret _ \<Rightarrow> do {
            (r, j) \<leftarrow> prep_eraseblock j;
            case r of Exit c \<Rightarrow> Some (Exit c, j) | Ret _ \<Rightarrow> find_room sys j
          }
      })"

text \<open>One node with the data \<open>bs\<close>.\<close>

definition add_chunk :: "'w mtd_sys \<Rightarrow> int \<Rightarrow> file_stat \<Rightarrow> nat \<Rightarrow> byte list \<Rightarrow> 'w jffs2 \<Rightarrow> (unit, 'w) jrun" where
  "add_chunk sys ino st f_offset bs j = do {
     vers \<leftarrow> inc_int (j_last_version j);
     let ri = inode_bytes (u32_of_int ino) (u32_of_int vers) (st_mode st) (st_size st) (st_atime st) (st_mtime st)
                (st_ctime st) f_offset (length bs) (le_enc 4 (unat (crc32 0 bs)));
     andthen (add_data sys ri (j\<lparr>j_last_version := vers\<rparr>)) (\<lambda>_ j.
     andthen (add_data sys bs j) (\<lambda>_ j.
     andthen (pad sys 4 j) (\<lambda>_. prep_eraseblock)))
   }"

partial_function (option) add_file_loop ::
    "'w mtd_sys \<Rightarrow> int \<Rightarrow> int \<Rightarrow> file_stat \<Rightarrow> nat \<Rightarrow> 'w jffs2 \<Rightarrow> (unit outcome \<times> 'w jffs2) option" where [code]:
  "add_file_loop sys fd ino st f_offset j = do {
     (r, j) \<leftarrow> find_room sys j;
     case r of
       Exit c \<Rightarrow> Some (Exit c, j)
     | Ret len \<Rightarrow>
         (let len = min (nat len) 4096 in
          case on_world (sys_read sys fd len) j of
            (Inl _, j) \<Rightarrow> Some (Ret (), j)
          | (Inr bs, j) \<Rightarrow>
              if bs = [] then Some (Ret (), j)
              else if length bs > len then None
              else do {
                (r, j) \<leftarrow> add_chunk sys ino st f_offset bs j;
                case r of
                  Exit c \<Rightarrow> Some (Exit c, j)
                | Ret _ \<Rightarrow> add_file_loop sys fd ino st (f_offset + length bs) j
              })
   }"

definition add_file :: "'w mtd_sys \<Rightarrow> string \<Rightarrow> int \<Rightarrow> 'w jffs2 \<Rightarrow> (unit, 'w) jrun" where
  "add_file sys name parent j =
     (case sys_stat sys name (world (j_tool j)) of
        None \<Rightarrow> Some (Ret (), j)
      | Some st \<Rightarrow>
          andthen (add_dirent sys (str_bytes (basename name)) DT_REG parent j) (\<lambda>ino j.
            case on_world (sys_open_rd sys name) j of (fd, j) \<Rightarrow>
              if fd < 0 then Some (Ret (), j)
              else andthen (add_file_loop sys fd ino st 0 j) (\<lambda>_ j.
                Some (Ret (), snd (on_world (\<lambda>w. ((), sys_close sys fd w)) j)))))"

text \<open>
  What \<^verbatim>\<open>mtd_replace_jffs2\<close> and \<^verbatim>\<open>mtd_write_jffs2\<close> end with: the file, the rest of its last block, and
  the end marker in a block of its own.
\<close>

definition add_file_and_eof :: "'w mtd_sys \<Rightarrow> string \<Rightarrow> 'w jffs2 \<Rightarrow> (unit, 'w) jrun" where
  "add_file_and_eof sys filename j =
     andthen (add_file sys filename (j_target_ino j) j) (\<lambda>_ j.
     andthen (pad sys (jes j) j) (\<lambda>_ j.
     andthen (add_data sys JFFS2_EOF j) (\<lambda>_ j. pad sys (jes j) j)))"

text \<open>
  The buffer is not initialised; every byte of it is set before it is written. A failed allocation is
  not noticed by \<^verbatim>\<open>mtd_replace_jffs2\<close>.
\<close>

definition alloc_block :: "'w mtd_sys \<Rightarrow> 'w jffs2 \<Rightarrow> 'w jffs2 option" where
  "alloc_block sys j =
     (if sys_malloc sys (u64_of_int (jes j)) then Some (j\<lparr>j_buf := replicate (nat (jes j)) 0\<rparr>) else None)"

definition mtd_replace_jffs2 :: "'w mtd_sys \<Rightarrow> int \<Rightarrow> int \<Rightarrow> string \<Rightarrow> 'w jffs2 \<Rightarrow> (int, 'w) jrun" where
  "mtd_replace_jffs2 sys fd ofs filename j = do {
     j \<leftarrow> alloc_block sys (j\<lparr>j_outfd := fd, j_mtdofs := ofs\<rparr>);
     let j = j\<lparr>j_target_ino := 1, j_last_ino := (if j_last_ino j = 0 then 1 else j_last_ino j)\<rparr>;
     andthen (add_file_and_eof sys filename j) (\<lambda>_ j. Some (Ret (j_mtdofs j - ofs), j))
   }"

section \<open>Reading a file system\<close>

text \<open>\<^verbatim>\<open>strncmp\<close> of bytes in a buffer with a string, which a zero byte ends.\<close>

fun strncmp_eq :: "byte list \<Rightarrow> nat \<Rightarrow> byte list \<Rightarrow> nat \<Rightarrow> bool option" where
  "strncmp_eq buf off s 0 = Some True"
| "strncmp_eq buf off s (Suc n) = do {
     c \<leftarrow> arr_get buf off;
     let d = (case s of [] \<Rightarrow> 0 | d # _ \<Rightarrow> d);
     if c \<noteq> d then Some False
     else if c = 0 then Some True
     else strncmp_eq buf (off + 1) (tl s) n
   }"

text \<open>One directory entry: it may be the directory the file goes to, and its numbers are the last ones used.\<close>

definition parse_dirent :: "byte list \<Rightarrow> nat \<Rightarrow> byte list \<Rightarrow> 'w jffs2 \<Rightarrow> 'w jffs2 option" where
  "parse_dirent buf node dir j = do {
     pino \<leftarrow> load32 buf (node + 12);
     vers \<leftarrow> load32 buf (node + 16);
     ino \<leftarrow> load32 buf (node + 20);
     found \<leftarrow> (if dir \<noteq> [] \<and> pino = 1
               then do {
                 nsize \<leftarrow> arr_get buf (node + 28);
                 strncmp_eq buf (node + sizeof_jffs2_raw_dirent) dir (unat nsize)
               }
               else Some False);
     let j = (if found then j\<lparr>j_target_ino := s32 ino\<rparr> else j);
     let j = (if u32_of_int (j_last_ino j) < ino then j\<lparr>j_last_ino := s32 ino\<rparr> else j);
     Some (if u32_of_int (j_last_version j) < vers then j\<lparr>j_last_version := s32 vers\<rparr> else j)
   }"

partial_function (option) mtd_parse_jffs2data ::
    "byte list \<Rightarrow> byte list \<Rightarrow> nat \<Rightarrow> 'w jffs2 \<Rightarrow> 'w jffs2 option" where [code]:
  "mtd_parse_jffs2data buf dir ofs j =
     (if ofs < u32_of_int (jes j)
      then do {
        magic \<leftarrow> load16 buf ofs;
        if magic \<noteq> JFFS2_MAGIC_BITMASK then Some j
        else do {
          totlen \<leftarrow> load32 buf (ofs + 4);
          nodetype \<leftarrow> load16 buf (ofs + 2);
          j \<leftarrow> (if nodetype = JFFS2_NODETYPE_DIRENT then parse_dirent buf ofs dir j else Some j);
          mtd_parse_jffs2data buf dir (u32 (ofs + PAD totlen)) j
        }
      }
      else Some j)"

text \<open>The search for the end of the file system: whether it was found, or an error.\<close>

partial_function (option) find_end :: "'w mtd_sys \<Rightarrow> byte list \<Rightarrow> 'w jffs2 \<Rightarrow> (bool option \<times> 'w jffs2) option" where [code]:
  "find_end sys dir j =
     (case on_world (sys_read sys (j_outfd j) (u64_of_int (jes j))) j of
        (Inl _, j) \<Rightarrow> Some (Some False, j)
      | (Inr bs, j) \<Rightarrow>
          if int (length bs) \<noteq> jes j then Some (Some False, j)
          else do {
            let j = j\<lparr>j_buf := bs, j_mtdofs := j_mtdofs j + jes j\<rparr>;
            magic \<leftarrow> load16 bs 0;
            if magic = 0x8519 then Some (None, j)
            else if magic \<noteq> JFFS2_MAGIC_BITMASK then Some (Some True, j)
            else do {
              j \<leftarrow> mtd_parse_jffs2data bs dir 0 j;
              find_end sys dir j
            }
          })"

text \<open>\<open>fixup\<close> says whether the program contains \<^verbatim>\<open>trx_fixup\<close>, a weak symbol.\<close>

definition mtd_write_jffs2 ::
    "'w mtd_sys \<Rightarrow> bool \<Rightarrow> string \<Rightarrow> string \<Rightarrow> string \<Rightarrow> 'w jffs2 \<Rightarrow> (int, 'w) jrun" where
  "mtd_write_jffs2 sys fixup mtd filename dir j = do {
     (fd, t) \<leftarrow> mtd_check_open sys mtd (j_tool j);
     let j = j\<lparr>j_outfd := fd, j_tool := t\<rparr>;
     if fd < 0 then Some (Ret (- 1), j)
     else do {
       let finish = (\<lambda>err j. Some (Ret err, snd (on_world (\<lambda>w. ((), sys_close sys fd w)) j)));
       if \<not> sys_malloc sys (u64_of_int (jes j)) then finish (- 1) j
       else do {
         let j = j\<lparr>j_buf := replicate (nat (jes j)) 0, j_target_ino := (if dir = [] then 1 else j_target_ino j)\<rparr>;
         (found, j) \<leftarrow> find_end sys (str_bytes dir) j;
         if found \<noteq> Some True then finish (- 1) j
         else do {
           let j = j\<lparr>j_mtdofs := j_mtdofs j - jes j\<rparr>;
           let j = snd (on_world (\<lambda>w. ((), sys_lseek_set sys fd (j_mtdofs j) w)) j);
           let j = j\<lparr>j_ofs := 0, j_last_ino := (if j_last_ino j = 0 then 1 else j_last_ino j)\<rparr>;
           andthen (if j_target_ino j = 0
                    then andthen (add_dir sys (str_bytes dir) 1 j) (\<lambda>ino j. Some (Ret (), j\<lparr>j_target_ino := ino\<rparr>))
                    else Some (Ret (), j)) (\<lambda>_ j.
           andthen (add_file_and_eof sys filename j) (\<lambda>_ j. do {
             t \<leftarrow> (if fixup then map_option snd (trx_fixup sys fd mtd (j_tool j)) else Some (j_tool j));
             finish 0 (j\<lparr>j_tool := t\<rparr>)
           }))
         }
       }
     }
   }"

end
