(* ===== verification/Mtdtool_Write.thy ===== *)
theory Mtdtool_Write
  imports Mtdtool_Jffs2
begin

text \<open>
  The commands of \<^verbatim>\<open>mtd.c\<close>: the checks before an image is written, unlocking, erasing, dumping,
  verifying and writing, and what \<^verbatim>\<open>main\<close> does after it has parsed its arguments.

  The static variables of \<^verbatim>\<open>mtd.c\<close> that the commands change are the record \<open>writer\<close>, around those of
  \<^verbatim>\<open>jffs2.c\<close>. What the command line and the build choose, and the commands only read, is the record
  \<open>settings\<close>: a weak symbol is a boolean that says whether the program contains the function.
\<close>

section \<open>State\<close>

datatype mtd_image_format =
    MTD_IMAGE_FORMAT_UNKNOWN
  | MTD_IMAGE_FORMAT_TRX
  | MTD_IMAGE_FORMAT_SEAMA
  | MTD_IMAGE_FORMAT_WRG
  | MTD_IMAGE_FORMAT_WRGG03

record 'w writer =
  wr_buf :: "byte list option"
  wr_buflen :: int
  wr_imageformat :: mtd_image_format
  wr_jffs2file :: "string option"
  wr_j :: "'w jffs2"

record settings =
  su_jffs2dir :: string
  su_tpl_uboot_args_part :: "string option"
  su_no_erase :: bool
  su_jffs2_skip_bytes :: int
  su_target_brcm :: bool
  su_trx :: bool
  su_seama :: bool
  su_wrg :: bool
  su_wrgg :: bool
  su_tpl :: bool
  su_resetbc :: bool

type_synonym ('a, 'w) wrun = "('a outcome \<times> 'w writer) option"

definition wtool :: "'w writer \<Rightarrow> 'w tool" where
  "wtool s = j_tool (wr_j s)"

definition set_tool :: "'w tool \<Rightarrow> 'w writer \<Rightarrow> 'w writer" where
  "set_tool t s = s\<lparr>wr_j := (wr_j s)\<lparr>j_tool := t\<rparr>\<rparr>"

abbreviation wes :: "'w writer \<Rightarrow> int" where
  "wes s \<equiv> erasesize (wtool s)"

text \<open>Functions on the parts of the state.\<close>

definition on_tool :: "('w tool \<Rightarrow> ('a, 'w) run) \<Rightarrow> 'w writer \<Rightarrow> ('a, 'w) wrun" where
  "on_tool f s = map_option (\<lambda>(r, t). (r, set_tool t s)) (f (wtool s))"

definition on_tool_ret :: "('w tool \<Rightarrow> ('a \<times> 'w tool) option) \<Rightarrow> 'w writer \<Rightarrow> ('a, 'w) wrun" where
  "on_tool_ret f s = map_option (\<lambda>(r, t). (Ret r, set_tool t s)) (f (wtool s))"

definition on_j :: "('w jffs2 \<Rightarrow> ('a, 'w) jrun) \<Rightarrow> 'w writer \<Rightarrow> ('a, 'w) wrun" where
  "on_j f s = map_option (\<lambda>(r, j). (r, s\<lparr>wr_j := j\<rparr>)) (f (wr_j s))"

definition on_sys :: "('w \<Rightarrow> 'a \<times> 'w) \<Rightarrow> 'w tool \<Rightarrow> 'a \<times> 'w tool" where
  "on_sys f t = (case f (world t) of (r, w) \<Rightarrow> (r, t\<lparr>world := w\<rparr>))"

definition int_of :: "int \<Rightarrow> int" where
  "int_of i = s32 (u32_of_int i)"

definition EINTR :: int where "EINTR = 4"
definition EAGAIN :: int where "EAGAIN = 11"

section \<open>Checks, unlocking, erasing\<close>

definition TRX_IMAGE_MAGIC :: nat where "TRX_IMAGE_MAGIC = 0x48445230"
definition SEAMA_IMAGE_MAGIC :: nat where "SEAMA_IMAGE_MAGIC = 0x5ea3a417"
definition WRG_IMAGE_MAGIC :: nat where "WRG_IMAGE_MAGIC = 0x20040220"
definition WRGG03_IMAGE_MAGIC :: nat where "WRGG03_IMAGE_MAGIC = 0x20080321"

text \<open>\<^verbatim>\<open>read\<close> into the buffer at \<^verbatim>\<open>buflen\<close>: the number of bytes, which are counted, or the error.\<close>

definition read_image :: "'w mtd_sys \<Rightarrow> int \<Rightarrow> int \<Rightarrow> 'w writer \<Rightarrow> ((int + nat) \<times> 'w writer) option" where
  "read_image sys imagefd n s =
     (case on_sys (sys_read sys imagefd (u64_of_int n)) (wtool s) of
        (Inl err, t) \<Rightarrow> Some (Inl err, set_tool t s)
      | (Inr bs, t) \<Rightarrow> do {
          buf \<leftarrow> wr_buf s;
          buf \<leftarrow> mem_write buf (nat (wr_buflen s)) bs;
          Some (Inr (length bs), (set_tool t s)\<lparr>wr_buf := Some buf, wr_buflen := wr_buflen s + int (length bs)\<rparr>)
        })"

partial_function (option) read_magic :: "'w mtd_sys \<Rightarrow> int \<Rightarrow> 'w writer \<Rightarrow> 'w writer option" where [code]:
  "read_magic sys imagefd s =
     (if wr_buflen s < 4
      then do {
        (r, s) \<leftarrow> read_image sys imagefd (4 - wr_buflen s) s;
        case r of Inl _ \<Rightarrow> Some s | Inr n \<Rightarrow> if n < 1 then Some s else read_magic sys imagefd s
      }
      else Some s)"

definition image_format :: "nat \<Rightarrow> mtd_image_format \<Rightarrow> mtd_image_format" where
  "image_format mg old =
     (if be32_to_cpu mg = TRX_IMAGE_MAGIC then MTD_IMAGE_FORMAT_TRX
      else if be32_to_cpu mg = SEAMA_IMAGE_MAGIC then MTD_IMAGE_FORMAT_SEAMA
      else if mg = WRG_IMAGE_MAGIC then MTD_IMAGE_FORMAT_WRG
      else if mg = WRGG03_IMAGE_MAGIC then MTD_IMAGE_FORMAT_WRGG03
      else old)"

definition image_check :: "'w mtd_sys \<Rightarrow> settings \<Rightarrow> int \<Rightarrow> string \<Rightarrow> 'w writer \<Rightarrow> (int, 'w) wrun" where
  "image_check sys su imagefd mtd s = do {
     s \<leftarrow> read_magic sys imagefd s;
     if wr_buflen s < 4 then Some (Ret 0, s)
     else do {
       buf \<leftarrow> wr_buf s;
       magic \<leftarrow> load32 buf 0;
       let s = s\<lparr>wr_imageformat := image_format magic (wr_imageformat s)\<rparr>;
       case wr_imageformat s of
         MTD_IMAGE_FORMAT_TRX \<Rightarrow>
           if su_trx su
           then andthen (on_tool (trx_check sys imagefd mtd buf (wr_buflen s)) s) (\<lambda>(ret, buf, len) s.
             Some (Ret ret, s\<lparr>wr_buf := Some buf, wr_buflen := len\<rparr>))
           else Some (Ret 1, s)
       | MTD_IMAGE_FORMAT_UNKNOWN \<Rightarrow>
           Some (Ret (if su_target_brcm su \<and> mtd = ''firmware'' then 0 else 1), s)
       | _ \<Rightarrow> Some (Ret 1, s)
     }
   }"

text \<open>The devices of an argument: the parts between the colons.\<close>

fun split_colon :: "string \<Rightarrow> string \<times> string option" where
  "split_colon [] = ([], None)"
| "split_colon (c # cs) =
     (if c = CHR '':'' then ([], Some cs)
      else (case split_colon cs of (mtd, next_mtd) \<Rightarrow> (c # mtd, next_mtd)))"

lemma split_colon_less: "split_colon s = (mtd, Some rest) \<Longrightarrow> length rest < length s"
  by (induction s arbitrary: mtd) (auto split: if_splits prod.splits)

function mtd_check :: "'w mtd_sys \<Rightarrow> string \<Rightarrow> 'w writer \<Rightarrow> (int \<times> 'w writer) option" where
  "mtd_check sys names s =
     (case split_colon names of (mtd, next_mtd) \<Rightarrow> do {
        (fd, t) \<leftarrow> mtd_check_open sys mtd (wtool s);
        let s = set_tool t s;
        if fd < 0 then Some (0, s)
        else do {
          let size = u64_of_int (wes s);
          let s = (if wr_buf s = None \<and> sys_malloc sys size then s\<lparr>wr_buf := Some (replicate size 0)\<rparr> else s);
          let s = set_tool ((wtool s)\<lparr>world := sys_close sys fd (world (wtool s))\<rparr>) s;
          case next_mtd of None \<Rightarrow> Some (1, s) | Some rest \<Rightarrow> mtd_check sys rest s
        }
      })"
  by auto
termination
  by (relation "measure (\<lambda>(sys, names, s). length names)") (auto dest: sym intro: split_colon_less)

function mtd_unlock :: "'w mtd_sys \<Rightarrow> string \<Rightarrow> 'w tool \<Rightarrow> (int, 'w) run" where
  "mtd_unlock sys names t =
     (case split_colon names of (mtd, next_mtd) \<Rightarrow> do {
        (fd, t) \<leftarrow> mtd_check_open sys mtd t;
        if fd < 0 then exit1 t
        else (case sys_MEMUNLOCK sys fd 0 (u32_of_int (mtdsize t)) (world t) of (_, w) \<Rightarrow>
          (let t = t\<lparr>world := sys_close sys fd w\<rparr> in
           case next_mtd of None \<Rightarrow> Some (Ret 0, t) | Some rest \<Rightarrow> mtd_unlock sys rest t))
      })"
  by auto
termination
  by (relation "measure (\<lambda>(sys, names, t). length names)") (auto dest: sym intro: split_colon_less)

declare mtd_check.simps [simp del] mtd_unlock.simps [simp del]

partial_function (option) mtd_erase_loop :: "'w mtd_sys \<Rightarrow> int \<Rightarrow> nat \<Rightarrow> 'w tool \<Rightarrow> (unit outcome \<times> 'w tool) option" where [code]:
  "mtd_erase_loop sys fd start t =
     (if start < u32_of_int (mtdsize t)
      then do {
        (r, t) \<leftarrow> mtd_block_is_bad sys fd (s32 start) t;
        case r of
          Exit c \<Rightarrow> Some (Exit c, t)
        | Ret bad \<Rightarrow>
            (let len = u32_of_int (erasesize t);
                 w = (if bad \<noteq> 0 then world t
                      else snd (sys_MEMERASE sys fd start len (snd (sys_MEMUNLOCK sys fd start len (world t))))) in
             mtd_erase_loop sys fd (u32 (start + len)) (t\<lparr>world := w\<rparr>))
      }
      else Some (Ret (), t))"

definition mtd_erase :: "'w mtd_sys \<Rightarrow> string \<Rightarrow> 'w tool \<Rightarrow> (int, 'w) run" where
  "mtd_erase sys mtd t = do {
     (fd, t) \<leftarrow> mtd_check_open sys mtd t;
     if fd < 0 then exit1 t
     else andthen (mtd_erase_loop sys fd 0 t) (\<lambda>_ t.
       Some (Ret 0, t\<lparr>world := sys_close sys fd (world t)\<rparr>))
   }"

section \<open>Dumping and verifying\<close>

text \<open>The loop of \<^verbatim>\<open>mtd_dump\<close> yields the result of the command.\<close>

partial_function (option) mtd_dump_loop ::
    "'w mtd_sys \<Rightarrow> int \<Rightarrow> int \<Rightarrow> int \<Rightarrow> 'w tool \<Rightarrow> (int outcome \<times> 'w tool) option" where [code]:
  "mtd_dump_loop sys fd offset sz t =
     (let len = (if sz > erasesize t then erasesize t else sz) in
      case on_sys (sys_read sys fd (u64_of_int len)) t of
        (Inl err, t) \<Rightarrow>
          if err = EINTR then (if sz > 0 then mtd_dump_loop sys fd offset sz t else Some (Ret 0, t))
          else Some (Ret (- 1), t)
      | (Inr bs, t) \<Rightarrow>
          if bs = [] \<or> int (length bs) \<noteq> len then Some (Ret 0, t)
          else do {
            (r, t) \<leftarrow> mtd_block_is_bad sys fd offset t;
            case r of
              Exit c \<Rightarrow> Some (Exit c, t)
            | Ret bad \<Rightarrow>
                (let sz' = (if bad \<noteq> 0 then sz else sz - len);
                     t = (if bad \<noteq> 0 then t else snd (on_sys (sys_write sys 1 bs) t)) in
                 if sz' > 0 then mtd_dump_loop sys fd (offset + len) sz' t else Some (Ret 0, t))
          })"

definition mtd_dump :: "'w mtd_sys \<Rightarrow> string \<Rightarrow> int \<Rightarrow> int \<Rightarrow> 'w tool \<Rightarrow> (int, 'w) run" where
  "mtd_dump sys mtd part_ofs sz t = do {
     (fd, t) \<leftarrow> mtd_check_open sys mtd t;
     if fd < 0 then Some (Ret (- 1), t)
     else (let sz = (if sz = 0 then mtdsize t else sz);
               t = (if part_ofs \<noteq> 0 then t\<lparr>world := sys_lseek_set sys fd part_ofs (world t)\<rparr> else t) in
       if \<not> sys_malloc sys (u64_of_int (erasesize t)) then Some (Ret (- 1), t)
       else andthen (mtd_dump_loop sys fd 0 sz t) (\<lambda>ret t.
         Some (Ret ret, t\<lparr>world := sys_close sys fd (world t)\<rparr>)))
   }"

text \<open>
  \<^verbatim>\<open>mtd_verify\<close>. The digest of \<^verbatim>\<open>libubox\<close> is the parameter \<open>md5\<close>, \<open>md5sum\<close> its digest of a file. The loop
  yields the bytes it hashed, or the error.
\<close>

partial_function (option) mtd_verify_loop ::
    "'w mtd_sys \<Rightarrow> int \<Rightarrow> nat \<Rightarrow> byte list \<Rightarrow> 'w tool \<Rightarrow> ((int + byte list) \<times> 'w tool) option" where [code]:
  "mtd_verify_loop sys fd sz acc t =
     (case on_sys (sys_read sys fd (min sz 256)) t of
        (Inl err, t) \<Rightarrow>
          if err = EINTR then (if sz > 0 then mtd_verify_loop sys fd sz acc t else Some (Inr acc, t))
          else Some (Inl (- 1), t)
      | (Inr bs, t) \<Rightarrow>
          if bs = [] then Some (Inr acc, t)
          else if length bs > min sz 256 then None
          else (let sz' = sz - length bs in
            if sz' > 0 then mtd_verify_loop sys fd sz' (acc @ bs) t else Some (Inr (acc @ bs), t)))"

definition mtd_verify ::
    "'w mtd_sys \<Rightarrow> (byte list \<Rightarrow> byte list) \<Rightarrow> (string \<Rightarrow> 'w \<Rightarrow> byte list option) \<Rightarrow> string \<Rightarrow> string \<Rightarrow> 'w tool \<Rightarrow>
       (int \<times> 'w tool) option" where
  "mtd_verify sys md5 md5sum mtd file t =
     (case (sys_stat sys file (world t), md5sum file (world t)) of
        (Some st, Some f_md5) \<Rightarrow> do {
          (fd, t) \<leftarrow> mtd_check_open sys mtd t;
          if fd < 0 then Some (- 1, t)
          else do {
            (r, t) \<leftarrow> mtd_verify_loop sys fd (st_size st) [] t;
            Some (case r of Inl err \<Rightarrow> err | Inr bs \<Rightarrow> if md5 bs = f_md5 then 0 else 1,
              t\<lparr>world := sys_close sys fd (world t)\<rparr>)
          }
        }
      | _ \<Rightarrow> Some (- 1, t))"

section \<open>Writing\<close>

text \<open>The variables of \<^verbatim>\<open>mtd_write\<close> that live across the iterations of its loop.\<close>

record locals =
  lo_fd :: int
  lo_mtd :: string
  lo_next :: "string option"
  lo_w :: int
  lo_e :: int
  lo_skip :: int
  lo_offset :: nat
  lo_raw :: int
  lo_jffs2_replaced :: bool
  lo_skip_bad_blocks :: int

text \<open>How an iteration ends: with the next one, with the next device (\<^verbatim>\<open>goto resume\<close>), or with the loop.\<close>

datatype iteration = Continue locals | Resume locals | Break locals

text \<open>Filling the buffer from the image.\<close>

partial_function (option) fill_buffer :: "'w mtd_sys \<Rightarrow> int \<Rightarrow> 'w writer \<Rightarrow> 'w writer option" where [code]:
  "fill_buffer sys imagefd s =
     (if wr_buflen s < wes s
      then do {
        (r, s) \<leftarrow> read_image sys imagefd (wes s - wr_buflen s) s;
        case r of
          Inl err \<Rightarrow> if err = EINTR \<or> err = EAGAIN then fill_buffer sys imagefd s else Some s
        | Inr n \<Rightarrow> if n = 0 then Some s else fill_buffer sys imagefd s
      }
      else Some s)"

text \<open>Erasing the blocks that will be written: whether it succeeded, and the new values of \<^verbatim>\<open>e\<close> and \<^verbatim>\<open>skip_bad_blocks\<close>.\<close>

partial_function (option) erase_ahead ::
    "'w mtd_sys \<Rightarrow> int \<Rightarrow> int \<Rightarrow> int \<Rightarrow> int \<Rightarrow> int \<Rightarrow> 'w tool \<Rightarrow> ((bool \<times> int \<times> int) outcome \<times> 'w tool) option" where [code]:
  "erase_ahead sys fd part_ofs goal e skip_bad t =
     (if goal > e - skip_bad
      then do {
        (r, t) \<leftarrow> mtd_block_is_bad sys fd (int_of e) t;
        case r of
          Exit c \<Rightarrow> Some (Exit c, t)
        | Ret bad \<Rightarrow>
            if bad \<noteq> 0
            then erase_ahead sys fd part_ofs goal (e + erasesize t) (skip_bad + erasesize t)
                   (t\<lparr>world := sys_lseek_cur sys fd (erasesize t) (world t)\<rparr>)
            else (case mtd_erase_block sys fd (int_of (e + part_ofs)) t of (err, t) \<Rightarrow>
                if err < 0 then Some (Ret (False, e, skip_bad), t)
                else erase_ahead sys fd part_ofs goal (e + erasesize t) skip_bad t)
      }
      else Some (Ret (True, e, skip_bad), t))"

definition clear_buffer :: "'w writer \<Rightarrow> 'w writer" where
  "clear_buffer s = s\<lparr>wr_buflen := 0\<rparr>"

text \<open>The end of an iteration: the block is written.\<close>

definition write_block :: "'w mtd_sys \<Rightarrow> locals \<Rightarrow> 'w writer \<Rightarrow> (iteration, 'w) wrun" where
  "write_block sys l s = do {
     buf \<leftarrow> wr_buf s;
     bs \<leftarrow> mem_read buf (lo_offset l) (nat (wr_buflen s));
     case on_sys (sys_write sys (lo_fd l) bs) (wtool s) of (result, t) \<Rightarrow>
       (let s = set_tool t s in
        if result < wr_buflen s then Some (Exit 1, s)
        else Some (Ret (Continue (l\<lparr>lo_w := lo_w l + wr_buflen s, lo_raw := 0, lo_offset := 0\<rparr>)), clear_buffer s))
   }"

text \<open>
  A failed erasure: if there is another device, the part of the block that fits is written and the next
  device takes the rest.
\<close>

definition erase_failed :: "'w mtd_sys \<Rightarrow> locals \<Rightarrow> 'w writer \<Rightarrow> (iteration, 'w) wrun" where
  "erase_failed sys l s =
     (if lo_next l = None then Some (Exit 1, s)
      else do {
        (l, t) \<leftarrow>
          (if lo_w l < lo_e l
           then do {
             buf \<leftarrow> wr_buf s;
             bs \<leftarrow> mem_read buf (lo_offset l) (nat (lo_e l - lo_w l));
             Some (l\<lparr>lo_offset := u32_of_int (lo_e l - lo_w l)\<rparr>, snd (on_sys (sys_write sys (lo_fd l) bs) (wtool s)))
           }
           else Some (l, wtool s));
        let t = t\<lparr>world := sys_close sys (lo_fd l) (world t)\<rparr>;
        Some (Ret (Resume (l\<lparr>lo_w := 0, lo_e := 0\<rparr>)), set_tool t s)
      })"

definition erase_and_write :: "'w mtd_sys \<Rightarrow> settings \<Rightarrow> int \<Rightarrow> locals \<Rightarrow> 'w writer \<Rightarrow> (iteration, 'w) wrun" where
  "erase_and_write sys su part_ofs l s =
     (if su_no_erase su then write_block sys l s
      else andthen (on_tool (erase_ahead sys (lo_fd l) part_ofs (lo_w l + wr_buflen s) (lo_e l) (lo_skip_bad_blocks l)) s)
        (\<lambda>(ok, e, skip_bad) s.
          let l = l\<lparr>lo_e := e, lo_skip_bad_blocks := skip_bad\<rparr> in
          if ok then write_block sys l s else erase_failed sys l s))"

text \<open>
  The body of the loop once the buffer holds a block: blocks that the appended file replaces are
  skipped, and the end marker of the file system is where the file is appended.
\<close>

definition write_filled :: "'w mtd_sys \<Rightarrow> settings \<Rightarrow> int \<Rightarrow> locals \<Rightarrow> 'w writer \<Rightarrow> (iteration, 'w) wrun" where
  "write_filled sys su part_ofs l s =
     (if lo_skip l > 0
      then Some (Ret (Continue (l\<lparr>lo_skip := lo_skip l - wr_buflen s, lo_raw := 0\<rparr>)), clear_buffer s)
      else case wr_jffs2file s of
          Some file \<Rightarrow>
            if lo_w l \<ge> su_jffs2_skip_bytes su
            then do {
              buf \<leftarrow> wr_buf s;
              mark \<leftarrow> mem_read buf 0 (length JFFS2_EOF);
              if mark = JFFS2_EOF
              then andthen (on_j (mtd_replace_jffs2 sys (lo_fd l) (int_of (lo_e l)) file) s) (\<lambda>skip s.
                Some (Ret (Continue (l\<lparr>lo_skip := skip - wr_buflen s, lo_jffs2_replaced := True,
                    lo_w := lo_w l + skip, lo_e := lo_e l + skip, lo_raw := 0, lo_offset := 0\<rparr>)),
                  clear_buffer (s\<lparr>wr_jffs2file := None\<rparr>)))
              else do {
                j \<leftarrow> mtd_parse_jffs2data buf (str_bytes (su_jffs2dir su)) 0 (wr_j s);
                erase_and_write sys su part_ofs l (s\<lparr>wr_j := j\<rparr>)
              }
            }
            else erase_and_write sys su part_ofs l s
        | None \<Rightarrow> erase_and_write sys su part_ofs l s)"

definition write_step :: "'w mtd_sys \<Rightarrow> settings \<Rightarrow> int \<Rightarrow> int \<Rightarrow> locals \<Rightarrow> 'w writer \<Rightarrow> (iteration, 'w) wrun" where
  "write_step sys su imagefd part_ofs l s = do {
     s \<leftarrow> fill_buffer sys imagefd s;
     let l = (if lo_raw l = 0 then l\<lparr>lo_raw := wr_buflen s\<rparr> else l);
     if wr_buflen s = 0 then Some (Ret (Break l), s)
     else do {
       s \<leftarrow> (if wr_buflen s < wes s
             then do {
               buf \<leftarrow> wr_buf s;
               buf \<leftarrow> mem_write buf (nat (wr_buflen s)) (replicate (nat (wes s - wr_buflen s)) 0xff);
               Some (s\<lparr>wr_buf := Some buf, wr_buflen := wes s\<rparr>)
             }
             else Some s);
       write_filled sys su part_ofs l s
     }
   }"

text \<open>Opening a device, at \<^verbatim>\<open>resume\<close>.\<close>

definition write_flag :: "'w mtd_sys \<Rightarrow> settings \<Rightarrow> bool \<Rightarrow> 'w writer \<Rightarrow> (unit, 'w) wrun" where
  "write_flag sys su active s =
     (case su_tpl_uboot_args_part su of
        Some part \<Rightarrow>
          if su_tpl su
          then andthen (on_tool_ret (mtd_tpl_recoverflag_write sys part active) s) (\<lambda>result s.
            if result < 0 then Some (Exit 1, s) else Some (Ret (), s))
          else Some (Ret (), s)
      | None \<Rightarrow> Some (Ret (), s))"

definition write_open :: "'w mtd_sys \<Rightarrow> settings \<Rightarrow> int \<Rightarrow> string \<Rightarrow> locals \<Rightarrow> 'w writer \<Rightarrow> (locals, 'w) wrun" where
  "write_open sys su part_ofs names l s =
     (case split_colon names of (mtd, next_mtd) \<Rightarrow>
       andthen (on_tool_ret (mtd_check_open sys mtd) s) (\<lambda>fd s.
         if fd < 0 then Some (Exit 1, s)
         else (let s = (if part_ofs > 0
                   then set_tool ((wtool s)\<lparr>world := sys_lseek_set sys fd part_ofs (world (wtool s))\<rparr>) s else s) in
           andthen (write_flag sys su True s) (\<lambda>_ s.
             Some (Ret (l\<lparr>lo_fd := fd, lo_mtd := mtd, lo_next := next_mtd, lo_w := 0, lo_e := 0\<rparr>), s)))))"

partial_function (option) write_loop ::
    "'w mtd_sys \<Rightarrow> settings \<Rightarrow> int \<Rightarrow> int \<Rightarrow> locals \<Rightarrow> 'w writer \<Rightarrow> (locals outcome \<times> 'w writer) option" where [code]:
  "write_loop sys su imagefd part_ofs l s = do {
     (r, s) \<leftarrow> write_step sys su imagefd part_ofs l s;
     case r of
       Exit c \<Rightarrow> Some (Exit c, s)
     | Ret (Continue l) \<Rightarrow> write_loop sys su imagefd part_ofs l s
     | Ret (Break l) \<Rightarrow> Some (Ret l, s)
     | Ret (Resume l) \<Rightarrow> do {
         (r, s) \<leftarrow> write_open sys su part_ofs (case lo_next l of None \<Rightarrow> [] | Some rest \<Rightarrow> rest) l s;
         case r of
           Exit c \<Rightarrow> Some (Exit c, s)
         | Ret l \<Rightarrow> write_loop sys su imagefd part_ofs l s
       }
   }"

text \<open>After a file was appended, the header is brought up to date.\<close>

definition write_fixup :: "'w mtd_sys \<Rightarrow> settings \<Rightarrow> locals \<Rightarrow> 'w writer \<Rightarrow> (unit, 'w) wrun" where
  "write_fixup sys su l s =
     (let quit = (\<lambda>_ s. Some (Ret (), s)) in
      if \<not> lo_jffs2_replaced l then Some (Ret (), s)
      else case wr_imageformat s of
          MTD_IMAGE_FORMAT_TRX \<Rightarrow>
            if su_trx su then andthen (on_tool_ret (trx_fixup sys (lo_fd l) (lo_mtd l)) s) quit else Some (Ret (), s)
        | MTD_IMAGE_FORMAT_SEAMA \<Rightarrow>
            if su_seama su then andthen (on_tool (mtd_fixseama sys (lo_mtd l) 0 0) s) quit else Some (Ret (), s)
        | MTD_IMAGE_FORMAT_WRG \<Rightarrow>
            if su_wrg su then andthen (on_tool (mtd_fixwrg sys (lo_mtd l) 0 0) s) quit else Some (Ret (), s)
        | MTD_IMAGE_FORMAT_WRGG03 \<Rightarrow>
            if su_wrgg su then andthen (on_tool (mtd_fixwrgg sys (lo_mtd l) 0 0) s) quit else Some (Ret (), s)
        | MTD_IMAGE_FORMAT_UNKNOWN \<Rightarrow> Some (Ret (), s))"

definition locals_init :: locals where
  "locals_init = \<lparr>lo_fd = 0, lo_mtd = [], lo_next = None, lo_w = 0, lo_e = 0, lo_skip = 0, lo_offset = 0, lo_raw = 0,
     lo_jffs2_replaced = False, lo_skip_bad_blocks = 0\<rparr>"

definition mtd_write :: "'w mtd_sys \<Rightarrow> settings \<Rightarrow> int \<Rightarrow> string \<Rightarrow> nat \<Rightarrow> 'w writer \<Rightarrow> (int, 'w) wrun" where
  "mtd_write sys su imagefd mtd part_ofs s =
     andthen (write_open sys su (int part_ofs) mtd locals_init s) (\<lambda>l s.
     andthen (write_loop sys su imagefd (int part_ofs) l s) (\<lambda>l s.
     andthen (write_fixup sys su l s) (\<lambda>_ s.
       let s = set_tool ((wtool s)\<lparr>world := sys_close sys (lo_fd l) (world (wtool s))\<rparr>) s in
       andthen (write_flag sys su False s) (\<lambda>_ s. Some (Ret 0, s)))))"

section \<open>Running a command\<close>

text \<open>
  \<^verbatim>\<open>main\<close> after its arguments are parsed. A command whose function is not part of the program has been
  rejected by then. The results of the commands are not used; the program ends with 0, after a reboot
  if one was asked for.
\<close>

datatype command =
    CMD_ERASE
  | CMD_WRITE
  | CMD_UNLOCK
  | CMD_JFFS2WRITE
  | CMD_FIXTRX
  | CMD_FIXSEAMA
  | CMD_FIXWRG
  | CMD_FIXWRGG
  | CMD_VERIFY
  | CMD_DUMP
  | CMD_RESETBC

record arguments =
  a_cmd :: command
  a_device :: string
  a_imagefile :: string
  a_erase :: "string list"
  a_force :: bool
  a_offset :: nat
  a_data_size :: nat
  a_part_offset :: nat
  a_dump_len :: nat

text \<open>What is checked before anything is erased or written; it yields the descriptor of the image.\<close>

definition check_command :: "'w mtd_sys \<Rightarrow> settings \<Rightarrow> arguments \<Rightarrow> 'w writer \<Rightarrow> (int, 'w) wrun" where
  "check_command sys su a s =
     (if a_cmd a = CMD_WRITE
      then (case (if a_imagefile a = ''-'' then (0, wtool s) else on_sys (sys_open_rd sys (a_imagefile a)) (wtool s)) of (imagefd, t) \<Rightarrow>
        if imagefd < 0 then Some (Exit 1, set_tool t s)
        else do {
          (ok, s) \<leftarrow> mtd_check sys (a_device a) (set_tool t s);
          if ok = 0 then Some (Exit 1, s)
          else andthen (image_check sys su imagefd (a_device a) s) (\<lambda>ret s.
            if ret = 0 \<and> \<not> a_force a then Some (Exit 1, s) else Some (Ret imagefd, s))
        })
      else if a_cmd a = CMD_JFFS2WRITE
      then do {
        (ok, s) \<leftarrow> mtd_check sys (a_device a) s;
        if ok = 0 then Some (Exit 1, s) else Some (Ret 0, s)
      }
      else Some (Ret 0, s))"

text \<open>The devices of the option \<^verbatim>\<open>-e\<close>; whether the device of the command is one of them.\<close>

fun erase_devices :: "'w mtd_sys \<Rightarrow> string \<Rightarrow> string list \<Rightarrow> bool \<Rightarrow> 'w writer \<Rightarrow> (bool, 'w) wrun" where
  "erase_devices sys device [] unlocked s = Some (Ret unlocked, s)"
| "erase_devices sys device (d # ds) unlocked s =
     andthen (on_tool (mtd_unlock sys d) s) (\<lambda>_ s.
     andthen (on_tool (mtd_erase sys d) s) (\<lambda>_.
     erase_devices sys device ds (unlocked \<or> d = device)))"

definition run_command ::
    "'w mtd_sys \<Rightarrow> settings \<Rightarrow> (byte list \<Rightarrow> byte list) \<Rightarrow> (string \<Rightarrow> 'w \<Rightarrow> byte list option) \<Rightarrow> arguments \<Rightarrow> int \<Rightarrow> bool \<Rightarrow>
       'w writer \<Rightarrow> (int, 'w) wrun" where
  "run_command sys su md5 md5sum a imagefd unlocked s =
     (let device = a_device a;
          unlock = (\<lambda>s. if unlocked then Some (Ret 0, s) else on_tool (mtd_unlock sys device) s) in
      case a_cmd a of
        CMD_UNLOCK \<Rightarrow> unlock s
      | CMD_VERIFY \<Rightarrow> on_tool_ret (mtd_verify sys md5 md5sum device (a_imagefile a)) s
      | CMD_DUMP \<Rightarrow> on_tool (mtd_dump sys device (int_of (int (a_offset a))) (int_of (int (a_dump_len a)))) s
      | CMD_ERASE \<Rightarrow> andthen (unlock s) (\<lambda>_. on_tool (mtd_erase sys device))
      | CMD_WRITE \<Rightarrow> andthen (unlock s) (\<lambda>_. mtd_write sys su imagefd device (a_part_offset a))
      | CMD_JFFS2WRITE \<Rightarrow>
          andthen (unlock s) (\<lambda>_. on_j (mtd_write_jffs2 sys (su_trx su) device (a_imagefile a) (su_jffs2dir su)))
      | CMD_FIXTRX \<Rightarrow> if su_trx su then on_tool (mtd_fixtrx sys device (a_offset a) (a_data_size a)) s else Some (Ret 0, s)
      | CMD_RESETBC \<Rightarrow> if su_resetbc su then on_tool_ret (mtd_resetbc sys device) s else Some (Ret 0, s)
      | CMD_FIXSEAMA \<Rightarrow> if su_seama su then on_tool (mtd_fixseama sys device 0 (a_data_size a)) s else Some (Ret 0, s)
      | CMD_FIXWRG \<Rightarrow> if su_wrg su then on_tool (mtd_fixwrg sys device 0 (a_data_size a)) s else Some (Ret 0, s)
      | CMD_FIXWRGG \<Rightarrow> if su_wrgg su then on_tool (mtd_fixwrgg sys device 0 (a_data_size a)) s else Some (Ret 0, s))"

definition main_commands ::
    "'w mtd_sys \<Rightarrow> settings \<Rightarrow> (byte list \<Rightarrow> byte list) \<Rightarrow> (string \<Rightarrow> 'w \<Rightarrow> byte list option) \<Rightarrow> arguments \<Rightarrow>
       'w writer \<Rightarrow> (int, 'w) wrun" where
  "main_commands sys su md5 md5sum a s =
     andthen (check_command sys su a s) (\<lambda>imagefd s.
     andthen (erase_devices sys (a_device a) (a_erase a) False s) (\<lambda>unlocked s.
     andthen (run_command sys su md5 md5sum a imagefd unlocked s) (\<lambda>_ s. Some (Ret 0, s))))"

end
