(* ===== verification/Mtdtool_Image.thy ===== *)
theory Mtdtool_Image
  imports Mtdtool_Write
begin

text \<open>
  What the commands that transfer images do: writing puts the image on the good blocks, dumping reads
  it back from there, and erasing erases the good blocks. The interface \<open>mtd_stream\<close> adds to
  \<open>mtd_chardev\<close> the file position of the device, the image file and the standard output.
\<close>

section \<open>The interface\<close>

locale mtd_stream = mtd_chardev sys isdev flash info bad
  for sys :: "'w mtd_sys" and isdev flash info bad +
  fixes pos :: "'w \<Rightarrow> nat" and img :: "'w \<Rightarrow> byte list" and imagefd :: int and out :: "'w \<Rightarrow> byte list"
  assumes size_blocks: "miu_erasesize info dvd miu_size info"
    and bad_range: "isdev fd \<Longrightarrow> miu_size info \<le> off \<Longrightarrow> fst (sys_MEMGETBADBLOCK sys fd (int off) w) < 0"
    and open_stream: "sys_open sys path w = (fd, w') \<Longrightarrow> img w' = img w \<and> out w' = out w \<and> (0 \<le> fd \<longrightarrow> pos w' = 0)"
    and close_stream: "img (sys_close sys fd w) = img w" "out (sys_close sys fd w) = out w"
    and bad_stream: "sys_MEMGETBADBLOCK sys fd iofs w = (r, w') \<Longrightarrow> pos w' = pos w \<and> img w' = img w \<and> out w' = out w"
    and unlock_stream: "sys_MEMUNLOCK sys fd start n w = (r, w') \<Longrightarrow> pos w' = pos w \<and> img w' = img w \<and> out w' = out w"
    and erase_stream: "sys_MEMERASE sys fd start n w = (r, w') \<Longrightarrow> pos w' = pos w \<and> img w' = img w \<and> out w' = out w"
    and seek_cur: "isdev fd \<Longrightarrow> w' = sys_lseek_cur sys fd (int n) w \<Longrightarrow>
      flash w' = flash w \<and> img w' = img w \<and> out w' = out w \<and> pos w' = pos w + n"
    and read_dev: "isdev fd \<Longrightarrow> sys_read sys fd n w = (res, w') \<Longrightarrow> flash w' = flash w \<and> img w' = img w \<and> out w' = out w \<and>
      (\<forall>bs. res = Inr bs \<longrightarrow> bs = take n (drop (pos w) (flash w)) \<and> pos w' = pos w + length bs) \<and>
      res \<noteq> Inl EINTR"
    and write_dev: "isdev fd \<Longrightarrow> sys_write sys fd bs w = (r, w') \<Longrightarrow> img w' = img w \<and> out w' = out w \<and>
      r \<le> int (length bs) \<and> same_outside (pos w) (length bs) (flash w) (flash w') \<and>
      (r = int (length bs) \<longrightarrow> pos w + length bs \<le> miu_size info \<and> pos w' = pos w + length bs \<and>
         flash w' = patch (flash w) (pos w) (map2 (AND) bs (take (length bs) (drop (pos w) (flash w)))))"
    and read_file: "sys_read sys imagefd n w = (res, w') \<Longrightarrow> flash w' = flash w \<and> pos w' = pos w \<and> out w' = out w \<and>
      (\<exists>bs. res = Inr bs \<and> length bs \<le> n \<and> img w = bs @ img w' \<and> (bs = [] \<longrightarrow> n = 0 \<or> img w = []))"
    and write_out: "sys_write sys 1 bs w = (r, w') \<Longrightarrow> flash w' = flash w \<and> pos w' = pos w \<and> img w' = img w \<and> out w' = out w @ bs"

section \<open>Opening\<close>

lemma split_colon_single: "CHR '':'' \<notin> set mtd \<Longrightarrow> split_colon mtd = (mtd, None)"
  by (induction mtd) auto

text \<open>What every call of \<^verbatim>\<open>open\<close> keeps, the search for the device keeps.\<close>

lemma open_scan_keeps:
  assumes "\<And>path w fd w'. sys_open sys path w = (fd, w') \<Longrightarrow> I w \<Longrightarrow> I w' \<and> (0 \<le> fd \<longrightarrow> J w')"
    and "mtd_open_scan sys mtd block lines t = Some (fd, t')" and "I (world t)"
  shows "I (world t') \<and> (0 \<le> fd \<longrightarrow> J (world t'))"
  using assms(2,3)
proof (induction lines)
  case Nil
  then show ?case using assms(1) by (fastforce split: prod.splits)
next
  case (Cons line lines)
  obtain n where n: "scan_mtd line = Some n"
    using Cons.prems(1) by (cases "scan_mtd line") auto
  show ?case
  proof (cases "\<exists>i. n = Some i \<and> strstr line (''\"'' @ mtd @ ''\"'')")
    case False
    then have "mtd_open_scan sys mtd block (line # lines) t = mtd_open_scan sys mtd block lines t"
      by (cases n) (simp_all add: n)
    then show ?thesis using Cons by simp
  next
    case True
    then obtain i where i: "n = Some i" "strstr line (''\"'' @ mtd @ ''\"'')" by blast
    define pfx where "pfx = ''/dev/mtd'' @ (if block then ''block'' else [])"
    obtain fd1 w1 where 1: "sys_open sys (pfx @ ''/'' @ show_int i) (world t) = (fd1, w1)" by fastforce
    obtain fd2 w2 where 2: "sys_open sys (pfx @ show_int i) w1 = (fd2, w2)" by fastforce
    have "mtd_open_scan sys mtd block (line # lines) t =
        (if fd1 < 0 then Some (fd2, t\<lparr>world := w2\<rparr>) else Some (fd1, t\<lparr>world := w1\<rparr>))"
      using i(2) unfolding mtd_open_scan.simps n i(1) pfx_def [symmetric] Let_def by (simp add: 1 [simplified] 2)
    then show ?thesis
      using Cons.prems assms(1) [OF 1 Cons.prems(2)] assms(1) [OF 2] by (auto split: if_splits)
  qed
qed

section \<open>Blocks of an image\<close>

text \<open>A list of bytes filled up to a multiple of \<open>n\<close> with bytes of erased flash.\<close>

definition fill_up :: "nat \<Rightarrow> byte list \<Rightarrow> byte list" where
  "fill_up n bs = bs @ replicate ((n - length bs mod n) mod n) 0xFF"

lemma fill_up_block: "length bs \<le> n \<Longrightarrow> bs \<noteq> [] \<Longrightarrow> fill_up n bs = bs @ replicate (n - length bs) 0xFF"
  by (cases "length bs = n") (simp_all add: fill_up_def)

lemma fill_up_step:
  assumes "bs \<noteq> []" and "0 < n"
  shows "fill_up n bs = fill_up n (take n bs) @ fill_up n (drop n bs)"
proof (cases "length bs < n")
  case True
  then show ?thesis by (simp add: fill_up_def)
next
  case False
  then show ?thesis
    by (simp add: fill_up_def min_absorb2 le_mod_geq not_less)
qed

lemma dvd_length_fill_up: "0 < n \<Longrightarrow> n dvd length (fill_up n bs)"
proof -
  assume "0 < n"
  have "(length bs + (n - length bs mod n) mod n) mod n = (length bs mod n + (n - length bs mod n)) mod n"
    by (simp only: mod_add_right_eq mod_add_left_eq)
  also have "\<dots> = 0" using mod_less_divisor [OF \<open>0 < n\<close>, of "length bs"] by simp
  finally show ?thesis by (simp add: fill_up_def mod_eq_0_iff_dvd)
qed

lemma good_bytes_same:
  assumes "\<And>i. off \<le> i \<Longrightarrow> i < off + n \<Longrightarrow> fl' ! i = fl ! i"
  shows "good_bytes info bad fl' off n = good_bytes info bad fl off n"
  using assms by (auto simp: good_bytes_def)

section \<open>Filling the buffer\<close>

lemma wtool_simps [simp]:
  "wtool (set_tool t s) = t" "wr_buf (set_tool t s) = wr_buf s" "wr_buflen (set_tool t s) = wr_buflen s"
  "wr_imageformat (set_tool t s) = wr_imageformat s" "wr_jffs2file (set_tool t s) = wr_jffs2file s"
  "wtool (s\<lparr>wr_buf := b\<rparr>) = wtool s" "wtool (s\<lparr>wr_buflen := n\<rparr>) = wtool s" "wtool (s\<lparr>wr_jffs2file := f\<rparr>) = wtool s"
  by (simp_all add: wtool_def set_tool_def)

text \<open>Good blocks can be erased.\<close>

definition erase_works :: "'w mtd_sys \<Rightarrow> (int \<Rightarrow> bool) \<Rightarrow> mtd_info_user \<Rightarrow> (nat \<Rightarrow> bool) \<Rightarrow> bool" where
  "erase_works sys isdev info bad \<longleftrightarrow> (\<forall>fd off w. isdev fd \<longrightarrow> miu_erasesize info dvd off \<longrightarrow>
     off + miu_erasesize info \<le> miu_size info \<longrightarrow> \<not> (miu_type info = MTD_NANDFLASH \<and> bad off) \<longrightarrow>
     0 \<le> fst (sys_MEMERASE sys fd off (miu_erasesize info) w))"

text \<open>From \<open>start\<close> on, the good blocks are erased and the bad ones as before.\<close>

definition erased_from :: "mtd_info_user \<Rightarrow> (nat \<Rightarrow> bool) \<Rightarrow> nat \<Rightarrow> byte list \<Rightarrow> byte list \<Rightarrow> bool" where
  "erased_from info bad start fl fl' \<longleftrightarrow> length fl' = length fl \<and> (\<forall>i < length fl. fl' ! i =
     (if start \<le> i \<and> \<not> (miu_type info = MTD_NANDFLASH \<and> bad (i div miu_erasesize info * miu_erasesize info))
      then 0xFF else fl ! i))"

context mtd_stream
begin

text \<open>\<open>holds s rest\<close>: the buffer and the image file hold the data \<open>rest\<close>.\<close>

definition holds :: "'w writer \<Rightarrow> byte list \<Rightarrow> bool" where
  "holds s rest \<longleftrightarrow> (\<exists>buf. wr_buf s = Some buf \<and> length buf = es \<and> 0 \<le> wr_buflen s \<and> wr_buflen s \<le> int es \<and>
     rest = take (nat (wr_buflen s)) buf @ img (world (wtool s)))"

lemma fill_buffer_ok:
  assumes "opened (wtool s)" and "holds s rest"
  shows "ensures (fill_buffer sys imagefd s) (\<lambda>s'. opened (wtool s') \<and> holds s' rest \<and>
    wr_buflen s' = int (min es (length rest)) \<and> wr_jffs2file s' = wr_jffs2file s \<and>
    flash (world (wtool s')) = flash (world (wtool s)) \<and> pos (world (wtool s')) = pos (world (wtool s)) \<and>
    out (world (wtool s')) = out (world (wtool s)))"
  using assms
proof (induction "nat (int es - wr_buflen s)" arbitrary: s rule: less_induct)
  case less
  obtain buf where buf: "wr_buf s = Some buf" "length buf = es" "0 \<le> wr_buflen s" "wr_buflen s \<le> int es"
      and rest: "rest = take (nat (wr_buflen s)) buf @ img (world (wtool s))"
    using less.prems(2) by (auto simp: holds_def)
  have e: "wes s = int es" using less.prems(1) by (simp add: tool_opened_def)
  show ?case
  proof (cases "wr_buflen s < int es")
    case False
    then show ?thesis
      using buf rest less.prems by (subst fill_buffer.simps) (simp add: e)
  next
    case True
    define n where "n = nat (int es - wr_buflen s)"
    have n: "u64_of_int (int es - wr_buflen s) = n" "0 < n" "nat (wr_buflen s) + n = es"
      using True buf(3) es_less by (simp_all add: u64_of_int_def n_def)
    obtain res w where rd': "sys_read sys imagefd n (world (wtool s)) = (res, w)" by fastforce
    from read_file [OF rd'] n(2) obtain bs where res: "res = Inr bs"
        and w: "flash w = flash (world (wtool s))" "pos w = pos (world (wtool s))" "out w = out (world (wtool s))"
          "length bs \<le> n" "img (world (wtool s)) = bs @ img w" "bs = [] \<longrightarrow> img (world (wtool s)) = []"
      by blast
    note rd = rd' [unfolded res]
    let ?buf = "patch buf (nat (wr_buflen s)) bs"
    let ?s = "(set_tool ((wtool s)\<lparr>world := w\<rparr>) s)\<lparr>wr_buf := Some ?buf, wr_buflen := wr_buflen s + int (length bs)\<rparr>"
    have mw: "mem_write buf (nat (wr_buflen s)) bs = Some ?buf"
      using w(4) n(3) buf(2) by (intro mem_write_patch) simp
    have step: "read_image sys imagefd (int es - wr_buflen s) s = Some (Inr (length bs), ?s)"
      by (simp add: read_image_def on_sys_def n(1) rd buf(1) mw)
    have tk: "take (nat (wr_buflen s) + length bs) ?buf = take (nat (wr_buflen s)) buf @ bs"
      using w(4) n(3) buf(2) by (cases "bs = []") (auto simp: patch_def)
    have hold: "holds ?s rest"
      using w(4,5) n(3) buf tk rest by (auto simp: holds_def nat_add_distrib)
    have op: "opened (wtool ?s)" using less.prems(1) by (simp add: tool_opened_def)
    show ?thesis
    proof (cases "bs = []")
      case True
      then have "length rest = nat (wr_buflen s)"
        using w(6) rest buf by simp
      then have "wr_buflen ?s = int (min es (length rest))"
        using buf(3,4) True by simp
      moreover have "fill_buffer sys imagefd s = Some ?s"
        using True \<open>wr_buflen s < int es\<close> by (subst fill_buffer.simps) (simp add: e step)
      ultimately show ?thesis
        using hold op w by simp
    next
      case False
      have "ensures (fill_buffer sys imagefd ?s) (\<lambda>s'. opened (wtool s') \<and> holds s' rest \<and>
          wr_buflen s' = int (min es (length rest)) \<and> wr_jffs2file s' = wr_jffs2file ?s \<and>
          flash (world (wtool s')) = flash (world (wtool ?s)) \<and> pos (world (wtool s')) = pos (world (wtool ?s)) \<and>
          out (world (wtool s')) = out (world (wtool ?s)))"
        using False True by (intro less.hyps [OF _ op hold]) simp
      then show ?thesis
        using False True w by (subst fill_buffer.simps) (simp add: e step)
    qed
  qed
qed

section \<open>Erasing ahead\<close>

lemma is_bad_stream:
  assumes "isdev fd" and "opened t"
  shows "ensures (mtd_block_is_bad sys fd (int off) t) (\<lambda>(r, t'). opened t' \<and> flash (world t') = flash (world t) \<and>
    pos (world t') = pos (world t) \<and> img (world t') = img (world t) \<and> out (world t') = out (world t) \<and>
    (r = Exit 1 \<or> (\<exists>b. r = Ret b \<and> (b \<noteq> 0 \<longleftrightarrow> miu_type info = MTD_NANDFLASH \<and> bad off) \<and> (b \<noteq> 0 \<longrightarrow> off < miu_size info))))"
proof -
  obtain r w where 1: "sys_MEMGETBADBLOCK sys fd (int off) (world t) = (r, w)"
    by fastforce
  show ?thesis
    using get_bad [OF assms(1) 1] bad_stream [OF 1] bad_range [OF assms(1), of off "world t"] assms(2)
    by (auto simp: mtd_block_is_bad_def 1 tool_opened_def exit1_def not_le [symmetric])
qed

lemma erase_block_stream:
  assumes "isdev fd" and "opened t" and "off < 2 ^ 31" and "mtd_erase_block sys fd (int off) t = (r, t')"
  shows "opened t' \<and> pos (world t') = pos (world t) \<and> img (world t') = img (world t) \<and> out (world t') = out (world t) \<and>
    (r = - 1 \<or> r = 0 \<and> off + es \<le> miu_size info \<and> flash (world t') = patch (flash (world t)) off (replicate es 0xFF))"
proof -
  have u: "u32_of_int (int off) = off" "u32_of_int (erasesize t) = es"
    using assms(2,3) es_less by (simp_all add: tool_opened_def u32_of_int_nonneg)
  obtain r1 w1 where 1: "sys_MEMUNLOCK sys fd off es (world t) = (r1, w1)"
    by fastforce
  obtain r2 w2 where 2: "sys_MEMERASE sys fd off es w1 = (r2, w2)"
    by fastforce
  have "r = (if r2 < 0 then - 1 else 0)" and "t' = t\<lparr>world := w2\<rparr>"
    using assms(4) by (simp_all add: mtd_erase_block_def Let_def u 1 2)
  then show ?thesis
    using erase_block_ok [OF assms] unlock_stream [OF 1] erase_stream [OF 2] by (simp split: if_splits)
qed

lemma int_of_id: "off < 2 ^ 31 \<Longrightarrow> int_of (int off) = int off"
  by (simp add: int_of_def u32_of_int_nonneg s32_id)

lemma block_room: "es dvd e \<Longrightarrow> e < miu_size info \<Longrightarrow> e + es \<le> miu_size info"
proof -
  assume "es dvd e" "e < miu_size info"
  then obtain a b where "e = es * a" "miu_size info = es * b" "a < b"
    using size_blocks es_pos by (auto elim!: dvdE)
  then show ?thesis
    using mult_le_mono2 [of "Suc a" b es] by simp
qed

abbreviation good_block :: "nat \<Rightarrow> bool" where
  "good_block b \<equiv> \<not> (miu_type info = MTD_NANDFLASH \<and> bad b)"

text \<open>Between \<open>e\<close> and \<open>b\<close> all blocks are bad.\<close>

definition skipped :: "nat \<Rightarrow> nat \<Rightarrow> bool" where
  "skipped e b \<longleftrightarrow> (\<forall>fl. length fl = miu_size info \<longrightarrow> good_bytes info bad fl e (b - e) = [])"

lemma good_bytes_block:
  assumes "es dvd e" and "e + es \<le> length fl"
  shows "good_bytes info bad fl e es = (if good_block e then take es (drop e fl) else [])"
  using good_bytes_chunk [of e info es fl bad] assms by auto

lemma skipped_block:
  assumes "es dvd e" and "\<not> good_block e" and "e + es \<le> b" and "skipped (e + es) b" and "b \<le> miu_size info"
  shows "skipped e b"
  using assms good_bytes_split [of es "b - e" info bad _ e] good_bytes_block [OF assms(1)]
  by (fastforce simp: skipped_def)

definition erased_next :: "nat \<Rightarrow> nat \<Rightarrow> 'w tool \<Rightarrow> bool \<times> int \<times> int \<Rightarrow> 'w tool \<Rightarrow> bool" where
  "erased_next e w t res t' \<longleftrightarrow> (\<exists>b. e \<le> b \<and> b + es \<le> miu_size info \<and> es dvd b \<and> skipped e b \<and> good_block b \<and>
     res = (True, int (b + es), int b - int w) \<and> pos (world t') = b \<and>
     flash (world t') = patch (flash (world t)) b (replicate es 0xFF))"

lemma erase_ahead_ok:
  assumes "isdev fd" and "opened t" and "es dvd e" and "e \<le> miu_size info" and "pos (world t) = e"
  shows "ensures (erase_ahead sys fd 0 (int w + int es) (int e) (int e - int w) t) (\<lambda>(r, t').
    opened t' \<and> img (world t') = img (world t) \<and> out (world t') = out (world t) \<and>
    (r = Exit 1 \<or> (\<exists>e' sk. r = Ret (False, e', sk)) \<or> (\<exists>res. r = Ret res \<and> erased_next e w t res t')))"
  using assms(2-5)
proof (induction "miu_size info - e" arbitrary: e t rule: less_induct)
  case (less e t)
  have e31: "e < 2 ^ 31" using less.prems(3) size_less by simp
  have est: "erasesize t = int es" using less.prems(1) by (simp add: tool_opened_def)
  have go: "int w + int es > int e - (int e - int w)" using es_pos by simp
  obtain r t1 where isb: "mtd_block_is_bad sys fd (int e) t = Some (r, t1)"
      and t1: "opened t1" "flash (world t1) = flash (world t)" "pos (world t1) = e" "img (world t1) = img (world t)"
        "out (world t1) = out (world t)"
      and r: "r = Exit 1 \<or> (\<exists>b. r = Ret b \<and> (b \<noteq> 0 \<longleftrightarrow> \<not> good_block e) \<and> (b \<noteq> 0 \<longrightarrow> e < miu_size info))"
    using is_bad_stream [OF assms(1) less.prems(1), of e] less.prems(4) by (auto simp: ensures_iff)
  have est1: "erasesize t1 = int es" using t1(1) by (simp add: tool_opened_def)
  consider "r = Exit 1" | b where "r = Ret b" "b \<noteq> 0" "\<not> good_block e" "e < miu_size info" | "r = Ret 0" "good_block e"
    using r by blast
  then show ?case
  proof cases
    case 1
    then show ?thesis
      using go t1 by (subst erase_ahead.simps) (simp add: int_of_id [OF e31] isb)
  next
    case (2 b)
    let ?t2 = "t1\<lparr>world := sys_lseek_cur sys fd (int es) (world t1)\<rparr>"
    note sk = seek_cur [OF assms(1) refl, of es "world t1"]
    have room: "e + es \<le> miu_size info" by (rule block_room [OF less.prems(2) 2(4)])
    have "ensures (erase_ahead sys fd 0 (int w + int es) (int (e + es)) (int (e + es) - int w) ?t2) (\<lambda>(r, t').
        opened t' \<and> img (world t') = img (world ?t2) \<and> out (world t') = out (world ?t2) \<and>
        (r = Exit 1 \<or> (\<exists>e' sk. r = Ret (False, e', sk)) \<or> (\<exists>res. r = Ret res \<and> erased_next (e + es) w ?t2 res t')))"
      by (rule less.hyps) (use room es_pos t1 sk less.prems(2) 2(4) in \<open>auto simp: tool_opened_def\<close>)
    moreover have "erased_next e w t res t'" if "erased_next (e + es) w ?t2 res t'" for res t'
      using that sk t1 skipped_block [OF less.prems(2) 2(3)] by (auto simp: erased_next_def)
    moreover have "erase_ahead sys fd 0 (int w + int es) (int e) (int e - int w) t =
        erase_ahead sys fd 0 (int w + int es) (int (e + es)) (int (e + es) - int w) ?t2"
      using go 2 by (subst erase_ahead.simps) (simp add: int_of_id [OF e31] isb est1 algebra_simps)
    ultimately show ?thesis
      using sk t1 by (auto simp: ensures_iff)
  next
    case 3
    obtain err t2 where er: "mtd_erase_block sys fd (int e) t1 = (err, t2)" by fastforce
    note er' = erase_block_stream [OF assms(1) t1(1) e31 er]
    have "erased_next e w t (True, int (e + es), int e - int w) t2" if "err = 0"
      using er' that 3 less.prems(2) t1 by (auto simp: erased_next_def skipped_def good_bytes_def intro!: exI [of _ e])
    moreover have "erase_ahead sys fd 0 (int w + int es) (int e) (int e - int w) t =
        Some (if err < 0 then Ret (False, int e, int e - int w) else Ret (True, int (e + es), int e - int w), t2)"
      using go 3 er' by (subst erase_ahead.simps)
        (auto simp: int_of_id [OF e31] isb er tool_opened_def erase_ahead.simps [of sys fd 0 _ "int e + int es"])
    ultimately show ?thesis
      using er' t1 by (cases "err = 0") (simp_all add: ex_bool_eq)
  qed
qed

section \<open>Writing\<close>

text \<open>
  The state at the head of the loop: the bytes \<open>P\<close> are on the good blocks up to the file position, the
  bytes \<open>rest\<close> remain, and nothing behind the file position has changed.
\<close>

definition writing :: "byte list \<Rightarrow> byte list \<Rightarrow> byte list \<Rightarrow> locals \<Rightarrow> 'w writer \<Rightarrow> bool" where
  "writing fl0 P rest l s \<longleftrightarrow> isdev (lo_fd l) \<and> opened (wtool s) \<and> holds s rest \<and> wr_jffs2file s = None \<and>
     lo_next l = None \<and> lo_skip l = 0 \<and> lo_offset l = 0 \<and> \<not> lo_jffs2_replaced l \<and>
     (\<exists>e. es dvd e \<and> e \<le> miu_size info \<and> lo_e l = int e \<and> lo_w l = int (length P) \<and>
        lo_skip_bad_blocks l = int e - int (length P) \<and> pos (world (wtool s)) = e \<and>
        good_bytes info bad (flash (world (wtool s))) 0 e = P \<and> same_outside 0 e fl0 (flash (world (wtool s))))"

lemma holds_block:
  assumes "holds s rest" and "wr_buflen s = int (min es (length rest))" and "rest \<noteq> []" and "wes s = int es"
  shows "(if wr_buflen s < wes s
      then do {
        buf \<leftarrow> wr_buf s;
        buf \<leftarrow> mem_write buf (nat (wr_buflen s)) (replicate (nat (wes s - wr_buflen s)) 0xff);
        Some (s\<lparr>wr_buf := Some buf, wr_buflen := wes s\<rparr>)
      }
      else Some s) = Some (s\<lparr>wr_buf := Some (fill_up es (take es rest)), wr_buflen := int es\<rparr>)"
    and "img (world (wtool s)) = drop es rest" and "length (fill_up es (take es rest)) = es"
proof -
  obtain buf where buf: "wr_buf s = Some buf" "length buf = es"
      and rest: "rest = take (min es (length rest)) buf @ img (world (wtool s))"
    using assms(1,2) by (auto simp: holds_def)
  have img: "img (world (wtool s)) = drop es rest"
    using arg_cong [OF rest, of "drop (min es (length rest))"] buf(2) by (auto simp: min_def split: if_splits)
  have tk: "take (min es (length rest)) buf = take es rest"
    using arg_cong [OF rest, of "take (min es (length rest))"] buf(2) by (simp add: min_def split: if_splits)
  have ne: "take es rest \<noteq> []" using assms(3) es_pos by simp
  have fill: "fill_up es (take es rest) = take es rest @ replicate (es - min es (length rest)) 0xFF"
    using fill_up_block [OF _ ne, of es] by (simp add: min.commute)
  show "length (fill_up es (take es rest)) = es"
    unfolding fill by simp
  show "img (world (wtool s)) = drop es rest"
    by (rule img)
  show "(if wr_buflen s < wes s
      then do {
        buf \<leftarrow> wr_buf s;
        buf \<leftarrow> mem_write buf (nat (wr_buflen s)) (replicate (nat (wes s - wr_buflen s)) 0xff);
        Some (s\<lparr>wr_buf := Some buf, wr_buflen := wes s\<rparr>)
      }
      else Some s) = Some (s\<lparr>wr_buf := Some (fill_up es (take es rest)), wr_buflen := int es\<rparr>)"
  proof (cases "length rest < es")
    case True
    then show ?thesis
      using buf assms(2,4) tk fill by (simp add: mem_write_def nat_diff_distrib' min_def)
  next
    case False
    then have "buf = fill_up es (take es rest)"
      using tk fill buf(2) by (simp add: min_def)
    then show ?thesis
      using False buf(1) assms(2,4) by (simp add: min_def)
  qed
qed

text \<open>Writing the block over the erased one.\<close>

lemma write_block_ok:
  assumes "isdev (lo_fd l)" and "opened (wtool s)" and "wr_buf s = Some blk" and "length blk = es" and "wr_buflen s = int es"
    and "lo_offset l = 0" and "pos (world (wtool s)) = b" and "flash (world (wtool s)) = patch fl b (replicate es 0xFF)"
    and "length fl = miu_size info"
  shows "ensures (write_block sys l s) (\<lambda>(r, s'). r = Exit 1 \<or>
    r = Ret (Continue (l\<lparr>lo_w := lo_w l + int es, lo_raw := 0, lo_offset := 0\<rparr>)) \<and> wr_buf s' = wr_buf s \<and> wr_buflen s' = 0 \<and>
    wr_jffs2file s' = wr_jffs2file s \<and> opened (wtool s') \<and> img (world (wtool s')) = img (world (wtool s)) \<and>
    out (world (wtool s')) = out (world (wtool s)) \<and> pos (world (wtool s')) = b + es \<and> flash (world (wtool s')) = patch fl b blk)"
proof -
  obtain r w where wr: "sys_write sys (lo_fd l) blk (world (wtool s)) = (r, w)" by fastforce
  note wr' = write_dev [OF assms(1) wr]
  have "flash w = patch fl b blk" if "r = int es"
  proof -
    have room: "b + es \<le> length fl" using wr' that assms(4,7,9) by simp
    have ones: "take es (drop b (flash (world (wtool s)))) = replicate (length blk) 0xFF"
      using slice_patch_same [of b "replicate es 0xFF" fl es] room assms(4,8) by simp
    show ?thesis
      using wr' that assms(4,7,8) ones map2_and_ones [of blk] patch_patch [of "replicate es 0xFF" blk b fl] room by simp
  qed
  moreover have "mem_read blk 0 es = Some blk" using assms(4) by (simp add: mem_read_def)
  ultimately show ?thesis
    using wr' assms by (auto simp: write_block_def on_sys_def wr clear_buffer_def tool_opened_def Let_def)
qed

lemma good_bytes_append_block:
  assumes "length fl = miu_size info" and "e0 \<le> e" and "e \<le> b" and "b + es \<le> miu_size info" and "es dvd b" and "skipped e b"
    and "good_block b" and "length blk = es"
  shows "good_bytes info bad (patch fl b blk) e0 (b + es - e0) = good_bytes info bad fl e0 (e - e0) @ blk"
proof -
  let ?fl = "patch fl b blk"
  have len: "length ?fl = miu_size info" using assms by simp
  have "good_bytes info bad ?fl e0 (b + es - e0) =
      good_bytes info bad ?fl e0 (e - e0) @ good_bytes info bad ?fl e (b - e) @ good_bytes info bad ?fl b es"
    using good_bytes_split [of "e - e0" "b + es - e0" info bad ?fl e0] good_bytes_split [of "b - e" "b + es - e" info bad ?fl e] assms(2,3)
    by simp
  moreover have "good_bytes info bad ?fl e (b - e) = []"
    using assms(6) len by (simp add: skipped_def)
  moreover have "good_bytes info bad ?fl b es = blk"
    using good_bytes_block [OF assms(5), of ?fl] assms(1,4,7,8) slice_patch_same [of b blk fl es] by simp
  moreover have "good_bytes info bad ?fl e0 (e - e0) = good_bytes info bad fl e0 (e - e0)"
    by (rule good_bytes_same) (use assms in \<open>auto simp: nth_patch\<close>)
  ultimately show ?thesis by simp
qed

lemma erase_and_write_ok:
  assumes "\<not> su_no_erase su" and "writing fl0 P rest l s0" and "flash (world (wtool s)) = flash (world (wtool s0))"
    and "pos (world (wtool s)) = pos (world (wtool s0))" and "opened (wtool s)" and "wr_jffs2file s = None"
    and "wr_buf s = Some blk" and "length blk = es" and "wr_buflen s = int es"
  shows "ensures (erase_and_write sys su 0 l s) (\<lambda>(r, s'). r = Exit 1 \<or>
    (\<exists>l'. r = Ret (Continue l') \<and> writing fl0 (P @ blk) (img (world (wtool s))) l' s'))"
proof -
  obtain e where e: "es dvd e" "e \<le> miu_size info" "lo_e l = int e" "lo_w l = int (length P)"
      "lo_skip_bad_blocks l = int e - int (length P)" "pos (world (wtool s)) = e"
      "good_bytes info bad (flash (world (wtool s))) 0 e = P" "same_outside 0 e fl0 (flash (world (wtool s)))"
      and l: "isdev (lo_fd l)" "lo_next l = None" "lo_skip l = 0" "lo_offset l = 0" "\<not> lo_jffs2_replaced l"
    using assms(2-4) by (auto simp: writing_def)
  let ?fl = "flash (world (wtool s))"
  have len: "length ?fl = miu_size info" by (rule flash_size)
  show ?thesis
    unfolding erase_and_write_def e(3-5) assms(9) on_tool_def
  proof (simp only: assms(1) if_False, rule ensures_andthen [where P = "\<lambda>(r, s'). \<exists>t'. s' = set_tool t' s \<and>
        opened t' \<and> img (world t') = img (world (wtool s)) \<and> out (world t') = out (world (wtool s)) \<and>
        (r = Exit 1 \<or> (\<exists>e' sk. r = Ret (False, e', sk)) \<or> (\<exists>res. r = Ret res \<and> erased_next e (length P) (wtool s) res t'))"], goal_cases)
    case 1
    then show ?case
      using erase_ahead_ok [OF l(1) assms(5) e(1,2,6), of "length P"] by (fastforce simp: ensures_iff)
  next
    case (2 c s')
    then show ?case by auto
  next
    case (3 res s')
    then obtain t' where s': "s' = set_tool t' s" and t': "opened t'" "img (world t') = img (world (wtool s))"
        and res: "(\<exists>e' sk. res = (False, e', sk)) \<or> erased_next e (length P) (wtool s) res t'"
      by auto
    show ?case
    proof (cases "\<exists>e' sk. res = (False, e', sk)")
      case True
      then show ?thesis using l(2) by (auto simp: erase_failed_def)
    next
      case False
      then obtain b where b: "e \<le> b" "b + es \<le> miu_size info" "es dvd b" "skipped e b" "good_block b"
          "res = (True, int (b + es), int b - int (length P))" "pos (world t') = b"
          "flash (world t') = patch ?fl b (replicate es 0xFF)"
        using res unfolding erased_next_def by blast
      let ?l = "l\<lparr>lo_e := int (b + es), lo_skip_bad_blocks := int b - int (length P)\<rparr>"
      have good: "good_bytes info bad (patch ?fl b blk) 0 (b + es) = P @ blk"
        using good_bytes_append_block [OF len zero_le b(1-5) assms(8)] e(7) by simp
      have outside: "same_outside 0 (b + es) fl0 (patch ?fl b blk)"
        using e(8) len b(1,2) assms(8) by (auto simp: same_outside_def nth_patch)
      have "ensures (write_block sys ?l s') (\<lambda>(r, s''). r = Exit 1 \<or>
          r = Ret (Continue (?l\<lparr>lo_w := lo_w ?l + int es, lo_raw := 0, lo_offset := 0\<rparr>)) \<and> wr_buf s'' = wr_buf s' \<and>
          wr_buflen s'' = 0 \<and> wr_jffs2file s'' = wr_jffs2file s' \<and> opened (wtool s'') \<and>
          img (world (wtool s'')) = img (world (wtool s')) \<and> out (world (wtool s'')) = out (world (wtool s')) \<and>
          pos (world (wtool s'')) = b + es \<and> flash (world (wtool s'')) = patch ?fl b blk)"
        by (rule write_block_ok) (use l t' b assms len s' in auto)
      then have "ensures (write_block sys ?l s') (\<lambda>(r, s''). r = Exit 1 \<or>
          (\<exists>l'. r = Ret (Continue l') \<and> writing fl0 (P @ blk) (img (world (wtool s))) l' s''))"
        by (rule ensures_mono)
          (use l t' b good outside assms e(4) s' in \<open>auto simp: writing_def holds_def intro!: exI [of _ "b + es"]\<close>)
      then show ?thesis
        by (simp add: b(6))
    qed
  qed
qed

lemma write_step_ok:
  assumes "\<not> su_no_erase su" and "writing fl0 P rest l s"
  shows "ensures (write_step sys su imagefd 0 l s) (\<lambda>(r, s'). r = Exit 1 \<or>
    (\<exists>l'. rest = [] \<and> r = Ret (Break l') \<and> writing fl0 P [] l' s') \<or>
    (\<exists>l'. rest \<noteq> [] \<and> r = Ret (Continue l') \<and> writing fl0 (P @ fill_up es (take es rest)) (drop es rest) l' s'))"
  unfolding write_step_def
proof (rule ensures_bindI [OF fill_buffer_ok [of s rest]], goal_cases)
  case 1 show ?case using assms(2) by (simp add: writing_def)
next
  case 2 show ?case using assms(2) by (simp add: writing_def)
next
  case (3 s1)
  let ?l = "if lo_raw l = 0 then l\<lparr>lo_raw := wr_buflen s1\<rparr> else l"
  have w1: "writing fl0 P rest ?l s1"
    using 3 assms(2) by (auto simp: writing_def)
  have e: "wes s1 = int es" using 3 by (simp add: tool_opened_def)
  show ?case
  proof (cases "rest = []")
    case True
    then have "wr_buflen s1 = 0" using 3 by simp
    then show ?thesis using w1 True by (simp add: Let_def)
  next
    case False
    then have n0: "wr_buflen s1 \<noteq> 0" using 3 es_pos by (simp add: min_def)
    let ?blk = "fill_up es (take es rest)"
    let ?s2 = "s1\<lparr>wr_buf := Some ?blk, wr_buflen := int es\<rparr>"
    note block = holds_block [of s1 rest, OF _ _ False e]
    have "ensures (erase_and_write sys su 0 ?l ?s2) (\<lambda>(r, s'). r = Exit 1 \<or>
        (\<exists>l'. r = Ret (Continue l') \<and> writing fl0 (P @ ?blk) (img (world (wtool ?s2))) l' s'))"
      by (rule erase_and_write_ok [OF assms(1) w1]) (use 3 block(3) w1 in \<open>simp_all add: writing_def\<close>)
    moreover have "write_filled sys su 0 ?l ?s2 = erase_and_write sys su 0 ?l ?s2"
      using w1 by (simp add: write_filled_def writing_def)
    ultimately show ?thesis
      using block 3 n0 False by (auto simp: Let_def ensures_iff)
  qed
qed

lemma write_loop_ok:
  assumes "\<not> su_no_erase su" and "writing fl0 P rest l s"
  shows "ensures (write_loop sys su imagefd 0 l s) (\<lambda>(r, s'). r = Exit 1 \<or>
    (\<exists>l'. r = Ret l' \<and> writing fl0 (P @ fill_up es rest) [] l' s'))"
  using assms(2)
proof (induction "length rest" arbitrary: P rest l s rule: less_induct)
  case less
  note step = write_step_ok [OF assms(1) less.prems]
  have IH: "ensures (write_loop sys su imagefd 0 l' s') (\<lambda>(r, s''). r = Exit 1 \<or>
      (\<exists>l''. r = Ret l'' \<and> writing fl0 (P @ fill_up es rest) [] l'' s''))"
    if "rest \<noteq> []" "writing fl0 (P @ fill_up es (take es rest)) (drop es rest) l' s'" for l' s'
    using less.hyps [OF _ that(2)] that(1) es_pos fill_up_step [OF that(1) es_pos] by simp
  have nil: "fill_up es [] = []" by (simp add: fill_up_def)
  show ?case
    using step IH nil by (subst write_loop.simps) (fastforce simp: ensures_iff)
qed

lemma check_open_stream:
  "ensures (mtd_check_open sys mtd t) (\<lambda>(fd, t'). flash (world t') = flash (world t) \<and> img (world t') = img (world t) \<and>
     out (world t') = out (world t) \<and> (0 \<le> fd \<longrightarrow> isdev fd \<and> opened t' \<and> pos (world t') = 0))"
proof -
  let ?I = "\<lambda>w. img w = img (world t) \<and> out w = out (world t)"
  have scan: "?I (world t') \<and> (0 \<le> fd \<longrightarrow> pos (world t') = 0)" if "mtd_open_scan sys mtd False lines t = Some (fd, t')" for fd t' lines
    by (rule open_scan_keeps [OF _ that]) (auto dest: open_stream)
  show ?thesis
  proof -
    obtain fd t' where r: "mtd_check_open sys mtd t = Some (fd, t')"
        and ok: "flash (world t') = flash (world t)" "0 \<le> fd \<longrightarrow> isdev fd \<and> opened t'"
      using check_open_ok [of mtd t] by (auto simp: ensures_iff)
    from r obtain fd1 t1 where 1: "mtd_open sys mtd False t = Some (fd1, t1)"
      by (cases "mtd_open sys mtd False t") (auto simp: mtd_check_open_def)
    have "?I (world t') \<and> (0 \<le> fd \<longrightarrow> pos (world t') = 0)"
      using r scan [OF 1 [unfolded mtd_open_def]]
      by (cases "sys_MEMGETINFO sys fd1 (world t1)") (auto simp: mtd_check_open_def 1 close_stream split: if_splits)
    then show ?thesis using r ok by simp
  qed
qed

lemma mtd_write_ok:
  assumes "\<not> su_no_erase su" and "su_tpl_uboot_args_part su = None" and "CHR '':'' \<notin> set mtd" and "wr_jffs2file s = None"
    and "holds s rest"
  shows "ensures (mtd_write sys su imagefd mtd 0 s) (\<lambda>(r, s'). r = Exit 1 \<or>
    r = Ret 0 \<and> (\<exists>e \<le> miu_size info. es dvd e \<and> good_bytes info bad (flash (world (wtool s'))) 0 e = fill_up es rest \<and>
      same_outside 0 e (flash (world (wtool s))) (flash (world (wtool s')))))"
  unfolding mtd_write_def
proof (simp only: semiring_1_class.of_nat_0, rule ensures_andthen [where P = "\<lambda>(r, s'). r = Exit 1 \<or> (\<exists>l. r = Ret l \<and> writing (flash (world (wtool s))) [] rest l s')"],
    goal_cases)
  case 1
  let ?Q = "\<lambda>(fd, t'). flash (world t') = flash (world (wtool s)) \<and> img (world t') = img (world (wtool s)) \<and>
     out (world t') = out (world (wtool s)) \<and> (0 \<le> fd \<longrightarrow> isdev fd \<and> opened t' \<and> pos (world t') = 0)"
  have "ensures (mtd_check_open sys mtd (wtool s)) ?Q"
    by (rule check_open_stream)
  then obtain fd t' where "mtd_check_open sys mtd (wtool s) = Some (fd, t')" "?Q (fd, t')"
    by (auto simp: ensures_iff)
  then show ?case
    using assms(4,5)
    by (auto simp: write_open_def split_colon_single [OF assms(3)] on_tool_ret_def andthen_def write_flag_def assms(2)
        locals_init_def writing_def holds_def good_bytes_def)
next
  case (2 c s1)
  then show ?case by auto
next
  case (3 l s1)
  then have w: "writing (flash (world (wtool s))) [] rest l s1" by simp
  show ?case
  proof (rule ensures_andthen [OF write_loop_ok [OF assms(1) w]], goal_cases)
    case (1 c s2)
    then show ?case by auto
  next
    case (2 l2 s2)
    then have w2: "writing (flash (world (wtool s))) (fill_up es rest) [] l2 s2" by simp
    then show ?case
      by (auto simp: write_fixup_def writing_def andthen_def write_flag_def assms(2) close_dev)
  qed
qed

section \<open>Dumping\<close>

lemma dump_loop_ok:
  assumes "isdev fd" and "opened t" and "es dvd p" and "p \<le> miu_size info" and "pos (world t) = p" and "es dvd n" and "0 < n"
  shows "ensures (mtd_dump_loop sys fd (int p) (int n) t) (\<lambda>(r, t'). flash (world t') = flash (world t) \<and>
    (r = Exit 1 \<or> r = Ret (- 1) \<or>
     r = Ret 0 \<and> out (world t') = out (world t) @ take n (good_bytes info bad (flash (world t)) p (miu_size info - p))))"
  using assms(2-)
proof (induction "miu_size info - p" arbitrary: p n t rule: less_induct)
  case (less p n t)
  let ?fl = "flash (world t)"
  have es_n: "es \<le> n" using less.prems(5,6) by (rule dvd_imp_le)
  have len: "(if int n > erasesize t then erasesize t else int n) = int es" "u64_of_int (int es) = es"
    using es_n less.prems(1) es_less by (auto simp: tool_opened_def u64_of_int_def)
  obtain res w where rd: "sys_read sys fd es (world t) = (res, w)" by fastforce
  note rd' = read_dev [OF assms(1) rd]
  let ?t1 = "t\<lparr>world := w\<rparr>"
  have op1: "opened ?t1" using less.prems(1) by (simp add: tool_opened_def)
  show ?case
  proof (cases "(\<exists>err. res = Inl err) \<or> p = miu_size info")
    case True
    then show ?thesis
      using rd' less.prems(4) flash_size [of "world t"]
      by (cases res; subst mtd_dump_loop.simps) (auto simp: len on_sys_def rd good_bytes_def Let_def)
  next
    case False
    then have room: "p + es \<le> miu_size info" using block_room less.prems(2,3) by simp
    define blk where "blk = take es (drop p ?fl)"
    have blk: "length blk = es" "blk \<noteq> []"
      using room flash_size [of "world t"] es_pos by (auto simp: blk_def)
    have res: "res = Inr blk" "pos w = p + es" "flash w = ?fl" "out w = out (world t)"
      using False rd' less.prems(4) blk(1) by (cases res; simp add: blk_def)+
    obtain r t2 where isb: "mtd_block_is_bad sys fd (int p) ?t1 = Some (r, t2)"
        and t2: "opened t2" "flash (world t2) = ?fl" "pos (world t2) = p + es" "out (world t2) = out (world t)"
        and r: "r = Exit 1 \<or> (\<exists>b. r = Ret b \<and> (b \<noteq> 0 \<longleftrightarrow> \<not> good_block p))"
      using is_bad_stream [OF assms(1) op1, of p] res by (auto simp: ensures_iff)
    have good: "good_bytes info bad ?fl p (miu_size info - p) =
        (if good_block p then blk else []) @ good_bytes info bad ?fl (p + es) (miu_size info - (p + es))"
      using good_bytes_split [of es "miu_size info - p" info bad ?fl p] good_bytes_block [OF less.prems(2), of ?fl] room
      by (simp add: flash_size blk_def)
    obtain r3 w3 where wr: "sys_write sys 1 blk (world t2) = (r3, w3)" by fastforce
    let ?t3 = "t2\<lparr>world := w3\<rparr>"
    have t3: "opened ?t3" "flash w3 = ?fl" "pos w3 = p + es" "out w3 = out (world t) @ blk"
      using write_out [OF wr] t2 by (simp_all add: tool_opened_def)
    have IH: "ensures (mtd_dump_loop sys fd (int (p + es)) (int m) t') (\<lambda>(r, t''). flash (world t'') = ?fl \<and>
        (r = Exit 1 \<or> r = Ret (- 1) \<or> r = Ret 0 \<and>
         out (world t'') = out (world t') @ take m (good_bytes info bad ?fl (p + es) (miu_size info - (p + es)))))"
      if "opened t'" "flash (world t') = ?fl" "pos (world t') = p + es" "es dvd m" "0 < m" for m t'
      using less.hyps [of "p + es" t' m, OF _ that(1) _ room that(3-5)] that(2) less.prems(2) room es_pos by simp
    have step: "mtd_dump_loop sys fd (int p) (int n) t =
        (case r of Exit c \<Rightarrow> Some (Exit c, t2)
         | Ret b \<Rightarrow> if b \<noteq> 0 then mtd_dump_loop sys fd (int (p + es)) (int n) t2
             else if n = es then Some (Ret 0, ?t3) else mtd_dump_loop sys fd (int (p + es)) (int (n - es)) ?t3)"
      using es_n blk less.prems(6)
      by (subst mtd_dump_loop.simps) (auto simp: len on_sys_def rd res(1) isb wr Let_def split: outcome.split)
    consider "r = Exit 1" | b where "r = Ret b" "b \<noteq> 0" "\<not> good_block p" | "r = Ret 0" "good_block p"
      using r by blast
    then show ?thesis
    proof cases
      case 1
      then show ?thesis using t2(2) by (simp add: step)
    next
      case (2 b)
      then show ?thesis
        using IH [OF t2(1-3) less.prems(5,6)] t2(4) good by (simp add: step)
    next
      case 3
      show ?thesis
      proof (cases "n = es")
        case True
        then show ?thesis using 3 t3 good blk(1) unfolding step by simp
      next
        case False
        then have "es dvd n - es" "0 < n - es"
          using es_n less.prems(5) by (simp_all add: dvd_diff_nat)
        with IH [of ?t3 "n - es"] show ?thesis
          using 3 False t3 good blk(1) es_n by (simp add: step)
      qed
    qed
  qed
qed

lemma dump_ok:
  assumes "es dvd n" and "0 < miu_size info"
  shows "ensures (mtd_dump sys mtd 0 (int n) t) (\<lambda>(r, t'). flash (world t') = flash (world t) \<and>
    (r = Exit 1 \<or> r = Ret (- 1) \<or>
     r = Ret 0 \<and> out (world t') = out (world t) @
       take (if n = 0 then miu_size info else n) (good_bytes info bad (flash (world t)) 0 (miu_size info))))"
  unfolding mtd_dump_def
proof (rule ensures_bindI [OF check_open_stream], goal_cases)
  case (1 x)
  obtain fd t1 where x: "x = (fd, t1)" by (cases x)
  define m where "m = (if n = 0 then miu_size info else n)"
  have sz: "(if int n = 0 then mtdsize t1 else int n) = int m" if "opened t1"
    using that by (simp add: m_def tool_opened_def)
  have m: "es dvd m" "0 < m" using assms size_blocks by (auto simp: m_def)
  show ?case
  proof (cases "fd < 0 \<or> \<not> sys_malloc sys (u64_of_int (erasesize t1))")
    case True
    then show ?thesis using 1 by (auto simp: x)
  next
    case False
    then have "ensures (mtd_dump_loop sys fd (int 0) (int m) t1) (\<lambda>(r, t'). flash (world t') = flash (world t1) \<and>
      (r = Exit 1 \<or> r = Ret (- 1) \<or> r = Ret 0 \<and>
       out (world t') = out (world t1) @ take m (good_bytes info bad (flash (world t1)) 0 (miu_size info - 0))))"
      by (intro dump_loop_ok) (use 1 m in \<open>auto simp: x\<close>)
    then show ?thesis
      using False 1 sz
      by (auto simp: x Let_def andthen_def ensures_iff close_dev close_stream m_def [symmetric])
  qed
qed

section \<open>Erasing\<close>

lemma erase_loop_ok:
  assumes "isdev fd" and "erase_works sys isdev info bad" and "opened t" and "es dvd start" and "start \<le> miu_size info"
  shows "ensures (mtd_erase_loop sys fd start t) (\<lambda>(r, t'). r = Exit 1 \<or>
    r = Ret () \<and> erased_from info bad start (flash (world t)) (flash (world t')))"
  using assms(3-)
proof (induction "miu_size info - start" arbitrary: start t rule: less_induct)
  case (less start t)
  let ?fl = "flash (world t)"
  have u: "u32_of_int (mtdsize t) = miu_size info" "u32_of_int (erasesize t) = es" "s32 start = int start"
    using less.prems size_less es_less by (simp_all add: tool_opened_def u32_of_int_nonneg s32_id)
  show ?case
  proof (cases "start = miu_size info")
    case True
    then show ?thesis
      by (subst mtd_erase_loop.simps) (auto simp: u erased_from_def flash_size)
  next
    case False
    then have room: "start + es \<le> miu_size info" using block_room less.prems(2,3) by simp
    have u32: "u32 (start + es) = start + es" using room size_less by simp
    obtain r t1 where isb: "mtd_block_is_bad sys fd (int start) t = Some (r, t1)"
        and t1: "opened t1" "flash (world t1) = ?fl"
        and r: "r = Exit 1 \<or> (\<exists>b. r = Ret b \<and> (b \<noteq> 0 \<longleftrightarrow> \<not> good_block start))"
      using is_bad_stream [OF assms(1) less.prems(1), of start] by (auto simp: ensures_iff)
    have u1: "u32_of_int (erasesize t1) = es" using t1(1) es_less by (simp add: tool_opened_def u32_of_int_nonneg)
    obtain r2 w2 where un: "sys_MEMUNLOCK sys fd start es (world t1) = (r2, w2)" by fastforce
    obtain r3 w3 where er: "sys_MEMERASE sys fd start es w2 = (r3, w3)" by fastforce
    let ?t3 = "t1\<lparr>world := w3\<rparr>"
    have op3: "opened ?t3" using t1(1) by (simp add: tool_opened_def)
    have fl3: "flash w3 = patch ?fl start (replicate es 0xFF)" if "good_block start"
      using erase [OF assms(1) er] unlock [OF un] t1(2) assms(1,2) that less.prems(2) room er
      unfolding erase_works_def by (metis fst_conv)
    have bl: "i div es * es = start" if "start \<le> i" "i < start + es" for i
    proof -
      obtain k where k: "start = es * k" using less.prems(2) by (elim dvdE)
      have "i div es = k" using that by (intro div_nat_eqI) (auto simp: k algebra_simps)
      then show ?thesis by (simp add: k)
    qed
    have bad_next: "erased_from info bad start ?fl fl'" if "erased_from info bad (start + es) ?fl fl'" "\<not> good_block start" for fl'
      unfolding erased_from_def
    proof (intro conjI allI impI)
      show "length fl' = length ?fl" using that(1) by (simp add: erased_from_def)
      fix i assume "i < length ?fl"
      then show "fl' ! i = (if start \<le> i \<and> good_block (i div es * es) then 0xFF else ?fl ! i)"
        using that bl [of i] by (cases "start \<le> i \<and> i < start + es") (auto simp: erased_from_def)
    qed
    have good_next: "erased_from info bad start ?fl fl'"
      if "erased_from info bad (start + es) (patch ?fl start (replicate es 0xFF)) fl'" "good_block start" for fl'
      using that bl room unfolding erased_from_def by (auto simp: nth_patch flash_size)
    have IH: "ensures (mtd_erase_loop sys fd (start + es) t') (\<lambda>(r, t''). r = Exit 1 \<or>
        r = Ret () \<and> erased_from info bad (start + es) (flash (world t')) (flash (world t'')))" if "opened t'" for t'
      using less.hyps [of "start + es" t', OF _ that _ room] less.prems(2) room es_pos by simp
    have step: "mtd_erase_loop sys fd start t =
        (case r of Exit c \<Rightarrow> Some (Exit c, t1)
         | Ret b \<Rightarrow> mtd_erase_loop sys fd (start + es) (if b \<noteq> 0 then t1 else ?t3))"
      using False room es_pos by (subst mtd_erase_loop.simps) (auto simp: u u1 u32 isb un er Let_def split: outcome.split)
    consider "r = Exit 1" | b where "r = Ret b" "b \<noteq> 0" "\<not> good_block start" | "r = Ret 0" "good_block start"
      using r by blast
    then show ?thesis
    proof cases
      case (2 b)
      then show ?thesis
        unfolding step by (auto intro!: ensures_mono [OF IH [OF t1(1)]] bad_next simp: t1(2))
    next
      case 3
      then show ?thesis
        unfolding step by (auto intro!: ensures_mono [OF IH [OF op3]] good_next simp: fl3)
    qed (simp add: step)
  qed
qed

lemma erase_ok:
  assumes "erase_works sys isdev info bad"
  shows "ensures (mtd_erase sys mtd t) (\<lambda>(r, t'). r = Exit 1 \<or>
    r = Ret 0 \<and> erased_from info bad 0 (flash (world t)) (flash (world t')))"
  unfolding mtd_erase_def
proof (rule ensures_bindI [OF check_open_stream], goal_cases)
  case (1 x)
  then show ?case
    using erase_loop_ok [OF _ assms, of "fst x" "snd x" 0]
    by (cases x) (auto simp: exit1_def andthen_def ensures_iff close_dev)
qed

end

end
