(* ===== verification/Mtdtool_Append.thy ===== *)
theory Mtdtool_Append
  imports Mtdtool_Image
begin

text \<open>
  What \<^verbatim>\<open>jffs2.c\<close> puts on flash: the nodes of the appended file, one erase block after the other, as a
  reader of the file system finds them when it walks over the nodes of each block.
\<close>

section \<open>Nodes in a block\<close>

text \<open>The walk over the nodes of a block: each node announces its length and starts at a multiple of 4.\<close>

definition node_room :: "nat \<Rightarrow> nat" where
  "node_room n = (n + 3) div 4 * 4"

function walk_nodes :: "byte list \<Rightarrow> byte list list" where
  "walk_nodes bs =
     (if length bs < 12 \<or> u16_at bs 0 \<noteq> JFFS2_MAGIC_BITMASK \<or> u32_at bs 4 = 0 then []
      else take (u32_at bs 4) bs # walk_nodes (drop (node_room (u32_at bs 4)) bs))"
  by auto
termination
  by (relation "measure length") (auto simp: node_room_def)

declare walk_nodes.simps [simp del]

definition node_wf :: "byte list \<Rightarrow> bool" where
  "node_wf n \<longleftrightarrow> 12 \<le> length n \<and> u16_at n 0 = JFFS2_MAGIC_BITMASK \<and> u32_at n 4 = length n"

definition node_padded :: "byte list \<Rightarrow> byte list" where
  "node_padded n = n @ replicate (node_room (length n) - length n) 0xFF"

definition flat :: "byte list list \<Rightarrow> byte list" where
  "flat ns = concat (map node_padded ns)"

lemma node_room_ge: "n \<le> node_room n"
  by (simp add: node_room_def)

lemma length_node_padded [simp]: "length (node_padded n) = node_room (length n)"
  using node_room_ge [of "length n"] by (simp add: node_padded_def)

lemma flat_simps [simp]: "flat [] = []" "flat (n # ns) = node_padded n @ flat ns" "flat (ns @ ms) = flat ns @ flat ms"
  by (simp_all add: flat_def)

lemma flat_aligned: "4 dvd length (flat ns)"
  by (induction ns) (simp_all add: node_room_def)

lemma u16_at_append: "p + 2 \<le> length xs \<Longrightarrow> u16_at (xs @ ys) p = u16_at xs p"
  by (simp add: u16_at_def bytes_at_def)

lemma u32_at_append: "p + 4 \<le> length xs \<Longrightarrow> u32_at (xs @ ys) p = u32_at xs p"
  by (simp add: u32_at_def bytes_at_def)

lemma walk_node:
  assumes "node_wf n"
  shows "walk_nodes (node_padded n @ bs) = n # walk_nodes bs"
proof -
  have n: "12 \<le> length n" "u16_at n 0 = JFFS2_MAGIC_BITMASK" "u32_at n 4 = length n"
    using assms by (simp_all add: node_wf_def)
  let ?bs = "node_padded n @ bs"
  have "u16_at ?bs 0 = JFFS2_MAGIC_BITMASK" "u32_at ?bs 4 = length n" "12 \<le> length ?bs" "take (length n) ?bs = n"
    using n node_room_ge [of "length n"] by (simp_all add: node_padded_def u16_at_append u32_at_append)
  moreover have "drop (node_room (length n)) ?bs = bs"
    by simp
  ultimately show ?thesis
    using n(1) by (subst walk_nodes.simps) auto
qed

lemma walk_flat: "list_all node_wf ns \<Longrightarrow> walk_nodes (flat ns @ bs) = ns @ walk_nodes bs"
  by (induction ns) (simp_all add: walk_node)

lemma walk_erased: "walk_nodes (replicate n 0xFF) = []"
proof -
  have "u16_at (replicate n 0xFF) 0 = 0xFFFF" if "12 \<le> n"
  proof -
    have "bytes_at (replicate n 0xFF) 0 2 = replicate 2 0xFF" using that by (simp add: bytes_at_def min_def)
    also have "replicate 2 (0xFF :: byte) = [0xFF, 0xFF]" by (simp add: numeral_eq_Suc)
    finally show ?thesis by (simp add: u16_at_def)
  qed
  then show ?thesis
    by (cases "n < 12"; subst walk_nodes.simps) (simp_all add: JFFS2_MAGIC_BITMASK_def)
qed

section \<open>The nodes of a file\<close>

lemma length_node_head [simp]: "length (node_head ty n) = 12"
  by (simp add: node_head_def)

lemma node_head_wf:
  assumes "length n = totlen" and "take 12 n = node_head ty totlen" and "12 \<le> totlen" and "totlen < 2 ^ 32"
  shows "node_wf n"
proof -
  have "u16_at n 0 = le_dec (take 2 (take 12 n))" "u32_at n 4 = le_dec (take 4 (drop 4 (take 12 n)))"
    by (simp_all add: u16_at_def u32_at_def bytes_at_def drop_take)
  then show ?thesis
    using assms by (simp add: node_wf_def node_head_def Let_def le_dec_le_enc_id JFFS2_MAGIC_BITMASK_def)
qed

lemma length_dirent_bytes: "length (dirent_bytes name ty pino ino vers) = 40 + length name"
  by (simp add: dirent_bytes_def Let_def)

lemma dirent_wf: "length name < 2 ^ 31 \<Longrightarrow> node_wf (dirent_bytes name ty pino ino vers)"
  by (rule node_head_wf [where totlen = "40 + length name" and ty = JFFS2_NODETYPE_DIRENT])
    (simp_all add: length_dirent_bytes dirent_bytes_def Let_def sizeof_jffs2_raw_dirent_def)

lemma length_inode_bytes: "length crc = 4 \<Longrightarrow> length (inode_bytes ino vers mode isize at mt ct off n crc) = 68"
  by (simp add: inode_bytes_def Let_def)

definition chunk_node :: "int \<Rightarrow> file_stat \<Rightarrow> int \<Rightarrow> nat \<Rightarrow> byte list \<Rightarrow> byte list" where
  "chunk_node ino st vers off c =
     inode_bytes (u32_of_int ino) (u32_of_int vers) (st_mode st) (st_size st) (st_atime st) (st_mtime st) (st_ctime st)
       off (length c) (le_enc 4 (unat (crc32 0 c))) @ c"

lemma chunk_wf: "length c < 2 ^ 31 \<Longrightarrow> node_wf (chunk_node ino st vers off c)"
  by (rule node_head_wf [where totlen = "68 + length c" and ty = JFFS2_NODETYPE_INODE])
    (simp_all add: chunk_node_def length_inode_bytes inode_bytes_def Let_def sizeof_jffs2_raw_inode_def)

text \<open>The nodes of a file whose contents are written in pieces.\<close>

fun chunk_nodes :: "int \<Rightarrow> file_stat \<Rightarrow> int \<Rightarrow> nat \<Rightarrow> byte list list \<Rightarrow> byte list list" where
  "chunk_nodes ino st vers off [] = []"
| "chunk_nodes ino st vers off (c # cs) = chunk_node ino st vers off c # chunk_nodes ino st (vers + 1) (off + length c) cs"

lemma chunk_nodes_append:
  "chunk_nodes ino st vers off (cs @ ds) =
   chunk_nodes ino st vers off cs @ chunk_nodes ino st (vers + int (length cs)) (off + length (concat cs)) ds"
  by (induction cs arbitrary: vers off) (simp_all add: algebra_simps)

lemma cleanmarker_wf: "node_wf CLEANMARKER"
proof -
  have "bytes_at CLEANMARKER 0 2 = [0x85, 0x19]" "bytes_at CLEANMARKER 4 4 = [0x0c, 0, 0, 0]" "length CLEANMARKER = 12"
    by (simp_all add: CLEANMARKER_def bytes_at_def numeral_eq_Suc)
  then show ?thesis
    by (simp add: node_wf_def u16_at_def u32_at_def JFFS2_MAGIC_BITMASK_def)
qed

text \<open>
  The nodes of a file: its entry in the directory \<open>parent\<close> and one inode for every piece of its contents.
\<close>

definition file_nodes :: "string \<Rightarrow> int \<Rightarrow> int \<Rightarrow> int \<Rightarrow> file_stat \<Rightarrow> byte list list \<Rightarrow> byte list list" where
  "file_nodes name parent ino vers st cs =
     dirent_bytes (str_bytes (basename name)) DT_REG (u32_of_int parent) (u32_of_int (ino + 1)) (u32_of_int vers) #
     chunk_nodes (ino + 1) st (vers + 2) 0 cs"

text \<open>
  The good blocks of a range hold these nodes, with markers for erased blocks between them, and end with a
  block that holds the end marker of the file system.
\<close>

definition eof_block :: "nat \<Rightarrow> byte list" where
  "eof_block n = JFFS2_EOF @ replicate (n - 4) 0xFF"

definition jffs2_holds :: "mtd_info_user \<Rightarrow> (nat \<Rightarrow> bool) \<Rightarrow> byte list \<Rightarrow> nat \<Rightarrow> nat \<Rightarrow> byte list list \<Rightarrow> bool" where
  "jffs2_holds info bad fl off n ns \<longleftrightarrow> (\<exists>BL. (\<forall>b \<in> set BL. length b = miu_erasesize info) \<and>
     good_bytes info bad fl off n = concat BL @ eof_block (miu_erasesize info) \<and>
     filter (\<lambda>n. n \<noteq> CLEANMARKER) (concat (map walk_nodes BL)) = ns)"

section \<open>Blocks on flash\<close>

text \<open>
  The file that is appended is the one behind \<open>imagefd\<close>; erasing and writing good blocks succeed.
\<close>

locale mtd_append = mtd_stream sys isdev flash info bad pos img imagefd out
  for sys :: "'w mtd_sys" and isdev flash info bad pos img imagefd out +
  assumes erase_works: "erase_works sys isdev info bad"
    and write_works: "isdev fd \<Longrightarrow> pos w + length bs \<le> miu_size info \<Longrightarrow> fst (sys_write sys fd bs w) = int (length bs)"
    and open_file: "sys_open_rd sys path w = (fd, w') \<Longrightarrow>
      flash w' = flash w \<and> pos w' = pos w \<and> img w' = img w \<and> out w' = out w \<and> (0 \<le> fd \<longrightarrow> fd = imagefd)"
    and close_file: "pos (sys_close sys imagefd w) = pos w"
    and block_size: "512 \<le> miu_erasesize info"
begin

text \<open>The blocks \<open>BL\<close> were written from \<open>e0\<close> on; the next one goes to \<open>m\<close>.\<close>

definition on_flash :: "byte list \<Rightarrow> nat \<Rightarrow> byte list list \<Rightarrow> 'w \<Rightarrow> nat \<Rightarrow> bool" where
  "on_flash fl0 e0 BL w m \<longleftrightarrow> es dvd m \<and> e0 \<le> m \<and> (\<forall>b \<in> set BL. length b = es) \<and>
     (m \<le> miu_size info \<longrightarrow> pos w = m \<and> good_bytes info bad (flash w) e0 (m - e0) = concat BL \<and>
        same_outside e0 (m - e0) fl0 (flash w))"

lemma pad_skip_ok:
  assumes "isdev (j_outfd j)" and "opened (j_tool j)" and "j_mtdofs j = int m" and "es dvd m"
    and "m \<le> miu_size info \<longrightarrow> pos (world (j_tool j)) = m"
  shows "ensures (pad_skip sys j) (\<lambda>(r, j'). r = Exit 1 \<or>
    (\<exists>b t'. r = Ret () \<and> j' = j\<lparr>j_mtdofs := int b, j_tool := t'\<rparr> \<and> opened t' \<and> m \<le> b \<and> es dvd b \<and>
       flash (world t') = flash (world (j_tool j)) \<and> img (world t') = img (world (j_tool j)) \<and>
       out (world t') = out (world (j_tool j)) \<and>
       (b < miu_size info \<longrightarrow> skipped m b \<and> good_block b \<and> pos (world t') = b)))"
  using assms
proof (induction "miu_size info - m" arbitrary: m j rule: less_induct)
  case (less m j)
  let ?t = "j_tool j"
  obtain r t1 where isb: "mtd_block_is_bad sys (j_outfd j) (int m) ?t = Some (r, t1)"
      and t1: "opened t1" "flash (world t1) = flash (world ?t)" "pos (world t1) = pos (world ?t)"
        "img (world t1) = img (world ?t)" "out (world t1) = out (world ?t)"
      and r: "r = Exit 1 \<or> (\<exists>b. r = Ret b \<and> (b \<noteq> 0 \<longleftrightarrow> \<not> good_block m) \<and> (b \<noteq> 0 \<longrightarrow> m < miu_size info))"
    using is_bad_stream [OF less.prems(1,2), of m] by (auto simp: ensures_iff)
  have sz: "mtdsize t1 = int (miu_size info)" "erasesize t1 = int es" using t1(1) by (simp_all add: tool_opened_def)
  consider "r = Exit 1" | b where "r = Ret b" "b \<noteq> 0" "\<not> good_block m" "m < miu_size info" | "r = Ret 0" "good_block m"
    using r by blast
  then show ?case
  proof cases
    case 1
    then show ?thesis
      by (subst pad_skip.simps) (simp add: less.prems(3) isb)
  next
    case (2 b)
    let ?w = "sys_lseek_cur sys (j_outfd j) (int es) (world t1)"
    let ?j = "j\<lparr>j_mtdofs := int (m + es), j_tool := t1\<lparr>world := ?w\<rparr>\<rparr>"
    note sk = seek_cur [OF less.prems(1) refl, of es "world t1"]
    have room: "m + es \<le> miu_size info" by (rule block_room [OF less.prems(4) 2(4)])
    have step: "pad_skip sys j = pad_skip sys ?j"
      using 2 by (subst pad_skip.simps) (simp add: less.prems(3) isb sz jes_def)
    have "ensures (pad_skip sys ?j) (\<lambda>(r, j'). r = Exit 1 \<or>
      (\<exists>b t'. r = Ret () \<and> j' = ?j\<lparr>j_mtdofs := int b, j_tool := t'\<rparr> \<and> opened t' \<and> m + es \<le> b \<and> es dvd b \<and>
         flash (world t') = flash (world (j_tool ?j)) \<and> img (world t') = img (world (j_tool ?j)) \<and>
         out (world t') = out (world (j_tool ?j)) \<and>
         (b < miu_size info \<longrightarrow> skipped (m + es) b \<and> good_block b \<and> pos (world t') = b)))"
      by (rule less.hyps) (use 2 room es_pos sk t1 less.prems in \<open>auto simp: tool_opened_def\<close>)
    then show ?thesis
      unfolding step
    proof (rule ensures_mono, goal_cases)
      case (1 x)
      obtain r' j' where x: "x = (r', j')" by (cases x)
      show ?case
      proof (cases "r' = Exit 1")
        case False
        then obtain b' t' where b': "r' = Ret ()" "j' = ?j\<lparr>j_mtdofs := int b', j_tool := t'\<rparr>" "opened t'" "m + es \<le> b'"
            "es dvd b'" "flash (world t') = flash ?w" "img (world t') = img ?w" "out (world t') = out ?w"
            "b' < miu_size info \<longrightarrow> skipped (m + es) b' \<and> good_block b' \<and> pos (world t') = b'"
          using 1 by (auto simp: x)
        have "j' = j\<lparr>j_mtdofs := int b', j_tool := t'\<rparr>" using b'(2) by simp
        moreover have "b' < miu_size info \<longrightarrow> skipped m b'"
          using skipped_block [OF less.prems(4) 2(3) b'(4)] b'(9) by simp
        ultimately show ?thesis
          using b' sk t1 by (auto simp: x intro!: exI [of _ b'] exI [of _ t'])
      qed (simp add: x)
    qed
  next
    case 3
    have "pad_skip sys j = Some (Ret (), j\<lparr>j_mtdofs := int m, j_tool := t1\<rparr>)"
      using 3 less.prems(3) by (subst pad_skip.simps) (simp add: isb)
    then show ?thesis
      using 3 t1 less.prems(4,5) by (auto simp: skipped_def good_bytes_def intro!: exI [of _ m])
  qed
qed

text \<open>The fields of the state but for those that writing a block changes.\<close>

lemma pad_flush_ok:
  assumes "isdev (j_outfd j)" and "opened (j_tool j)" and "j_mtdofs j = int m" and "length (j_buf j) = es"
    and "on_flash fl0 e0 BL (world (j_tool j)) m"
  shows "ensures (pad_flush sys j) (\<lambda>(r, j'). r = Exit 1 \<or>
    (\<exists>m' t'. r = Ret () \<and> j' = j\<lparr>j_mtdofs := int m', j_tool := t'\<rparr> \<and> opened t' \<and>
       img (world t') = img (world (j_tool j)) \<and> on_flash fl0 e0 (BL @ [j_buf j]) (world t') m'))"
proof -
  have fl: "es dvd m" "m \<le> miu_size info \<longrightarrow> pos (world (j_tool j)) = m"
    using assms(5) by (simp_all add: on_flash_def)
  show ?thesis
    unfolding pad_flush_def
  proof (rule ensures_andthen [OF pad_skip_ok [OF assms(1-3) fl]], goal_cases)
    case (1 c j1)
    then show ?case by auto
  next
    case (2 u j1)
    then obtain b t1 where j1: "j1 = j\<lparr>j_mtdofs := int b, j_tool := t1\<rparr>" and t1: "opened t1" "m \<le> b" "es dvd b"
        "flash (world t1) = flash (world (j_tool j))" "img (world t1) = img (world (j_tool j))"
        "b < miu_size info \<Longrightarrow> skipped m b \<and> good_block b \<and> pos (world t1) = b"
      by auto
    have je: "jes j1 = int es" "nat (jes j1) = es" using t1(1) by (simp_all add: j1 jes_def tool_opened_def)
    obtain r2 t2 where er: "mtd_erase_block sys (j_outfd j) (int b) t1 = (r2, t2)" by fastforce
    obtain r3 w3 where wr: "sys_write sys (j_outfd j) (j_buf j) (world t2) = (r3, w3)" by fastforce
    have rd: "mem_read (j_buf j1) 0 es = Some (j_buf j)"
      using assms(4) by (simp add: j1 mem_read_def)
    have t2: "opened t2" "img (world t2) = img (world t1)"
      using er t1(1) unlock_stream erase_stream by (auto simp: mtd_erase_block_def Let_def tool_opened_def split: prod.splits)
    note wr' = write_dev [OF assms(1) wr]
    have flash: "on_flash fl0 e0 (BL @ [j_buf j]) w3 (b + es)"
    proof (cases "b < miu_size info")
      case False
      then show ?thesis using assms(4,5) t1(2,3) es_pos by (auto simp: on_flash_def)
    next
      case True
      have room: "b + es \<le> miu_size info" by (rule block_room [OF t1(3) True])
      have b31: "b < 2 ^ 31" using True size_less by simp
      note blk = t1(6) [OF True]
      have r2: "r2 = 0"
      proof -
        have "0 \<le> fst (sys_MEMERASE sys (j_outfd j) b es w)" for w
          using erase_works assms(1) t1(3) room blk by (simp add: erase_works_def)
        then show ?thesis
          using er b31 t1(1) es_less
          by (auto simp: mtd_erase_block_def Let_def tool_opened_def u32_of_int_nonneg not_le [symmetric] split: prod.splits if_splits)
            (metis fst_conv)
      qed
      have f2: "flash (world t2) = patch (flash (world (j_tool j))) b (replicate es 0xFF)" "pos (world t2) = b"
        using erase_block_stream [OF assms(1) t1(1) b31 er] r2 t1(4) blk by auto
      have "r3 = int es" using write_works [OF assms(1), of "world t2" "j_buf j"] wr f2(2) room assms(4) by simp
      let ?fl = "flash (world (j_tool j))"
      have ones: "take es (drop b (flash (world t2))) = replicate (length (j_buf j)) 0xFF"
        using slice_patch_same [of b "replicate es 0xFF" ?fl es] room assms(4) f2 by (simp add: flash_size)
      have f3: "flash w3 = patch ?fl b (j_buf j)" "pos w3 = b + es"
        using wr' \<open>r3 = int es\<close> f2 assms(4) ones map2_and_ones [of "j_buf j"] room
          patch_patch [of "replicate es 0xFF" "j_buf j" b ?fl] by (simp_all add: flash_size)
      have msz: "m \<le> miu_size info" using t1(2) True by simp
      have e0: "e0 \<le> m" "good_bytes info bad ?fl e0 (m - e0) = concat BL" "same_outside e0 (m - e0) fl0 ?fl"
        using assms(5) msz by (simp_all add: on_flash_def)
      have "good_bytes info bad (flash w3) e0 (b + es - e0) = concat BL @ j_buf j"
        using good_bytes_append_block [OF flash_size e0(1) t1(2) room t1(3) _ _ assms(4)] blk e0(2) by (simp add: f3)
      moreover have "same_outside e0 (b + es - e0) fl0 (flash w3)"
        using e0 t1(2) room assms(4) by (auto simp: f3 same_outside_def nth_patch flash_size)
      ultimately show ?thesis
        using assms(5) t1(2,3) assms(4) f3(2) by (simp add: on_flash_def)
    qed
    have "(case mtd_erase_block sys (j_outfd j1) (j_mtdofs j1) (j_tool j1) of (_, t) \<Rightarrow> do {
          bs \<leftarrow> mem_read (j_buf j1) 0 (nat (jes j1));
          case sys_write sys (j_outfd j1) bs (world t) of (_, w) \<Rightarrow>
            Some (Ret (), j1\<lparr>j_mtdofs := j_mtdofs j1 + jes j1, j_tool := t\<lparr>world := w\<rparr>\<rparr>)
        }) = Some (Ret (), j\<lparr>j_mtdofs := int (b + es), j_tool := t2\<lparr>world := w3\<rparr>\<rparr>)"
      using rd [unfolded j1] unfolding je by (simp add: j1 er wr)
    moreover have "opened (t2\<lparr>world := w3\<rparr>)" "img w3 = img (world (j_tool j))"
      using t2 t1(5) wr' by (simp_all add: tool_opened_def)
    ultimately show ?case
      using flash by (auto intro!: exI [of _ "b + es"] exI [of _ "t2\<lparr>world := w3\<rparr>"])
  qed
qed

section \<open>The buffer\<close>

text \<open>The state of \<^verbatim>\<open>jffs2.c\<close> with a buffer of one block; and what the functions on the buffer keep.\<close>

definition jcore :: "byte list \<Rightarrow> nat \<Rightarrow> byte list list \<Rightarrow> 'w jffs2 \<Rightarrow> bool" where
  "jcore fl0 e0 BL j \<longleftrightarrow> isdev (j_outfd j) \<and> opened (j_tool j) \<and> length (j_buf j) = es \<and>
     (\<exists>m. j_mtdofs j = int m \<and> on_flash fl0 e0 BL (world (j_tool j)) m)"

definition keeps :: "'w jffs2 \<Rightarrow> 'w jffs2 \<Rightarrow> bool" where
  "keeps j j' \<longleftrightarrow> j_last_ino j' = j_last_ino j \<and> j_last_version j' = j_last_version j \<and> j_target_ino j' = j_target_ino j \<and>
     img (world (j_tool j')) = img (world (j_tool j))"

lemma keeps_refl [simp]: "keeps j j" and keeps_trans: "keeps j j' \<Longrightarrow> keeps j' j'' \<Longrightarrow> keeps j j''"
  by (simp_all add: keeps_def)

lemma jcore_es: "jcore fl0 e0 BL j \<Longrightarrow> jes j = int es"
  by (simp add: jcore_def jes_def tool_opened_def)

lemma flush_ok:
  assumes "jcore fl0 e0 BL j"
  shows "ensures (pad_flush sys j) (\<lambda>(r, j'). r = Exit 1 \<or>
    r = Ret () \<and> jcore fl0 e0 (BL @ [j_buf j]) j' \<and> j_buf j' = j_buf j \<and> j_ofs j' = j_ofs j \<and> keeps j j')"
proof -
  obtain m where m: "j_mtdofs j = int m" "on_flash fl0 e0 BL (world (j_tool j)) m"
    using assms by (auto simp: jcore_def)
  have "isdev (j_outfd j)" "opened (j_tool j)" "length (j_buf j) = es"
    using assms by (simp_all add: jcore_def)
  from pad_flush_ok [OF this(1,2) m(1) this(3) m(2)] show ?thesis
    by (rule ensures_mono) (use assms in \<open>auto simp: jcore_def keeps_def\<close>)
qed

lemma pad_fill:
  assumes "jcore fl0 e0 BL j" and "j_ofs j = int k" and "0 < k" and "k < es"
  shows "ensures (pad sys (jes j) j) (\<lambda>(r, j'). r = Exit 1 \<or>
    r = Ret () \<and> jcore fl0 e0 (BL @ [take k (j_buf j) @ replicate (es - k) 0xFF]) j' \<and> j_ofs j' = 0 \<and> keeps j j')"
proof -
  note je = jcore_es [OF assms(1)]
  have len: "length (j_buf j) = es" using assms(1) by (simp add: jcore_def)
  let ?buf = "take k (j_buf j) @ replicate (es - k) 0xFF"
  let ?j = "j\<lparr>j_buf := ?buf, j_ofs := 0\<rparr>"
  have mw: "mem_write (j_buf j) k (replicate (es - k) 0xff) = Some ?buf"
    using assms(4) len by (simp add: mem_write_def)
  have md: "int k mod int es = int k" using assms(4) by simp
  have "pad sys (jes j) j = pad_flush sys ?j"
    using assms(2-4) mw je by (simp add: pad_def md nat_diff_distrib' jes_def)
  moreover have "jcore fl0 e0 BL ?j"
    using assms(1,4) len by (simp add: jcore_def)
  ultimately show ?thesis
    using flush_ok [of fl0 e0 BL ?j] by (auto simp: ensures_iff keeps_def)
qed

text \<open>The buffer holds the nodes \<open>cur\<close> and nothing else.\<close>

definition jnodes :: "byte list \<Rightarrow> nat \<Rightarrow> byte list list \<Rightarrow> byte list list \<Rightarrow> 'w jffs2 \<Rightarrow> bool" where
  "jnodes fl0 e0 BL cur j \<longleftrightarrow> jcore fl0 e0 BL j \<and> list_all node_wf cur \<and> j_ofs j = int (length (flat cur)) \<and>
     length (flat cur) < es \<and> take (length (flat cur)) (j_buf j) = flat cur"

text \<open>The nodes on flash and in the buffer, without the markers at the start of the blocks.\<close>

definition jholds :: "byte list \<Rightarrow> nat \<Rightarrow> byte list list \<Rightarrow> 'w jffs2 \<Rightarrow> bool" where
  "jholds fl0 e0 ns j \<longleftrightarrow> (\<exists>BL cur. jnodes fl0 e0 BL cur j \<and>
     ns = filter (\<lambda>n. n \<noteq> CLEANMARKER) (concat (map walk_nodes BL) @ cur))"

lemma jholdsI:
  "jnodes fl0 e0 BL cur j \<Longrightarrow> ns = filter (\<lambda>n. n \<noteq> CLEANMARKER) (concat (map walk_nodes BL) @ cur) \<Longrightarrow> jholds fl0 e0 ns j"
  by (auto simp: jholds_def)

lemma flat_pos: "list_all node_wf cur \<Longrightarrow> cur \<noteq> [] \<Longrightarrow> 0 < length (flat cur)"
  using node_room_ge [of "length (hd cur)"] by (cases cur) (auto simp: node_wf_def)

lemma jholds_es: "jholds fl0 e0 ns j \<Longrightarrow> jes j = int es"
  by (auto simp: jholds_def jnodes_def jcore_es)

lemma jholds_ofs: "jholds fl0 e0 ns j \<Longrightarrow> 0 \<le> j_ofs j \<and> j_ofs j < int es"
  by (auto simp: jholds_def jnodes_def)

lemma pad_block_ok:
  assumes "jholds fl0 e0 ns j" and "0 < j_ofs j"
  shows "ensures (pad sys (jes j) j) (\<lambda>(r, j'). r = Exit 1 \<or>
    r = Ret () \<and> j_ofs j' = 0 \<and> keeps j j' \<and>
    (\<exists>BL. jcore fl0 e0 BL j' \<and> ns = filter (\<lambda>n. n \<noteq> CLEANMARKER) (concat (map walk_nodes BL))))"
proof -
  obtain BL cur where c: "jnodes fl0 e0 BL cur j" and ns: "ns = filter (\<lambda>n. n \<noteq> CLEANMARKER) (concat (map walk_nodes BL) @ cur)"
    using assms(1) by (auto simp: jholds_def)
  have core: "jcore fl0 e0 BL j" and wf: "list_all node_wf cur" and k: "j_ofs j = int (length (flat cur))" "length (flat cur) < es"
      "take (length (flat cur)) (j_buf j) = flat cur"
    using c by (auto simp: jnodes_def)
  have "0 < length (flat cur)" using assms(2) k(1) by simp
  from pad_fill [OF core k(1) this k(2)] show ?thesis
  proof (rule ensures_mono, goal_cases)
    case (1 x)
    have "walk_nodes (flat cur @ replicate (es - length (flat cur)) 0xFF) = cur"
      using walk_flat [OF wf] walk_erased by simp
    then show ?case
      using 1 ns k(3) by (fastforce simp: split: prod.splits)
  qed
qed

lemma jholds_empty:
  assumes "jcore fl0 e0 BL j" and "j_ofs j = 0"
  shows "jholds fl0 e0 (filter (\<lambda>n. n \<noteq> CLEANMARKER) (concat (map walk_nodes BL))) j"
  using assms es_pos by (intro jholdsI [of fl0 e0 BL "[]"]) (simp_all add: jnodes_def)

lemma length_cleanmarker [simp]: "length CLEANMARKER = 12"
  by (simp add: CLEANMARKER_def)

lemma prep_ok:
  assumes "jholds fl0 e0 ns j"
  shows "ensures (prep_eraseblock j) (\<lambda>(r, j'). r = Ret () \<and> jholds fl0 e0 ns j' \<and> keeps j j' \<and>
    j_ofs j' = (if j_ofs j = 0 then 12 else j_ofs j))"
proof (cases "j_ofs j = 0")
  case False
  then show ?thesis using assms jholds_ofs [OF assms] by (simp add: prep_eraseblock_def)
next
  case True
  obtain BL cur where c: "jnodes fl0 e0 BL cur j" and ns: "ns = filter (\<lambda>n. n \<noteq> CLEANMARKER) (concat (map walk_nodes BL) @ cur)"
    using assms by (auto simp: jholds_def)
  have "cur = []" using c True flat_pos [of cur] by (auto simp: jnodes_def)
  have len: "length (j_buf j) = es" using c by (simp add: jnodes_def jcore_def)
  let ?buf = "patch (j_buf j) 0 CLEANMARKER"
  let ?j = "j\<lparr>j_buf := ?buf, j_ofs := 12\<rparr>"
  have "prep_eraseblock j = Some (Ret (), ?j)"
    using True jholds_es [OF assms] block_size len
    by (simp add: prep_eraseblock_def put_data_def mem_write_patch)
  moreover have "jnodes fl0 e0 BL [CLEANMARKER] ?j"
    using c block_size len cleanmarker_wf
    by (simp add: jnodes_def jcore_def node_padded_def node_room_def patch_def)
  ultimately show ?thesis
    using True ns \<open>cur = []\<close> by (auto simp: keeps_def intro: jholdsI)
qed

section \<open>Adding nodes\<close>

lemma es_aligned: "4 dvd es"
proof -
  obtain k where k: "es = 2 ^ k" using erasesize_exp by blast
  then have "2 \<le> k" using block_size power_strict_increasing [of k 2 "2 :: nat"] by (cases "k < 2") auto
  then show ?thesis using le_imp_power_dvd [of 2 k "2 :: nat"] by (simp add: k)
qed

text \<open>A node was copied behind those in the buffer; \<^verbatim>\<open>pad(4)\<close> completes it, and writes the block if it is full.\<close>

lemma pad_node_ok:
  assumes "jcore fl0 e0 BL j" and "list_all node_wf (cur @ [n])" and "j_ofs j = int (length (flat cur @ n))"
    and "length (flat cur @ n) \<le> es" and "take (length (flat cur @ n)) (j_buf j) = flat cur @ n" and "n \<noteq> CLEANMARKER"
  shows "ensures (pad sys 4 j) (\<lambda>(r, j'). r = Exit 1 \<or> r = Ret () \<and> keeps j j' \<and>
    jholds fl0 e0 (filter (\<lambda>n. n \<noteq> CLEANMARKER) (concat (map walk_nodes BL) @ cur) @ [n]) j' \<and>
    (length (flat (cur @ [n])) < es \<longrightarrow> j_ofs j' = int (length (flat (cur @ [n])))))"
proof -
  note je = jcore_es [OF assms(1)]
  define L where "L = length (flat cur @ n)"
  define R where "R = length (flat (cur @ [n]))"
  have len: "length (j_buf j) = es" using assms(1) by (simp add: jcore_def)
  have LR: "L \<le> R" "R - L < 4" "4 dvd R" "L mod 4 = 0 \<longleftrightarrow> L = R" "L mod 4 \<noteq> 0 \<Longrightarrow> 4 - L mod 4 = R - L"
    using flat_aligned [of cur] by (auto simp: L_def R_def node_room_def elim!: dvdE) presburger+
  have Res: "R \<le> es" using LR es_aligned assms(4) unfolding L_def [symmetric] by (auto elim!: dvdE)
  define buf where "buf = patch (j_buf j) L (replicate (R - L) 0xFF)"
  have buf: "length buf = es" "take R buf = flat (cur @ [n])" "L = R \<Longrightarrow> buf = j_buf j"
  proof -
    show "length buf = es" using len LR(1) Res by (simp add: buf_def)
    show "L = R \<Longrightarrow> buf = j_buf j" by (simp add: buf_def patch_def)
    have "buf = (flat cur @ n @ replicate (R - L) 0xFF) @ drop R (j_buf j)"
      using assms(5) [folded L_def] LR(1) by (simp add: buf_def patch_def)
    moreover have "length (flat cur @ n @ replicate (R - L) 0xFF) = R"
      using LR(1) by (simp add: L_def)
    ultimately have "take R buf = flat cur @ n @ replicate (R - L) 0xFF"
      by (metis append_eq_conv_conj)
    also have "R - L = node_room (length n) - length n" by (simp add: L_def R_def)
    finally show "take R buf = flat (cur @ [n])" by (simp add: node_padded_def)
  qed
  let ?ns = "filter (\<lambda>n. n \<noteq> CLEANMARKER) (concat (map walk_nodes BL) @ cur) @ [n]"
  let ?j = "j\<lparr>j_buf := buf, j_ofs := int (R mod es)\<rparr>"
  have pos: "0 < R" using flat_pos [OF assms(2)] by (simp add: R_def)
  have pad: "pad sys 4 j = (if R mod es = 0 then pad_flush sys ?j else Some (Ret (), ?j))"
  proof -
    have ofs: "j_ofs j = int L" using assms(3) by (simp add: L_def)
    have m4: "int x mod 4 = int (x mod 4)" for x by (simp add: zmod_int)
    have same: "j\<lparr>j_buf := j_buf j, j_ofs := int L\<rparr> = j" "j\<lparr>j_ofs := int L\<rparr> = j"
      using ofs by (cases j; simp)+
    have jb: "jes (j\<lparr>j_buf := b, j_ofs := i\<rparr>) = int es" "jes (j\<lparr>j_ofs := i\<rparr>) = int es" for b i
      using je by (simp_all add: jes_def)
    consider "L = R" "R < es" | "L = R" "R = es" | "L mod 4 \<noteq> 0" "L < es"
      using LR(1,4) Res by (cases "L = R"; cases "R = es") auto
    then show ?thesis
    proof cases
      case 1
      then show ?thesis using LR(4) je pos buf(3) same by (simp add: pad_def ofs m4)
    next
      case 2
      then show ?thesis using je pos buf(3) by (simp add: pad_def ofs m4 jb)
    next
      case 3
      define d where "d = R - L"
      have "mem_write (j_buf j) L (replicate d 0xff) = Some buf"
        using len LR(1) Res by (simp add: buf_def mem_write_patch d_def)
      moreover have "4 - int (L mod 4) = int d" using LR(5) [OF 3(1)] unfolding d_def by linarith
      moreover have "(int L + int d) mod int es = int (R mod es)"
        using LR(1) by (simp add: zmod_int d_def)
      ultimately show ?thesis
        using 3 je by (simp add: pad_def ofs m4 jb)
    qed
  qed
  have core: "jcore fl0 e0 BL ?j" using assms(1) buf(1) by (simp add: jcore_def)
  show ?thesis
  proof (cases "R < es")
    case True
    then have "jnodes fl0 e0 BL (cur @ [n]) ?j"
      using core assms(2) buf by (simp add: jnodes_def R_def)
    then have "jholds fl0 e0 ?ns ?j"
      by (rule jholdsI) (simp add: assms(6))
    then show ?thesis using True pos unfolding R_def [symmetric] pad by (simp add: keeps_def)
  next
    case False
    then have R: "R = es" using Res by simp
    have walk: "walk_nodes buf = cur @ [n]"
      using walk_flat [OF assms(2), of "[]"] walk_erased [of 0] buf(1,2) R by simp
    have "ensures (pad_flush sys ?j) (\<lambda>(r, j'). r = Exit 1 \<or>
        r = Ret () \<and> jcore fl0 e0 (BL @ [buf]) j' \<and> j_buf j' = buf \<and> j_ofs j' = 0 \<and> keeps j j')"
      using flush_ok [OF core] by (simp add: R keeps_def)
    then have "ensures (pad_flush sys ?j) (\<lambda>(r, j'). r = Exit 1 \<or> r = Ret () \<and> keeps j j' \<and> jholds fl0 e0 ?ns j')"
      by (rule ensures_mono) (use jholds_empty [of fl0 e0 "BL @ [buf]"] walk assms(6) in auto)
    then show ?thesis using R unfolding R_def [symmetric] pad by simp
  qed
qed

lemma node_added:
  assumes "jholds fl0 e0 ns j" and "node_wf n" and "n \<noteq> CLEANMARKER" and "j_ofs j + int (length n) \<le> int es"
    and "j_buf j1 = patch (j_buf j) (nat (j_ofs j)) n" and "j_ofs j1 = j_ofs j + int (length n)"
    and "j_outfd j1 = j_outfd j" and "j_tool j1 = j_tool j" and "j_mtdofs j1 = j_mtdofs j"
  shows "ensures (pad sys 4 j1) (\<lambda>(r, j'). r = Exit 1 \<or> r = Ret () \<and> keeps j1 j' \<and> jholds fl0 e0 (ns @ [n]) j' \<and>
    (j_ofs j + int (node_room (length n)) < int es \<longrightarrow> 0 < j_ofs j'))"
proof -
  obtain BL cur where c: "jnodes fl0 e0 BL cur j" and ns: "ns = filter (\<lambda>n. n \<noteq> CLEANMARKER) (concat (map walk_nodes BL) @ cur)"
    using assms(1) by (auto simp: jholds_def)
  have wf: "list_all node_wf (cur @ [n])" and ofs: "j_ofs j = int (length (flat cur))" and len: "length (j_buf j) = es"
    and tk: "take (length (flat cur)) (j_buf j) = flat cur"
    using c assms(2) by (simp_all add: jnodes_def jcore_def)
  have fit: "length (flat cur @ n) \<le> es" using assms(4) ofs by simp
  have core: "jcore fl0 e0 BL j1" using c len fit ofs assms(5,7-9) by (simp add: jnodes_def jcore_def)
  have tk1: "take (length (flat cur @ n)) (j_buf j1) = flat cur @ n"
    using tk ofs len fit by (simp add: assms(5) patch_def)
  have "length (flat (cur @ [n])) = length (flat cur) + node_room (length n)" by simp
  moreover have "0 < length (flat (cur @ [n]))" by (rule flat_pos [OF wf]) simp
  ultimately have "0 < int (length (flat cur)) + int (node_room (length n))" by linarith
  with pad_node_ok [OF core wf _ fit tk1 assms(3)] show ?thesis
    using ns ofs assms(6) by (auto simp: ensures_iff)
qed

lemma add_data_fits:
  assumes "length (j_buf j) = es" and "jes j = int es" and "0 \<le> j_ofs j" and "j_ofs j + int (length bs) \<le> int es"
  shows "add_data sys bs j =
    Some (Ret (), j\<lparr>j_buf := patch (j_buf j) (nat (j_ofs j)) bs, j_ofs := j_ofs j + int (length bs)\<rparr>)"
proof -
  have "nat (j_ofs j) + length bs \<le> es" using assms(3,4) by linarith
  then show ?thesis
    using assms by (simp add: add_data_def put_data_def mem_write_patch)
qed

lemma patch_append:
  "off + length xs + length ys \<le> length fl \<Longrightarrow> patch (patch fl off xs) (off + length xs) ys = patch fl off (xs @ ys)"
  by (rule nth_equalityI) (auto simp: nth_patch nth_append)

lemma jholds_buf: "jholds fl0 e0 ns j \<Longrightarrow> length (j_buf j) = es"
  by (auto simp: jholds_def jnodes_def jcore_def)

lemma jholds_cong:
  assumes "jholds fl0 e0 ns j" and "j_buf j' = j_buf j" and "j_ofs j' = j_ofs j" and "j_outfd j' = j_outfd j"
    and "j_mtdofs j' = j_mtdofs j" and "opened (j_tool j')" and "flash (world (j_tool j')) = flash (world (j_tool j))"
    and "pos (world (j_tool j')) = pos (world (j_tool j))"
  shows "jholds fl0 e0 ns j'"
  using assms by (auto simp: jholds_def jnodes_def jcore_def on_flash_def)

lemma jholds_opened: "jholds fl0 e0 ns j \<Longrightarrow> opened (j_tool j)"
  by (auto simp: jholds_def jnodes_def jcore_def)

lemma find_room_ok:
  assumes "jholds fl0 e0 ns j" and "0 < j_ofs j"
  shows "ensures (find_room sys j) (\<lambda>(r, j'). r = Exit 1 \<or>
    (\<exists>len. r = Ret len \<and> jholds fl0 e0 ns j' \<and> keeps j j' \<and> 0 < j_ofs j' \<and> 128 < len \<and> j_ofs j' + 68 + len \<le> int es))"
proof -
  have room: "rbytes j' - int sizeof_jffs2_raw_inode = int es - j_ofs j' - 68" if "jholds fl0 e0 ns j'" for j'
    using jholds_ofs [OF that] jholds_es [OF that] by (simp add: rbytes_def sizeof_jffs2_raw_inode_def)
  show ?thesis
  proof (cases "int es - j_ofs j - 68 > 128")
    case True
    then show ?thesis
      using assms by (subst find_room.simps) (simp add: room [OF assms(1)])
  next
    case False
    have "find_room sys j = andthen (pad sys (jes j) j) (\<lambda>_ j. andthen (prep_eraseblock j) (\<lambda>_. find_room sys))"
      using False by (subst find_room.simps) (simp add: room [OF assms(1)] andthen_def)
    moreover have "ensures (andthen (pad sys (jes j) j) (\<lambda>_ j. andthen (prep_eraseblock j) (\<lambda>_. find_room sys)))
      (\<lambda>(r, j'). r = Exit 1 \<or>
        (\<exists>len. r = Ret len \<and> jholds fl0 e0 ns j' \<and> keeps j j' \<and> 0 < j_ofs j' \<and> 128 < len \<and> j_ofs j' + 68 + len \<le> int es))"
    proof (rule ensures_andthen [OF pad_block_ok [OF assms]], goal_cases)
      case (1 c j1)
      then show ?case by auto
    next
      case (2 u j1)
      then have j1: "jholds fl0 e0 ns j1" "j_ofs j1 = 0" "keeps j j1"
        using jholds_empty by auto
      show ?case
      proof (rule ensures_andthen [OF prep_ok [OF j1(1)]], goal_cases)
        case (1 c j2)
        then show ?case by auto
      next
        case (2 u j2)
        then have j2: "jholds fl0 e0 ns j2" "j_ofs j2 = 12" "keeps j j2"
          using j1 by (auto intro: keeps_trans)
        then show ?case
          using block_size by (subst find_room.simps) (simp add: room [OF j2(1)])
      qed
    qed
    ultimately show ?thesis by simp
  qed
qed

lemma add_chunk_ok:
  assumes "jholds fl0 e0 ns j" and "j_ofs j + 68 + int (length c) \<le> int es" and "j_last_version j < 2 ^ 31 - 1"
  shows "ensures (add_chunk sys ino st off c j) (\<lambda>(r, j'). r = Exit 1 \<or>
    r = Ret () \<and> jholds fl0 e0 (ns @ [chunk_node ino st (j_last_version j + 1) off c]) j' \<and> 0 < j_ofs j' \<and>
    j_last_version j' = j_last_version j + 1 \<and> img (world (j_tool j')) = img (world (j_tool j)))"
proof -
  let ?v = "j_last_version j + 1"
  let ?n = "chunk_node ino st ?v off c"
  let ?ri = "inode_bytes (u32_of_int ino) (u32_of_int ?v) (st_mode st) (st_size st) (st_atime st) (st_mtime st)
      (st_ctime st) off (length c) (le_enc 4 (unat (crc32 0 c)))"
  have n: "?n = ?ri @ c" "length ?ri = 68" by (simp_all add: chunk_node_def length_inode_bytes)
  have len: "length (j_buf j) = es" and je: "jes j = int es" and ofs: "0 \<le> j_ofs j"
    using jholds_buf [OF assms(1)] jholds_es [OF assms(1)] jholds_ofs [OF assms(1)] by auto
  let ?j1 = "j\<lparr>j_last_version := ?v\<rparr>"
  let ?j2 = "?j1\<lparr>j_buf := patch (j_buf j) (nat (j_ofs j)) ?ri, j_ofs := j_ofs j + 68\<rparr>"
  let ?j3 = "?j1\<lparr>j_buf := patch (j_buf j) (nat (j_ofs j)) ?n, j_ofs := j_ofs j + int (length ?n)\<rparr>"
  have fit: "nat (j_ofs j) + 68 + length c \<le> es" using assms(2) ofs by linarith
  have 1: "add_data sys ?ri ?j1 = Some (Ret (), ?j2)"
    using add_data_fits [of ?j1 ?ri] len je ofs assms(2) n(2) by (simp add: jes_def)
  have "patch (patch (j_buf j) (nat (j_ofs j)) ?ri) (nat (j_ofs j + 68)) c = patch (j_buf j) (nat (j_ofs j)) ?n"
    using patch_append [of "nat (j_ofs j)" ?ri c "j_buf j"] fit len n ofs by (simp add: nat_add_distrib)
  then have 2: "add_data sys c ?j2 = Some (Ret (), ?j3)"
    using add_data_fits [of ?j2 c] len je ofs assms(2) n fit by (simp add: jes_def)
  have cl: "length c < 2 ^ 31" using fit es_less by simp
  have "length ?n \<noteq> length CLEANMARKER" using n by simp
  then have ne: "?n \<noteq> CLEANMARKER" by metis
  have inc: "inc_int (j_last_version j) = Some ?v" using assms(3) by (simp add: inc_int_def)
  have "ensures (pad sys 4 ?j3) (\<lambda>(r, j'). r = Exit 1 \<or> r = Ret () \<and> keeps ?j3 j' \<and> jholds fl0 e0 (ns @ [?n]) j' \<and>
      (j_ofs j + int (node_room (length ?n)) < int es \<longrightarrow> 0 < j_ofs j'))"
    by (rule node_added [OF assms(1) chunk_wf [OF cl] ne]) (use assms(2) n in simp_all)
  then have "ensures (andthen (pad sys 4 ?j3) (\<lambda>_. prep_eraseblock)) (\<lambda>(r, j'). r = Exit 1 \<or>
    r = Ret () \<and> jholds fl0 e0 (ns @ [?n]) j' \<and> 0 < j_ofs j' \<and>
    j_last_version j' = ?v \<and> img (world (j_tool j')) = img (world (j_tool j)))"
  proof (rule ensures_andthen, goal_cases)
    case (1 c j1)
    then show ?case by auto
  next
    case (2 u j4)
    then have j4: "jholds fl0 e0 (ns @ [?n]) j4" "keeps ?j3 j4" by auto
    show ?case
      by (rule ensures_mono [OF prep_ok [OF j4(1)]]) (use j4 jholds_ofs [OF j4(1)] in \<open>auto simp: keeps_def\<close>)
  qed
  then show ?thesis
    by (simp add: add_chunk_def inc Let_def 1 2 andthen_def [of "Some _"])
qed

section \<open>The file\<close>

lemma read_chunk:
  assumes "jholds fl0 e0 ns j" and "0 < len"
  obtains bs w where "sys_read sys imagefd len (world (j_tool j)) = (Inr bs, w)" and "length bs \<le> len"
    and "img (world (j_tool j)) = bs @ img w" and "bs = [] \<longrightarrow> img (world (j_tool j)) = []"
    and "jholds fl0 e0 ns (j\<lparr>j_tool := (j_tool j)\<lparr>world := w\<rparr>\<rparr>)"
proof -
  obtain res w where rd: "sys_read sys imagefd len (world (j_tool j)) = (res, w)" by fastforce
  from read_file [OF rd] assms(2) obtain bs where bs: "res = Inr bs" "length bs \<le> len" "img (world (j_tool j)) = bs @ img w"
      "bs = [] \<longrightarrow> img (world (j_tool j)) = []" "flash w = flash (world (j_tool j))" "pos w = pos (world (j_tool j))"
    by blast
  have "jholds fl0 e0 ns (j\<lparr>j_tool := (j_tool j)\<lparr>world := w\<rparr>\<rparr>)"
    by (rule jholds_cong [OF assms(1)]) (use bs(5,6) jholds_opened [OF assms(1)] in \<open>simp_all add: tool_opened_def\<close>)
  then show ?thesis
    using that [of bs w] rd bs by simp
qed

lemma add_file_loop_ok:
  assumes "jholds fl0 e0 ns j" and "0 < j_ofs j" and "j_last_version j + int (length (img (world (j_tool j)))) < 2 ^ 31 - 1"
  shows "ensures (add_file_loop sys imagefd ino st off j) (\<lambda>(r, j'). r = Exit 1 \<or>
    (\<exists>cs. r = Ret () \<and> concat cs = img (world (j_tool j)) \<and> 0 < j_ofs j' \<and>
      jholds fl0 e0 (ns @ chunk_nodes ino st (j_last_version j + 1) off cs) j'))"
  using assms
proof (induction "length (img (world (j_tool j)))" arbitrary: ns j off rule: less_induct)
  case (less j ns off)
  let ?img = "img (world (j_tool j))"
  let ?Q = "\<lambda>(r, j'). r = Exit 1 \<or> (\<exists>cs. r = Ret () \<and> concat cs = ?img \<and> 0 < j_ofs j' \<and>
      jholds fl0 e0 (ns @ chunk_nodes ino st (j_last_version j + 1) off cs) j')"
  obtain r j1 where room: "find_room sys j = Some (r, j1)" and r: "r = Exit 1 \<or>
      (\<exists>len. r = Ret len \<and> jholds fl0 e0 ns j1 \<and> keeps j j1 \<and> 0 < j_ofs j1 \<and> 128 < len \<and> j_ofs j1 + 68 + len \<le> int es)"
    using find_room_ok [OF less.prems(1,2)] by (auto simp: ensures_iff)
  show ?case
  proof (cases "r = Exit 1")
    case True
    then show ?thesis by (subst add_file_loop.simps) (simp add: room)
  next
    case False
    then obtain len where len: "r = Ret len" "jholds fl0 e0 ns j1" "keeps j j1" "0 < j_ofs j1" "128 < len"
        "j_ofs j1 + 68 + len \<le> int es"
      using r by blast
    let ?len = "min (nat len) 4096"
    have "0 < ?len" using len(5) by simp
    from read_chunk [OF len(2) this] obtain bs w where rd: "sys_read sys imagefd ?len (world (j_tool j1)) = (Inr bs, w)"
        and bs: "length bs \<le> ?len" "img (world (j_tool j1)) = bs @ img w" "bs = [] \<longrightarrow> img (world (j_tool j1)) = []"
        and j2: "jholds fl0 e0 ns (j1\<lparr>j_tool := (j_tool j1)\<lparr>world := w\<rparr>\<rparr>)" (is "jholds _ _ _ ?j2")
      by blast
    have img: "?img = bs @ img w" "bs = [] \<longrightarrow> ?img = []" and v: "j_last_version j1 = j_last_version j"
      using bs len(3) by (auto simp: keeps_def)
    have on: "on_world (sys_read sys imagefd ?len) j1 = (Inr bs, ?j2)"
      by (simp add: on_world_def rd)
    show ?thesis
    proof (cases "bs = []")
      case True
      then have "add_file_loop sys imagefd ino st off j = Some (Ret (), ?j2)"
        by (subst add_file_loop.simps) (simp add: room len(1) on)
      then show ?thesis
        using True img(2) j2 len(4) by (auto intro!: exI [of _ "[]"])
    next
      case False
      have fit: "j_ofs ?j2 + 68 + int (length bs) \<le> int es" using bs(1) len(5,6) by simp linarith
      have lv: "j_last_version ?j2 < 2 ^ 31 - 1" using less.prems(3) v by simp
      have step: "add_file_loop sys imagefd ino st off j =
          andthen (add_chunk sys ino st off bs ?j2) (\<lambda>_. add_file_loop sys imagefd ino st (off + length bs))"
        using False bs(1) [folded not_less] by (subst add_file_loop.simps) (simp add: room len(1) on andthen_def del: min_less_iff_conj)
      show ?thesis
        unfolding step
      proof (rule ensures_andthen [OF add_chunk_ok [OF j2 fit lv]], goal_cases)
        case (1 c j3)
        then show ?case by auto
      next
        case (2 u j3)
        let ?n = "chunk_node ino st (j_last_version j + 1) off bs"
        have j3: "jholds fl0 e0 (ns @ [?n]) j3" "0 < j_ofs j3" "j_last_version j3 = j_last_version j + 1"
            "img (world (j_tool j3)) = img w"
          using 2 v by auto
        have "int (length bs) > 0" using False by simp
        then have lv3: "j_last_version j3 + int (length (img (world (j_tool j3)))) < 2 ^ 31 - 1"
          using less.prems(3) unfolding img(1) j3(3,4) length_append of_nat_add by linarith
        have "ensures (add_file_loop sys imagefd ino st (off + length bs) j3) (\<lambda>(r, j'). r = Exit 1 \<or>
          (\<exists>cs. r = Ret () \<and> concat cs = img (world (j_tool j3)) \<and> 0 < j_ofs j' \<and>
            jholds fl0 e0 ((ns @ [?n]) @ chunk_nodes ino st (j_last_version j3 + 1) (off + length bs) cs) j'))"
          by (rule less.hyps [OF _ j3(1,2) lv3]) (use False img j3(4) in simp)
        then show ?case
        proof (rule ensures_mono, goal_cases)
          case (1 x)
          obtain r' j' where x: "x = (r', j')" by (cases x)
          show ?case
          proof (cases "r' = Exit 1")
            case False
            then obtain cs where "r' = Ret ()" "concat cs = img w" "0 < j_ofs j'"
                "jholds fl0 e0 ((ns @ [?n]) @ chunk_nodes ino st (j_last_version j + 1 + 1) (off + length bs) cs) j'"
              using 1 j3 by (auto simp: x)
            then show ?thesis
              using img(1) by (auto simp: x intro!: exI [of _ "bs # cs"])
          qed (simp add: x)
        qed
      qed
    qed
  qed
qed

lemma add_dirent_ok:
  assumes "jholds fl0 e0 ns j" and "j_ofs j = 0" and "length name \<le> 254" and "j_last_ino j < 2 ^ 31 - 2" and "j_last_version j < 2 ^ 31 - 1"
  shows "ensures (add_dirent sys name ty parent j) (\<lambda>(r, j'). r = Exit 1 \<or>
    r = Ret (j_last_ino j + 1) \<and> 0 < j_ofs j' \<and> j_last_version j' = j_last_version j + 1 \<and>
    img (world (j_tool j')) = img (world (j_tool j)) \<and>
    jholds fl0 e0 (ns @ [dirent_bytes name ty (u32_of_int parent) (u32_of_int (j_last_ino j + 1)) (u32_of_int (j_last_version j))]) j')"
proof -
  let ?ino = "j_last_ino j + 1"
  let ?n = "dirent_bytes name ty (u32_of_int parent) (u32_of_int ?ino) (u32_of_int (j_last_version j))"
  have "u64_of_int (- int es) = 2 ^ 64 - es"
  proof -
    have "- int es mod 2 ^ 64 = 2 ^ 64 - int es" using es_pos es_less by (simp add: zmod_zminus1_eq_if)
    then show ?thesis using es_less by (simp add: u64_of_int_def nat_diff_distrib')
  qed
  then have big: "\<not> u64_of_int (j_ofs j - jes j) < sizeof_jffs2_raw_dirent + length name"
    using assms(2,3) jholds_es [OF assms(1)] es_less by (simp add: sizeof_jffs2_raw_dirent_def)
  have room: "node_room (length ?n) \<le> 300" using assms(3) by (simp add: length_dirent_bytes node_room_def)
  have fitn: "12 + int (length ?n) \<le> int es" and fit: "12 + length ?n \<le> es"
    using assms(3) block_size by (simp_all add: length_dirent_bytes)
  have inc: "inc_int (j_last_ino j) = Some ?ino" "inc_int ?ino = Some (?ino + 1)" "inc_int (j_last_version j) = Some (j_last_version j + 1)"
    using assms(4,5) by (simp_all add: inc_int_def)
  have "length ?n \<noteq> length CLEANMARKER" by (simp add: length_dirent_bytes)
  then have ne: "?n \<noteq> CLEANMARKER" by metis
  have wf: "node_wf ?n" using assms(3) by (intro dirent_wf) simp
  obtain j1 where p: "prep_eraseblock j = Some (Ret (), j1)" and j1: "jholds fl0 e0 ns j1" "keeps j j1" "j_ofs j1 = 12"
    using prep_ok [OF assms(1)] assms(2) by (auto simp: ensures_iff)
  let ?j2 = "j1\<lparr>j_buf := patch (j_buf j1) 12 ?n, j_last_ino := ?ino + 1, j_last_version := j_last_version j + 1,
      j_ofs := 12 + int (length ?n)\<rparr>"
  have mw: "mem_write (j_buf j1) 12 ?n = Some (patch (j_buf j1) 12 ?n)"
    using fit jholds_buf [OF j1(1)] by (intro mem_write_patch) simp
  have k: "j_last_ino j1 = j_last_ino j" "j_last_version j1 = j_last_version j" "img (world (j_tool j1)) = img (world (j_tool j))"
    using j1(2) by (simp_all add: keeps_def)
  have step: "add_dirent sys name ty parent j = andthen (pad sys 4 ?j2) (\<lambda>_ j. Some (Ret ?ino, j))"
    using big mw assms(3) by (simp add: add_dirent_def p j1(3) k inc andthen_def [of "Some _"] Let_def length_dirent_bytes
        sizeof_jffs2_raw_dirent_def)
  have "ensures (pad sys 4 ?j2) (\<lambda>(r, j'). r = Exit 1 \<or> r = Ret () \<and> keeps ?j2 j' \<and> jholds fl0 e0 (ns @ [?n]) j' \<and>
      (j_ofs j1 + int (node_room (length ?n)) < int es \<longrightarrow> 0 < j_ofs j'))"
    by (rule node_added [OF j1(1) wf ne]) (use fitn j1(3) in simp_all)
  then show ?thesis
    unfolding step
    by (rule ensures_andthen) (use room block_size j1(3) k in \<open>auto simp: keeps_def\<close>)
qed

text \<open>The nodes of the file \<open>name\<close>, whose contents are written in the pieces \<open>cs\<close>.\<close>

lemma add_file_ok:
  assumes "jholds fl0 e0 ns j" and "j_ofs j = 0" and "length (str_bytes (basename name)) \<le> 254"
    and "j_last_ino j < 2 ^ 31 - 2" and "j_last_version j + int (length (img (world (j_tool j)))) < 2 ^ 31 - 2"
    and "sys_stat sys name (world (j_tool j)) = Some st" and "\<And>w. 0 \<le> fst (sys_open_rd sys name w)"
  shows "ensures (add_file sys name parent j) (\<lambda>(r, j'). r = Exit 1 \<or>
    (\<exists>cs. r = Ret () \<and> concat cs = img (world (j_tool j)) \<and> 0 < j_ofs j' \<and>
      jholds fl0 e0 (ns @ file_nodes name parent (j_last_ino j) (j_last_version j) st cs) j'))"
proof -
  let ?ino = "j_last_ino j + 1"
  let ?n = "dirent_bytes (str_bytes (basename name)) DT_REG (u32_of_int parent) (u32_of_int ?ino) (u32_of_int (j_last_version j))"
  have lv: "j_last_version j < 2 ^ 31 - 1" using assms(5) by linarith
  have "add_file sys name parent j =
      andthen (add_dirent sys (str_bytes (basename name)) DT_REG parent j) (\<lambda>ino j.
        case on_world (sys_open_rd sys name) j of (fd, j) \<Rightarrow>
          if fd < 0 then Some (Ret (), j)
          else andthen (add_file_loop sys fd ino st 0 j) (\<lambda>_ j.
            Some (Ret (), snd (on_world (\<lambda>w. ((), sys_close sys fd w)) j))))"
    by (simp add: add_file_def assms(6))
  then show ?thesis
  proof (simp only:, intro ensures_andthen [OF add_dirent_ok [OF assms(1-4) lv]], goal_cases)
    case (1 c j1)
    then show ?case by auto
  next
    case (2 ino j1)
    then have j1: "ino = ?ino" "0 < j_ofs j1" "j_last_version j1 = j_last_version j + 1"
        "img (world (j_tool j1)) = img (world (j_tool j))" "jholds fl0 e0 (ns @ [?n]) j1"
      by auto
    obtain fd w where op: "sys_open_rd sys name (world (j_tool j1)) = (fd, w)" by fastforce
    let ?j2 = "j1\<lparr>j_tool := (j_tool j1)\<lparr>world := w\<rparr>\<rparr>"
    have fd: "\<not> fd < 0" using assms(7) [of "world (j_tool j1)"] op by simp
    note w = open_file [OF op]
    have imfd: "fd = imagefd" using w fd by simp
    have on: "on_world (sys_open_rd sys name) j1 = (fd, ?j2)" by (simp add: on_world_def op)
    have j2: "jholds fl0 e0 (ns @ [?n]) ?j2"
      by (rule jholds_cong [OF j1(5)]) (use w jholds_opened [OF j1(5)] in \<open>simp_all add: tool_opened_def\<close>)
    have lv2: "j_last_version ?j2 + int (length (img (world (j_tool ?j2)))) < 2 ^ 31 - 1"
      using assms(5) j1(3,4) w by simp
    have "ensures (andthen (add_file_loop sys imagefd ?ino st 0 ?j2) (\<lambda>_ j.
        Some (Ret (), snd (on_world (\<lambda>w. ((), sys_close sys imagefd w)) j)))) (\<lambda>(r, j'). r = Exit 1 \<or>
      (\<exists>cs. r = Ret () \<and> concat cs = img (world (j_tool j)) \<and> 0 < j_ofs j' \<and>
        jholds fl0 e0 (ns @ file_nodes name parent (j_last_ino j) (j_last_version j) st cs) j'))"
    proof (rule ensures_andthen [OF add_file_loop_ok [OF j2 _ lv2]], goal_cases)
      case 1
      then show ?case using j1(2) by simp
    next
      case (2 c j3)
      then show ?case by auto
    next
      case (3 u j3)
      then obtain cs where cs: "concat cs = img (world (j_tool j))" "0 < j_ofs j3"
          "jholds fl0 e0 (ns @ file_nodes name parent (j_last_ino j) (j_last_version j) st cs) j3"
        using j1(3,4) w by (auto simp: file_nodes_def add.commute [of _ 2])
      have "jholds fl0 e0 (ns @ file_nodes name parent (j_last_ino j) (j_last_version j) st cs)
          (snd (on_world (\<lambda>w. ((), sys_close sys imagefd w)) j3))"
        by (rule jholds_cong [OF cs(3)])
          (use jholds_opened [OF cs(3)] close_file close_dev in \<open>simp_all add: on_world_def tool_opened_def\<close>)
      then show ?case using cs(1,2) by (auto simp: on_world_def)
    qed
    then show ?case unfolding j1(1) on imfd using fd imfd by simp
  qed
qed

text \<open>The file and the end marker.\<close>

lemma add_eof_ok:
  assumes "jcore fl0 e0 BL j" and "j_ofs j = 0"
  shows "ensures (andthen (add_data sys JFFS2_EOF j) (\<lambda>_ j. pad sys (jes j) j)) (\<lambda>(r, j'). r = Exit 1 \<or>
    r = Ret () \<and> jcore fl0 e0 (BL @ [eof_block es]) j')"
proof -
  have len: "length (j_buf j) = es" using assms(1) by (simp add: jcore_def)
  note je = jcore_es [OF assms(1)]
  let ?j = "j\<lparr>j_buf := patch (j_buf j) 0 JFFS2_EOF, j_ofs := 4\<rparr>"
  have l4: "length JFFS2_EOF = 4" by (simp add: JFFS2_EOF_def)
  have add: "add_data sys JFFS2_EOF j = Some (Ret (), ?j)"
    using add_data_fits [of j JFFS2_EOF] len je assms(2) block_size l4 by simp
  have core: "jcore fl0 e0 BL ?j" using assms(1) len l4 block_size by (simp add: jcore_def)
  have "take 4 (j_buf ?j) = JFFS2_EOF" by (simp add: patch_def l4)
  then show ?thesis
    using pad_fill [OF core, of 4] block_size
    by (auto simp: add andthen_def [of "Some _"] ensures_iff eof_block_def)
qed

lemma add_file_and_eof_ok:
  assumes "jcore fl0 e0 [] j" and "j_ofs j = 0" and "length (str_bytes (basename name)) \<le> 254"
    and "j_last_ino j < 2 ^ 31 - 2" and "j_last_version j + int (length (img (world (j_tool j)))) < 2 ^ 31 - 2"
    and "sys_stat sys name (world (j_tool j)) = Some st" and "\<And>w. 0 \<le> fst (sys_open_rd sys name w)"
  shows "ensures (add_file_and_eof sys name j) (\<lambda>(r, j'). r = Exit 1 \<or>
    (\<exists>BL cs. r = Ret () \<and> concat cs = img (world (j_tool j)) \<and> jcore fl0 e0 (BL @ [eof_block es]) j' \<and>
      filter (\<lambda>n. n \<noteq> CLEANMARKER) (concat (map walk_nodes BL)) =
        file_nodes name (j_target_ino j) (j_last_ino j) (j_last_version j) st cs))"
  unfolding add_file_and_eof_def
proof (rule ensures_andthen [OF add_file_ok [OF jholds_empty [OF assms(1,2)] assms(2-7)]], goal_cases)
  case (1 c j1)
  then show ?case by auto
next
  case (2 u j1)
  then obtain cs where cs: "concat cs = img (world (j_tool j))" "0 < j_ofs j1"
      "jholds fl0 e0 (file_nodes name (j_target_ino j) (j_last_ino j) (j_last_version j) st cs) j1"
    by auto
  show ?case
  proof (rule ensures_andthen [OF pad_block_ok [OF cs(3,2)]], goal_cases)
    case (1 c j2)
    then show ?case by auto
  next
    case (2 u j2)
    then obtain BL where BL: "jcore fl0 e0 BL j2" "j_ofs j2 = 0"
        "file_nodes name (j_target_ino j) (j_last_ino j) (j_last_version j) st cs =
          filter (\<lambda>n. n \<noteq> CLEANMARKER) (concat (map walk_nodes BL))"
      by auto
    show ?case
      by (rule ensures_mono [OF add_eof_ok [OF BL(1,2)]]) (clarsimp, metis cs(1) BL(3))
  qed
qed

lemma mtd_replace_jffs2_ok:
  assumes "isdev fd" and "opened (j_tool j)" and "es dvd e0" and "e0 \<le> miu_size info" and "pos (world (j_tool j)) = e0"
    and "sys_malloc sys es" and "j_ofs j = 0" and "length (str_bytes (basename name)) \<le> 254"
    and "0 \<le> j_last_ino j" and "j_last_ino j < 2 ^ 31 - 2"
    and "j_last_version j + int (length (img (world (j_tool j)))) < 2 ^ 31 - 2"
    and "sys_stat sys name (world (j_tool j)) = Some st" and "\<And>w. 0 \<le> fst (sys_open_rd sys name w)"
  shows "ensures (mtd_replace_jffs2 sys fd (int e0) name j) (\<lambda>(r, j'). r = Exit 1 \<or>
    (\<exists>n cs. r = Ret (int n) \<and> concat cs = img (world (j_tool j)) \<and>
      (e0 + n \<le> miu_size info \<longrightarrow> same_outside e0 n (flash (world (j_tool j))) (flash (world (j_tool j'))) \<and>
        jffs2_holds info bad (flash (world (j_tool j'))) e0 n
          (file_nodes name 1 (max 1 (j_last_ino j)) (j_last_version j) st cs))))"
proof -
  let ?fl = "flash (world (j_tool j))"
  let ?j = "j\<lparr>j_outfd := fd, j_mtdofs := int e0, j_buf := replicate es 0, j_target_ino := 1, j_last_ino := max 1 (j_last_ino j)\<rparr>"
  have je: "jes (j\<lparr>j_outfd := fd, j_mtdofs := int e0\<rparr>) = int es"
    using assms(2) by (simp add: jes_def tool_opened_def)
  have ino: "(if j_last_ino j = 0 then 1 else j_last_ino j) = max 1 (j_last_ino j)" using assms(9) by auto
  have step: "mtd_replace_jffs2 sys fd (int e0) name j =
      andthen (add_file_and_eof sys name ?j) (\<lambda>_ j. Some (Ret (j_mtdofs j - int e0), j))"
    using assms(6) es_less by (simp add: mtd_replace_jffs2_def alloc_block_def je u64_of_int_def ino [symmetric] Let_def)
  have core: "jcore ?fl e0 [] ?j"
    using assms(1-5) by (auto simp: jcore_def on_flash_def same_outside_def good_bytes_def)
  have "ensures (add_file_and_eof sys name ?j) (\<lambda>(r, j'). r = Exit 1 \<or>
    (\<exists>BL cs. r = Ret () \<and> concat cs = img (world (j_tool j)) \<and> jcore ?fl e0 (BL @ [eof_block es]) j' \<and>
      filter (\<lambda>n. n \<noteq> CLEANMARKER) (concat (map walk_nodes BL)) =
        file_nodes name 1 (max 1 (j_last_ino j)) (j_last_version j) st cs))"
    using add_file_and_eof_ok [OF core, of name st] assms(7,8,10-13) by simp
  then show ?thesis
    unfolding step
  proof (rule ensures_andthen, goal_cases)
    case (1 c j1)
    then show ?case by auto
  next
    case (2 u j1)
    then obtain BL cs where cs: "concat cs = img (world (j_tool j))" "jcore ?fl e0 (BL @ [eof_block es]) j1"
        "filter (\<lambda>n. n \<noteq> CLEANMARKER) (concat (map walk_nodes BL)) =
          file_nodes name 1 (max 1 (j_last_ino j)) (j_last_version j) st cs"
      by auto
    then obtain m where m: "j_mtdofs j1 = int m" "on_flash ?fl e0 (BL @ [eof_block es]) (world (j_tool j1)) m"
      by (auto simp: jcore_def)
    have "e0 \<le> m" using m(2) by (simp add: on_flash_def)
    then have "j_mtdofs j1 - int e0 = int (m - e0)" "e0 + (m - e0) = m" using m(1) by simp_all
    moreover have "jffs2_holds info bad (flash (world (j_tool j1))) e0 (m - e0)
        (file_nodes name 1 (max 1 (j_last_ino j)) (j_last_version j) st cs)" if "m \<le> miu_size info"
      using that cs(3) m(2) by (auto simp: on_flash_def jffs2_holds_def intro!: exI [of _ BL])
    ultimately show ?case
      using cs(1) m(2) by (auto simp: on_flash_def intro!: exI [of _ "m - e0"] exI [of _ cs])
  qed
qed

end

end
