(* ===== verification/Mtdtool_Ram.thy ===== *)
theory Mtdtool_Ram
  imports Mtdtool_Append
begin

text \<open>
  A flash in memory behind the system calls of the \<^verbatim>\<open>mtd\<close> tool, as an instance of the interfaces
  \<open>mtd_chardev\<close>, \<open>mtd_stream\<close> and \<open>mtd_append\<close>: a NAND flash of 64 erase blocks, one of them bad, on which the commands can be run.
  Descriptor 3 is the device, at the position \<open>rf_pos\<close>; every other descriptor reads the file
  \<open>rf_in\<close> and writes to \<open>rf_out\<close>.
\<close>

section \<open>The flash\<close>

record rflash =
  rf_cells :: "nat \<Rightarrow> byte"
  rf_pos :: nat
  rf_in :: "byte list"
  rf_out :: "byte list"

definition ram_info :: mtd_info_user where
  "ram_info = \<lparr>miu_type = MTD_NANDFLASH, miu_size = 262144, miu_erasesize = 4096, miu_writesize = 2048\<rparr>"

definition ram_bad_at :: "nat \<Rightarrow> bool" where
  "ram_bad_at off \<longleftrightarrow> off = 0x3000"

definition rf_flash :: "rflash \<Rightarrow> byte list" where
  "rf_flash w = map (rf_cells w) [0..<262144]"

definition rf_erase :: "nat \<Rightarrow> nat \<Rightarrow> rflash \<Rightarrow> int \<times> rflash" where
  "rf_erase off n w =
     (if off + n \<le> 262144
      then (0, w\<lparr>rf_cells := (\<lambda>i. if off \<le> i \<and> i < off + n then 0xFF else rf_cells w i)\<rparr>)
      else (- 1, w))"

definition rf_program :: "nat \<Rightarrow> byte list \<Rightarrow> rflash \<Rightarrow> int \<times> rflash" where
  "rf_program off bs w =
     (if off + length bs \<le> 262144
      then (int (length bs), w\<lparr>rf_cells := (\<lambda>i. if off \<le> i \<and> i < off + length bs
          then bs ! (i - off) AND rf_cells w i else rf_cells w i)\<rparr>)
      else (- 1, w))"

definition rf_fetch :: "nat \<Rightarrow> nat \<Rightarrow> rflash \<Rightarrow> byte list" where
  "rf_fetch off n w = map (rf_cells w) [off..<min (off + n) 262144]"

definition rf_sys :: "rflash mtd_sys" where
  "rf_sys = \<lparr>
     sys_malloc = (\<lambda>_. True),
     sys_proc_mtd = (\<lambda>_. Some [''dev:    size   erasesize  name'', ''mtd0: 00040000 00001000 \"firmware\"'']),
     sys_open = (\<lambda>path w. if path = ''/dev/mtd0'' then (3, w\<lparr>rf_pos := 0\<rparr>) else (- 1, w)),
     sys_open_rd = (\<lambda>path w. (4, w)),
     sys_stat = (\<lambda>path w. Some \<lparr>st_mode = 0x81A4, st_size = length (rf_in w), st_atime = 0, st_mtime = 0, st_ctime = 0\<rparr>),
     sys_close = (\<lambda>fd w. w),
     sys_MEMGETINFO = (\<lambda>fd w. if fd = 3 then Some ram_info else None),
     sys_MEMGETBADBLOCK = (\<lambda>fd off w. (if 262144 \<le> off then - 1 else if ram_bad_at (nat off) then 1 else 0, w)),
     sys_MEMERASE = (\<lambda>fd. rf_erase),
     sys_MEMUNLOCK = (\<lambda>fd off n w. (0, w)),
     sys_pread = (\<lambda>fd n off w. (Some (rf_fetch off n w), w)),
     sys_pwrite = (\<lambda>fd bs off w. rf_program off bs w),
     sys_read = (\<lambda>fd n w.
       if fd = 3 then (let bs = rf_fetch (rf_pos w) n w in (Inr bs, w\<lparr>rf_pos := rf_pos w + length bs\<rparr>))
       else (Inr (take n (rf_in w)), w\<lparr>rf_in := drop n (rf_in w)\<rparr>)),
     sys_write = (\<lambda>fd bs w.
       if fd = 3 then (case rf_program (rf_pos w) bs w of (r, w') \<Rightarrow> (r, if r < 0 then w' else w'\<lparr>rf_pos := rf_pos w + length bs\<rparr>))
       else (int (length bs), w\<lparr>rf_out := rf_out w @ bs\<rparr>)),
     sys_lseek_set = (\<lambda>fd off w. w\<lparr>rf_pos := nat off\<rparr>),
     sys_lseek_cur = (\<lambda>fd off w. w\<lparr>rf_pos := nat (int (rf_pos w) + off)\<rparr>),
     sys_mmap = (\<lambda>fd n w. Some (rf_fetch 0 n w)),
     sys_msync = (\<lambda>fd bs w. w\<lparr>rf_cells := (\<lambda>i. if i < length bs then bs ! i else rf_cells w i)\<rparr>)\<rparr>"

lemma length_rf_flash [simp]: "length (rf_flash w) = 262144"
  by (simp add: rf_flash_def)

lemma nth_rf_flash: "i < 262144 \<Longrightarrow> rf_flash w ! i = rf_cells w i"
  by (simp add: rf_flash_def)

lemma rf_fetch_slice: "rf_fetch off n w = take n (drop off (rf_flash w))"
  by (rule nth_equalityI) (auto simp: rf_fetch_def nth_rf_flash min_def split: if_splits)

lemma rf_flash_cells: "rf_cells w' = rf_cells w \<Longrightarrow> rf_flash w' = rf_flash w"
  by (simp add: rf_flash_def)

lemma rf_erase_flash:
  assumes "rf_erase off n w = (r, w')"
  shows "same_outside off n (rf_flash w) (rf_flash w') \<and>
    (0 \<le> r \<longrightarrow> off + n \<le> 262144 \<and> rf_flash w' = patch (rf_flash w) off (replicate n 0xFF))"
  using assms
  by (auto simp: rf_erase_def same_outside_def nth_rf_flash nth_patch intro!: nth_equalityI split: if_splits)

lemma rf_program_flash:
  assumes "rf_program off bs w = (r, w')"
  shows "same_outside off (length bs) (rf_flash w) (rf_flash w') \<and>
    (r = int (length bs) \<longrightarrow> off + length bs \<le> 262144 \<and>
       rf_flash w' = patch (rf_flash w) off (map2 (AND) bs (take (length bs) (drop off (rf_flash w)))))"
  using assms
  by (auto simp: rf_program_def same_outside_def nth_rf_flash nth_patch intro!: nth_equalityI split: if_splits)

section \<open>The interface\<close>

interpretation rf: mtd_chardev rf_sys "\<lambda>fd. fd = 3" rf_flash ram_info ram_bad_at
proof (unfold_locales, goal_cases)
  case 1 show ?case by (simp add: ram_info_def)
next
  case 2 show ?case by (rule exI [of _ 12]) (simp add: ram_info_def)
next
  case (3 w) show ?case by (simp add: ram_info_def)
next
  case (4 w lines line)
  then have "line = ''dev:    size   erasesize  name'' \<or> line = ''mtd0: 00040000 00001000 \"firmware\"''"
    by (auto simp: rf_sys_def)
  then show ?case
    by (elim disjE; hypsubst) (simp_all add: scan_mtd_def scan_int_def is_space_def is_digit_def)
next
  case (5 path w fd w')
  then show ?case by (auto simp: rf_sys_def split: if_splits intro: rf_flash_cells)
next
  case (11 fd off n w r w')
  then show ?case using rf_erase_flash [of off n w] by (simp add: rf_sys_def ram_info_def)
next
  case (12 fd n off w res w')
  then show ?case by (auto simp: rf_sys_def rf_fetch_slice min_def)
next
  case (13 fd bs off w r w')
  then show ?case using rf_program_flash [of off bs w] by (simp add: rf_sys_def ram_info_def)
qed (auto simp: rf_sys_def split: if_splits)

interpretation rf_stream: mtd_stream rf_sys "\<lambda>fd. fd = 3" rf_flash ram_info ram_bad_at rf_pos rf_in 4 rf_out
proof (unfold_locales, goal_cases)
  case (10 fd n w res w')
  then show ?case
    by (auto simp: rf_sys_def rf_fetch_slice Let_def intro: rf_flash_cells)
next
  case (11 fd bs w r w')
  obtain r1 w1 where 1: "rf_program (rf_pos w) bs w = (r1, w1)" by fastforce
  then have w1: "rf_in w1 = rf_in w" "rf_out w1 = rf_out w" "r1 \<le> int (length bs)" "r1 < 0 \<or> r1 = int (length bs)"
    by (auto simp: rf_program_def split: if_splits)
  have "r = r1" "w' = (if r1 < 0 then w1 else w1\<lparr>rf_pos := rf_pos w + length bs\<rparr>)"
    using 11 1 by (auto simp: rf_sys_def)
  then show ?case
    using rf_program_flash [OF 1] w1 rf_flash_cells [of w' w1] by (auto simp: ram_info_def)
qed (auto simp: rf_sys_def rf_erase_def ram_info_def split: if_splits intro: rf_flash_cells)

lemma rf_erase_works: "erase_works rf_sys (\<lambda>fd. fd = 3) ram_info ram_bad_at"
  by (auto simp: erase_works_def rf_sys_def rf_erase_def ram_info_def)

interpretation rf_append: mtd_append rf_sys "\<lambda>fd. fd = 3" rf_flash ram_info ram_bad_at rf_pos rf_in 4 rf_out
proof (unfold_locales, goal_cases)
  case 1 show ?case by (rule rf_erase_works)
next
  case (2 fd w bs)
  then show ?case by (simp add: rf_sys_def rf_program_def ram_info_def)
qed (auto simp: rf_sys_def ram_info_def)

lemma rf_reads_work: "reads_work rf_sys (\<lambda>fd. fd = 3) ram_info"
  by (auto simp: reads_work_def rf_sys_def rf_fetch_def ram_info_def)

lemma rf_writes_whole: "writes_whole rf_sys (\<lambda>fd. fd = 3)"
  by (auto simp: writes_whole_def rf_sys_def rf_program_def)

text \<open>A state of the flash: what its first bytes are, erased behind them.\<close>

definition rf_tool :: "byte list \<Rightarrow> rflash tool" where
  "rf_tool bs = \<lparr>mtdsize = 0, erasesize = 0, mtdtype = 0,
     world = \<lparr>rf_cells = (\<lambda>i. if i < length bs then bs ! i else 0xFF), rf_pos = 0, rf_in = [], rf_out = []\<rparr>\<rparr>"

lemma rf_tool_flash: "length bs \<le> 262144 \<Longrightarrow> rf_flash (world (rf_tool bs)) = bs @ replicate (262144 - length bs) 0xFF"
  by (rule nth_equalityI) (auto simp: rf_tool_def nth_rf_flash nth_append)

text \<open>The device opened, and a file to append to it.\<close>

definition rf_jffs2 :: "byte list \<Rightarrow> rflash jffs2" where
  "rf_jffs2 bs = \<lparr>j_last_ino = 0, j_last_version = 0, j_buf = [], j_ofs = 0, j_outfd = - 1, j_mtdofs = 0, j_target_ino = 0,
     j_tool = \<lparr>mtdsize = 262144, erasesize = 4096, mtdtype = MTD_NANDFLASH, world = (world (rf_tool []))\<lparr>rf_in := bs\<rparr>\<rparr>\<rparr>"

text \<open>The writer of an image, with an empty buffer of the size of an erase block.\<close>

definition rf_writer :: "byte list \<Rightarrow> rflash writer" where
  "rf_writer bs = \<lparr>wr_buf = Some (replicate 4096 0), wr_buflen = 0, wr_imageformat = MTD_IMAGE_FORMAT_UNKNOWN, wr_jffs2file = None,
     wr_j = \<lparr>j_last_ino = 0, j_last_version = 0, j_buf = [], j_ofs = 0, j_outfd = - 1, j_mtdofs = 0, j_target_ino = 0,
       j_tool = (rf_tool [])\<lparr>world := (world (rf_tool []))\<lparr>rf_in := bs\<rparr>\<rparr>\<rparr>\<rparr>"

definition rf_settings :: settings where
  "rf_settings = \<lparr>su_jffs2dir = [], su_tpl_uboot_args_part = None, su_no_erase = False, su_jffs2_skip_bytes = 0,
     su_target_brcm = False, su_trx = False, su_seama = True, su_wrg = False, su_wrgg = True, su_tpl = False, su_resetbc = False\<rparr>"

text \<open>A boot counter log with one entry, which counts three failed boots.\<close>

definition bc_tool :: "rflash tool" where
  "bc_tool = rf_tool (le_enc 4 BOOTCOUNT_MAGIC @ le_enc 4 3)"

lemma bytes_at_erased_tail:
  assumes "length bs \<le> p" and "p + k \<le> length bs + m"
  shows "bytes_at (bs @ replicate m 0xFF) p k = replicate k 0xFF"
  using assms by (intro nth_equalityI) (auto simp: bytes_at_def nth_append)

lemma bc_tool_log: "bc_log 2048 128 (rf_flash (world bc_tool)) 1"
proof -
  let ?e = "le_enc 4 BOOTCOUNT_MAGIC @ le_enc 4 (3 :: nat)"
  have fl: "rf_flash (world bc_tool) = ?e @ replicate 262136 0xFF"
    using rf_tool_flash [of ?e] by (simp add: bc_tool_def)
  have magic: "u32_at (?e @ replicate 262136 0xFF) 0 = BOOTCOUNT_MAGIC"
    by (simp add: u32_at_def bytes_at_def le_dec_le_enc_id BOOTCOUNT_MAGIC_def)
  have ones: "u32_at (?e @ replicate 262136 0xFF) (i * 2048) = 0xffffffff" if "1 \<le> i" "i < 128" for i
    using that bytes_at_erased_tail [of ?e "i * 2048" 4 262136] by (simp add: u32_at_def replicate_4)
  show ?thesis
    using magic ones by (simp add: bc_log_def fl)
qed

lemma bc_tool_count: "bc_count 2048 (rf_flash (world bc_tool)) 1 = 3"
  using rf_tool_flash [of "le_enc 4 BOOTCOUNT_MAGIC @ le_enc 4 (3 :: nat)"]
  by (simp add: bc_count_def bc_tool_def u32_at_def bytes_at_def le_dec_le_enc_id)

end
