(* ===== verification/Mtdtool_Spec.thy ===== *)
theory Mtdtool_Spec
  imports Mtdtool_Ram
begin

text \<open>
  The properties of the \<^verbatim>\<open>mtd\<close> tool, over the interface \<open>mtd_chardev\<close>; the witnesses run the
  commands on the flash of \<open>Mtdtool_Ram\<close>.
\<close>

section \<open>The digest\<close>

text \<open>
  C11: the MD5 of the tool, fed with a message in any pieces and from any context in memory, yields the
  digest of RFC 1321 of the whole message.
\<close>

theorem md5_is_rfc1321:
  assumes "length (ctx_in ctx) = 64" and "\<And>c. c \<in> set cs \<Longrightarrow> length c < 2 ^ 32"
  shows "ensures (do { ctx \<leftarrow> md5_update_all (MD5_Init ctx) cs; MD5_Final ctx })
    (\<lambda>(digest, ctx'). digest = md5_ref (concat cs))"
  by (rule MD5_stream [OF assms])

theorem md5_is_rfc1321_witness:
  "ensures (do { ctx \<leftarrow> md5_update_all (MD5_Init md5_stack_ctx) [[0x61], [0x62, 0x63]]; MD5_Final ctx })
    (\<lambda>(digest, ctx'). digest =
      [0x90, 0x01, 0x50, 0x98, 0x3c, 0xd2, 0x4f, 0xb0, 0xd6, 0x96, 0x3f, 0x7d, 0x28, 0xe1, 0x7f, 0x72])"
proof -
  have "length c < 2 ^ 32" if "c \<in> set [[0x61], [0x62, 0x63 :: byte]]" for c
    using that by auto
  then show ?thesis
    using md5_is_rfc1321 [OF length_md5_stack_ctx, of "[[0x61], [0x62, 0x63]]"] by (simp add: md5_ref_abc)
qed

section \<open>Headers of firmware images\<close>

text \<open>
  C12: \<^verbatim>\<open>fixtrx\<close> returns. Either it ends the program with code 1, having changed nothing outside the erase block of
  the header, or it returns 0, has changed at most the length and the checksum of the header, and the
  header then holds the length and the checksum (\<^verbatim>\<open>crc32buf\<close>) of the data in good blocks.
\<close>

theorem fixtrx_valid:
  assumes "mtd_chardev sys isdev flash info bad"
    and "offset mod miu_erasesize info + 12 \<le> miu_erasesize info" and "offset < 2 ^ 31" and "n < 2 ^ 31"
  shows "ensures (mtd_fixtrx sys mtd offset n t) (\<lambda>(r, t').
    r = Exit 1 \<and> same_outside (offset div miu_erasesize info * miu_erasesize info) (miu_erasesize info)
      (flash (world t)) (flash (world t')) \<or>
    r = Ret 0 \<and> changes_in {offset + 4..<offset + 12} (flash (world t)) (flash (world t')) \<and>
      trx_valid info bad offset (if n = 0 then miu_erasesize info - 12 else n + 16) (flash (world t')))"
  by (rule mtd_chardev.fixtrx_ok [OF assms])

theorem fixtrx_valid_witness:
  "ensures (mtd_fixtrx rf_sys ''firmware'' 4096 8192 (rf_tool [])) (\<lambda>(r, t').
    r = Ret 0 \<longrightarrow> trx_valid ram_info ram_bad_at 4096 8208 (rf_flash (world t')))"
  using fixtrx_valid [OF rf.mtd_chardev_axioms, of 4096 8192 "''firmware''" "rf_tool []"]
  by (auto simp: ram_info_def ensures_iff)



section \<open>Messages to the boot loader\<close>

text \<open>
  C21: \<^verbatim>\<open>resetbc\<close> on a boot counter log (entries with the magic number in front of erased pages) returns;
  unless it reports an error, the log is in order afterwards and its last entry counts 0, also when the
  log was full and had to be erased. Pages have at most 2048 bytes, the size of the buffer of the tool.
\<close>

theorem resetbc_resets:
  assumes "mtd_chardev sys isdev flash info bad" and "reads_work sys isdev info" and "writes_whole sys isdev"
    and "miu_writesize info \<le> 2048"
    and "bc_log (bc_increment info) (miu_size info div bc_increment info) (flash (world t)) k"
  shows "ensures (mtd_resetbc sys mtd t) (\<lambda>(ret, t'). ret \<in> {- 1, - 3, - 4} \<or>
    ret = 0 \<and> (\<exists>k'. bc_log (bc_increment info) (miu_size info div bc_increment info) (flash (world t')) k' \<and>
      bc_count (bc_increment info) (flash (world t')) k' = 0))"
  using mtd_chardev.resetbc_ok [OF assms(1-4) refl refl assms(5)] by (auto simp: ensures_iff bc_reset_def)

theorem resetbc_resets_witness:
  "bc_count 2048 (rf_flash (world bc_tool)) 1 = 3 \<and>
   ensures (mtd_resetbc rf_sys ''firmware'' bc_tool) (\<lambda>(ret, t'). ret \<in> {- 1, - 3, - 4} \<or>
    ret = 0 \<and> (\<exists>k'. bc_log 2048 128 (rf_flash (world t')) k' \<and> bc_count 2048 (rf_flash (world t')) k' = 0))"
proof -
  have inc: "bc_increment ram_info = 2048" "miu_size ram_info div 2048 = 128" "miu_writesize ram_info = 2048"
    by (simp_all add: bc_increment_def BC_OFFSET_INCREMENT_MIN_def ram_info_def)
  show ?thesis
    using resetbc_resets [OF rf.mtd_chardev_axioms rf_reads_work rf_writes_whole, of bc_tool 1 "''firmware''"]
      bc_tool_log bc_tool_count by (simp add: inc)
qed

text \<open>
  C22: writing the TP-Link recovery flag returns, given that the device opened before has the same erase
  block size; it changes nothing behind the first erase block, and unless it reports an error, the flash
  is as before but for the flag in its first four bytes.
\<close>

theorem recovery_flag_set:
  assumes "mtd_chardev sys isdev flash info bad" and "reads_work sys isdev info" and "writes_whole sys isdev"
    and "erasesize t = int (miu_erasesize info)" and "4 \<le> miu_erasesize info"
    and "miu_erasesize info \<le> miu_size info"
  shows "ensures (mtd_tpl_recoverflag_write sys mtd active t) (\<lambda>(ret, t').
    same_outside 0 (miu_erasesize info) (flash (world t)) (flash (world t')) \<and>
    (0 \<le> ret \<longrightarrow> flash (world t') =
       patch (flash (world t)) 0 (le_enc 4 (if active then TPL_RECOVER_MAGIC else TPL_NO_RECOVER_MAGIC))))"
  by (rule mtd_chardev.tpl_flag_ok [OF assms refl])

theorem recovery_flag_set_witness:
  "ensures (mtd_tpl_recoverflag_write rf_sys ''firmware'' True ((rf_tool [])\<lparr>erasesize := 4096\<rparr>)) (\<lambda>(ret, t').
    0 \<le> ret \<longrightarrow> rf_flash (world t') = patch (rf_flash (world (rf_tool []))) 0 (le_enc 4 TPL_RECOVER_MAGIC))"
  using recovery_flag_set [OF rf.mtd_chardev_axioms rf_reads_work rf_writes_whole,
      of "(rf_tool [])\<lparr>erasesize := 4096\<rparr>" "''firmware''" True]
  by (auto simp: ram_info_def ensures_iff)

section \<open>Transfer of images\<close>

text \<open>
  C14: \<^verbatim>\<open>write\<close> returns. Unless it ends the program with code 1, the good blocks from the start of the device
  up to some offset hold the image (what is in the buffer and what is left of the file), filled up to
  a whole block with \<^verbatim>\<open>0xff\<close>, and nothing behind that offset has changed; bad blocks are skipped.
\<close>

theorem image_written:
  assumes "mtd_stream sys isdev flash info bad pos img imagefd out"
    and "\<not> su_no_erase su" and "su_tpl_uboot_args_part su = None" and "CHR '':'' \<notin> set mtd" and "wr_jffs2file s = None"
    and "wr_buf s = Some buf" and "length buf = miu_erasesize info" and "0 \<le> wr_buflen s" and "wr_buflen s \<le> int (length buf)"
  shows "ensures (mtd_write sys su imagefd mtd 0 s) (\<lambda>(r, s'). r = Exit 1 \<or>
    r = Ret 0 \<and> (\<exists>e \<le> miu_size info. miu_erasesize info dvd e \<and>
      good_bytes info bad (flash (world (wtool s'))) 0 e =
        fill_up (miu_erasesize info) (take (nat (wr_buflen s)) buf @ img (world (wtool s))) \<and>
      same_outside 0 e (flash (world (wtool s))) (flash (world (wtool s')))))"
  by (rule mtd_stream.mtd_write_ok [OF assms(1-5)])
    (use assms(6-9) in \<open>simp add: mtd_stream.holds_def [OF assms(1)]\<close>)

theorem image_written_witness:
  "ensures (mtd_write rf_sys rf_settings 4 ''firmware'' 0 (rf_writer (replicate 20000 7))) (\<lambda>(r, s'). r = Ret 0 \<longrightarrow>
    (\<exists>e \<le> 262144. good_bytes ram_info ram_bad_at (rf_flash (world (wtool s'))) 0 e = replicate 20000 7 @ replicate 480 0xFF))"
  using image_written [OF rf_stream.mtd_stream_axioms, of rf_settings "''firmware''" "rf_writer (replicate 20000 7)" "replicate 4096 0"]
  by (auto simp: ensures_iff rf_settings_def rf_writer_def ram_info_def fill_up_def wtool_def)

text \<open>
  C15: what \<^verbatim>\<open>write\<close> has put on flash, \<^verbatim>\<open>dump\<close> of that many bytes delivers on the standard output, bad
  blocks or not, unless one of the two reports an error.
\<close>

theorem write_dump_roundtrip:
  assumes "mtd_stream sys isdev flash info bad pos img imagefd out"
    and "\<not> su_no_erase su" and "su_tpl_uboot_args_part su = None" and "CHR '':'' \<notin> set mtd" and "wr_jffs2file s = None"
    and "wr_buf s = Some buf" and "length buf = miu_erasesize info" and "wr_buflen s = 0" and "img (world (wtool s)) \<noteq> []"
    and "data = fill_up (miu_erasesize info) (img (world (wtool s)))"
  shows "ensures (mtd_write sys su imagefd mtd 0 s) (\<lambda>(r, s'). r = Exit 1 \<or>
    r = Ret 0 \<and> ensures (mtd_dump sys mtd 0 (int (length data)) (wtool s')) (\<lambda>(r', t'). r' = Exit 1 \<or> r' = Ret (- 1) \<or>
      r' = Ret 0 \<and> out (world t') = out (world (wtool s')) @ data))"
proof (rule ensures_mono [OF mtd_stream.mtd_write_ok [OF assms(1-5), of "img (world (wtool s))"]], goal_cases)
  case 1
  show ?case using assms(6-8) by (simp add: mtd_stream.holds_def [OF assms(1)])
next
  case (2 x)
  obtain r s' where x: "x = (r, s')" by (cases x)
  let ?es = "miu_erasesize info" and ?fl = "flash (world (wtool s'))"
  have len: "?es dvd length data"
    using dvd_length_fill_up [OF mtd_chardev.es_pos [OF mtd_stream.axioms(1) [OF assms(1)]]] assms(10) by simp
  have pos: "0 < length data" using assms(9,10) by (simp add: fill_up_def)
  show ?case
  proof (cases "r = Exit 1")
    case False
    then obtain e where e: "r = Ret 0" "e \<le> miu_size info" "good_bytes info bad ?fl 0 e = data"
      using 2 assms(10) by (auto simp: x)
    have "length data \<le> e" using length_good_bytes [of info bad ?fl 0 e] e(3) by simp
    then have sz: "0 < miu_size info" using e(2) pos by linarith
    have "take (length data) (good_bytes info bad ?fl 0 (miu_size info)) = data"
      using good_bytes_split [OF e(2), of info bad ?fl 0] e(3) by simp
    then show ?thesis
      using mtd_stream.dump_ok [OF assms(1) len sz, of mtd "wtool s'"] pos by (auto simp: x e(1) ensures_iff)
  qed (simp add: x)
qed

theorem write_dump_roundtrip_witness:
  "ensures (mtd_write rf_sys rf_settings 4 ''firmware'' 0 (rf_writer (replicate 20000 7))) (\<lambda>(r, s'). r = Exit 1 \<or>
    r = Ret 0 \<and> ensures (mtd_dump rf_sys ''firmware'' 0 20480 (wtool s')) (\<lambda>(r', t'). r' = Exit 1 \<or> r' = Ret (- 1) \<or>
      r' = Ret 0 \<and> rf_out (world t') = rf_out (world (wtool s')) @ replicate 20000 7 @ replicate 480 0xFF))"
  using write_dump_roundtrip [OF rf_stream.mtd_stream_axioms, of rf_settings "''firmware''" "rf_writer (replicate 20000 7)"
      "replicate 4096 0" "replicate 20000 7 @ replicate 480 0xFF"]
  by (simp add: rf_settings_def rf_writer_def ram_info_def fill_up_def wtool_def)

text \<open>
  C16: \<^verbatim>\<open>erase\<close> returns. Unless it ends the program with code 1, every byte in a good block is \<^verbatim>\<open>0xff\<close> and
  every byte in a bad block is as before, given that good blocks can be erased.
\<close>

theorem good_blocks_erased:
  assumes "mtd_stream sys isdev flash info bad pos img imagefd out" and "erase_works sys isdev info bad"
  shows "ensures (mtd_erase sys mtd t) (\<lambda>(r, t'). r = Exit 1 \<or> r = Ret 0 \<and> (\<forall>i < miu_size info.
    flash (world t') ! i = (if miu_type info = MTD_NANDFLASH \<and> bad (i div miu_erasesize info * miu_erasesize info)
      then flash (world t) ! i else 0xFF)))"
  using mtd_stream.erase_ok [OF assms, of mtd t] mtd_chardev.flash_size [OF mtd_stream.axioms(1) [OF assms(1)]]
  by (auto simp: ensures_iff erased_from_def)

theorem good_blocks_erased_witness:
  "ensures (mtd_erase rf_sys ''firmware'' (rf_tool (replicate 16384 5))) (\<lambda>(r, t'). r = Ret 0 \<longrightarrow>
    rf_flash (world t') ! 0 = 0xFF \<and> rf_flash (world t') ! 0x3000 = 5)"
  using good_blocks_erased [OF rf_stream.mtd_stream_axioms rf_erase_works, of "''firmware''" "rf_tool (replicate 16384 5)"]
  by (auto simp: ensures_iff ram_info_def ram_bad_at_def rf_tool_flash nth_append)

section \<open>Appended files\<close>

text \<open>
  C17: appending a file to a file system returns. Unless it ends the program with code 1, it yields the number
  of bytes it took; if these fit into the device, its good blocks hold the nodes of the file (a directory
  entry and inodes whose data together are the file, in order, with consecutive versions and offsets),
  each where a reader that walks over the block finds it, then a block with the end marker; nothing
  else has changed. Names have at most 254 bytes, blocks at least 512.
\<close>

theorem file_appended:
  assumes "mtd_append sys isdev flash info bad pos img imagefd out"
    and "isdev fd" and "tool_opened info (j_tool j)" and "miu_erasesize info dvd e0" and "e0 \<le> miu_size info"
    and "pos (world (j_tool j)) = e0" and "sys_malloc sys (miu_erasesize info)" and "j_ofs j = 0"
    and "length (str_bytes (basename name)) \<le> 254" and "0 \<le> j_last_ino j" and "j_last_ino j < 2 ^ 31 - 2"
    and "j_last_version j + int (length (img (world (j_tool j)))) < 2 ^ 31 - 2"
    and "sys_stat sys name (world (j_tool j)) = Some st" and "\<And>w. 0 \<le> fst (sys_open_rd sys name w)"
  shows "ensures (mtd_replace_jffs2 sys fd (int e0) name j) (\<lambda>(r, j'). r = Exit 1 \<or>
    (\<exists>n cs. r = Ret (int n) \<and> concat cs = img (world (j_tool j)) \<and>
      (e0 + n \<le> miu_size info \<longrightarrow> same_outside e0 n (flash (world (j_tool j))) (flash (world (j_tool j'))) \<and>
        jffs2_holds info bad (flash (world (j_tool j'))) e0 n
          (file_nodes name 1 (max 1 (j_last_ino j)) (j_last_version j) st cs))))"
  by (rule mtd_append.mtd_replace_jffs2_ok [OF assms])

theorem file_appended_witness:
  "ensures (mtd_replace_jffs2 rf_sys 3 0 ''/tmp/sysupgrade.tgz'' (rf_jffs2 (replicate 10000 7))) (\<lambda>(r, j'). r = Exit 1 \<or>
    (\<exists>n cs st. r = Ret (int n) \<and> concat cs = replicate 10000 7 \<and>
      (n \<le> 262144 \<longrightarrow> jffs2_holds ram_info ram_bad_at (rf_flash (world (j_tool j'))) 0 n
        (file_nodes ''/tmp/sysupgrade.tgz'' 1 1 0 st cs))))"
proof -
  let ?j = "rf_jffs2 (replicate 10000 7)" and ?name = "''/tmp/sysupgrade.tgz''"
  have short: "length (str_bytes (basename ?name)) \<le> 254" by (simp add: basename_def str_bytes_def)
  obtain st where st: "sys_stat rf_sys ?name (world (j_tool ?j)) = Some st" by (simp add: rf_sys_def)
  have "ensures (mtd_replace_jffs2 rf_sys 3 (int 0) ?name ?j) (\<lambda>(r, j'). r = Exit 1 \<or>
    (\<exists>n cs. r = Ret (int n) \<and> concat cs = rf_in (world (j_tool ?j)) \<and>
      (0 + n \<le> miu_size ram_info \<longrightarrow> same_outside 0 n (rf_flash (world (j_tool ?j))) (rf_flash (world (j_tool j'))) \<and>
        jffs2_holds ram_info ram_bad_at (rf_flash (world (j_tool j'))) 0 n
          (file_nodes ?name 1 (max 1 (j_last_ino ?j)) (j_last_version ?j) st cs))))"
    by (rule file_appended [OF rf_append.mtd_append_axioms _ _ _ _ _ _ _ short _ _ _ st])
      (simp_all add: rf_jffs2_def rf_tool_def rf_sys_def tool_opened_def ram_info_def)
  from this [unfolded semiring_1_class.of_nat_0] show ?thesis
    by (rule ensures_mono) (auto simp: rf_jffs2_def ram_info_def)
qed

end
