(* ===== verification/Nmbm_Phys.thy ===== *)
theory Nmbm_Phys
  imports Nmbm_Types
begin

text \<open>
  Address conversion and the high-level NAND chip operations of \<^verbatim>\<open>nmbm-core.c\<close> (lines 142 to
  371): page reads and writes and block erasure with retry, and the bad block marks. Log
  output is not modelled; the log level, which is state, is.
\<close>

definition nmbm_set_log_level ::
  "'d nmbm_instance \<Rightarrow> nmbm_log_category \<Rightarrow> nmbm_log_category \<times> 'd nmbm_instance" where
  "nmbm_set_log_level ni level =
     (let old = log_display_level ni in (old, ni\<lparr>log_display_level := level\<rparr>))"

section \<open>Address conversion\<close>

definition addr2ba :: "'d nmbm_instance \<Rightarrow> nat \<Rightarrow> nat" where
  "addr2ba ni addr = u32 (drop_bit (erasesize_shift ni) addr)"

definition ba2addr :: "'d nmbm_instance \<Rightarrow> nat \<Rightarrow> nat" where
  "ba2addr ni ba = u64 (push_bit (erasesize_shift ni) ba)"

definition size2blk :: "'d nmbm_instance \<Rightarrow> nat \<Rightarrow> nat" where
  "size2blk ni sz = u32 (drop_bit (erasesize_shift ni) (sub64 (sz + erasesize (lower ni)) 1))"

text \<open>
  The offsets visited by \<^verbatim>\<open>for (off = 0; off < erasesize; off += writesize)\<close>; a write size
  of 0 is refused by \<^verbatim>\<open>nmbm_check_lower_members\<close> before any such loop runs.
\<close>

definition page_offsets :: "'d nmbm_instance \<Rightarrow> nat list" where
  "page_offsets ni =
     (let es = erasesize (lower ni); ws = writesize (lower ni)
      in map (\<lambda>i. i * ws) [0..<(es + ws - 1) div ws])"

section \<open>Chip operations with retry\<close>

definition nmbm_reset_chip :: "'d nmbm_instance \<Rightarrow> 'd nmbm_instance" where
  "nmbm_reset_chip ni =
     (case reset_chip (lower ni) of
        None \<Rightarrow> ni
      | Some f \<Rightarrow> set_dev (snd (f (dev ni))) ni)"

fun nmbm_read_phys_page_loop ::
  "nat \<Rightarrow> 'd nmbm_instance \<Rightarrow> nat \<Rightarrow> bool \<Rightarrow> bool \<Rightarrow> nmbm_oob_mode \<Rightarrow>
     (int \<times> byte list \<times> byte list \<times> 'd nmbm_instance) option" where
  "nmbm_read_phys_page_loop 0 ni addr data oob mode = None"
| "nmbm_read_phys_page_loop (Suc tries) ni addr data oob mode =
     do {
       rp \<leftarrow> read_page (lower ni);
       let (ret, dat, ob, d) = rp (dev ni) addr data oob mode;
       let ni = set_dev d ni;
       if 0 \<le> ret then Some (ret, dat, ob, ni)
       else do {
         let ni = nmbm_reset_chip ni;
         if tries = 0 then Some (ret, dat, ob, ni)
         else nmbm_read_phys_page_loop tries ni addr data oob mode
       }
     }"

definition nmbm_read_phys_page ::
  "'d nmbm_instance \<Rightarrow> nat \<Rightarrow> bool \<Rightarrow> bool \<Rightarrow> nmbm_oob_mode \<Rightarrow>
     (int \<times> byte list \<times> byte list \<times> 'd nmbm_instance) option" where
  "nmbm_read_phys_page ni addr data oob mode =
     nmbm_read_phys_page_loop NMBM_TRY_COUNT ni addr data oob mode"

fun nmbm_write_phys_page_loop ::
  "nat \<Rightarrow> 'd nmbm_instance \<Rightarrow> nat \<Rightarrow> byte list option \<Rightarrow> byte list option \<Rightarrow> nmbm_oob_mode \<Rightarrow>
     (bool \<times> 'd nmbm_instance) option" where
  "nmbm_write_phys_page_loop 0 ni addr data oob mode = Some (False, ni)"
| "nmbm_write_phys_page_loop (Suc tries) ni addr data oob mode =
     do {
       wp \<leftarrow> write_page (lower ni);
       let (ret, d) = wp (dev ni) addr data oob mode;
       let ni = set_dev d ni;
       if ret = 0 then Some (True, ni)
       else nmbm_write_phys_page_loop tries (nmbm_reset_chip ni) addr data oob mode
     }"

definition nmbm_write_phys_page ::
  "'d nmbm_instance \<Rightarrow> nat \<Rightarrow> byte list option \<Rightarrow> byte list option \<Rightarrow> nmbm_oob_mode \<Rightarrow>
     (bool \<times> 'd nmbm_instance) option" where
  "nmbm_write_phys_page ni addr data oob mode =
     (if has_flag ni NMBM_F_READ_ONLY then Some (False, ni)
      else nmbm_write_phys_page_loop NMBM_TRY_COUNT ni addr data oob mode)"

fun nmbm_erase_phys_block_loop ::
  "nat \<Rightarrow> 'd nmbm_instance \<Rightarrow> nat \<Rightarrow> (bool \<times> 'd nmbm_instance) option" where
  "nmbm_erase_phys_block_loop 0 ni addr = Some (False, ni)"
| "nmbm_erase_phys_block_loop (Suc tries) ni addr =
     do {
       eb \<leftarrow> erase_block (lower ni);
       let (ret, d) = eb (dev ni) addr;
       let ni = set_dev d ni;
       if ret = 0 then Some (True, ni)
       else nmbm_erase_phys_block_loop tries (nmbm_reset_chip ni) addr
     }"

definition nmbm_erase_phys_block ::
  "'d nmbm_instance \<Rightarrow> nat \<Rightarrow> (bool \<times> 'd nmbm_instance) option" where
  "nmbm_erase_phys_block ni addr =
     (if has_flag ni NMBM_F_READ_ONLY then Some (False, ni)
      else nmbm_erase_phys_block_loop NMBM_TRY_COUNT ni addr)"

section \<open>Bad block marks\<close>

definition nmbm_check_bad_phys_block ::
  "'d nmbm_instance \<Rightarrow> nat \<Rightarrow> (bool \<times> 'd nmbm_instance) option" where
  "nmbm_check_bad_phys_block ni ba =
     (let addr = ba2addr ni ba in
      case is_bad_block (lower ni) of
        Some f \<Rightarrow> (let (ret, d) = f (dev ni) addr in Some (ret \<noteq> 0, set_dev d ni))
      | None \<Rightarrow>
          do {
            (ret, _, oob, ni) \<leftarrow> nmbm_read_phys_page ni addr False True NMBM_MODE_RAW;
            pc \<leftarrow> mem_write (page_cache ni) (writesize (lower ni)) oob;
            let ni = ni\<lparr>page_cache := pc\<rparr>;
            if ret < 0 \<and> ret \<noteq> - EBADMSG then Some (True, ni)
            else do {
              b \<leftarrow> arr_get (page_cache ni) (writesize (lower ni));
              Some (b \<noteq> 0xff, ni)
            }
          })"

text \<open>The page loop of \<^verbatim>\<open>nmbm_mark_phys_bad_block\<close>: the results of the writes are ignored.\<close>

fun nmbm_mark_pages_loop ::
  "nat list \<Rightarrow> 'd nmbm_instance \<Rightarrow> nat \<Rightarrow> 'd nmbm_instance option" where
  "nmbm_mark_pages_loop [] ni addr = Some ni"
| "nmbm_mark_pages_loop (off # offs) ni addr =
     do {
       data \<leftarrow> mem_read (page_cache ni) 0 (writesize (lower ni));
       oob \<leftarrow> mem_read (page_cache ni) (writesize (lower ni)) (oobsize (lower ni));
       (_, ni) \<leftarrow> nmbm_write_phys_page ni (u64 (addr + off)) (Some data) (Some oob) NMBM_MODE_RAW;
       nmbm_mark_pages_loop offs ni addr
     }"

definition nmbm_mark_phys_bad_block ::
  "'d nmbm_instance \<Rightarrow> nat \<Rightarrow> (int \<times> 'd nmbm_instance) option" where
  "nmbm_mark_phys_bad_block ni ba =
     (let addr = ba2addr ni ba in
      if has_flag ni NMBM_F_READ_ONLY then Some (0, ni)
      else case mark_bad_block (lower ni) of
        Some f \<Rightarrow> (let (ret, d) = f (dev ni) addr in Some (ret, set_dev d ni))
      | None \<Rightarrow>
          do {
            pc \<leftarrow> mem_write (page_cache ni) 0 (replicate (rawpage_size ni) 0);
            let ni = ni\<lparr>page_cache := pc\<rparr>;
            let (level, ni) = nmbm_set_log_level ni NMBM_LOG_MAX;
            ni \<leftarrow> nmbm_mark_pages_loop (page_offsets ni) ni addr;
            let (_, ni) = nmbm_set_log_level ni level;
            Some (0, ni)
          })"

end
