(* ===== verification/Nmbm_State.thy ===== *)
theory Nmbm_State
  imports Nmbm_Phys
begin

text \<open>
  The block state table and the block mapping table of \<^verbatim>\<open>nmbm-core.c\<close> (lines 432 to 650): the
  two-bit states packed into 32-bit units, the walks over good blocks, the bad block scan and
  the initial mapping.
\<close>

definition nmbm_get_spare_block_count :: "nat \<Rightarrow> nat" where
  "nmbm_get_spare_block_count bc =
     (let val = u32 (bc + NMBM_SPARE_BLOCK_DIV div 2) div NMBM_SPARE_BLOCK_DIV;
          val = u32 (val * NMBM_SPARE_BLOCK_MULTI)
      in if val < NMBM_SPARE_BLOCK_MIN then NMBM_SPARE_BLOCK_MIN else val)"

section \<open>Block states\<close>

definition st_unit :: "nat \<Rightarrow> nat" where
  "st_unit ba = ba div NMBM_BITMAP_BLOCKS_PER_UNIT"

definition st_shift :: "nat \<Rightarrow> nat" where
  "st_shift ba = (ba mod NMBM_BITMAP_BLOCKS_PER_UNIT) * NMBM_BITMAP_BITS_PER_BLOCK"

definition nmbm_get_block_state_raw :: "32 word list \<Rightarrow> nat \<Rightarrow> 32 word option" where
  "nmbm_get_block_state_raw bs ba =
     do {
       uv \<leftarrow> arr_get bs (st_unit ba);
       Some (drop_bit (st_shift ba) uv AND BLOCK_ST_MASK)
     }"

definition nmbm_get_block_state :: "'d nmbm_instance \<Rightarrow> nat \<Rightarrow> 32 word option" where
  "nmbm_get_block_state ni ba = nmbm_get_block_state_raw (block_state ni) ba"

definition nmbm_set_block_state ::
  "'d nmbm_instance \<Rightarrow> nat \<Rightarrow> 32 word \<Rightarrow> (bool \<times> 'd nmbm_instance) option" where
  "nmbm_set_block_state ni ba state =
     do {
       let unit = st_unit ba;
       let shift = st_shift ba;
       u \<leftarrow> arr_get (block_state ni) unit;
       let orig = drop_bit shift u AND BLOCK_ST_MASK;
       let state = state AND BLOCK_ST_MASK;
       let uv = u AND NOT (push_bit shift BLOCK_ST_MASK);
       let uv = uv OR push_bit shift state;
       bs \<leftarrow> arr_set (block_state ni) unit uv;
       let ni = ni\<lparr>block_state := bs\<rparr>;
       if orig \<noteq> state
       then Some (True, ni\<lparr>block_state_changed := u32 (block_state_changed ni + 1)\<rparr>)
       else Some (False, ni)
     }"

section \<open>Walks over good blocks\<close>

text \<open>
  The two loops return \<open>Some nba\<close> where the code stores \<^verbatim>\<open>*nba\<close> and returns true, \<open>None\<close>
  where it returns false (inside the outer option of the state table access).
\<close>

function nmbm_block_walk_asc_loop ::
  "'d nmbm_instance \<Rightarrow> nat \<Rightarrow> int \<Rightarrow> nat \<Rightarrow> nat option option" where
  "nmbm_block_walk_asc_loop ni ba nblock limit =
     (if ba < limit then
        do {
          st \<leftarrow> nmbm_get_block_state ni ba;
          let nblock = (if st = BLOCK_ST_GOOD then nblock - 1 else nblock);
          if nblock < 0 then Some (Some ba)
          else nmbm_block_walk_asc_loop ni (ba + 1) nblock limit
        }
      else Some None)"
  by pat_completeness auto
termination
  by (relation "measure (\<lambda>(ni, ba, nblock, limit). limit - ba)") auto

declare nmbm_block_walk_asc_loop.simps [simp del]

definition nmbm_block_walk_asc ::
  "'d nmbm_instance \<Rightarrow> nat \<Rightarrow> nat \<Rightarrow> nat \<Rightarrow> nat option option" where
  "nmbm_block_walk_asc ni ba count limit =
     (let limit = (if limit \<ge> block_count ni then sub32 (block_count ni) 1 else limit)
      in nmbm_block_walk_asc_loop ni ba (s32 count) limit)"

fun nmbm_block_walk_desc_loop ::
  "'d nmbm_instance \<Rightarrow> nat \<Rightarrow> int \<Rightarrow> nat \<Rightarrow> nat option option" where
  "nmbm_block_walk_desc_loop ni ba nblock limit =
     (if ba > limit then
        do {
          st \<leftarrow> nmbm_get_block_state ni ba;
          let nblock = (if st = BLOCK_ST_GOOD then nblock - 1 else nblock);
          if nblock < 0 then Some (Some ba)
          else nmbm_block_walk_desc_loop ni (ba - 1) nblock limit
        }
      else Some None)"

declare nmbm_block_walk_desc_loop.simps [simp del]

definition nmbm_block_walk_desc ::
  "'d nmbm_instance \<Rightarrow> nat \<Rightarrow> nat \<Rightarrow> nat \<Rightarrow> nat option option" where
  "nmbm_block_walk_desc ni ba count limit =
     (let limit = (if limit \<ge> block_count ni then sub32 (block_count ni) 1 else limit)
      in nmbm_block_walk_desc_loop ni ba (s32 count) limit)"

text \<open>
  \<^verbatim>\<open>count\<close> and \<^verbatim>\<open>limit\<close> are declared \<^verbatim>\<open>int32_t\<close> here and \<^verbatim>\<open>uint32_t\<close> in the two walks; the
  conversion back and forth is the identity on the 32-bit pattern, which is what is passed.
\<close>

definition nmbm_block_walk ::
  "'d nmbm_instance \<Rightarrow> bool \<Rightarrow> nat \<Rightarrow> nat \<Rightarrow> nat \<Rightarrow> nat option option" where
  "nmbm_block_walk ni ascending ba count limit =
     (if ascending then nmbm_block_walk_asc ni ba count limit
      else nmbm_block_walk_desc ni ba count limit)"

section \<open>Scan and initial mapping\<close>

function nmbm_scan_badblocks_loop ::
  "'d nmbm_instance \<Rightarrow> nat \<Rightarrow> nat \<Rightarrow> 'd nmbm_instance option" where
  "nmbm_scan_badblocks_loop ni ba count =
     (if ba < count then
        do {
          (bad, ni) \<leftarrow> nmbm_check_bad_phys_block ni ba;
          ni \<leftarrow> (if bad then do { (_, ni) \<leftarrow> nmbm_set_block_state ni ba BLOCK_ST_BAD; Some ni }
                else Some ni);
          nmbm_scan_badblocks_loop ni (ba + 1) count
        }
      else Some ni)"
  by pat_completeness auto
termination
  by (relation "measure (\<lambda>(ni, ba, count). count - ba)") auto

declare nmbm_scan_badblocks_loop.simps [simp del]

definition nmbm_scan_badblocks :: "'d nmbm_instance \<Rightarrow> 'd nmbm_instance option" where
  "nmbm_scan_badblocks ni = nmbm_scan_badblocks_loop ni 0 (block_count ni)"

text \<open>First loop of \<^verbatim>\<open>nmbm_build_mapping_table\<close>; it returns the mapping and \<^verbatim>\<open>lb\<close>.\<close>

function nmbm_build_mapping_loop ::
  "'d nmbm_instance \<Rightarrow> int list \<Rightarrow> nat \<Rightarrow> nat \<Rightarrow> (int list \<times> nat) option" where
  "nmbm_build_mapping_loop ni bm pb lb =
     (if pb < mgmt_start_ba ni then
        do {
          st \<leftarrow> nmbm_get_block_state ni pb;
          if st = BLOCK_ST_BAD then nmbm_build_mapping_loop ni bm (pb + 1) lb
          else do {
            bm \<leftarrow> arr_set bm lb (s32 pb);
            nmbm_build_mapping_loop ni bm (pb + 1) (lb + 1)
          }
        }
      else Some (bm, lb))"
  by pat_completeness auto
termination
  by (relation "measure (\<lambda>(ni, bm, pb, lb). mgmt_start_ba ni - pb)") auto

declare nmbm_build_mapping_loop.simps [simp del]

function nmbm_fill_mapping_loop :: "int list \<Rightarrow> nat \<Rightarrow> nat \<Rightarrow> int list option" where
  "nmbm_fill_mapping_loop bm pb count =
     (if pb < count then
        do { bm \<leftarrow> arr_set bm pb (-1); nmbm_fill_mapping_loop bm (pb + 1) count }
      else Some bm)"
  by pat_completeness auto
termination
  by (relation "measure (\<lambda>(bm, pb, count). count - pb)") auto

declare nmbm_fill_mapping_loop.simps [simp del]

definition nmbm_build_mapping_table :: "'d nmbm_instance \<Rightarrow> 'd nmbm_instance option" where
  "nmbm_build_mapping_table ni =
     do {
       (bm, lb) \<leftarrow> nmbm_build_mapping_loop ni (block_mapping ni) 0 0;
       let ni = ni\<lparr>block_mapping := bm, data_block_count := lb\<rparr>;
       bm \<leftarrow> nmbm_fill_mapping_loop (block_mapping ni) lb (block_count ni);
       Some (ni\<lparr>block_mapping := bm\<rparr>)
     }"

section \<open>The block state table as a function\<close>

text \<open>
  \<open>st_get bs ba\<close> is the state of block \<open>ba\<close> in the table \<open>bs\<close>; \<open>st_put\<close> stores one. The
  operations of the code are exactly these, inside the bounds of the table.
\<close>

definition st_get :: "32 word list \<Rightarrow> nat \<Rightarrow> 32 word" where
  "st_get bs ba = drop_bit (st_shift ba) (bs ! st_unit ba) AND BLOCK_ST_MASK"

definition st_put :: "32 word list \<Rightarrow> nat \<Rightarrow> 32 word \<Rightarrow> 32 word list" where
  "st_put bs ba st =
     bs[st_unit ba := (bs ! st_unit ba AND NOT (push_bit (st_shift ba) BLOCK_ST_MASK))
                        OR push_bit (st_shift ba) (st AND BLOCK_ST_MASK)]"

definition st_dom :: "32 word list \<Rightarrow> nat" where
  "st_dom bs = 16 * length bs"

lemma blocks_per_unit [simp]: "NMBM_BITMAP_BLOCKS_PER_UNIT = 16"
  by (simp add: nmbm_const_defs)

lemma st_unit_eq: "st_unit ba = ba div 16"
  by (simp add: st_unit_def)

lemma st_shift_eq: "st_shift ba = 2 * (ba mod 16)"
  by (simp add: st_shift_def NMBM_BITMAP_BITS_PER_BLOCK_def)

lemma st_unit_less: "st_unit ba < length bs \<longleftrightarrow> ba < st_dom bs"
  by (simp add: st_unit_eq st_dom_def less_mult_imp_div_less div_less_iff_less_mult mult.commute)

lemma two_bit_field_update:
  fixes u v :: "32 word"
  assumes "a < 16" and "b < 16"
  shows "drop_bit (2 * b) ((u AND NOT (push_bit (2 * a) 3)) OR push_bit (2 * a) (v AND 3)) AND 3 =
         (if a = b then v AND 3 else drop_bit (2 * b) u AND 3)"
proof -
  have three: "(3 :: 32 word) = mask 2"
    by (simp add: mask_eq_exp_minus_1)
  show ?thesis
    using assms unfolding three
    by (intro bit_word_eqI) (auto simp: bit_simps less_2_cases_iff)
qed

lemma length_st_put [simp]: "length (st_put bs ba st) = length bs"
  by (simp add: st_put_def)

lemma st_dom_st_put [simp]: "st_dom (st_put bs ba st) = st_dom bs"
  by (simp add: st_dom_def)

lemma st_get_st_put:
  assumes "ba < st_dom bs" and "ba' < st_dom bs"
  shows "st_get (st_put bs ba st) ba' = (if ba' = ba then st AND BLOCK_ST_MASK else st_get bs ba')"
proof (cases "st_unit ba' = st_unit ba")
  case True
  then have iff: "ba mod 16 = ba' mod 16 \<longleftrightarrow> ba' = ba"
    by (metis st_unit_eq div_mult_mod_eq)
  have "st_unit ba < length bs"
    using assms by (simp add: st_unit_less)
  then show ?thesis
    using True two_bit_field_update [of "ba mod 16" "ba' mod 16" "bs ! st_unit ba" st] iff
    by (simp add: st_get_def st_put_def st_shift_eq BLOCK_ST_MASK_def)
next
  case False
  then show ?thesis
    by (auto simp: st_get_def st_put_def)
qed

lemma st_get_mask [simp]: "st_get bs ba AND BLOCK_ST_MASK = st_get bs ba"
  by (simp add: st_get_def and.assoc)

lemma block_st_masked [simp]:
  "BLOCK_ST_BAD AND BLOCK_ST_MASK = BLOCK_ST_BAD"
  "BLOCK_ST_NEED_REMAP AND BLOCK_ST_MASK = BLOCK_ST_NEED_REMAP"
  "BLOCK_ST_GOOD AND BLOCK_ST_MASK = BLOCK_ST_GOOD"
  by (simp_all add: block_st_defs)

lemma block_st_distinct [simp]:
  "BLOCK_ST_BAD \<noteq> BLOCK_ST_GOOD" "BLOCK_ST_GOOD \<noteq> BLOCK_ST_BAD"
  "BLOCK_ST_BAD \<noteq> BLOCK_ST_NEED_REMAP" "BLOCK_ST_NEED_REMAP \<noteq> BLOCK_ST_BAD"
  "BLOCK_ST_GOOD \<noteq> BLOCK_ST_NEED_REMAP" "BLOCK_ST_NEED_REMAP \<noteq> BLOCK_ST_GOOD"
  by (simp_all add: block_st_defs)

lemma get_block_state_raw_eq:
  "nmbm_get_block_state_raw bs ba = (if ba < st_dom bs then Some (st_get bs ba) else None)"
  by (simp add: nmbm_get_block_state_raw_def arr_get_def st_unit_less st_get_def)

lemma get_block_state_eq:
  "nmbm_get_block_state ni ba =
     (if ba < st_dom (block_state ni) then Some (st_get (block_state ni) ba) else None)"
  by (simp add: nmbm_get_block_state_def get_block_state_raw_eq)

lemma set_block_state_eq:
  "nmbm_set_block_state ni ba st =
     (if ba < st_dom (block_state ni) then
        (let ni' = ni\<lparr>block_state := st_put (block_state ni) ba st\<rparr> in
         if st_get (block_state ni) ba \<noteq> st AND BLOCK_ST_MASK
         then Some (True, ni'\<lparr>block_state_changed := u32 (block_state_changed ni + 1)\<rparr>)
         else Some (False, ni'))
      else None)"
  by (simp add: nmbm_set_block_state_def arr_get_def arr_set_def st_unit_less st_get_def
      st_put_def Let_def)

section \<open>Walks: reference definitions\<close>

definition good_blocks :: "'d nmbm_instance \<Rightarrow> nat \<Rightarrow> nat \<Rightarrow> nat list" where
  "good_blocks ni a b = filter (\<lambda>x. st_get (block_state ni) x = BLOCK_ST_GOOD) [a..<b]"

definition nth_opt :: "'a list \<Rightarrow> nat \<Rightarrow> 'a option" where
  "nth_opt xs n = (if n < length xs then Some (xs ! n) else None)"

lemma nth_opt_simps [simp]:
  "nth_opt [] n = None"
  "nth_opt (x # xs) 0 = Some x"
  "nth_opt (x # xs) (Suc n) = nth_opt xs n"
  by (simp_all add: nth_opt_def)

lemma nth_opt_Cons: "nth_opt (x # xs) n = (if n = 0 then Some x else nth_opt xs (n - 1))"
  by (cases n) auto

lemma nth_opt_Some_mem: "nth_opt xs n = Some x \<Longrightarrow> x \<in> set xs"
  by (auto simp: nth_opt_def split: if_splits)

lemma good_blocks_empty [simp]: "b \<le> a \<Longrightarrow> good_blocks ni a b = []"
  by (simp add: good_blocks_def)

lemma good_blocks_Cons:
  "a < b \<Longrightarrow> good_blocks ni a b =
     (if st_get (block_state ni) a = BLOCK_ST_GOOD then a # good_blocks ni (Suc a) b
      else good_blocks ni (Suc a) b)"
  by (simp add: good_blocks_def upt_conv_Cons)

lemma good_blocks_snoc:
  "a \<le> b \<Longrightarrow> good_blocks ni a (Suc b) =
     (if st_get (block_state ni) b = BLOCK_ST_GOOD then good_blocks ni a b @ [b]
      else good_blocks ni a b)"
  by (simp add: good_blocks_def)

lemma set_good_blocks:
  "set (good_blocks ni a b) =
     {x. a \<le> x \<and> x < b \<and> st_get (block_state ni) x = BLOCK_ST_GOOD}"
  by (auto simp: good_blocks_def)

lemma walk_asc_loop_eq:
  assumes "limit \<le> st_dom (block_state ni)" and "0 \<le> n"
  shows "nmbm_block_walk_asc_loop ni ba n limit = Some (nth_opt (good_blocks ni ba limit) (nat n))"
  using assms
proof (induction ni ba n limit rule: nmbm_block_walk_asc_loop.induct)
  case (1 ni ba n limit)
  show ?case
  proof (cases "ba < limit")
    case True
    then have dom: "ba < st_dom (block_state ni)"
      using 1 by simp
    have IH: "0 \<le> k \<Longrightarrow> k = (if st_get (block_state ni) ba = BLOCK_ST_GOOD then n - 1 else n) \<Longrightarrow>
      nmbm_block_walk_asc_loop ni (Suc ba) k limit =
        Some (nth_opt (good_blocks ni (Suc ba) limit) (nat k))" for k
      using 1 True dom by (auto simp: get_block_state_eq)
    show ?thesis
    proof (cases "st_get (block_state ni) ba = BLOCK_ST_GOOD")
      case good: True
      show ?thesis
      proof (cases "n = 0")
        case True
        then show ?thesis
          using \<open>ba < limit\<close> dom good
          by (simp add: nmbm_block_walk_asc_loop.simps [of ni ba] get_block_state_eq
              good_blocks_Cons)
      next
        case False
        then have "nat n = Suc (nat (n - 1))" and "\<not> n - 1 < 0"
          using 1 by auto
        then show ?thesis
          using IH [of "n - 1"] \<open>ba < limit\<close> dom good
          by (simp add: nmbm_block_walk_asc_loop.simps [of ni ba] get_block_state_eq
              good_blocks_Cons)
      qed
    next
      case False
      then show ?thesis
        using IH [of n] \<open>ba < limit\<close> dom 1(3)
        by (simp add: nmbm_block_walk_asc_loop.simps [of ni ba] get_block_state_eq
            good_blocks_Cons)
    qed
  next
    case False
    then show ?thesis
      by (simp add: nmbm_block_walk_asc_loop.simps [of ni ba])
  qed
qed

lemma walk_desc_loop_eq:
  assumes "ba < st_dom (block_state ni)" and "0 \<le> n"
  shows "nmbm_block_walk_desc_loop ni ba n limit =
           Some (nth_opt (rev (good_blocks ni (Suc limit) (Suc ba))) (nat n))"
  using assms
proof (induction ni ba n limit rule: nmbm_block_walk_desc_loop.induct)
  case (1 ni ba n limit)
  show ?case
  proof (cases "limit < ba")
    case True
    then have dom: "ba - 1 < st_dom (block_state ni)" and pred: "Suc (ba - 1) = ba"
      using 1 by auto
    have snoc: "good_blocks ni (Suc limit) (Suc ba) =
      (if st_get (block_state ni) ba = BLOCK_ST_GOOD
       then good_blocks ni (Suc limit) (Suc (ba - 1)) @ [ba]
       else good_blocks ni (Suc limit) (Suc (ba - 1)))"
      using True pred good_blocks_snoc [of "Suc limit" ba ni] by simp
    have IH: "0 \<le> k \<Longrightarrow> k = (if st_get (block_state ni) ba = BLOCK_ST_GOOD then n - 1 else n) \<Longrightarrow>
      nmbm_block_walk_desc_loop ni (ba - 1) k limit =
        Some (nth_opt (rev (good_blocks ni (Suc limit) (Suc (ba - 1)))) (nat k))" for k
      using 1 True dom by (auto simp: get_block_state_eq)
    show ?thesis
    proof (cases "st_get (block_state ni) ba = BLOCK_ST_GOOD")
      case good: True
      show ?thesis
      proof (cases "n = 0")
        case True
        then show ?thesis
          using \<open>limit < ba\<close> 1(2) good snoc
          by (simp add: nmbm_block_walk_desc_loop.simps [of ni ba] get_block_state_eq)
      next
        case False
        then have "nat n = Suc (nat (n - 1))" and "\<not> n - 1 < 0"
          using 1 by auto
        then show ?thesis
          using IH [of "n - 1"] \<open>limit < ba\<close> 1(2) good snoc
          by (simp add: nmbm_block_walk_desc_loop.simps [of ni ba] get_block_state_eq)
      qed
    next
      case False
      then show ?thesis
        using IH [of n] \<open>limit < ba\<close> 1(2,3) snoc
        by (simp add: nmbm_block_walk_desc_loop.simps [of ni ba] get_block_state_eq)
    qed
  next
    case False
    then show ?thesis
      by (simp add: nmbm_block_walk_desc_loop.simps [of ni ba])
  qed
qed

text \<open>The limit the walks really use: addresses past the chip are cut to its last block.\<close>

definition walk_limit :: "'d nmbm_instance \<Rightarrow> nat \<Rightarrow> nat" where
  "walk_limit ni limit = (if limit \<ge> block_count ni then block_count ni - 1 else limit)"

lemma walk_limit_less: "0 < block_count ni \<Longrightarrow> walk_limit ni limit < block_count ni"
  by (simp add: walk_limit_def)

lemma walk_asc_eq:
  assumes "block_count ni \<le> st_dom (block_state ni)" and "0 < block_count ni"
    and "block_count ni < 2 ^ 32" and "count < 2 ^ 31"
  shows "nmbm_block_walk_asc ni ba count limit =
           Some (nth_opt (good_blocks ni ba (walk_limit ni limit)) count)"
  using assms walk_limit_less [of ni limit]
  by (simp add: nmbm_block_walk_asc_def Let_def walk_limit_def sub32_id s32_id walk_asc_loop_eq)

lemma walk_desc_eq:
  assumes "ba < st_dom (block_state ni)" and "0 < block_count ni"
    and "block_count ni < 2 ^ 32" and "count < 2 ^ 31"
  shows "nmbm_block_walk_desc ni ba count limit =
           Some (nth_opt (rev (good_blocks ni (Suc (walk_limit ni limit)) (Suc ba))) count)"
  using assms
  by (simp add: nmbm_block_walk_desc_def Let_def walk_limit_def sub32_id s32_id walk_desc_loop_eq)

section \<open>The initial mapping: reference definition\<close>

definition usable_blocks :: "'d nmbm_instance \<Rightarrow> nat \<Rightarrow> nat list" where
  "usable_blocks ni pb =
     filter (\<lambda>x. st_get (block_state ni) x \<noteq> BLOCK_ST_BAD) [pb..<mgmt_start_ba ni]"

lemma usable_blocks_Cons:
  "pb < mgmt_start_ba ni \<Longrightarrow> usable_blocks ni pb =
     (if st_get (block_state ni) pb = BLOCK_ST_BAD then usable_blocks ni (Suc pb)
      else pb # usable_blocks ni (Suc pb))"
  by (simp add: usable_blocks_def upt_conv_Cons)

lemma length_usable_blocks: "length (usable_blocks ni pb) \<le> mgmt_start_ba ni - pb"
  using length_filter_le [of _ "[pb..<mgmt_start_ba ni]"] by (simp add: usable_blocks_def)

lemma build_mapping_loop_eq:
  assumes "mgmt_start_ba ni \<le> st_dom (block_state ni)" and "mgmt_start_ba ni \<le> 2 ^ 31"
    and "lb + length (usable_blocks ni pb) \<le> length bm"
  shows "nmbm_build_mapping_loop ni bm pb lb =
    Some (take lb bm @ map int (usable_blocks ni pb) @
            drop (lb + length (usable_blocks ni pb)) bm,
          lb + length (usable_blocks ni pb))"
  using assms
proof (induction ni bm pb lb rule: nmbm_build_mapping_loop.induct)
  case (1 ni bm pb lb)
  show ?case
  proof (cases "pb < mgmt_start_ba ni")
    case True
    then have dom: "pb < st_dom (block_state ni)"
      using 1(3) by simp
    show ?thesis
    proof (cases "st_get (block_state ni) pb = BLOCK_ST_BAD")
      case bad: True
      then show ?thesis
        using 1 True dom
        by (simp add: nmbm_build_mapping_loop.simps [of ni bm pb] get_block_state_eq
            usable_blocks_Cons)
    next
      case False
      have lb: "lb < length bm" and u: "usable_blocks ni pb = pb # usable_blocks ni (Suc pb)"
        using 1(5) True False by (auto simp: usable_blocks_Cons)
      have s: "s32 pb = int pb"
        using True 1(4) by (intro s32_id) simp
      have "nmbm_build_mapping_loop ni bm pb lb =
            nmbm_build_mapping_loop ni (bm[lb := int pb]) (Suc pb) (Suc lb)"
        using True False dom lb s
        by (simp add: nmbm_build_mapping_loop.simps [of ni bm pb] get_block_state_eq arr_set_def)
      also have "\<dots> = Some (take (Suc lb) (bm[lb := int pb]) @
            map int (usable_blocks ni (Suc pb)) @
            drop (Suc lb + length (usable_blocks ni (Suc pb))) (bm[lb := int pb]),
          Suc lb + length (usable_blocks ni (Suc pb)))"
        using 1(2) [of "st_get (block_state ni) pb" "bm[lb := int pb]"] True False dom lb s 1(3-5) u
        by (simp add: get_block_state_eq arr_set_def)
      finally show ?thesis
        using lb u by (simp add: take_Suc_conv_app_nth)
    qed
  next
    case False
    then show ?thesis
      by (simp add: nmbm_build_mapping_loop.simps [of ni bm pb] usable_blocks_def)
  qed
qed

lemma fill_mapping_loop_eq:
  assumes "count \<le> length bm"
  shows "nmbm_fill_mapping_loop bm pb count =
           Some (take pb bm @ replicate (count - pb) (- 1) @ drop (max pb count) bm)"
  using assms
proof (induction bm pb count rule: nmbm_fill_mapping_loop.induct)
  case (1 bm pb count)
  show ?case
  proof (cases "pb < count")
    case True
    then have "nmbm_fill_mapping_loop bm pb count =
        nmbm_fill_mapping_loop (bm[pb := - 1]) (Suc pb) count"
      using 1(2) by (simp add: nmbm_fill_mapping_loop.simps [of bm pb] arr_set_def)
    also have "\<dots> = Some (take (Suc pb) (bm[pb := - 1]) @ replicate (count - Suc pb) (- 1) @
        drop (max (Suc pb) count) (bm[pb := - 1]))"
      using 1 True by (simp add: arr_set_def)
    finally show ?thesis
      using True 1(2) Suc_diff_Suc [OF True, symmetric]
      by (simp add: take_Suc_conv_app_nth max_def)
  next
    case False
    then show ?thesis
      by (simp add: nmbm_fill_mapping_loop.simps [of bm pb] max_def)
  qed
qed

lemma build_mapping_table_eq:
  assumes "mgmt_start_ba ni \<le> block_count ni" and "block_count ni \<le> st_dom (block_state ni)"
    and "block_count ni \<le> 2 ^ 31" and "length (block_mapping ni) = block_count ni"
  shows "nmbm_build_mapping_table ni =
    Some (ni\<lparr>block_mapping := map int (usable_blocks ni 0) @
               replicate (block_count ni - length (usable_blocks ni 0)) (- 1),
             data_block_count := length (usable_blocks ni 0)\<rparr>)"
proof -
  have len: "length (usable_blocks ni 0) \<le> block_count ni"
    using length_usable_blocks [of ni 0] assms(1) by simp
  show ?thesis
    using assms len
    by (simp add: nmbm_build_mapping_table_def build_mapping_loop_eq fill_mapping_loop_eq max_def)
qed

end
