(* ===== verification/Nmbm_Mgmt.thy ===== *)
theory Nmbm_Mgmt
  imports Nmbm_State
begin

text \<open>
  Erasing, writing and verifying management data: \<^verbatim>\<open>nmbm-core.c\<close> lines 652 to 1003.
\<close>

section \<open>Erasure\<close>

fun nmbm_erase_check_loop ::
  "nat list \<Rightarrow> 'd nmbm_instance \<Rightarrow> nat \<Rightarrow> (bool \<times> 'd nmbm_instance) option" where
  "nmbm_erase_check_loop [] ni addr = Some (True, ni)"
| "nmbm_erase_check_loop (off # offs) ni addr =
     do {
       (ret, data, _, ni) \<leftarrow>
         nmbm_read_phys_page ni (u64 (addr + off)) True False NMBM_MODE_PLACE_OOB;
       pc \<leftarrow> mem_write (page_cache ni) 0 data;
       let ni = ni\<lparr>page_cache := pc\<rparr>;
       if ret = - EBADMSG then Some (False, ni)
       else nmbm_erase_check_loop offs ni addr
     }"

definition nmbm_erase_block_and_check ::
  "'d nmbm_instance \<Rightarrow> nat \<Rightarrow> (bool \<times> 'd nmbm_instance) option" where
  "nmbm_erase_block_and_check ni ba =
     do {
       (success, ni) \<leftarrow> nmbm_erase_phys_block ni (ba2addr ni ba);
       if \<not> success then Some (False, ni)
       else if \<not> has_flag ni NMBM_F_EMPTY_PAGE_ECC_OK then Some (True, ni)
       else nmbm_erase_check_loop (page_offsets ni) ni (ba2addr ni ba)
     }"

text \<open>The two statements at the label \<^verbatim>\<open>skip_bad_block\<close> of several loops.\<close>

definition nmbm_retire_block :: "'d nmbm_instance \<Rightarrow> nat \<Rightarrow> 'd nmbm_instance option" where
  "nmbm_retire_block ni ba =
     do {
       (_, ni) \<leftarrow> nmbm_mark_phys_bad_block ni ba;
       (_, ni) \<leftarrow> nmbm_set_block_state ni ba BLOCK_ST_BAD;
       Some ni
     }"

function nmbm_erase_range ::
  "'d nmbm_instance \<Rightarrow> nat \<Rightarrow> nat \<Rightarrow> 'd nmbm_instance option" where
  "nmbm_erase_range ni ba limit =
     (if ba < limit then
        do {
          st \<leftarrow> nmbm_get_block_state ni ba;
          ni \<leftarrow>
            (if st \<noteq> BLOCK_ST_GOOD then Some ni
             else do {
               (bad, ni) \<leftarrow> nmbm_check_bad_phys_block ni ba;
               if bad then do { (_, ni) \<leftarrow> nmbm_set_block_state ni ba BLOCK_ST_BAD; Some ni }
               else do {
                 (success, ni) \<leftarrow> nmbm_erase_block_and_check ni ba;
                 if success then Some ni else nmbm_retire_block ni ba
               }
             });
          nmbm_erase_range ni (ba + 1) limit
        }
      else Some ni)"
  by pat_completeness auto
termination
  by (relation "measure (\<lambda>(ni, ba, limit). limit - ba)") auto

declare nmbm_erase_range.simps [simp del]

section \<open>The signature\<close>

fun nmbm_write_repeated_loop ::
  "nat list \<Rightarrow> 'd nmbm_instance \<Rightarrow> nat \<Rightarrow> byte list \<Rightarrow> nat \<Rightarrow> (bool \<times> 'd nmbm_instance) option" where
  "nmbm_write_repeated_loop [] ni addr data sz = Some (True, ni)"
| "nmbm_write_repeated_loop (off # offs) ni addr data sz =
     do {
       src \<leftarrow> mem_read data 0 sz;
       pc \<leftarrow> mem_write (page_cache ni) 0 src;
       pc \<leftarrow> mem_write pc sz (replicate (rawpage_size ni - sz) 0xff);
       let ni = ni\<lparr>page_cache := pc\<rparr>;
       page \<leftarrow> mem_read (page_cache ni) 0 (writesize (lower ni));
       (success, ni) \<leftarrow>
         nmbm_write_phys_page ni (u64 (addr + off)) (Some page) None NMBM_MODE_PLACE_OOB;
       if \<not> success then Some (False, ni)
       else do {
         (ret, rdata, _, ni) \<leftarrow>
           nmbm_read_phys_page ni (u64 (addr + off)) True False NMBM_MODE_PLACE_OOB;
         pc \<leftarrow> mem_write (page_cache ni) 0 rdata;
         let ni = ni\<lparr>page_cache := pc\<rparr>;
         if ret < 0 then Some (False, ni)
         else do {
           got \<leftarrow> mem_read (page_cache ni) 0 sz;
           if got \<noteq> src then Some (False, ni)
           else nmbm_write_repeated_loop offs ni addr data sz
         }
       }
     }"

definition nmbm_write_repeated_data ::
  "'d nmbm_instance \<Rightarrow> nat \<Rightarrow> byte list \<Rightarrow> nat \<Rightarrow> (bool \<times> 'd nmbm_instance) option" where
  "nmbm_write_repeated_data ni ba data sz =
     (if sz > writesize (lower ni) then Some (False, ni)
      else nmbm_write_repeated_loop (page_offsets ni) ni (ba2addr ni ba) data sz)"

text \<open>\<open>Some ba\<close>: the signature was written to block \<open>ba\<close> (\<^verbatim>\<open>*signature_ba\<close>, true).\<close>

fun nmbm_write_signature_loop ::
  "'d nmbm_instance \<Rightarrow> nat \<Rightarrow> nat \<Rightarrow> byte list \<Rightarrow> (nat option \<times> 'd nmbm_instance) option" where
  "nmbm_write_signature_loop ni ba limit sig =
     (if ba > limit then
        do {
          st \<leftarrow> nmbm_get_block_state ni ba;
          if st \<noteq> BLOCK_ST_GOOD then nmbm_write_signature_loop ni (ba - 1) limit sig
          else do {
            (bad, ni) \<leftarrow> nmbm_check_bad_phys_block ni ba;
            if bad then do {
              (_, ni) \<leftarrow> nmbm_set_block_state ni ba BLOCK_ST_BAD;
              nmbm_write_signature_loop ni (ba - 1) limit sig
            }
            else do {
              (success, ni) \<leftarrow> nmbm_erase_block_and_check ni ba;
              (success, ni) \<leftarrow>
                (if success then nmbm_write_repeated_data ni ba sig sizeof_signature
                 else Some (False, ni));
              if success then Some (Some ba, ni)
              else do {
                ni \<leftarrow> nmbm_retire_block ni ba;
                nmbm_write_signature_loop ni (ba - 1) limit sig
              }
            }
          }
        }
      else Some (None, ni))"

declare nmbm_write_signature_loop.simps [simp del]

definition nmbm_write_signature ::
  "'d nmbm_instance \<Rightarrow> nat \<Rightarrow> byte list \<Rightarrow> (nat option \<times> 'd nmbm_instance) option" where
  "nmbm_write_signature ni limit sig =
     nmbm_write_signature_loop ni (sub32 (block_count ni) 1) limit sig"

section \<open>Reading and writing byte ranges\<close>

text \<open>
  The first three statements of the loops over a byte range: the offset inside the page and
  the sz of the chunk that ends with the page or with the range.
\<close>

definition chunk_leading :: "'d nmbm_instance \<Rightarrow> nat \<Rightarrow> nat" where
  "chunk_leading ni off = off AND writesize_mask ni"

definition chunk_size :: "'d nmbm_instance \<Rightarrow> nat \<Rightarrow> nat \<Rightarrow> nat" where
  "chunk_size ni off sizeremain =
     (let chunksize = sub32 (writesize (lower ni)) (chunk_leading ni off)
      in if chunksize > sizeremain then sizeremain else chunksize)"

text \<open>
  \<open>acc\<close> is what has been stored at \<^verbatim>\<open>data\<close>. A chunk of sz 0 would leave the loop variables
  unchanged: the loop does not end.
\<close>

function nmbn_read_data_loop ::
  "'d nmbm_instance \<Rightarrow> nat \<Rightarrow> nat \<Rightarrow> byte list \<Rightarrow> (int \<times> byte list \<times> 'd nmbm_instance) option" where
  "nmbn_read_data_loop ni off sizeremain acc =
     (if sizeremain = 0 then Some (0, acc, ni)
      else do {
        let leading = chunk_leading ni off;
        let chunksize = chunk_size ni off sizeremain;
        if chunksize = 0 then None
        else if chunksize = writesize (lower ni) then
          do {
            (ret, data, _, ni) \<leftarrow>
              nmbm_read_phys_page ni (off - leading) True False NMBM_MODE_PLACE_OOB;
            if ret < 0 then Some (ret, acc @ data, ni)
            else nmbn_read_data_loop ni (u64 (off + chunksize)) (sizeremain - chunksize) (acc @ data)
          }
        else
          do {
            (ret, data, _, ni) \<leftarrow>
              nmbm_read_phys_page ni (off - leading) True False NMBM_MODE_PLACE_OOB;
            pc \<leftarrow> mem_write (page_cache ni) 0 data;
            let ni = ni\<lparr>page_cache := pc\<rparr>;
            if ret < 0 then Some (ret, acc, ni)
            else do {
              bs \<leftarrow> mem_read (page_cache ni) leading chunksize;
              nmbn_read_data_loop ni (u64 (off + chunksize)) (sizeremain - chunksize) (acc @ bs)
            }
          }
      })"
  by pat_completeness auto
termination
  by (relation "measure (\<lambda>(ni, off, sizeremain, acc). sizeremain)") auto

declare nmbn_read_data_loop.simps [simp del]

definition nmbn_read_data ::
  "'d nmbm_instance \<Rightarrow> nat \<Rightarrow> nat \<Rightarrow> (int \<times> byte list \<times> 'd nmbm_instance) option" where
  "nmbn_read_data ni addr sz = nmbn_read_data_loop ni addr sz []"

function nmbn_write_verify_loop ::
  "'d nmbm_instance \<Rightarrow> nat \<Rightarrow> byte list \<Rightarrow> nat \<Rightarrow> nat \<Rightarrow> (bool \<times> 'd nmbm_instance) option" where
  "nmbn_write_verify_loop ni off data ptr sizeremain =
     (if sizeremain = 0 then Some (True, ni)
      else do {
        let leading = chunk_leading ni off;
        let chunksize = chunk_size ni off sizeremain;
        if chunksize = 0 then None
        else do {
          src \<leftarrow> mem_read data ptr chunksize;
          pc \<leftarrow> mem_write (page_cache ni) 0 (replicate (rawpage_size ni) 0xff);
          pc \<leftarrow> mem_write pc leading src;
          let ni = ni\<lparr>page_cache := pc\<rparr>;
          page \<leftarrow> mem_read (page_cache ni) 0 (writesize (lower ni));
          (success, ni) \<leftarrow>
            nmbm_write_phys_page ni (off - leading) (Some page) None NMBM_MODE_PLACE_OOB;
          if \<not> success then Some (False, ni)
          else do {
            (ret, rdata, _, ni) \<leftarrow>
              nmbm_read_phys_page ni (off - leading) True False NMBM_MODE_PLACE_OOB;
            pc \<leftarrow> mem_write (page_cache ni) 0 rdata;
            let ni = ni\<lparr>page_cache := pc\<rparr>;
            if ret < 0 then Some (False, ni)
            else do {
              got \<leftarrow> mem_read (page_cache ni) leading chunksize;
              if got \<noteq> src then Some (False, ni)
              else nmbn_write_verify_loop ni (u64 (off + chunksize)) data (ptr + chunksize)
                     (sizeremain - chunksize)
            }
          }
        }
      })"
  by pat_completeness auto
termination
  by (relation "measure (\<lambda>(ni, off, data, ptr, sizeremain). sizeremain)") auto

declare nmbn_write_verify_loop.simps [simp del]

definition nmbn_write_verify_data ::
  "'d nmbm_instance \<Rightarrow> nat \<Rightarrow> byte list \<Rightarrow> nat \<Rightarrow> nat \<Rightarrow> (bool \<times> 'd nmbm_instance) option" where
  "nmbn_write_verify_data ni addr data ptr sz = nmbn_write_verify_loop ni addr data ptr sz"

text \<open>
  \<open>start\<close> is \<^verbatim>\<open>*actual_start_ba\<close>, \<open>None\<close> while it has not been assigned. The result is the
  success flag, the start, the block after the end (\<^verbatim>\<open>*actual_end_ba\<close>) and the instance.
\<close>

function nmbm_write_mgmt_range_loop ::
  "'d nmbm_instance \<Rightarrow> nat \<Rightarrow> nat \<Rightarrow> byte list \<Rightarrow> nat \<Rightarrow> nat \<Rightarrow> nat option \<Rightarrow>
     (bool \<times> nat option \<times> nat \<times> 'd nmbm_instance) option" where
  "nmbm_write_mgmt_range_loop ni ba limit data sz sizeremain start =
     (if sizeremain \<noteq> 0 \<and> ba < limit then
        do {
          let chunksize = (if sizeremain > erasesize (lower ni) then erasesize (lower ni)
                           else sizeremain);
          st \<leftarrow> nmbm_get_block_state ni ba;
          if st \<noteq> BLOCK_ST_GOOD then
            nmbm_write_mgmt_range_loop ni (ba + 1) limit data sz sizeremain start
          else do {
            (bad, ni) \<leftarrow> nmbm_check_bad_phys_block ni ba;
            if bad then do {
              (_, ni) \<leftarrow> nmbm_set_block_state ni ba BLOCK_ST_BAD;
              nmbm_write_mgmt_range_loop ni (ba + 1) limit data sz sizeremain start
            }
            else do {
              (success, ni) \<leftarrow> nmbm_erase_block_and_check ni ba;
              (success, ni) \<leftarrow>
                (if success
                 then nmbn_write_verify_data ni (ba2addr ni ba) data (sz - sizeremain) chunksize
                 else Some (False, ni));
              if success then
                nmbm_write_mgmt_range_loop ni (ba + 1) limit data sz (sizeremain - chunksize)
                  (if sizeremain = sz then Some ba else start)
              else do {
                ni \<leftarrow> nmbm_retire_block ni ba;
                nmbm_write_mgmt_range_loop ni (ba + 1) limit data sz sizeremain start
              }
            }
          }
        }
      else if sizeremain \<noteq> 0 then Some (False, start, ba, ni)
      else Some (True, start, ba, ni))"
  by pat_completeness auto
termination
  by (relation "measure (\<lambda>(ni, ba, limit, data, sz, sizeremain, start). limit - ba)") auto

declare nmbm_write_mgmt_range_loop.simps [simp del]

definition nmbm_write_mgmt_range ::
  "'d nmbm_instance \<Rightarrow> nat \<Rightarrow> nat \<Rightarrow> byte list \<Rightarrow> nat \<Rightarrow>
     (bool \<times> nat option \<times> nat \<times> 'd nmbm_instance) option" where
  "nmbm_write_mgmt_range ni ba limit data sz =
     nmbm_write_mgmt_range_loop ni ba limit data sz sz None"

end
