(* ===== verification/Nmbm_Info.thy ===== *)
theory Nmbm_Info
  imports Nmbm_Mgmt Nmbm_Header
begin

text \<open>
  The info tables of \<^verbatim>\<open>nmbm-core.c\<close> (lines 1005 to 1731): the cache image, the main and the
  backup copy on flash with their rescue procedures, the update loop, remapping of blocks and
  the creation of NMBM on a new chip.

  A call of \<^verbatim>\<open>nmbm_write_info_table\<close> that succeeds has assigned both block addresses; the
  \<open>nat option\<close> it returns for the start makes a use without assignment visible as \<open>None\<close>.
\<close>

section \<open>The cache image\<close>

definition nmbm_generate_info_table_cache ::
  "crc_fun \<Rightarrow> 'd nmbm_instance \<Rightarrow> (bool \<times> 'd nmbm_instance) option" where
  "nmbm_generate_info_table_cache crc ni =
     do {
       cache \<leftarrow> mem_write (info_table_cache ni) 0 (replicate (info_table_size ni) 0xff);
       sb \<leftarrow> mem_read (words_le (block_state ni)) 0 (state_table_size ni);
       cache \<leftarrow> mem_write cache (state_table_off (info_table ni)) sb;
       mb \<leftarrow> mem_read (ints_le (block_mapping ni)) 0 (mapping_table_size ni);
       cache \<leftarrow> mem_write cache (mapping_table_off (info_table ni)) mb;
       let hdr = (ift_header (info_table ni))
                   \<lparr>magic := NMBM_MAGIC_INFO_TABLE, version := NMBM_VER,
                    hdr_size := info_table_size ni\<rparr>;
       let it = (info_table ni)\<lparr>ift_header := hdr\<rparr>;
       let changed = (block_state_changed ni \<noteq> 0 \<or> block_mapping_changed ni \<noteq> 0);
       let it = (if changed then it\<lparr>write_count := u32 (write_count it + 1)\<rparr> else it);
       cache \<leftarrow> mem_write cache 0 (enc_info_table_header it);
       cache \<leftarrow> nmbm_update_checksum crc cache;
       Some (changed, ni\<lparr>info_table_cache := cache, info_table := it\<rparr>)
     }"

definition nmbm_write_info_table ::
  "'d nmbm_instance \<Rightarrow> nat \<Rightarrow> nat \<Rightarrow> (bool \<times> nat option \<times> nat \<times> 'd nmbm_instance) option" where
  "nmbm_write_info_table ni ba limit =
     nmbm_write_mgmt_range ni ba limit (info_table_cache ni) (info_table_size ni)"

definition nmbm_mark_tables_clean :: "'d nmbm_instance \<Rightarrow> 'd nmbm_instance" where
  "nmbm_mark_tables_clean ni = ni\<lparr>block_state_changed := 0, block_mapping_changed := 0\<rparr>"

section \<open>Reserving blocks\<close>

function nmbm_try_reserve_loop ::
  "'d nmbm_instance \<Rightarrow> nat \<Rightarrow> int \<Rightarrow> int \<Rightarrow> nat \<Rightarrow> nat option option" where
  "nmbm_try_reserve_loop ni ba nblocks min_count limit =
     (if nblocks \<ge> min_count then
        do {
          r \<leftarrow> nmbm_block_walk ni True ba (u32_of_int nblocks) limit;
          case r of
            Some nba \<Rightarrow> Some (Some nba)
          | None \<Rightarrow> nmbm_try_reserve_loop ni ba (nblocks - 1) min_count limit
        }
      else Some None)"
  by pat_completeness auto
termination
  by (relation "measure (\<lambda>(ni, ba, nblocks, min_count, limit). nat (nblocks - min_count + 1))")
    auto

declare nmbm_try_reserve_loop.simps [simp del]

definition nmbm_try_reserve_blocks ::
  "'d nmbm_instance \<Rightarrow> nat \<Rightarrow> nat \<Rightarrow> int \<Rightarrow> nat \<Rightarrow> nat option option" where
  "nmbm_try_reserve_blocks ni ba count min_count limit =
     nmbm_try_reserve_loop ni ba (s32 count) min_count limit"

section \<open>Writing, updating and rescuing the tables\<close>

definition nmbm_rebuild_info_table :: "'d nmbm_instance \<Rightarrow> (bool \<times> 'd nmbm_instance) option" where
  "nmbm_rebuild_info_table ni =
     do {
       let ni = ni\<lparr>main_table_ba := 0, backup_table_ba := 0,
                   mapping_blocks_ba := mapping_blocks_top_ba ni\<rparr>;
       (success, start, table_end_ba, ni) \<leftarrow>
         nmbm_write_info_table ni (mgmt_start_ba ni) (mapping_blocks_top_ba ni);
       if \<not> success then Some (False, ni\<lparr>protected := True\<rparr>)
       else do {
         table_start_ba \<leftarrow> start;
         let ni = ni\<lparr>main_table_ba := table_start_ba\<rparr>;
         let main_table_end_ba = table_end_ba;
         let ni = ni\<lparr>mapping_blocks_ba := table_end_ba\<rparr>;
         let ni = nmbm_mark_tables_clean ni;
         r \<leftarrow> nmbm_try_reserve_blocks ni table_end_ba (info_table_spare_blocks ni) 0
                (sub32 (mapping_blocks_top_ba ni) (size2blk ni (info_table_size ni)));
         case r of
           None \<Rightarrow> Some (True, ni)
         | Some next_start_ba \<Rightarrow>
             do {
               (success, start, table_end_ba, ni) \<leftarrow>
                 nmbm_write_info_table ni next_start_ba (mapping_blocks_top_ba ni);
               if \<not> success then Some (True, ni)
               else do {
                 table_start_ba \<leftarrow> start;
                 let ni = ni\<lparr>backup_table_ba := table_start_ba\<rparr>;
                 let ni = ni\<lparr>mapping_blocks_ba := table_end_ba\<rparr>;
                 ni \<leftarrow> nmbm_erase_range ni main_table_end_ba (backup_table_ba ni);
                 Some (True, ni)
               }
             }
       }
     }"

text \<open>
  The loop \<^verbatim>\<open>while (write_ba >= low) { nmbm_write_info_table(write_ba); ... write_ba--; }\<close> of
  the rescue procedures. Below block 0 the counter would wrap around to \<^verbatim>\<open>0xffffffff\<close> and the
  loop would start over: \<open>None\<close>.
\<close>

fun nmbm_write_table_down_loop ::
  "'d nmbm_instance \<Rightarrow> nat \<Rightarrow> nat \<Rightarrow> (bool \<times> nat option \<times> nat \<times> 'd nmbm_instance) option" where
  "nmbm_write_table_down_loop ni write_ba low =
     do {
       (success, start, table_end_ba, ni) \<leftarrow>
         nmbm_write_info_table ni write_ba (mapping_blocks_top_ba ni);
       if success then Some (True, start, table_end_ba, ni)
       else if write_ba = 0 then None
       else if write_ba - 1 \<ge> low then nmbm_write_table_down_loop ni (write_ba - 1) low
       else Some (False, start, table_end_ba, ni)
     }"

declare nmbm_write_table_down_loop.simps [simp del]

text \<open>
  If the loop body were not entered at all, \<^verbatim>\<open>success\<close> would still be true from the
  reservation and the block addresses would be unassigned.
\<close>

definition nmbm_write_table_down ::
  "'d nmbm_instance \<Rightarrow> nat \<Rightarrow> nat \<Rightarrow> (bool \<times> nat option \<times> nat \<times> 'd nmbm_instance) option" where
  "nmbm_write_table_down ni write_ba low =
     (if write_ba \<ge> low then nmbm_write_table_down_loop ni write_ba low else None)"

definition nmbm_rescue_single_info_table ::
  "'d nmbm_instance \<Rightarrow> (bool \<times> 'd nmbm_instance) option" where
  "nmbm_rescue_single_info_table ni =
     do {
       (success, start, table_end_ba, ni) \<leftarrow>
         nmbm_write_info_table ni (mgmt_start_ba ni) (main_table_ba ni);
       if success then
         do {
           table_start_ba \<leftarrow> start;
           let ni = ni\<lparr>backup_table_ba := main_table_ba ni\<rparr>;
           let ni = ni\<lparr>main_table_ba := table_start_ba\<rparr>;
           let ni = nmbm_mark_tables_clean ni;
           ni \<leftarrow> nmbm_erase_range ni table_end_ba (backup_table_ba ni);
           Some (True, ni)
         }
       else do {
         r \<leftarrow> nmbm_try_reserve_blocks ni (mapping_blocks_ba ni) (info_table_spare_blocks ni) 0
                (sub32 (mapping_blocks_top_ba ni) (size2blk ni (info_table_size ni)));
         case r of
           None \<Rightarrow> Some (False, ni)
         | Some write_ba \<Rightarrow>
             do {
               (success, start, table_end_ba, ni) \<leftarrow>
                 nmbm_write_table_down ni write_ba (mapping_blocks_ba ni);
               if success then
                 do {
                   table_start_ba \<leftarrow> start;
                   ni \<leftarrow> nmbm_erase_range ni (mapping_blocks_ba ni) table_start_ba;
                   let ni = ni\<lparr>backup_table_ba := table_start_ba\<rparr>;
                   let ni = ni\<lparr>mapping_blocks_ba := table_end_ba\<rparr>;
                   let ni = nmbm_mark_tables_clean ni;
                   Some (True, ni)
                 }
               else Some (False, ni)
             }
       }
     }"

definition nmbm_update_single_info_table ::
  "'d nmbm_instance \<Rightarrow> bool \<Rightarrow> (bool \<times> 'd nmbm_instance) option" where
  "nmbm_update_single_info_table ni update_main_table =
     do {
       let (write_start_ba, write_limit) =
         (if update_main_table then (main_table_ba ni, backup_table_ba ni)
          else (backup_table_ba ni, mapping_blocks_top_ba ni));
       (success, start, table_end_ba, ni) \<leftarrow> nmbm_write_info_table ni write_start_ba write_limit;
       if success then
         do {
           table_start_ba \<leftarrow> start;
           let ni = (if update_main_table then ni\<lparr>main_table_ba := table_start_ba\<rparr>
                     else ni\<lparr>backup_table_ba := table_start_ba,
                             mapping_blocks_ba := table_end_ba\<rparr>);
           Some (True, nmbm_mark_tables_clean ni)
         }
       else if update_main_table then
         nmbm_rescue_single_info_table
           (ni\<lparr>main_table_ba := backup_table_ba ni, backup_table_ba := 0\<rparr>)
       else Some (False, ni\<lparr>mapping_blocks_ba := backup_table_ba ni, backup_table_ba := 0\<rparr>)
     }"

text \<open>The end of \<^verbatim>\<open>nmbm_rescue_main_info_table\<close>, from the second reservation on.\<close>

definition nmbm_rescue_main_new_backup ::
  "'d nmbm_instance \<Rightarrow> nat \<Rightarrow> nat \<Rightarrow> (bool \<times> 'd nmbm_instance) option" where
  "nmbm_rescue_main_new_backup ni main_table_end_ba info_table_erasesize =
     do {
       let ni = ni\<lparr>mapping_blocks_ba := main_table_end_ba\<rparr>;
       r \<leftarrow> nmbm_try_reserve_blocks ni main_table_end_ba (info_table_spare_blocks ni) 0
              (sub32 (mapping_blocks_top_ba ni) info_table_erasesize);
       case r of
         None \<Rightarrow> Some (True, ni\<lparr>backup_table_ba := 0\<rparr>)
       | Some write_ba \<Rightarrow>
           do {
             (success, start, tmp_table_end_ba, ni) \<leftarrow>
               nmbm_write_table_down ni write_ba main_table_end_ba;
             if \<not> success then Some (True, ni\<lparr>backup_table_ba := 0\<rparr>)
             else do {
               tmp_table_start_ba \<leftarrow> start;
               let ni = ni\<lparr>backup_table_ba := tmp_table_start_ba\<rparr>;
               let ni = ni\<lparr>mapping_blocks_ba := tmp_table_end_ba\<rparr>;
               ni \<leftarrow> nmbm_erase_range ni main_table_end_ba (backup_table_ba ni);
               Some (True, ni)
             }
           }
     }"

definition nmbm_rescue_main_info_table ::
  "'d nmbm_instance \<Rightarrow> (bool \<times> 'd nmbm_instance) option" where
  "nmbm_rescue_main_info_table ni =
     do {
       let info_table_erasesize = size2blk ni (info_table_size ni);
       r \<leftarrow> nmbm_try_reserve_blocks ni (mapping_blocks_ba ni) (info_table_spare_blocks ni) 0
              (sub32 (mapping_blocks_top_ba ni) info_table_erasesize);
       case r of
         None \<Rightarrow> Some (True, ni\<lparr>main_table_ba := backup_table_ba ni, backup_table_ba := 0\<rparr>)
       | Some write_ba \<Rightarrow>
           do {
             (success, start, tmp_table_end_ba, ni) \<leftarrow>
               nmbm_write_table_down ni write_ba (mapping_blocks_ba ni);
             if \<not> success then
               Some (True, ni\<lparr>main_table_ba := backup_table_ba ni, backup_table_ba := 0\<rparr>)
             else do {
               tmp_table_start_ba \<leftarrow> start;
               let ni = ni\<lparr>mapping_blocks_ba := tmp_table_end_ba\<rparr>;
               (success, start, main_table_end_ba, ni) \<leftarrow>
                 nmbm_write_info_table ni (mgmt_start_ba ni) tmp_table_start_ba;
               if \<not> success then
                 Some (True, nmbm_mark_tables_clean
                         (ni\<lparr>main_table_ba := tmp_table_start_ba, backup_table_ba := 0\<rparr>))
               else do {
                 main_table_start_ba \<leftarrow> start;
                 let ni = ni\<lparr>main_table_ba := main_table_start_ba\<rparr>;
                 let ni = nmbm_mark_tables_clean ni;
                 if main_table_end_ba \<le> tmp_table_start_ba then
                   Some (True, ni\<lparr>backup_table_ba := tmp_table_start_ba\<rparr>)
                 else nmbm_rescue_main_new_backup ni main_table_end_ba info_table_erasesize
               }
             }
           }
     }"

text \<open>\<^verbatim>\<open>nmbm_update_info_table_once\<close> from the label \<^verbatim>\<open>write_main_table\<close> on.\<close>

definition nmbm_update_write_main_table ::
  "'d nmbm_instance \<Rightarrow> nat \<Rightarrow> (bool \<times> 'd nmbm_instance) option" where
  "nmbm_update_write_main_table ni main_table_limit =
     (if main_table_ba ni = 0 then nmbm_rebuild_info_table ni
      else do {
        (success, start, table_end_ba, ni) \<leftarrow>
          nmbm_write_info_table ni (main_table_ba ni) main_table_limit;
        if \<not> success then
          (if backup_table_ba ni = 0 then nmbm_rebuild_info_table ni
           else nmbm_rescue_main_info_table ni)
        else do {
          table_start_ba \<leftarrow> start;
          let ni = ni\<lparr>main_table_ba := table_start_ba\<rparr>;
          let ni = (if backup_table_ba ni = 0 then ni\<lparr>mapping_blocks_ba := table_end_ba\<rparr> else ni);
          Some (True, nmbm_mark_tables_clean ni)
        }
      })"

text \<open>\<^verbatim>\<open>nmbm_update_info_table_once\<close> after the cache image has been generated.\<close>

definition nmbm_update_write_tables :: "'d nmbm_instance \<Rightarrow> (bool \<times> 'd nmbm_instance) option" where
  "nmbm_update_write_tables ni =
     (if backup_table_ba ni = 0 then
        nmbm_update_write_main_table ni (mapping_blocks_top_ba ni)
      else do {
        (success, start, table_end_ba, ni) \<leftarrow>
          nmbm_write_info_table ni (backup_table_ba ni) (mapping_blocks_top_ba ni);
        if \<not> success then
          do {
            let ni = ni\<lparr>mapping_blocks_ba := backup_table_ba ni\<rparr>;
            let ni = ni\<lparr>backup_table_ba := 0\<rparr>;
            nmbm_update_write_main_table ni (mapping_blocks_top_ba ni)
          }
        else do {
          table_start_ba \<leftarrow> start;
          let ni = ni\<lparr>backup_table_ba := table_start_ba\<rparr>;
          let ni = ni\<lparr>mapping_blocks_ba := table_end_ba\<rparr>;
          let ni = nmbm_mark_tables_clean ni;
          nmbm_update_write_main_table ni (backup_table_ba ni)
        }
      })"

definition nmbm_update_info_table_once ::
  "crc_fun \<Rightarrow> 'd nmbm_instance \<Rightarrow> bool \<Rightarrow> (bool \<times> 'd nmbm_instance) option" where
  "nmbm_update_info_table_once crc ni force =
     do {
       (changed, ni) \<leftarrow> nmbm_generate_info_table_cache crc ni;
       if \<not> changed \<and> \<not> force then Some (True, ni)
       else nmbm_update_write_tables ni
     }"

partial_function (option) nmbm_update_info_table_loop ::
  "crc_fun \<Rightarrow> 'd nmbm_instance \<Rightarrow> (bool \<times> 'd nmbm_instance) option" where
  "nmbm_update_info_table_loop crc ni =
     (if block_state_changed ni \<noteq> 0 \<or> block_mapping_changed ni \<noteq> 0 then
        do {
          (success, ni) \<leftarrow> nmbm_update_info_table_once crc ni False;
          if \<not> success then Some (False, ni)
          else nmbm_update_info_table_loop crc ni
        }
      else Some (True, ni))"

declare nmbm_update_info_table_loop.simps [code]

definition nmbm_update_info_table ::
  "crc_fun \<Rightarrow> 'd nmbm_instance \<Rightarrow> (bool \<times> 'd nmbm_instance) option" where
  "nmbm_update_info_table crc ni =
     (if protected ni then Some (True, ni) else nmbm_update_info_table_loop crc ni)"

section \<open>Remapping and creation\<close>

definition nmbm_map_block ::
  "crc_fun \<Rightarrow> 'd nmbm_instance \<Rightarrow> nat \<Rightarrow> (bool \<times> 'd nmbm_instance) option" where
  "nmbm_map_block crc ni lb =
     (if mapping_blocks_ba ni = mapping_blocks_top_ba ni then Some (False, ni)
      else do {
        r \<leftarrow> nmbm_block_walk ni False (mapping_blocks_top_ba ni) 0 (mapping_blocks_ba ni);
        case r of
          None \<Rightarrow>
            do {
              (_, ni) \<leftarrow> nmbm_update_info_table crc ni;
              Some (False, ni\<lparr>mapping_blocks_top_ba := mapping_blocks_ba ni\<rparr>)
            }
        | Some pb \<Rightarrow>
            do {
              bm \<leftarrow> arr_set (block_mapping ni) lb (s32 pb);
              let ni = ni\<lparr>block_mapping := bm\<rparr>;
              let ni = ni\<lparr>mapping_blocks_top_ba := sub32 (mapping_blocks_top_ba ni) 1\<rparr>;
              let ni = ni\<lparr>block_mapping_changed := u32 (block_mapping_changed ni + 1)\<rparr>;
              Some (True, ni)
            }
      })"

text \<open>
  The loop over the blocks at the end of the data area; \<open>limit\<close> is \<^verbatim>\<open>ni->mgmt_start_ba\<close>,
  which the loop does not change.
\<close>

function nmbm_remap_tail_loop ::
  "crc_fun \<Rightarrow> 'd nmbm_instance \<Rightarrow> nat \<Rightarrow> nat \<Rightarrow> 'd nmbm_instance option" where
  "nmbm_remap_tail_loop crc ni lb limit =
     (if lb < limit then
        do {
          (success, ni) \<leftarrow> nmbm_map_block crc ni lb;
          if \<not> success then Some ni
          else nmbm_remap_tail_loop crc
                 (ni\<lparr>data_block_count := u32 (data_block_count ni + 1)\<rparr>) (lb + 1) limit
        }
      else Some ni)"
  by pat_completeness auto
termination
  by (relation "measure (\<lambda>(crc, ni, lb, limit). limit - lb)") auto

declare nmbm_remap_tail_loop.simps [simp del]

definition nmbm_create_info_table ::
  "crc_fun \<Rightarrow> 'd nmbm_instance \<Rightarrow> (bool \<times> 'd nmbm_instance) option" where
  "nmbm_create_info_table crc ni =
     do {
       r \<leftarrow> nmbm_block_walk ni False (signature_ba ni) 1 (mgmt_start_ba ni);
       case r of
         None \<Rightarrow> Some (False, ni)
       | Some top_ba \<Rightarrow>
           do {
             let ni = ni\<lparr>mapping_blocks_top_ba := top_ba\<rparr>;
             (_, ni) \<leftarrow> nmbm_generate_info_table_cache crc ni;
             (success, ni) \<leftarrow> nmbm_rebuild_info_table ni;
             if \<not> success then Some (False, ni)
             else do {
               ni \<leftarrow> nmbm_remap_tail_loop crc ni (data_block_count ni) (mgmt_start_ba ni);
               (success, ni) \<leftarrow> nmbm_update_info_table crc ni;
               if \<not> success then Some (False, ni) else Some (True, ni)
             }
           }
     }"

text \<open>
  The boundary of the management area, the in-memory signature (its checksum included), and
  \<^verbatim>\<open>nmbm_create_new\<close>.
\<close>

definition nmbm_mgmt_boundary :: "'d nmbm_instance \<Rightarrow> nat" where
  "nmbm_mgmt_boundary ni =
     (let start = u32 (block_count ni * sub32 NMBM_MGMT_DIV (max_ratio (lower ni)))
                    div NMBM_MGMT_DIV
      in if max_reserved_blocks (lower ni) \<noteq> 0 \<and>
            sub32 (block_count ni) start > max_reserved_blocks (lower ni)
         then sub32 (block_count ni) (max_reserved_blocks (lower ni)) else start)"

definition nmbm_fill_signature ::
  "crc_fun \<Rightarrow> 'd nmbm_instance \<Rightarrow> nmbm_signature option" where
  "nmbm_fill_signature crc ni =
     do {
       let sig = signature ni;
       let hdr = (sig_header sig)\<lparr>magic := NMBM_MAGIC_SIGNATURE, version := NMBM_VER,
                    hdr_size := sizeof_signature\<rparr>;
       let sig = sig\<lparr>sig_header := hdr, nand_size := chip_size (lower ni),
                    block_size := erasesize (lower ni), page_size := writesize (lower ni),
                    spare_size := oobsize (lower ni), mgmt_start_pb := mgmt_start_ba ni,
                    max_try_count := NMBM_TRY_COUNT\<rparr>;
       bs \<leftarrow> nmbm_update_checksum crc (enc_signature sig);
       Some (dec_signature bs)
     }"

definition nmbm_create_new ::
  "crc_fun \<Rightarrow> 'd nmbm_instance \<Rightarrow> (bool \<times> 'd nmbm_instance) option" where
  "nmbm_create_new crc ni =
     do {
       let ni = ni\<lparr>mgmt_start_ba := nmbm_mgmt_boundary ni\<rparr>;
       ni \<leftarrow> nmbm_scan_badblocks ni;
       ni \<leftarrow> nmbm_build_mapping_table ni;
       sig \<leftarrow> nmbm_fill_signature crc ni;
       let ni = ni\<lparr>signature := sig\<rparr>;
       if has_flag ni NMBM_F_READ_ONLY then Some (True, ni)
       else do {
         (r, ni) \<leftarrow> nmbm_write_signature ni (mgmt_start_ba ni) (enc_signature (signature ni));
         case r of
           None \<Rightarrow> Some (False, ni)
         | Some ba \<Rightarrow>
             do {
               let ni = ni\<lparr>signature_ba := ba\<rparr>;
               nmbm_create_info_table crc ni
             }
       }
     }"

end
