(* ===== verification/Nmbm_Load.thy ===== *)
theory Nmbm_Load
  imports Nmbm_Info
begin

text \<open>
  Loading NMBM from a chip: validation and search of the info tables and of the signature,
  \<^verbatim>\<open>nmbm-core.c\<close> lines 1733 to 2158.
\<close>

section \<open>Validation\<close>

definition nmbm_check_info_table_header ::
  "'d nmbm_instance \<Rightarrow> nmbm_info_table_header \<Rightarrow> bool" where
  "nmbm_check_info_table_header ni ifthdr =
     (if magic (ift_header ifthdr) \<noteq> NMBM_MAGIC_INFO_TABLE then False
      else if hdr_size (ift_header ifthdr) \<noteq> info_table_size ni then False
      else if sub32 (mapping_table_off ifthdr) (state_table_off ifthdr) < state_table_size ni
        then False
      else if sub32 (info_table_size ni) (mapping_table_off ifthdr) < mapping_table_size ni
        then False
      else True)"

text \<open>
  First loop of \<^verbatim>\<open>nmbm_check_info_table\<close>: \<open>None\<close> inside is \<^verbatim>\<open>return false\<close>. The signed entries
  are compared with unsigned values, so they are converted to \<^verbatim>\<open>uint32_t\<close>. \<open>n\<close> counts the
  iterations left, \<open>ba = data_block_count - n\<close>.
\<close>

fun nmbm_check_mapping_loop ::
  "'d nmbm_instance \<Rightarrow> int list \<Rightarrow> nat \<Rightarrow> nat \<Rightarrow> nat \<Rightarrow> nat option option" where
  "nmbm_check_mapping_loop ni bm end_ba 0 minimum_mapping_pb = Some (Some minimum_mapping_pb)"
| "nmbm_check_mapping_loop ni bm end_ba (Suc n) minimum_mapping_pb =
     do {
       m \<leftarrow> arr_get bm (data_block_count ni - Suc n);
       let pb = u32_of_int m;
       if (pb \<ge> data_block_count ni \<and> pb < end_ba) \<or> pb = signature_ba ni then Some None
       else nmbm_check_mapping_loop ni bm end_ba n
              (if pb \<ge> end_ba \<and> pb < minimum_mapping_pb then pb else minimum_mapping_pb)
     }"

function nmbm_check_state_loop ::
  "'d nmbm_instance \<Rightarrow> 32 word list \<Rightarrow> nat \<Rightarrow> nat \<Rightarrow> bool option" where
  "nmbm_check_state_loop ni bs ba end_ba =
     (if ba < end_ba then
        do {
          st \<leftarrow> nmbm_get_block_state ni ba;
          if st \<noteq> BLOCK_ST_GOOD then nmbm_check_state_loop ni bs (ba + 1) end_ba
          else do {
            raw \<leftarrow> nmbm_get_block_state_raw bs ba;
            if raw \<noteq> BLOCK_ST_GOOD then Some False
            else nmbm_check_state_loop ni bs (ba + 1) end_ba
          }
        }
      else Some True)"
  by pat_completeness auto
termination
  by (relation "measure (\<lambda>(ni, bs, ba, end_ba). end_ba - ba)") auto

declare nmbm_check_state_loop.simps [simp del]

text \<open>\<open>Some top_ba\<close>: the table is valid and \<^verbatim>\<open>*mapping_blocks_top_ba\<close> is \<open>top_ba\<close>.\<close>

definition nmbm_check_info_table ::
  "'d nmbm_instance \<Rightarrow> nat \<Rightarrow> nat \<Rightarrow> byte list \<Rightarrow> nat option option" where
  "nmbm_check_info_table ni start_ba end_ba data =
     do {
       hb \<leftarrow> mem_read data 0 sizeof_info_table_header;
       let ifthdr = dec_info_table_header hb;
       let bm = le_ints (drop (mapping_table_off ifthdr) data);
       let bs = le_words (drop (state_table_off ifthdr) data);
       r \<leftarrow> nmbm_check_mapping_loop ni bm end_ba (data_block_count ni) (signature_ba ni);
       case r of
         None \<Rightarrow> Some None
       | Some minimum_mapping_pb \<Rightarrow>
           do {
             ok \<leftarrow> nmbm_check_state_loop ni bs start_ba end_ba;
             if ok then Some (Some (sub32 minimum_mapping_pb 1)) else Some None
           }
     }"

section \<open>Reading a table\<close>

text \<open>
  The block loop of \<^verbatim>\<open>nmbm_try_load_info_table\<close>. \<open>Some (start_ba, ba)\<close>: the whole table was
  read, from \<open>start_ba\<close> and up to block \<open>ba\<close> exclusive; \<open>None\<close>: the function returns false.
\<close>

function nmbm_try_load_loop ::
  "'d nmbm_instance \<Rightarrow> nat \<Rightarrow> nat \<Rightarrow> nat \<Rightarrow> nat \<Rightarrow> bool \<Rightarrow>
     ((nat \<times> nat) option \<times> 'd nmbm_instance) option" where
  "nmbm_try_load_loop ni ba limit sizeremain start_ba checkhdr =
     (if sizeremain \<noteq> 0 \<and> ba < limit then
        do {
          st \<leftarrow> nmbm_get_block_state ni ba;
          if st \<noteq> BLOCK_ST_GOOD then
            nmbm_try_load_loop ni (ba + 1) limit sizeremain start_ba checkhdr
          else do {
            (bad, ni) \<leftarrow> nmbm_check_bad_phys_block ni ba;
            if bad then do {
              (_, ni) \<leftarrow> nmbm_set_block_state ni ba BLOCK_ST_BAD;
              nmbm_try_load_loop ni (ba + 1) limit sizeremain start_ba checkhdr
            }
            else do {
              let chunksize = (if sizeremain > erasesize (lower ni) then erasesize (lower ni)
                               else sizeremain);
              let off = info_table_size ni - sizeremain;
              (ret, bytes, ni) \<leftarrow> nmbn_read_data ni (ba2addr ni ba) chunksize;
              cache \<leftarrow> mem_write (info_table_cache ni) off bytes;
              let ni = ni\<lparr>info_table_cache := cache\<rparr>;
              if ret < 0 then do {
                (_, ni) \<leftarrow> nmbm_set_block_state ni ba BLOCK_ST_BAD;
                nmbm_try_load_loop ni (ba + 1) limit sizeremain start_ba checkhdr
              }
              else if ret > 0 then Some (None, ni)
              else if checkhdr then do {
                hb \<leftarrow> mem_read (info_table_cache ni) off sizeof_info_table_header;
                if \<not> nmbm_check_info_table_header ni (dec_info_table_header hb)
                then Some (None, ni)
                else nmbm_try_load_loop ni (ba + 1) limit (sizeremain - chunksize) ba False
              }
              else nmbm_try_load_loop ni (ba + 1) limit (sizeremain - chunksize) start_ba False
            }
          }
        }
      else if sizeremain \<noteq> 0 then Some (None, ni)
      else Some (Some (start_ba, ba), ni))"
  by pat_completeness auto
termination
  by (relation "measure (\<lambda>(ni, ba, limit, sizeremain, start_ba, checkhdr). limit - ba)") auto

declare nmbm_try_load_loop.simps [simp del]

text \<open>
  Result of \<^verbatim>\<open>nmbm_try_load_info_table\<close>: \<open>Some (eba, write_count, mapping_blocks_top_ba)\<close>
  for true.
\<close>

definition nmbm_try_load_info_table ::
  "crc_fun \<Rightarrow> 'd nmbm_instance \<Rightarrow> nat \<Rightarrow> bool \<Rightarrow>
     ((nat \<times> nat \<times> nat) option \<times> 'd nmbm_instance) option" where
  "nmbm_try_load_info_table crc ni ba table_loaded =
     do {
       (r, ni) \<leftarrow> nmbm_try_load_loop ni ba (u32 (ba + size2blk ni (info_table_size ni)))
                   (info_table_size ni) 0 True;
       case r of
         None \<Rightarrow> Some (None, ni)
       | Some (start_ba, eba) \<Rightarrow>
           do {
             ok \<leftarrow> nmbm_check_header crc (info_table_cache ni) (info_table_size ni);
             if \<not> ok then Some (None, ni)
             else do {
               hb \<leftarrow> mem_read (info_table_cache ni) 0 sizeof_info_table_header;
               let ifthdr = dec_info_table_header hb;
               chk \<leftarrow> nmbm_check_info_table ni start_ba eba (info_table_cache ni);
               case chk of
                 None \<Rightarrow> Some (None, ni)
               | Some top_ba \<Rightarrow>
                   do {
                     ni \<leftarrow>
                       (if \<not> table_loaded \<or> write_count ifthdr > write_count (info_table ni) then
                          do {
                            sb \<leftarrow> mem_read (info_table_cache ni) (state_table_off ifthdr)
                                    (state_table_size ni);
                            mb \<leftarrow> mem_read (info_table_cache ni) (mapping_table_off ifthdr)
                                    (mapping_table_size ni);
                            Some (ni\<lparr>info_table := ifthdr, block_state := le_words sb,
                                     block_mapping := le_ints mb\<rparr>)
                          }
                        else Some ni);
                     Some (Some (eba, write_count ifthdr, top_ba), ni)
                   }
             }
           }
     }"

text \<open>
  \<open>lim\<close> is \<^verbatim>\<open>limit - size2blk(ni, ni->info_table_size)\<close>, which the loop does not change.
  Result: start, end, write count and top of the table found.
\<close>

function nmbm_search_info_table_loop ::
  "crc_fun \<Rightarrow> 'd nmbm_instance \<Rightarrow> nat \<Rightarrow> nat \<Rightarrow> bool \<Rightarrow>
     ((nat \<times> nat \<times> nat \<times> nat) option \<times> 'd nmbm_instance) option" where
  "nmbm_search_info_table_loop crc ni ba lim table_loaded =
     (if ba < lim then
        do {
          (r, ni) \<leftarrow> nmbm_try_load_info_table crc ni ba table_loaded;
          case r of
            Some (eba, wc, top_ba) \<Rightarrow> Some (Some (ba, eba, wc, top_ba), ni)
          | None \<Rightarrow> nmbm_search_info_table_loop crc ni (ba + 1) lim table_loaded
        }
      else Some (None, ni))"
  by pat_completeness auto
termination
  by (relation "measure (\<lambda>(crc, ni, ba, lim, table_loaded). lim - ba)") auto

declare nmbm_search_info_table_loop.simps [simp del]

definition nmbm_search_info_table ::
  "crc_fun \<Rightarrow> 'd nmbm_instance \<Rightarrow> nat \<Rightarrow> nat \<Rightarrow> bool \<Rightarrow>
     ((nat \<times> nat \<times> nat \<times> nat) option \<times> 'd nmbm_instance) option" where
  "nmbm_search_info_table crc ni ba limit table_loaded =
     nmbm_search_info_table_loop crc ni ba
       (sub32 limit (size2blk ni (info_table_size ni))) table_loaded"

text \<open>The loop that sets the final \<^verbatim>\<open>data_block_count\<close>.\<close>

fun nmbm_final_data_count :: "int list \<Rightarrow> nat \<Rightarrow> nat \<Rightarrow> nat option" where
  "nmbm_final_data_count bm 0 old = Some old"
| "nmbm_final_data_count bm (Suc i) old =
     do {
       m \<leftarrow> arr_get bm i;
       if m \<ge> 0 then Some (Suc i) else nmbm_final_data_count bm i old
     }"

text \<open>\<^verbatim>\<open>nmbm_load_info_table\<close> after both searches, from the regeneration of the cache on.\<close>

definition nmbm_load_info_table_finish ::
  "crc_fun \<Rightarrow> 'd nmbm_instance \<Rightarrow> nat \<Rightarrow> nat option \<Rightarrow> (bool \<times> 'd nmbm_instance) option" where
  "nmbm_load_info_table_finish crc ni main_wc backup_wc =
     do {
       (_, ni) \<leftarrow> nmbm_generate_info_table_cache crc ni;
       if has_flag ni NMBM_F_READ_ONLY then Some (True, ni)
       else do {
         (success, ni) \<leftarrow>
           (if backup_table_ba ni = 0 then nmbm_rescue_single_info_table ni
            else do {
              bwc \<leftarrow> backup_wc;
              if main_wc \<noteq> bwc then
                nmbm_update_single_info_table
                  (ni\<lparr>block_state_changed := 1, block_mapping_changed := 1\<rparr>) (main_wc < bwc)
              else Some (True, ni)
            });
         if mapping_blocks_ba ni = mapping_blocks_top_ba ni then
           Some (True, ni\<lparr>protected := True\<rparr>)
         else if \<not> success then Some (True, ni\<lparr>protected := True\<rparr>)
         else Some (True, ni)
       }
     }"

text \<open>
  The two loops that only colour blocks for debugging (lines 1995 to 2003) have no effect: their
  macros are empty, and the entries they compare are in bounds once the loop above has succeeded.
\<close>

definition nmbm_load_info_table ::
  "crc_fun \<Rightarrow> 'd nmbm_instance \<Rightarrow> nat \<Rightarrow> nat \<Rightarrow> (bool \<times> 'd nmbm_instance) option" where
  "nmbm_load_info_table crc ni ba limit =
     do {
       let ni = ni\<lparr>main_table_ba := 0, backup_table_ba := 0,
                   info_table := (info_table ni)\<lparr>write_count := 0\<rparr>,
                   mapping_blocks_top_ba := sub32 (signature_ba ni) 1,
                   data_block_count := mgmt_start_pb (signature ni)\<rparr>;
       (r, ni) \<leftarrow> nmbm_search_info_table crc ni ba limit False;
       case r of
         None \<Rightarrow> Some (False, ni)
       | Some (main_ba, main_end, main_wc, main_top) \<Rightarrow>
           do {
             let ni = ni\<lparr>main_table_ba := main_ba\<rparr>;
             (r2, ni) \<leftarrow> nmbm_search_info_table crc ni main_end limit True;
             let (ni, table_end_ba, backup_wc, backup_top) =
               (case r2 of
                  None \<Rightarrow> (ni, main_end, None, None)
                | Some (b_ba, b_end, b_wc, b_top) \<Rightarrow>
                    (ni\<lparr>backup_table_ba := b_ba\<rparr>, b_end, Some b_wc, Some b_top));
             top_ba \<leftarrow>
               (if backup_table_ba ni = 0 then Some main_top
                else do {
                  bwc \<leftarrow> backup_wc;
                  btop \<leftarrow> backup_top;
                  Some (if main_wc \<ge> bwc then main_top else btop)
                });
             let ni = ni\<lparr>mapping_blocks_top_ba := top_ba, mapping_blocks_ba := table_end_ba\<rparr>;
             dc \<leftarrow> nmbm_final_data_count (block_mapping ni) (mgmt_start_pb (signature ni))
                     (data_block_count ni);
             nmbm_load_info_table_finish crc (ni\<lparr>data_block_count := dc\<rparr>) main_wc backup_wc
           }
     }"

definition nmbm_load_existing ::
  "crc_fun \<Rightarrow> 'd nmbm_instance \<Rightarrow> (bool \<times> 'd nmbm_instance) option" where
  "nmbm_load_existing crc ni =
     do {
       let ni = ni\<lparr>mgmt_start_ba := mgmt_start_pb (signature ni)\<rparr>;
       (success, ni) \<leftarrow> nmbm_load_info_table crc ni (mgmt_start_ba ni) (signature_ba ni);
       if success then Some (True, ni)
       else if \<not> has_flag ni NMBM_F_CREATE then Some (False, ni)
       else do {
         ni \<leftarrow> nmbm_scan_badblocks ni;
         ni \<leftarrow> nmbm_build_mapping_table ni;
         if has_flag ni NMBM_F_READ_ONLY then Some (True, ni)
         else nmbm_create_info_table crc ni
       }
     }"

section \<open>The signature\<close>

text \<open>The page loop of \<^verbatim>\<open>nmbm_find_signature\<close>: the first page with a valid signature.\<close>

fun nmbm_find_signature_pages ::
  "crc_fun \<Rightarrow> nat list \<Rightarrow> 'd nmbm_instance \<Rightarrow> nat \<Rightarrow>
     (nmbm_signature option \<times> 'd nmbm_instance) option" where
  "nmbm_find_signature_pages crc [] ni addr = Some (None, ni)"
| "nmbm_find_signature_pages crc (off # offs) ni addr =
     do {
       (ret, bytes, ni) \<leftarrow> nmbn_read_data ni (u64 (addr + off)) sizeof_signature;
       if ret \<noteq> 0 then nmbm_find_signature_pages crc offs ni addr
       else do {
         ok \<leftarrow> nmbm_check_header crc bytes sizeof_signature;
         if \<not> ok then nmbm_find_signature_pages crc offs ni addr
         else if magic (sig_header (dec_signature bytes)) = NMBM_MAGIC_SIGNATURE
         then Some (Some (dec_signature bytes), ni)
         else nmbm_find_signature_pages crc offs ni addr
       }
     }"

text \<open>
  The block loop tests \<^verbatim>\<open>ba >= limit\<close> before it decrements \<^verbatim>\<open>ba\<close>. At block 0 the counter wraps
  to \<^verbatim>\<open>0xffffffff\<close>, outside the chip, and the loop does not end: \<open>None\<close>.
\<close>

fun nmbm_find_signature_loop ::
  "crc_fun \<Rightarrow> 'd nmbm_instance \<Rightarrow> nat \<Rightarrow> nat \<Rightarrow>
     ((nmbm_signature \<times> nat) option \<times> 'd nmbm_instance) option" where
  "nmbm_find_signature_loop crc ni ba limit =
     (if ba \<ge> limit then
        (if ba = 0 then None
         else do {
           let ba' = ba - 1;
           let addr = ba2addr ni ba';
           (bad, ni) \<leftarrow> nmbm_check_bad_phys_block ni ba';
           if bad then nmbm_find_signature_loop crc ni (ba - 1) limit
           else do {
             (r, ni) \<leftarrow> nmbm_find_signature_pages crc (page_offsets ni) ni addr;
             case r of
               Some sig \<Rightarrow> Some (Some (sig, ba'), ni)
             | None \<Rightarrow> nmbm_find_signature_loop crc ni (ba - 1) limit
           }
         })
      else Some (None, ni))"

declare nmbm_find_signature_loop.simps [simp del]

definition nmbm_signature_limit :: "'d nmbm_instance \<Rightarrow> nat \<Rightarrow> nat" where
  "nmbm_signature_limit ni bc =
     (let limit = u32 ((bc div NMBM_MGMT_DIV) * sub32 NMBM_MGMT_DIV (max_ratio (lower ni)))
      in if max_reserved_blocks (lower ni) \<noteq> 0 \<and>
            sub32 bc limit > max_reserved_blocks (lower ni)
         then sub32 bc (max_reserved_blocks (lower ni)) else limit)"

definition nmbm_find_signature ::
  "crc_fun \<Rightarrow> 'd nmbm_instance \<Rightarrow> ((nmbm_signature \<times> nat) option \<times> 'd nmbm_instance) option" where
  "nmbm_find_signature crc ni =
     (let bc = u32 (drop_bit (erasesize_shift ni) (chip_size (lower ni)))
      in nmbm_find_signature_loop crc ni bc (nmbm_signature_limit ni bc))"

end
