(* ===== verification/Nmbm_Attach.thy ===== *)
theory Nmbm_Attach
  imports Nmbm_Load
begin

text \<open>
  Attaching to and detaching from a lower device: \<^verbatim>\<open>nmbm-core.c\<close> lines 2151 to 2425. The
  arguments of the API functions are never NULL here, so their \<^verbatim>\<open>if (!ni) return -EINVAL\<close>
  guards have no counterpart.
\<close>

definition is_power_of_2_u64 :: "nat \<Rightarrow> bool" where
  "is_power_of_2_u64 n \<longleftrightarrow> n \<noteq> 0 \<and> (n AND sub64 n 1) = 0"

text \<open>\<^verbatim>\<open>is_power_of_2\<close> of \<^verbatim>\<open>linux/log2.h\<close>, on an \<^verbatim>\<open>unsigned long\<close>, and POSIX \<^verbatim>\<open>ffs\<close>.\<close>

definition is_power_of_2 :: "nat \<Rightarrow> bool" where
  "is_power_of_2 n \<longleftrightarrow> n \<noteq> 0 \<and> (n AND sub64 n 1) = 0"

fun ffs :: "nat \<Rightarrow> nat" where
  "ffs n = (if n = 0 then 0 else if odd n then 1 else Suc (ffs (n div 2)))"

declare ffs.simps [simp del]

text \<open>
  The result is the flag and the lower device structure, in which an unset \<^verbatim>\<open>max_ratio\<close> gets
  its default.
\<close>

definition nmbm_check_lower_members ::
  "'d nmbm_lower_device \<Rightarrow> bool \<times> 'd nmbm_lower_device" where
  "nmbm_check_lower_members nld =
     (if chip_size nld = 0 \<or> \<not> is_power_of_2_u64 (chip_size nld) then (False, nld)
      else if erasesize nld = 0 \<or> \<not> is_power_of_2 (erasesize nld) then (False, nld)
      else if writesize nld = 0 \<or> \<not> is_power_of_2 (writesize nld) then (False, nld)
      else if oobsize nld = 0 then (False, nld)
      else if read_page nld = None then (False, nld)
      else if flags nld AND NMBM_F_READ_ONLY = 0 \<and>
              (write_page nld = None \<or> erase_block nld = None) then (False, nld)
      else
        let nld = (if max_ratio nld = 0 then nld\<lparr>max_ratio := 1\<rparr> else nld) in
        if max_ratio nld \<ge> NMBM_MGMT_DIV - 1 then (False, nld)
        else if max_reserved_blocks nld \<noteq> 0 \<and> max_reserved_blocks nld < NMBM_MGMT_BLOCKS_MIN
        then (False, nld)
        else (True, nld))"

definition nmbm_lldiv :: "nat \<Rightarrow> nat \<Rightarrow> nat" where
  "nmbm_lldiv dividend divisor = u32 (dividend div divisor)"

text \<open>
  The sizes of the tables, computed in the same way by \<^verbatim>\<open>nmbm_calc_structure_size\<close> and by
  \<^verbatim>\<open>nmbm_init_structure\<close>.
\<close>

definition calc_state_table_size :: "nat \<Rightarrow> nat" where
  "calc_state_table_size bc =
     u32 (sub32 (bc + NMBM_BITMAP_BLOCKS_PER_UNIT) 1 div NMBM_BITMAP_BLOCKS_PER_UNIT
          * NMBM_BITMAP_UNIT_SIZE)"

definition calc_mapping_table_size :: "nat \<Rightarrow> nat" where
  "calc_mapping_table_size bc = u32 (bc * 4)"

text \<open>\<open>sizeof_instance\<close> is \<^verbatim>\<open>sizeof(struct nmbm_instance)\<close>, which depends on the platform.\<close>

definition nmbm_calc_structure_size :: "nat \<Rightarrow> 'd nmbm_lower_device \<Rightarrow> nat" where
  "nmbm_calc_structure_size sizeof_instance nld =
     (let bc = nmbm_lldiv (chip_size nld) (erasesize nld);
          state_table_sz = calc_state_table_size bc;
          mapping_table_sz = calc_mapping_table_size bc;
          info_table_sz = NMBM_ALIGN sizeof_info_table_header (writesize nld);
          info_table_sz = u32 (info_table_sz + NMBM_ALIGN state_table_sz (writesize nld));
          info_table_sz = u32 (info_table_sz + NMBM_ALIGN mapping_table_sz (writesize nld))
      in u32 (u32 (u32 (u32 (info_table_sz + state_table_sz) + mapping_table_sz)
                     + writesize nld) + oobsize nld) + sizeof_instance)"

text \<open>
  The buffers behind the instance are allocated with \<^verbatim>\<open>devm_kzalloc\<close> by \<^verbatim>\<open>nmbm_probe\<close>: their
  bytes are 0 until something is stored.
\<close>

definition nmbm_init_structure :: "'d nmbm_instance \<Rightarrow> 'd nmbm_instance" where
  "nmbm_init_structure ni =
     (let lo = lower ni;
          pages_per_block = erasesize lo div writesize lo;
          blocks_per_chip = nmbm_lldiv (chip_size lo) (erasesize lo);
          ni = ni\<lparr>rawpage_size := u32 (writesize lo + oobsize lo)\<rparr>;
          ni = ni\<lparr>rawblock_size := u32 (pages_per_block * rawpage_size ni)\<rparr>;
          ni = ni\<lparr>rawchip_size := u32 (blocks_per_chip * rawblock_size ni)\<rparr>;
          ni = ni\<lparr>writesize_mask := sub32 (writesize lo) 1,
                  erasesize_mask := sub32 (erasesize lo) 1,
                  writesize_shift := u16 (ffs (writesize lo) + 65535),
                  erasesize_shift := u16 (ffs (erasesize lo) + 65535)\<rparr>;
          ni = ni\<lparr>block_count := u32 (drop_bit (erasesize_shift ni) (chip_size lo))\<rparr>;
          ni = ni\<lparr>state_table_size := calc_state_table_size (block_count ni),
                  mapping_table_size := calc_mapping_table_size (block_count ni)\<rparr>;
          ni = ni\<lparr>info_table_size := NMBM_ALIGN sizeof_info_table_header (writesize lo)\<rparr>;
          ni = ni\<lparr>info_table := (info_table ni)\<lparr>state_table_off := info_table_size ni\<rparr>\<rparr>;
          ni = ni\<lparr>info_table_size :=
                    u32 (info_table_size ni + NMBM_ALIGN (state_table_size ni) (writesize lo))\<rparr>;
          ni = ni\<lparr>info_table := (info_table ni)\<lparr>mapping_table_off := info_table_size ni\<rparr>\<rparr>;
          ni = ni\<lparr>info_table_size :=
                    u32 (info_table_size ni + NMBM_ALIGN (mapping_table_size ni) (writesize lo))\<rparr>;
          ni = ni\<lparr>info_table_spare_blocks :=
                    nmbm_get_spare_block_count (size2blk ni (info_table_size ni))\<rparr>
      in ni\<lparr>info_table_cache := replicate (info_table_size ni) 0,
            block_state := replicate (state_table_size ni div 4) (- 1),
            block_state_changed := 0,
            block_mapping := replicate (mapping_table_size ni div 4) 0,
            page_cache := replicate (rawpage_size ni) 0,
            block_mapping_changed := 0\<rparr>)"

definition NMBM_DEFAULT_LOG_LEVEL :: nmbm_log_category where
  "NMBM_DEFAULT_LOG_LEVEL = NMBM_LOG_INFO"

definition nmbm_attach ::
  "crc_fun \<Rightarrow> 'd nmbm_lower_device \<Rightarrow> 'd nmbm_instance \<Rightarrow> (int \<times> 'd nmbm_instance) option" where
  "nmbm_attach crc nld ni =
     do {
       let ni = ni\<lparr>log_display_level := NMBM_DEFAULT_LOG_LEVEL\<rparr>;
       let (success, nld) = nmbm_check_lower_members nld;
       if \<not> success then Some (- EINVAL, ni)
       else do {
         let ni = nmbm_init_structure (ni\<lparr>lower := nld\<rparr>);
         (r, ni) \<leftarrow> nmbm_find_signature crc ni;
         case r of
           None \<Rightarrow>
             (if flags nld AND NMBM_F_CREATE = 0 then Some (- ENODEV, ni)
              else do {
                (success, ni) \<leftarrow> nmbm_create_new crc ni;
                if \<not> success then Some (- ENODEV, ni) else Some (0, ni)
              })
         | Some (sig, ba) \<Rightarrow>
             do {
               let ni = ni\<lparr>signature := sig, signature_ba := ba\<rparr>;
               if version (sig_header (signature ni)) \<noteq> NMBM_VER then Some (- EINVAL, ni)
               else if nand_size (signature ni) \<noteq> chip_size nld \<or>
                       block_size (signature ni) \<noteq> erasesize nld \<or>
                       page_size (signature ni) \<noteq> writesize nld \<or>
                       spare_size (signature ni) \<noteq> oobsize nld then Some (- EINVAL, ni)
               else do {
                 (success, ni) \<leftarrow> nmbm_load_existing crc ni;
                 if \<not> success then Some (- ENODEV, ni) else Some (0, ni)
               }
             }
       }
     }"

definition nmbm_detach :: "crc_fun \<Rightarrow> 'd nmbm_instance \<Rightarrow> (int \<times> 'd nmbm_instance) option" where
  "nmbm_detach crc ni =
     do {
       ni \<leftarrow> (if \<not> has_flag ni NMBM_F_READ_ONLY
              then do { (_, ni) \<leftarrow> nmbm_update_info_table crc ni; Some ni }
              else Some ni);
       Some (0, ni)
     }"

end
