(* ===== verification/Nmbm_Logic.thy ===== *)
theory Nmbm_Logic
  imports Nmbm_Attach
begin

text \<open>
  Operations on logic blocks and pages, the API that the MTD layer calls: \<^verbatim>\<open>nmbm-core.c\<close> lines
  2427 to 2933.
\<close>

section \<open>Erasure\<close>

text \<open>
  \<^verbatim>\<open>nmbm_erase_logic_block\<close> from the label \<^verbatim>\<open>remap_logic_block\<close> to \<^verbatim>\<open>goto retry\<close>: \<open>None\<close> inside
  means that the block was remapped and the erasure is tried again.
\<close>

definition nmbm_remap_logic_block ::
  "crc_fun \<Rightarrow> 'd nmbm_instance \<Rightarrow> nat \<Rightarrow> nat \<Rightarrow> (int option \<times> 'd nmbm_instance) option" where
  "nmbm_remap_logic_block crc ni block_addr pb =
     do {
       (success, ni) \<leftarrow> nmbm_map_block crc ni block_addr;
       if \<not> success then
         do {
           bm \<leftarrow> arr_set (block_mapping ni) block_addr (- 1);
           let ni = ni\<lparr>block_mapping := bm\<rparr>;
           st \<leftarrow> nmbm_get_block_state ni pb;
           (_, ni) \<leftarrow> (if st \<noteq> BLOCK_ST_NEED_REMAP
                       then nmbm_set_block_state ni pb BLOCK_ST_BAD else Some (False, ni));
           (_, ni) \<leftarrow> nmbm_update_info_table crc ni;
           Some (Some (- EIO), ni)
         }
       else
         do {
           st \<leftarrow> nmbm_get_block_state ni pb;
           (_, ni) \<leftarrow> (if st \<noteq> BLOCK_ST_NEED_REMAP
                       then nmbm_set_block_state ni pb BLOCK_ST_BAD else Some (False, ni));
           (_, ni) \<leftarrow> nmbm_update_info_table crc ni;
           Some (None, ni)
         }
     }"

text \<open>One pass from \<^verbatim>\<open>retry:\<close> to a return or to the \<^verbatim>\<open>goto\<close>.\<close>

definition nmbm_erase_logic_block_pass ::
  "crc_fun \<Rightarrow> 'd nmbm_instance \<Rightarrow> nat \<Rightarrow> (int option \<times> 'd nmbm_instance) option" where
  "nmbm_erase_logic_block_pass crc ni block_addr =
     do {
       m \<leftarrow> arr_get (block_mapping ni) block_addr;
       if m < 0 then Some (Some (- EIO), ni)
       else do {
         let pb = nat m;
         st \<leftarrow> nmbm_get_block_state ni pb;
         if st = BLOCK_ST_BAD \<or> st = BLOCK_ST_NEED_REMAP
         then nmbm_remap_logic_block crc ni block_addr pb
         else do {
           (bad, ni) \<leftarrow> nmbm_check_bad_phys_block ni pb;
           if bad then do {
             (_, ni) \<leftarrow> nmbm_set_block_state ni pb BLOCK_ST_BAD;
             nmbm_remap_logic_block crc ni block_addr pb
           }
           else do {
             (success, ni) \<leftarrow> nmbm_erase_block_and_check ni pb;
             if success then Some (Some 0, ni)
             else do {
               ni \<leftarrow> nmbm_retire_block ni pb;
               nmbm_remap_logic_block crc ni block_addr pb
             }
           }
         }
       }
     }"

partial_function (option) nmbm_erase_logic_block ::
  "crc_fun \<Rightarrow> 'd nmbm_instance \<Rightarrow> nat \<Rightarrow> (int \<times> 'd nmbm_instance) option" where
  "nmbm_erase_logic_block crc ni block_addr =
     do {
       (r, ni) \<leftarrow> nmbm_erase_logic_block_pass crc ni block_addr;
       case r of
         Some ret \<Rightarrow> Some (ret, ni)
       | None \<Rightarrow> nmbm_erase_logic_block crc ni block_addr
     }"

declare nmbm_erase_logic_block.simps [code]

text \<open>
  \<open>Some a\<close> as second component is \<^verbatim>\<open>*failed_addr = a\<close>. The block counter is a \<^verbatim>\<open>uint32_t\<close>:
  with \<open>end_ba = 0xffffffff\<close> it wraps around and the loop does not end.
\<close>

function nmbm_erase_block_range_loop ::
  "crc_fun \<Rightarrow> 'd nmbm_instance \<Rightarrow> nat \<Rightarrow> nat \<Rightarrow> (int \<times> nat option \<times> 'd nmbm_instance) option" where
  "nmbm_erase_block_range_loop crc ni start_ba end_ba =
     (if start_ba \<le> end_ba then
        do {
          (ret, ni) \<leftarrow> nmbm_erase_logic_block crc ni start_ba;
          if ret \<noteq> 0 then Some (ret, Some (ba2addr ni start_ba), ni)
          else if start_ba = 2 ^ 32 - 1 then None
          else nmbm_erase_block_range_loop crc ni (start_ba + 1) end_ba
        }
      else Some (0, None, ni))"
  by pat_completeness auto
termination
  by (relation "measure (\<lambda>(crc, ni, start_ba, end_ba). Suc end_ba - start_ba)") auto

declare nmbm_erase_block_range_loop.simps [simp del]

definition nmbm_erase_block_range ::
  "crc_fun \<Rightarrow> 'd nmbm_instance \<Rightarrow> nat \<Rightarrow> nat \<Rightarrow> (int \<times> nat option \<times> 'd nmbm_instance) option" where
  "nmbm_erase_block_range crc ni addr sz =
     (if protected ni \<or> has_flag ni NMBM_F_READ_ONLY then Some (- EROFS, None, ni)
      else if addr \<ge> ba2addr ni (data_block_count ni) then Some (- EINVAL, None, ni)
      else if u64 (addr + sz) > ba2addr ni (data_block_count ni) then Some (- EINVAL, None, ni)
      else if sz = 0 then Some (0, None, ni)
      else nmbm_erase_block_range_loop crc ni (addr2ba ni addr)
             (addr2ba ni (sub64 (addr + sz) 1)))"

section \<open>Reading\<close>

definition nmbm_read_logic_page ::
  "'d nmbm_instance \<Rightarrow> nat \<Rightarrow> bool \<Rightarrow> bool \<Rightarrow> nmbm_oob_mode \<Rightarrow>
     (int \<times> byte list \<times> byte list \<times> 'd nmbm_instance) option" where
  "nmbm_read_logic_page ni addr data oob mode =
     do {
       let lb = addr2ba ni addr;
       let offset = addr AND erasesize_mask ni;
       m \<leftarrow> arr_get (block_mapping ni) lb;
       if m < 0 then Some (- EIO, [], [], ni)
       else do {
         let pb = nat m;
         st \<leftarrow> nmbm_get_block_state ni pb;
         if st = BLOCK_ST_BAD then Some (- EIO, [], [], ni)
         else nmbm_read_phys_page ni (u64 (ba2addr ni pb + offset)) data oob mode
       }
     }"

definition nmbm_read_single_page ::
  "'d nmbm_instance \<Rightarrow> nat \<Rightarrow> bool \<Rightarrow> bool \<Rightarrow> nmbm_oob_mode \<Rightarrow>
     (int \<times> byte list \<times> byte list \<times> 'd nmbm_instance) option" where
  "nmbm_read_single_page ni addr data oob mode =
     (if protected ni then Some (- EROFS, [], [], ni)
      else if addr \<ge> ba2addr ni (data_block_count ni) then Some (- EINVAL, [], [], ni)
      else nmbm_read_logic_page ni addr data oob mode)"

text \<open>
  The loop of \<^verbatim>\<open>nmbm_read_range\<close>; it ends with the last \<^verbatim>\<open>ret\<close>, the ECC error flag, the
  maximum of bitflips, the bytes stored at \<^verbatim>\<open>data\<close> and \<^verbatim>\<open>sizeremain\<close>.
\<close>

function nmbm_read_range_loop ::
  "'d nmbm_instance \<Rightarrow> nat \<Rightarrow> nat \<Rightarrow> nmbm_oob_mode \<Rightarrow> byte list \<Rightarrow> bool \<Rightarrow> int \<Rightarrow> int \<Rightarrow>
     (int \<times> bool \<times> int \<times> byte list \<times> nat \<times> 'd nmbm_instance) option" where
  "nmbm_read_range_loop ni off sizeremain mode acc has_ecc_err max_bitflips ret0 =
     (if sizeremain = 0 then Some (ret0, has_ecc_err, max_bitflips, acc, 0, ni)
      else do {
        let leading = chunk_leading ni off;
        let chunksize = chunk_size ni off sizeremain;
        if chunksize = 0 then None
        else do {
          (ret, data, _, ni) \<leftarrow> nmbm_read_logic_page ni (off - leading) True False mode;
          if chunksize = writesize (lower ni) then
            (if ret < 0 \<and> ret \<noteq> - EBADMSG
             then Some (ret, has_ecc_err, max_bitflips, acc, sizeremain, ni)
             else nmbm_read_range_loop ni (u64 (off + chunksize)) (sizeremain - chunksize) mode
                    (acc @ data) (if ret = - EBADMSG then True else has_ecc_err)
                    (if ret > max_bitflips then ret else max_bitflips) ret)
          else do {
            pc \<leftarrow> mem_write (page_cache ni) 0 data;
            let ni = ni\<lparr>page_cache := pc\<rparr>;
            if ret < 0 \<and> ret \<noteq> - EBADMSG
            then Some (ret, has_ecc_err, max_bitflips, acc, sizeremain, ni)
            else do {
              bs \<leftarrow> mem_read (page_cache ni) leading chunksize;
              nmbm_read_range_loop ni (u64 (off + chunksize)) (sizeremain - chunksize) mode
                (acc @ bs) (if ret = - EBADMSG then True else has_ecc_err)
                (if ret > max_bitflips then ret else max_bitflips) ret
            }
          }
        }
      })"
  by pat_completeness auto
termination
  by (relation "measure (\<lambda>(ni, off, sizeremain, mode, acc, e, m, r). sizeremain)") auto

declare nmbm_read_range_loop.simps [simp del]

text \<open>
  Result: the code's result, the bytes read, \<^verbatim>\<open>*retlen\<close> (\<open>None\<close> where the function returns
  before it is assigned) and the instance.
\<close>

definition nmbm_read_range ::
  "'d nmbm_instance \<Rightarrow> nat \<Rightarrow> nat \<Rightarrow> nmbm_oob_mode \<Rightarrow>
     (int \<times> byte list \<times> nat option \<times> 'd nmbm_instance) option" where
  "nmbm_read_range ni addr sz mode =
     (if protected ni then Some (- EROFS, [], None, ni)
      else if addr \<ge> ba2addr ni (data_block_count ni) then Some (- EINVAL, [], None, ni)
      else if u64 (addr + sz) > ba2addr ni (data_block_count ni)
        then Some (- EINVAL, [], None, ni)
      else if sz = 0 then Some (0, [], None, ni)
      else do {
        (ret, has_ecc_err, max_bitflips, data, sizeremain, ni) \<leftarrow>
          nmbm_read_range_loop ni addr sz mode [] False 0 0;
        let retlen = sz - sizeremain;
        if ret < 0 \<and> ret \<noteq> - EBADMSG then Some (ret, data, Some retlen, ni)
        else if has_ecc_err then Some (- EBADMSG, data, Some retlen, ni)
        else Some (max_bitflips, data, Some retlen, ni)
      })"

section \<open>Writing\<close>

definition nmbm_write_logic_page ::
  "crc_fun \<Rightarrow> 'd nmbm_instance \<Rightarrow> nat \<Rightarrow> byte list option \<Rightarrow> byte list option \<Rightarrow> nmbm_oob_mode \<Rightarrow>
     (int \<times> 'd nmbm_instance) option" where
  "nmbm_write_logic_page crc ni addr data oob mode =
     do {
       let lb = addr2ba ni addr;
       let offset = addr AND erasesize_mask ni;
       m \<leftarrow> arr_get (block_mapping ni) lb;
       if m < 0 then Some (- EIO, ni)
       else do {
         let pb = nat m;
         st \<leftarrow> nmbm_get_block_state ni pb;
         if st = BLOCK_ST_BAD then Some (- EIO, ni)
         else do {
           (success, ni) \<leftarrow>
             nmbm_write_phys_page ni (u64 (ba2addr ni pb + offset)) data oob mode;
           if success then Some (0, ni)
           else do {
             (_, ni) \<leftarrow> nmbm_set_block_state ni pb BLOCK_ST_NEED_REMAP;
             (_, ni) \<leftarrow> nmbm_update_info_table crc ni;
             Some (- EIO, ni)
           }
         }
       }
     }"

definition nmbm_write_single_page ::
  "crc_fun \<Rightarrow> 'd nmbm_instance \<Rightarrow> nat \<Rightarrow> byte list option \<Rightarrow> byte list option \<Rightarrow> nmbm_oob_mode \<Rightarrow>
     (int \<times> 'd nmbm_instance) option" where
  "nmbm_write_single_page crc ni addr data oob mode =
     (if protected ni \<or> has_flag ni NMBM_F_READ_ONLY then Some (- EROFS, ni)
      else if addr \<ge> ba2addr ni (data_block_count ni) then Some (- EINVAL, ni)
      else nmbm_write_logic_page crc ni addr data oob mode)"

text \<open>\<open>ptr\<close> is the position in \<open>data\<close>; the loop returns the last \<^verbatim>\<open>ret\<close> and \<^verbatim>\<open>sizeremain\<close>.\<close>

function nmbm_write_range_loop ::
  "crc_fun \<Rightarrow> 'd nmbm_instance \<Rightarrow> nat \<Rightarrow> byte list \<Rightarrow> nat \<Rightarrow> nat \<Rightarrow> nmbm_oob_mode \<Rightarrow> int \<Rightarrow>
     (int \<times> nat \<times> 'd nmbm_instance) option" where
  "nmbm_write_range_loop crc ni off data ptr sizeremain mode ret0 =
     (if sizeremain = 0 then Some (ret0, 0, ni)
      else do {
        let leading = chunk_leading ni off;
        let chunksize = chunk_size ni off sizeremain;
        if chunksize = 0 then None
        else do {
          src \<leftarrow> mem_read data ptr chunksize;
          (ret, ni) \<leftarrow>
            (if chunksize = writesize (lower ni) then
               nmbm_write_logic_page crc ni (off - leading) (Some src) None mode
             else do {
               pc \<leftarrow> mem_write (page_cache ni) 0 (replicate leading 0xff);
               pc \<leftarrow> mem_write pc leading src;
               let ni = ni\<lparr>page_cache := pc\<rparr>;
               page \<leftarrow> mem_read (page_cache ni) 0 (writesize (lower ni));
               nmbm_write_logic_page crc ni (off - leading) (Some page) None mode
             });
          if ret \<noteq> 0 then Some (ret, sizeremain, ni)
          else nmbm_write_range_loop crc ni (u64 (off + chunksize)) data (ptr + chunksize)
                 (sizeremain - chunksize) mode ret
        }
      })"
  by pat_completeness auto
termination
  by (relation "measure (\<lambda>(crc, ni, off, data, ptr, sizeremain, mode, r). sizeremain)") auto

declare nmbm_write_range_loop.simps [simp del]

definition nmbm_write_range ::
  "crc_fun \<Rightarrow> 'd nmbm_instance \<Rightarrow> nat \<Rightarrow> nat \<Rightarrow> byte list \<Rightarrow> nmbm_oob_mode \<Rightarrow>
     (int \<times> nat option \<times> 'd nmbm_instance) option" where
  "nmbm_write_range crc ni addr sz data mode =
     (if protected ni \<or> has_flag ni NMBM_F_READ_ONLY then Some (- EROFS, None, ni)
      else if addr \<ge> ba2addr ni (data_block_count ni) then Some (- EINVAL, None, ni)
      else if u64 (addr + sz) > ba2addr ni (data_block_count ni) then Some (- EINVAL, None, ni)
      else if sz = 0 then Some (0, None, ni)
      else do {
        (ret, sizeremain, ni) \<leftarrow> nmbm_write_range_loop crc ni addr data 0 sz mode 0;
        Some (ret, Some (sz - sizeremain), ni)
      })"

section \<open>Bad block queries\<close>

definition nmbm_check_bad_block :: "'d nmbm_instance \<Rightarrow> nat \<Rightarrow> int option" where
  "nmbm_check_bad_block ni addr =
     (if addr \<ge> ba2addr ni (data_block_count ni) then Some (- EINVAL)
      else do {
        let lb = addr2ba ni addr;
        m \<leftarrow> arr_get (block_mapping ni) lb;
        if m < 0 then Some 1
        else do {
          let pb = nat m;
          st \<leftarrow> nmbm_get_block_state ni pb;
          if st = BLOCK_ST_BAD then Some 1 else Some 0
        }
      })"

definition nmbm_mark_bad_block ::
  "crc_fun \<Rightarrow> 'd nmbm_instance \<Rightarrow> nat \<Rightarrow> (int \<times> 'd nmbm_instance) option" where
  "nmbm_mark_bad_block crc ni addr =
     (if protected ni \<or> has_flag ni NMBM_F_READ_ONLY then Some (- EROFS, ni)
      else if addr \<ge> ba2addr ni (data_block_count ni) then Some (- EINVAL, ni)
      else do {
        let lb = addr2ba ni addr;
        m \<leftarrow> arr_get (block_mapping ni) lb;
        if m < 0 then Some (0, ni)
        else do {
          let pb = nat m;
          bm \<leftarrow> arr_set (block_mapping ni) lb (- 1);
          let ni = ni\<lparr>block_mapping := bm\<rparr>;
          (_, ni) \<leftarrow> nmbm_mark_phys_bad_block ni pb;
          (_, ni) \<leftarrow> nmbm_set_block_state ni pb BLOCK_ST_BAD;
          (_, ni) \<leftarrow> nmbm_update_info_table crc ni;
          Some (0, ni)
        }
      })"

definition nmbm_get_avail_size :: "'d nmbm_instance \<Rightarrow> nat" where
  "nmbm_get_avail_size ni = u64 (push_bit (erasesize_shift ni) (data_block_count ni))"

definition nmbm_get_lower_device :: "'d nmbm_instance \<Rightarrow> int \<times> 'd nmbm_lower_device" where
  "nmbm_get_lower_device ni = (0, lower ni)"

end
