(* ===== verification/Nmbm_Mtd.thy ===== *)
theory Nmbm_Mtd
  imports Nmbm_Logic
begin

text \<open>
  The MTD layer of NMBM, \<^verbatim>\<open>nmbm-mtd.c\<close>: the callbacks NMBM uses on the lower MTD device, the
  exclusive use of the device, the operations of the upper MTD device, and the platform driver.

  The MTD core of the kernel is not part of the repository. Its functions are the fields of
  \<open>'m mtd_api\<close>, a parameter of the definitions; \<open>'m\<close> is whatever state the lower driver keeps.
\<close>

section \<open>Data\<close>

datatype mtd_ops_mode = MTD_OPS_PLACE_OOB | MTD_OPS_AUTO_OOB | MTD_OPS_RAW

text \<open>The states of \<^verbatim>\<open>linux/mtd/flashchip.h\<close> the layer uses.\<close>

datatype flstate_t = FL_READY | FL_READING | FL_WRITING | FL_ERASING | FL_PM_SUSPENDED

record mtd_ecc_stats =
  corrected :: nat
  failed :: nat

record 'm mtd_info =
  mtd_size :: nat
  mtd_erasesize :: nat
  mtd_writesize :: nat
  mtd_oobsize :: nat
  mtd_oobavail_size :: nat
  mtd_writesize_shift :: nat
  mtd_writesize_mask :: nat
  bitflip_threshold :: nat
  ecc_strength :: nat
  ecc_stats :: mtd_ecc_stats
  mtd_priv :: 'm

text \<open>
  Functions of the kernel's MTD core. \<^verbatim>\<open>mtd_read_oob\<close> takes the fields of \<^verbatim>\<open>struct mtd_oob_ops\<close> the
  callers set (mode, \<^verbatim>\<open>len\<close>, \<^verbatim>\<open>ooblen\<close>, whether there is a data and an OOB buffer) and returns what
  the two buffers hold afterwards.
\<close>

record 'm mtd_api =
  mtd_oobavail :: "'m mtd_info \<Rightarrow> mtd_ops_mode \<Rightarrow> nat"
  mtd_read_oob :: "'m mtd_info \<Rightarrow> nat \<Rightarrow> mtd_ops_mode \<Rightarrow> nat \<Rightarrow> nat \<Rightarrow> bool \<Rightarrow> bool \<Rightarrow>
                     int \<times> byte list \<times> byte list \<times> 'm mtd_info"
  mtd_write_oob :: "'m mtd_info \<Rightarrow> nat \<Rightarrow> mtd_ops_mode \<Rightarrow> byte list option \<Rightarrow> byte list option \<Rightarrow>
                      int \<times> 'm mtd_info"
  mtd_erase :: "'m mtd_info \<Rightarrow> nat \<Rightarrow> nat \<Rightarrow> int \<times> 'm mtd_info"
  mtd_block_isbad :: "'m mtd_info \<Rightarrow> nat \<Rightarrow> int \<times> 'm mtd_info"
  mtd_block_markbad :: "'m mtd_info \<Rightarrow> nat \<Rightarrow> int \<times> 'm mtd_info"

text \<open>
  \<^verbatim>\<open>struct nmbm_mtd\<close>. The callbacks reach it through \<^verbatim>\<open>nld.arg\<close>; what they use of it, the lower
  device and the statistics of the upper one, is \<open>'m nmbm_mtd_arg\<close>. The instance and the rest are
  in \<open>'m nmbm_mtd\<close>.
\<close>

record 'm nmbm_mtd_arg =
  nm_lower :: "'m mtd_info"
  nm_upper_stats :: mtd_ecc_stats

record 'm nmbm_mtd =
  nm_ni :: "'m nmbm_mtd_arg nmbm_instance"
  nm_page_cache :: "byte list"
  nm_state :: flstate_t
  nm_upper_size :: nat

definition lower_mtd :: "'m nmbm_mtd \<Rightarrow> 'm mtd_info" where
  "lower_mtd nm = nm_lower (dev (nm_ni nm))"

section \<open>Callbacks on the lower device\<close>

definition to_mtd_mode :: "nmbm_oob_mode \<Rightarrow> mtd_ops_mode" where
  "to_mtd_mode mode = (case mode of
     NMBM_MODE_PLACE_OOB \<Rightarrow> MTD_OPS_PLACE_OOB
   | NMBM_MODE_AUTO_OOB \<Rightarrow> MTD_OPS_AUTO_OOB
   | NMBM_MODE_RAW \<Rightarrow> MTD_OPS_RAW)"

definition nmbm_lower_read_page ::
  "'m mtd_api \<Rightarrow> 'm nmbm_mtd_arg \<Rightarrow> nat \<Rightarrow> bool \<Rightarrow> bool \<Rightarrow> nmbm_oob_mode \<Rightarrow>
     int \<times> byte list \<times> byte list \<times> 'm nmbm_mtd_arg" where
  "nmbm_lower_read_page api nm addr buf oob mode =
     (let m = to_mtd_mode mode;
          len = (if buf then mtd_writesize (nm_lower nm) else 0);
          ooblen = (if oob then mtd_oobavail api (nm_lower nm) m else 0);
          (ret, dat, ob, l) = mtd_read_oob api (nm_lower nm) addr m len ooblen buf oob;
          nm = nm\<lparr>nm_lower := l, nm_upper_stats := ecc_stats l\<rparr>
      in if ret < 0 \<and> ret \<noteq> - EUCLEAN then (ret, dat, ob, nm)
         else if ret = - EUCLEAN
         then (int (min (u32 (bitflip_threshold l + 1)) (ecc_strength l)), dat, ob, nm)
         else (0, dat, ob, nm))"

definition nmbm_lower_write_page ::
  "'m mtd_api \<Rightarrow> 'm nmbm_mtd_arg \<Rightarrow> nat \<Rightarrow> byte list option \<Rightarrow> byte list option \<Rightarrow> nmbm_oob_mode \<Rightarrow>
     int \<times> 'm nmbm_mtd_arg" where
  "nmbm_lower_write_page api nm addr buf oob mode =
     (let m = to_mtd_mode mode;
          dat = map_option (take (mtd_writesize (nm_lower nm))) buf;
          ob = map_option (take (mtd_oobavail api (nm_lower nm) m)) oob;
          (ret, l) = mtd_write_oob api (nm_lower nm) addr m dat ob
      in (ret, nm\<lparr>nm_lower := l\<rparr>))"

definition nmbm_lower_erase_block ::
  "'m mtd_api \<Rightarrow> 'm nmbm_mtd_arg \<Rightarrow> nat \<Rightarrow> int \<times> 'm nmbm_mtd_arg" where
  "nmbm_lower_erase_block api nm addr =
     (let (ret, l) = mtd_erase api (nm_lower nm) addr (mtd_erasesize (nm_lower nm))
      in (ret, nm\<lparr>nm_lower := l\<rparr>))"

definition nmbm_lower_is_bad_block ::
  "'m mtd_api \<Rightarrow> 'm nmbm_mtd_arg \<Rightarrow> nat \<Rightarrow> int \<times> 'm nmbm_mtd_arg" where
  "nmbm_lower_is_bad_block api nm addr =
     (let (ret, l) = mtd_block_isbad api (nm_lower nm) addr in (ret, nm\<lparr>nm_lower := l\<rparr>))"

definition nmbm_lower_mark_bad_block ::
  "'m mtd_api \<Rightarrow> 'm nmbm_mtd_arg \<Rightarrow> nat \<Rightarrow> int \<times> 'm nmbm_mtd_arg" where
  "nmbm_lower_mark_bad_block api nm addr =
     (let (ret, l) = mtd_block_markbad api (nm_lower nm) addr in (ret, nm\<lparr>nm_lower := l\<rparr>))"

section \<open>Exclusive use\<close>

text \<open>
  One pass of \<^verbatim>\<open>nmbm_get_device\<close>: \<open>None\<close> where the caller goes to sleep and tries again.
\<close>

definition nmbm_get_device :: "'m nmbm_mtd \<Rightarrow> flstate_t \<Rightarrow> 'm nmbm_mtd option" where
  "nmbm_get_device nm new_state =
     (if nm_state nm = FL_READY then Some (nm\<lparr>nm_state := new_state\<rparr>)
      else if new_state = FL_PM_SUSPENDED \<and> nm_state nm = FL_PM_SUSPENDED then Some nm
      else None)"

definition nmbm_release_device :: "'m nmbm_mtd \<Rightarrow> 'm nmbm_mtd" where
  "nmbm_release_device nm = nm\<lparr>nm_state := FL_READY\<rparr>"

section \<open>Operations of the upper device\<close>

text \<open>Result: the code, \<^verbatim>\<open>instr->fail_addr\<close> where it is assigned, and the device.\<close>

definition nmbm_mtd_erase ::
  "crc_fun \<Rightarrow> 'm nmbm_mtd \<Rightarrow> nat \<Rightarrow> nat \<Rightarrow> (int \<times> nat option \<times> 'm nmbm_mtd) option" where
  "nmbm_mtd_erase crc nm addr len =
     do {
       nm \<leftarrow> nmbm_get_device nm FL_ERASING;
       (ret, fail_addr, ni) \<leftarrow> nmbm_erase_block_range crc (nm_ni nm) addr len;
       let nm = nmbm_release_device (nm\<lparr>nm_ni := ni\<rparr>);
       Some (if ret = 0 then 0 else - EIO, fail_addr, nm)
     }"

text \<open>
  The call of \<^verbatim>\<open>nmbm_read_single_page\<close> in \<^verbatim>\<open>nmbm_mtd_read_data\<close>, with its buffers in the page cache
  of the layer.
\<close>

definition nmbm_mtd_read_page ::
  "'m nmbm_mtd \<Rightarrow> nat \<Rightarrow> bool \<Rightarrow> bool \<Rightarrow> nmbm_oob_mode \<Rightarrow> (int \<times> 'm nmbm_mtd) option" where
  "nmbm_mtd_read_page nm addr dc oc mode =
     do {
       (ret, d, o', ni) \<leftarrow> nmbm_read_single_page (nm_ni nm) addr dc oc mode;
       pc \<leftarrow> mem_write (nm_page_cache nm) 0 d;
       pc \<leftarrow> mem_write pc (mtd_writesize (lower_mtd nm)) o';
       Some (ret, nm\<lparr>nm_ni := ni, nm_page_cache := pc\<rparr>)
     }"

text \<open>
  The page loop of \<^verbatim>\<open>nmbm_mtd_read_data\<close>. \<open>dc\<close> and \<open>oc\<close> say whether \<^verbatim>\<open>datcache\<close> and
  \<^verbatim>\<open>oobcache\<close> are not NULL; \<open>dat\<close> and \<open>ob\<close> are the bytes moved so far, so \<^verbatim>\<open>retlen\<close> and
  \<^verbatim>\<open>oobretlen\<close> are their lengths. A pass that moves nothing would repeat forever.
\<close>

function nmbm_mtd_read_data_loop ::
  "'m nmbm_mtd \<Rightarrow> nat \<Rightarrow> nmbm_oob_mode \<Rightarrow> nat \<Rightarrow> bool \<Rightarrow> bool \<Rightarrow> nat \<Rightarrow> nat \<Rightarrow> nat \<Rightarrow> nat \<Rightarrow>
     bool \<Rightarrow> int \<Rightarrow> byte list \<Rightarrow> byte list \<Rightarrow>
     (int \<times> byte list \<times> byte list \<times> 'm nmbm_mtd) option" where
  "nmbm_mtd_read_data_loop nm addr mode maxooblen dc oc col ooboffs len ooblen
       has_ecc_err max_bitflips dat ob =
     (if len = 0 \<and> ooblen = 0
      then Some (if has_ecc_err then - EBADMSG else max_bitflips, dat, ob, nm)
      else do {
        let ws = mtd_writesize (lower_mtd nm);
        (ret, nm) \<leftarrow> nmbm_mtd_read_page nm addr dc oc mode;
        if ret < 0 \<and> ret \<noteq> - EBADMSG then Some (ret, dat, ob, nm)
        else do {
          let has_ecc_err = (if ret = - EBADMSG then True else has_ecc_err);
          let max_bitflips = (if ret > max_bitflips then ret else max_bitflips);
          let dlen = min (sub32 ws col) len;
          let olen = min (sub64 maxooblen ooboffs) ooblen;
          ds \<leftarrow> (if len = 0 then Some [] else mem_read (nm_page_cache nm) col dlen);
          os \<leftarrow> (if ooblen = 0 then Some [] else mem_read (nm_page_cache nm) (ws + ooboffs) olen);
          if dlen = 0 \<and> olen = 0 then None
          else nmbm_mtd_read_data_loop nm (u64 (addr + ws)) mode maxooblen dc oc
                 (if len = 0 then col else 0) (if ooblen = 0 then ooboffs else 0)
                 (len - dlen) (ooblen - olen) has_ecc_err max_bitflips (dat @ ds) (ob @ os)
        }
      })"
  by pat_completeness auto
termination
  by (relation "measure (\<lambda>(nm, addr, mode, m, dc, oc, col, ooboffs, len, ooblen, e, b, dat, ob).
        len + ooblen)") auto

declare nmbm_mtd_read_data_loop.simps [simp del]

definition nmbm_mtd_read_data ::
  "'m mtd_api \<Rightarrow> 'm nmbm_mtd \<Rightarrow> nat \<Rightarrow> mtd_ops_mode \<Rightarrow> nmbm_oob_mode \<Rightarrow> nat \<Rightarrow> nat \<Rightarrow> nat \<Rightarrow>
     (int \<times> byte list \<times> byte list \<times> 'm nmbm_mtd) option" where
  "nmbm_mtd_read_data api nm addr omode mode len ooblen ooboffs =
     (let mask = mtd_writesize_mask (lower_mtd nm);
          col = addr AND mask
      in nmbm_mtd_read_data_loop nm (addr - col) mode (mtd_oobavail api (lower_mtd nm) omode)
           (len \<noteq> 0) (ooblen \<noteq> 0) col ooboffs len ooblen False 0 [] [])"

definition from_mtd_mode :: "mtd_ops_mode \<Rightarrow> nmbm_oob_mode" where
  "from_mtd_mode m = (case m of
     MTD_OPS_PLACE_OOB \<Rightarrow> NMBM_MODE_PLACE_OOB
   | MTD_OPS_AUTO_OOB \<Rightarrow> NMBM_MODE_AUTO_OOB
   | MTD_OPS_RAW \<Rightarrow> NMBM_MODE_RAW)"

text \<open>
  The upper \<^verbatim>\<open>mtd_info\<close>: a copy of the lower one, but for its size. \<open>has_dat\<close> and \<open>has_oob\<close>: the
  caller passed a data and an OOB buffer. The last guard of \<^verbatim>\<open>nmbm_mtd_read_oob\<close> and
  \<^verbatim>\<open>nmbm_mtd_write_oob\<close> is the same expression.
\<close>

definition upper_mtd :: "'m nmbm_mtd \<Rightarrow> 'm mtd_info" where
  "upper_mtd nm = (lower_mtd nm)\<lparr>mtd_size := nm_upper_size nm\<rparr>"

definition oob_beyond_end :: "'m nmbm_mtd \<Rightarrow> nat \<Rightarrow> nat \<Rightarrow> nat \<Rightarrow> nat \<Rightarrow> bool" where
  "oob_beyond_end nm from ooboffs ooblen maxooblen \<longleftrightarrow>
     from \<ge> nm_upper_size nm \<or>
     u64 (ooboffs + ooblen) >
       u64 (sub64 (drop_bit (mtd_writesize_shift (lower_mtd nm)) (nm_upper_size nm))
                  (drop_bit (mtd_writesize_shift (lower_mtd nm)) from) * maxooblen)"

definition nmbm_mtd_read_oob ::
  "'m mtd_api \<Rightarrow> 'm nmbm_mtd \<Rightarrow> nat \<Rightarrow> mtd_ops_mode \<Rightarrow> bool \<Rightarrow> bool \<Rightarrow> nat \<Rightarrow> nat \<Rightarrow> nat \<Rightarrow>
     (int \<times> byte list \<times> byte list \<times> 'm nmbm_mtd) option" where
  "nmbm_mtd_read_oob api nm from omode has_dat has_oob len ooblen ooboffs =
     (if \<not> has_oob \<and> \<not> has_dat then
        (if ooblen \<noteq> 0 \<or> len \<noteq> 0 then Some (- EINVAL, [], [], nm) else Some (0, [], [], nm))
      else
        let mode = from_mtd_mode omode;
            maxooblen = mtd_oobavail api (upper_mtd nm) omode in
        if has_dat \<and> u64 (from + len) > nm_upper_size nm then Some (- EINVAL, [], [], nm)
        else if \<not> has_oob then
          do {
            nm \<leftarrow> nmbm_get_device nm FL_READING;
            (ret, dat, _, ni) \<leftarrow> nmbm_read_range (nm_ni nm) from len mode;
            Some (ret, dat, [], nmbm_release_device (nm\<lparr>nm_ni := ni\<rparr>))
          }
        else if ooboffs \<ge> maxooblen then Some (- EINVAL, [], [], nm)
        else if oob_beyond_end nm from ooboffs ooblen maxooblen then Some (- EINVAL, [], [], nm)
        else do {
          nm \<leftarrow> nmbm_get_device nm FL_READING;
          (ret, dat, ob, nm) \<leftarrow> nmbm_mtd_read_data api nm from omode mode len ooblen ooboffs;
          Some (ret, dat, ob, nmbm_release_device nm)
        })"

text \<open>
  The \<^verbatim>\<open>memset\<close>, \<^verbatim>\<open>memcpy\<close>, \<^verbatim>\<open>memset\<close> sequences of \<^verbatim>\<open>nmbm_mtd_write_data\<close>: the bytes \<open>bs\<close> at offset
  \<open>off\<close> of the area of \<open>sz\<close> bytes at \<open>base\<close>, \<^verbatim>\<open>0xff\<close> around them.
\<close>

definition nmbm_mtd_fill ::
  "byte list \<Rightarrow> nat \<Rightarrow> nat \<Rightarrow> nat \<Rightarrow> byte list \<Rightarrow> byte list option" where
  "nmbm_mtd_fill pc base sz off bs =
     do {
       pc \<leftarrow> mem_write pc base (replicate off 0xff);
       pc \<leftarrow> mem_write pc (base + off) bs;
       mem_write pc (base + off + length bs) (replicate (sub64 (sub32 sz off) (length bs)) 0xff)
     }"

text \<open>The page loop of \<^verbatim>\<open>nmbm_mtd_write_data\<close>; \<open>dp\<close> and \<open>op\<close> are \<^verbatim>\<open>retlen\<close> and \<^verbatim>\<open>oobretlen\<close>.\<close>

function nmbm_mtd_write_data_loop ::
  "crc_fun \<Rightarrow> 'm nmbm_mtd \<Rightarrow> nat \<Rightarrow> nmbm_oob_mode \<Rightarrow> nat \<Rightarrow> bool \<Rightarrow> bool \<Rightarrow> nat \<Rightarrow> nat \<Rightarrow> nat \<Rightarrow> nat \<Rightarrow>
     byte list \<Rightarrow> nat \<Rightarrow> byte list \<Rightarrow> nat \<Rightarrow> (int \<times> nat \<times> nat \<times> 'm nmbm_mtd) option" where
  "nmbm_mtd_write_data_loop crc nm addr mode maxooblen dc oc col ooboffs len ooblen
       datbuf dp oobbuf op =
     (if len = 0 \<and> ooblen = 0 then Some (0, dp, op, nm)
      else do {
        let ws = mtd_writesize (lower_mtd nm);
        let obs = mtd_oobsize (lower_mtd nm);
        let dlen = min (sub32 ws col) len;
        let olen = min (sub64 maxooblen ooboffs) ooblen;
        pc \<leftarrow> (if len = 0 then Some (nm_page_cache nm)
               else do {
                 ds \<leftarrow> mem_read datbuf dp dlen;
                 nmbm_mtd_fill (nm_page_cache nm) 0 ws col ds
               });
        pc \<leftarrow> (if ooblen = 0 then Some pc
               else do {
                 os \<leftarrow> mem_read oobbuf op olen;
                 nmbm_mtd_fill pc ws obs ooboffs os
               });
        d \<leftarrow> (if dc then do { x \<leftarrow> mem_read pc 0 ws; Some (Some x) } else Some None);
        ob \<leftarrow> (if oc then do { x \<leftarrow> mem_read pc ws obs; Some (Some x) } else Some None);
        (ret, ni) \<leftarrow> nmbm_write_single_page crc (nm_ni nm) addr d ob mode;
        let nm = nm\<lparr>nm_ni := ni, nm_page_cache := pc\<rparr>;
        if ret \<noteq> 0 then Some (ret, dp + dlen, op + olen, nm)
        else if dlen = 0 \<and> olen = 0 then None
        else nmbm_mtd_write_data_loop crc nm (u64 (addr + ws)) mode maxooblen dc oc
               (if len = 0 then col else 0) (if ooblen = 0 then ooboffs else 0)
               (len - dlen) (ooblen - olen) datbuf (dp + dlen) oobbuf (op + olen)
      })"
  by pat_completeness auto
termination
  by (relation "measure (\<lambda>(crc, nm, addr, mode, m, dc, oc, col, ooboffs, len, ooblen, db, dp, ob, op).
        len + ooblen)") auto

declare nmbm_mtd_write_data_loop.simps [simp del]

definition nmbm_mtd_write_data ::
  "crc_fun \<Rightarrow> 'm mtd_api \<Rightarrow> 'm nmbm_mtd \<Rightarrow> nat \<Rightarrow> mtd_ops_mode \<Rightarrow> nmbm_oob_mode \<Rightarrow> nat \<Rightarrow> nat \<Rightarrow> nat \<Rightarrow>
     byte list \<Rightarrow> byte list \<Rightarrow> (int \<times> nat \<times> nat \<times> 'm nmbm_mtd) option" where
  "nmbm_mtd_write_data crc api nm addr omode mode len ooblen ooboffs datbuf oobbuf =
     (let mask = mtd_writesize_mask (lower_mtd nm);
          col = addr AND mask
      in nmbm_mtd_write_data_loop crc nm (addr - col) mode (mtd_oobavail api (lower_mtd nm) omode)
           (len \<noteq> 0) (ooblen \<noteq> 0) col ooboffs len ooblen datbuf 0 oobbuf 0)"

text \<open>
  A NULL buffer has no bytes: reading from it is undefined. \<^verbatim>\<open>ops->retlen\<close> is 0 on entry, and
  stays so where \<^verbatim>\<open>nmbm_write_range\<close> returns before it assigns it.
\<close>

definition buf_of :: "byte list option \<Rightarrow> byte list" where
  "buf_of b = (case b of Some bs \<Rightarrow> bs | None \<Rightarrow> [])"

definition nmbm_mtd_write_oob ::
  "crc_fun \<Rightarrow> 'm mtd_api \<Rightarrow> 'm nmbm_mtd \<Rightarrow> nat \<Rightarrow> mtd_ops_mode \<Rightarrow> byte list option \<Rightarrow>
     byte list option \<Rightarrow> nat \<Rightarrow> nat \<Rightarrow> nat \<Rightarrow> (int \<times> nat \<times> nat \<times> 'm nmbm_mtd) option" where
  "nmbm_mtd_write_oob crc api nm to omode datbuf oobbuf len ooblen ooboffs =
     (if oobbuf = None \<and> datbuf = None then
        (if ooblen \<noteq> 0 \<or> len \<noteq> 0 then Some (- EINVAL, 0, 0, nm) else Some (0, 0, 0, nm))
      else
        let mode = from_mtd_mode omode;
            maxooblen = mtd_oobavail api (upper_mtd nm) omode in
        if datbuf \<noteq> None \<and> u64 (to + len) > nm_upper_size nm then Some (- EINVAL, 0, 0, nm)
        else if oobbuf = None then
          do {
            nm \<leftarrow> nmbm_get_device nm FL_WRITING;
            (ret, retlen, ni) \<leftarrow> nmbm_write_range crc (nm_ni nm) to len (buf_of datbuf) mode;
            Some (ret, (case retlen of Some n \<Rightarrow> n | None \<Rightarrow> 0), 0, nmbm_release_device (nm\<lparr>nm_ni := ni\<rparr>))
          }
        else if ooboffs \<ge> maxooblen then Some (- EINVAL, 0, 0, nm)
        else if oob_beyond_end nm to ooboffs ooblen maxooblen then Some (- EINVAL, 0, 0, nm)
        else do {
          nm \<leftarrow> nmbm_get_device nm FL_WRITING;
          (ret, rl, orl, nm) \<leftarrow> nmbm_mtd_write_data crc api nm to omode mode len ooblen ooboffs
                                  (buf_of datbuf) (buf_of oobbuf);
          Some (ret, rl, orl, nmbm_release_device nm)
        })"

definition nmbm_mtd_block_isbad :: "'m nmbm_mtd \<Rightarrow> nat \<Rightarrow> (int \<times> 'm nmbm_mtd) option" where
  "nmbm_mtd_block_isbad nm offs =
     do {
       nm \<leftarrow> nmbm_get_device nm FL_READING;
       ret \<leftarrow> nmbm_check_bad_block (nm_ni nm) offs;
       Some (ret, nmbm_release_device nm)
     }"

definition nmbm_mtd_block_markbad ::
  "crc_fun \<Rightarrow> 'm nmbm_mtd \<Rightarrow> nat \<Rightarrow> (int \<times> 'm nmbm_mtd) option" where
  "nmbm_mtd_block_markbad crc nm offs =
     do {
       nm \<leftarrow> nmbm_get_device nm FL_WRITING;
       (ret, ni) \<leftarrow> nmbm_mark_bad_block crc (nm_ni nm) offs;
       Some (ret, nmbm_release_device (nm\<lparr>nm_ni := ni\<rparr>))
     }"

definition nmbm_mtd_shutdown :: "'m nmbm_mtd \<Rightarrow> 'm nmbm_mtd option" where
  "nmbm_mtd_shutdown nm = nmbm_get_device nm FL_PM_SUSPENDED"

section \<open>The platform driver\<close>

definition NMBM_MAX_RATIO_DEFAULT :: nat where "NMBM_MAX_RATIO_DEFAULT = 1"
definition NMBM_MAX_BLOCKS_DEFAULT :: nat where "NMBM_MAX_BLOCKS_DEFAULT = 256"

text \<open>
  What \<^verbatim>\<open>nmbm_probe\<close> reads from the device tree and the kernel: \<open>by_node\<close> is \<open>None\<close> without a
  phandle, otherwise the result of \<^verbatim>\<open>get_mtd_device_by_node\<close>; \<open>by_name\<close> the same for the name.
\<close>

record 'm nmbm_probe_env =
  by_node :: "'m mtd_info option option"
  by_name :: "'m mtd_info option option"
  prop_max_ratio :: "nat option"
  prop_max_reserved_blocks :: "nat option"
  prop_forced_create :: bool
  prop_empty_page_ecc_ok :: bool
  alloc_ok :: bool
  register_ret :: int

text \<open>The lower device structure \<^verbatim>\<open>nmbm_probe\<close> fills in for the attachment.\<close>

definition nmbm_probe_nld ::
  "'m mtd_api \<Rightarrow> 'm nmbm_probe_env \<Rightarrow> 'm mtd_info \<Rightarrow> 'm nmbm_mtd_arg nmbm_lower_device" where
  "nmbm_probe_nld api env low =
     \<lparr> max_ratio = (case prop_max_ratio env of Some r \<Rightarrow> r | None \<Rightarrow> NMBM_MAX_RATIO_DEFAULT),
       max_reserved_blocks = (case prop_max_reserved_blocks env of
          Some b \<Rightarrow> b | None \<Rightarrow> NMBM_MAX_BLOCKS_DEFAULT),
       flags = (if prop_forced_create env then NMBM_F_CREATE else 0) OR
               (if prop_empty_page_ecc_ok env then NMBM_F_EMPTY_PAGE_ECC_OK else 0),
       chip_size = mtd_size low, erasesize = mtd_erasesize low, writesize = mtd_writesize low,
       oobsize = mtd_oobsize low, oobavail = mtd_oobavail_size low,
       arg = \<lparr> nm_lower = low, nm_upper_stats = \<lparr> corrected = 0, failed = 0 \<rparr> \<rparr>,
       reset_chip = None,
       read_page = Some (nmbm_lower_read_page api),
       write_page = Some (nmbm_lower_write_page api),
       erase_block = Some (nmbm_lower_erase_block api),
       is_bad_block = Some (nmbm_lower_is_bad_block api),
       mark_bad_block = Some (nmbm_lower_mark_bad_block api) \<rparr>"

text \<open>
  \<^verbatim>\<open>list_add_tail\<close> of \<^verbatim>\<open>linux/list.h\<close>, seen as what a walk along the \<^verbatim>\<open>next\<close> pointers visits until it
  is back at the head. The assignments are \<^verbatim>\<open>node->next = head\<close> and then \<^verbatim>\<open>tail->next = node\<close>. For a
  node that is already in the list, what came after it is no longer visited; if it is the tail
  itself, it becomes its own successor and the walk does not end: \<open>None\<close>.
\<close>

definition list_add_tail :: "nat \<Rightarrow> nat list \<Rightarrow> nat list option" where
  "list_add_tail node devs =
     (if node \<notin> set devs then Some (devs @ [node])
      else if last devs = node then None
      else Some (takeWhile (\<lambda>x. x \<noteq> node) devs @ [node]))"

text \<open>
  \<^verbatim>\<open>nmbm_devs\<close> is a list of devices, here of their identities. The result of \<^verbatim>\<open>nmbm_probe\<close> is the
  code, the device if it was kept, whether the reference on the lower device was put, and the
  list. \<open>None\<close>: no lower device was named, so the uninitialised \<^verbatim>\<open>lower\<close> is used.
  \<open>zeroed\<close> is the memory \<^verbatim>\<open>devm_kzalloc\<close> returns, read as an instance.
\<close>

definition nmbm_probe ::
  "crc_fun \<Rightarrow> 'm mtd_api \<Rightarrow> 'm nmbm_probe_env \<Rightarrow> 'm nmbm_mtd_arg nmbm_instance \<Rightarrow> nat \<Rightarrow> nat list \<Rightarrow>
     (int \<times> 'm nmbm_mtd option \<times> bool \<times> nat list option) option" where
  "nmbm_probe crc api env zeroed pdev devs =
     (let attach_mtd = (\<lambda>low.
        if \<not> alloc_ok env then Some (- ENOMEM, None, True, Some devs)
        else do {
          (ret, ni) \<leftarrow> nmbm_attach crc (nmbm_probe_nld api env low) zeroed;
          if ret \<noteq> 0 then Some (ret, None, True, Some devs)
          else do {
            let nm = \<lparr> nm_ni = ni,
                       nm_page_cache = replicate (mtd_writesize low + mtd_oobsize low) 0,
                       nm_state = FL_READY,
                       nm_upper_size = u64 (data_block_count ni * mtd_erasesize low) \<rparr>;
            if register_ret env \<noteq> 0 then
              do {
                (_, ni) \<leftarrow> nmbm_detach crc ni;
                Some (register_ret env, None, True, Some devs)
              }
            else Some (0, Some nm, False, list_add_tail pdev devs)
          }
        })
      in case by_node env of
           Some (Some low) \<Rightarrow> attach_mtd low
         | Some None \<Rightarrow> Some (- EPROBE_DEFER, None, False, Some devs)
         | None \<Rightarrow>
             (case by_name env of
                Some (Some low) \<Rightarrow> attach_mtd low
              | Some None \<Rightarrow> Some (- EPROBE_DEFER, None, False, Some devs)
              | None \<Rightarrow> None))"

text \<open>
  \<^verbatim>\<open>nmbm_remove\<close>: \<open>unreg_ret\<close> is the result of \<^verbatim>\<open>mtd_device_unregister\<close>. After the code 0 the
  memory of the device is freed; the list is the one left behind.
\<close>

definition nmbm_remove ::
  "crc_fun \<Rightarrow> int \<Rightarrow> 'm nmbm_mtd \<Rightarrow> nat \<Rightarrow> nat list \<Rightarrow>
     (int \<times> 'm nmbm_mtd_arg nmbm_instance \<times> nat list option) option" where
  "nmbm_remove crc unreg_ret nm pdev devs =
     (if unreg_ret \<noteq> 0 then Some (unreg_ret, nm_ni nm, Some devs)
      else do {
        (_, ni) \<leftarrow> nmbm_detach crc (nm_ni nm);
        Some (0, ni, list_add_tail pdev devs)
      })"

end
