(* ===== verification/Nmbm_Lock.thy ===== *)
theory Nmbm_Lock
  imports Nmbm_Mtd
begin

text \<open>
  Concurrent callers of the upper device. Every operation of \<^verbatim>\<open>nmbm-mtd.c\<close> brackets its work with
  \<^verbatim>\<open>nmbm_get_device\<close> and \<^verbatim>\<open>nmbm_release_device\<close>, except the shutdown, which never gives the
  device back. Threads take turns in any order; a pass of \<^verbatim>\<open>nmbm_get_device\<close> and
  \<^verbatim>\<open>nmbm_release_device\<close> are atomic, since they run under the spin lock.
\<close>

datatype thread_pc = Idle | Wants flstate_t | Holds flstate_t

text \<open>
  \<open>lock_step\<close>: a thread asks for the device; gets it; works with it (the instance and the page
  cache change, the state does not); gives it back.
\<close>

inductive lock_step ::
  "'m nmbm_mtd \<times> (nat \<Rightarrow> thread_pc) \<Rightarrow> 'm nmbm_mtd \<times> (nat \<Rightarrow> thread_pc) \<Rightarrow> bool" where
  request: "pcs t = Idle \<Longrightarrow> st \<noteq> FL_READY \<Longrightarrow> lock_step (nm, pcs) (nm, pcs(t := Wants st))"
| acquire: "pcs t = Wants st \<Longrightarrow> nmbm_get_device nm st = Some nm' \<Longrightarrow>
    lock_step (nm, pcs) (nm', pcs(t := Holds st))"
| work: "pcs t = Holds st \<Longrightarrow> st \<noteq> FL_PM_SUSPENDED \<Longrightarrow>
    lock_step (nm, pcs) (nm\<lparr>nm_ni := ni, nm_page_cache := pc\<rparr>, pcs)"
| release: "pcs t = Holds st \<Longrightarrow> st \<noteq> FL_PM_SUSPENDED \<Longrightarrow>
    lock_step (nm, pcs) (nmbm_release_device nm, pcs(t := Idle))"

inductive_cases lock_stepE: "lock_step (nm, pcs) s"

inductive lock_reach :: "'m nmbm_mtd \<times> (nat \<Rightarrow> thread_pc) \<Rightarrow> 'm nmbm_mtd \<times> (nat \<Rightarrow> thread_pc) \<Rightarrow> bool"
  for s0 where
  start: "lock_reach s0 s0"
| step: "lock_reach s0 s \<Longrightarrow> lock_step s s' \<Longrightarrow> lock_reach s0 s'"

text \<open>The invariant: the state of the device says who holds it.\<close>

definition lock_inv :: "'m nmbm_mtd \<times> (nat \<Rightarrow> thread_pc) \<Rightarrow> bool" where
  "lock_inv s \<longleftrightarrow>
     (\<forall>t st. snd s t = Holds st \<longrightarrow> st \<noteq> FL_READY \<and> nm_state (fst s) = st) \<and>
     (\<forall>t st. snd s t = Wants st \<longrightarrow> st \<noteq> FL_READY) \<and>
     (\<forall>t u a b. snd s t = Holds a \<longrightarrow> snd s u = Holds b \<longrightarrow> t \<noteq> u \<longrightarrow>
        a = FL_PM_SUSPENDED \<and> b = FL_PM_SUSPENDED)"

lemma lock_inv_excl:
  assumes "lock_inv (nm, pcs)" and "pcs t = Holds a" and "pcs u = Holds b" and "a \<noteq> FL_PM_SUSPENDED"
  shows "u = t"
proof (rule ccontr)
  assume "u \<noteq> t"
  then have "a = FL_PM_SUSPENDED"
    using assms(1-3) unfolding lock_inv_def fst_conv snd_conv by metis
  with assms(4) show False ..
qed

lemma get_device_Some:
  assumes "nmbm_get_device nm st = Some nm'"
  shows "nm_state nm' = st" "nm_state nm = FL_READY \<or> st = FL_PM_SUSPENDED \<and> nm_state nm = FL_PM_SUSPENDED"
  using assms by (auto simp: nmbm_get_device_def split: if_splits)

lemma lock_inv_step:
  assumes "lock_inv s" and "lock_step s s'"
  shows "lock_inv s'"
  using assms(2,1)
proof cases
  case (request pcs t st nm)
  then show ?thesis
    using assms(1) by (auto simp: lock_inv_def)
next
  case (acquire pcs t st nm nm')
  note g = get_device_Some [OF acquire(4)]
  have free: "pcs u = Holds a \<Longrightarrow> st = FL_PM_SUSPENDED \<and> a = FL_PM_SUSPENDED" for u a
    using assms(1) g(2) acquire(1) by (force simp: lock_inv_def)
  have "st \<noteq> FL_READY"
    using assms(1) acquire by (auto simp: lock_inv_def)
  then show ?thesis
    using assms(1) acquire(1,2) g(1) free by (auto simp: lock_inv_def)
next
  case (work pcs t st nm ni pc)
  then show ?thesis
    using assms(1) by (auto simp: lock_inv_def)
next
  case (release pcs t st nm)
  then have "pcs u = Holds a \<Longrightarrow> u = t" for u a
    using lock_inv_excl [of nm pcs t st u a] assms(1) by simp
  then show ?thesis
    using assms(1) release(1,2) by (auto simp: lock_inv_def)
qed

lemma lock_inv_reach: "lock_reach s0 s \<Longrightarrow> lock_inv s0 \<Longrightarrow> lock_inv s"
  by (induction rule: lock_reach.induct) (auto intro: lock_inv_step)

text \<open>A held shutdown is final.\<close>

lemma suspended_step:
  assumes "lock_inv s" and "snd s t = Holds FL_PM_SUSPENDED" and "lock_step s s'"
  shows "snd s' t = Holds FL_PM_SUSPENDED \<and> nm_ni (fst s') = nm_ni (fst s)"
  using assms(3)
proof cases
  case (acquire pcs u st nm nm')
  then show ?thesis
    using assms(1,2) by (auto simp: lock_inv_def nmbm_get_device_def split: if_splits)
next
  case (work pcs u st nm ni pc)
  then have "u = t"
    using lock_inv_excl [of nm pcs u st t FL_PM_SUSPENDED] assms(1,2) by simp
  then show ?thesis
    using work assms(2) by simp
next
  case (release pcs u st nm)
  then have "u = t"
    using lock_inv_excl [of nm pcs u st t FL_PM_SUSPENDED] assms(1,2) by simp
  then show ?thesis
    using release assms(2) by simp
qed (use assms(2) in auto)

lemma suspended_reach:
  assumes "lock_reach s s'" and "lock_inv s" and "snd s t = Holds FL_PM_SUSPENDED"
  shows "snd s' t = Holds FL_PM_SUSPENDED \<and> nm_ni (fst s') = nm_ni (fst s)"
  using assms(1)
proof induction
  case (step s1 s2)
  then show ?case
    using suspended_step [OF lock_inv_reach [OF step(1) assms(2)], of t s2] by auto
qed (simp add: assms(3))

text \<open>A device that is not free is held by somebody, so whoever waits can get it.\<close>

definition lock_held :: "'m nmbm_mtd \<times> (nat \<Rightarrow> thread_pc) \<Rightarrow> bool" where
  "lock_held s \<longleftrightarrow> nm_state (fst s) = FL_READY \<or> (\<exists>t. snd s t = Holds (nm_state (fst s)))"

lemma lock_held_step:
  assumes "lock_held s" and "lock_step s s'"
  shows "lock_held s'"
  using assms(2,1)
proof cases
  case (request pcs t st nm)
  then show ?thesis
    using assms(1) by (force simp: lock_held_def)
next
  case (acquire pcs t st nm nm')
  then show ?thesis
    using get_device_Some(1) [OF acquire(4)] by (auto simp: lock_held_def)
next
  case (work pcs t st nm ni pc)
  then show ?thesis
    using assms(1) by (simp add: lock_held_def)
qed (simp add: lock_held_def nmbm_release_device_def)

lemma lock_held_reach: "lock_reach s0 s \<Longrightarrow> lock_held s0 \<Longrightarrow> lock_held s"
  by (induction rule: lock_reach.induct) (auto intro: lock_held_step)

lemma lock_progress:
  assumes "lock_held (nm, pcs)" and "pcs t = Wants st" and "\<And>u. pcs u \<noteq> Holds FL_PM_SUSPENDED"
  shows "\<exists>s'. lock_reach (nm, pcs) s' \<and> snd s' t = Holds st"
proof (cases "nm_state nm = FL_READY")
  case True
  then have "lock_step (nm, pcs) (nm\<lparr>nm_state := st\<rparr>, pcs(t := Holds st))"
    using assms(2) by (intro lock_step.acquire) (simp_all add: nmbm_get_device_def)
  then show ?thesis
    using lock_reach.step [OF lock_reach.start] by fastforce
next
  case False
  then obtain u where u: "pcs u = Holds (nm_state nm)"
    using assms(1) by (auto simp: lock_held_def)
  let ?nm = "nmbm_release_device nm" and ?pcs = "pcs(u := Idle)"
  have "lock_step (nm, pcs) (?nm, ?pcs)"
    using u assms(3) [of u] by (intro lock_step.release) auto
  moreover have "lock_step (?nm, ?pcs) (?nm\<lparr>nm_state := st\<rparr>, ?pcs(t := Holds st))"
    using u assms(2) by (intro lock_step.acquire) (auto simp: nmbm_get_device_def nmbm_release_device_def)
  ultimately have "lock_reach (nm, pcs) (?nm\<lparr>nm_state := st\<rparr>, ?pcs(t := Holds st))"
    using lock_reach.step [OF lock_reach.step [OF lock_reach.start]] by blast
  then show ?thesis
    by fastforce
qed

end
