(* ===== verification/Nmbm_Steps.thy ===== *)
theory Nmbm_Steps
  imports Nmbm_Mgmt
begin

text \<open>
  What the low-level operations of \<^verbatim>\<open>nmbm-core.c\<close> may change, and that they are defined: no
  access out of bounds, no NULL call, no endless loop.

  \<^item> \<open>dstep R\<close>: only the device (as \<open>R\<close> permits) and the page cache change;
  \<^item> \<open>nstep R\<close>: in addition blocks may be marked bad in the state table, each with a count in
    \<^verbatim>\<open>block_state_changed\<close>.

  The interface to the lower device is the locale \<open>lower_device\<close>: what the function pointers
  have to keep. Its parameter \<open>R\<close> is any preorder on device states that the calls respect.
\<close>

section \<open>Weight of the state table\<close>

text \<open>
  Each change of a block state takes the block from good over "need remap" to bad. The weight
  bounds the number of changes still possible.
\<close>

definition st_wt :: "32 word \<Rightarrow> nat" where
  "st_wt st = (if st = BLOCK_ST_BAD then 0 else if st = BLOCK_ST_NEED_REMAP then 1 else 2)"

definition st_weight :: "32 word list \<Rightarrow> nat" where
  "st_weight bs = (\<Sum>ba\<in>{..< st_dom bs}. st_wt (st_get bs ba))"

lemma st_wt_simps [simp]:
  "st_wt BLOCK_ST_BAD = 0" "st_wt BLOCK_ST_GOOD = 2" "st_wt BLOCK_ST_NEED_REMAP = 1"
  by (simp_all add: st_wt_def)

lemma st_wt_pos: "st \<noteq> BLOCK_ST_BAD \<Longrightarrow> 0 < st_wt st"
  by (simp add: st_wt_def)

lemma st_weight_put:
  assumes "ba < st_dom bs"
  shows "st_weight (st_put bs ba st) + st_wt (st_get bs ba) =
         st_weight bs + st_wt (st AND BLOCK_ST_MASK)"
proof -
  have split: "(\<Sum>x\<in>{..< st_dom bs}. f x) = f ba + (\<Sum>x\<in>{..< st_dom bs} - {ba}. f x)" for f :: "nat \<Rightarrow> nat"
    using assms by (intro sum.remove) auto
  have "(\<Sum>x\<in>{..< st_dom bs} - {ba}. st_wt (st_get (st_put bs ba st) x)) =
        (\<Sum>x\<in>{..< st_dom bs} - {ba}. st_wt (st_get bs x))"
    using assms by (intro sum.cong) (auto simp: st_get_st_put)
  then show ?thesis
    using assms unfolding st_weight_def
    by (simp only: split [of "\<lambda>x. st_wt (st_get (st_put bs ba st) x)"]
        split [of "\<lambda>x. st_wt (st_get bs x)"] st_dom_st_put) (simp add: st_get_st_put)
qed

lemma st_weight_le: "st_weight bs \<le> 2 * st_dom bs"
proof -
  have "st_weight bs \<le> (\<Sum>ba\<in>{..< st_dom bs}. 2)"
    unfolding st_weight_def by (intro sum_mono) (simp add: st_wt_def)
  then show ?thesis by simp
qed

text \<open>\<open>acct\<close>: changes recorded so far and changes still possible.\<close>

definition acct :: "'d nmbm_instance \<Rightarrow> nat" where
  "acct ni = block_state_changed ni + st_weight (block_state ni)"

section \<open>Step relations\<close>

definition dstep :: "('d \<Rightarrow> 'd \<Rightarrow> bool) \<Rightarrow> 'd nmbm_instance \<Rightarrow> 'd nmbm_instance \<Rightarrow> bool" where
  "dstep R ni ni' \<longleftrightarrow>
     (\<exists>d pc. ni' = ni\<lparr>lower := (lower ni)\<lparr>arg := d\<rparr>, page_cache := pc\<rparr> \<and>
        R (dev ni) d \<and> length pc = length (page_cache ni))"

definition only_bad :: "32 word list \<Rightarrow> 32 word list \<Rightarrow> bool" where
  "only_bad bs bs' \<longleftrightarrow> length bs' = length bs \<and>
     (\<forall>ba< st_dom bs. st_get bs' ba = st_get bs ba \<or> st_get bs' ba = BLOCK_ST_BAD)"

definition nstep :: "('d \<Rightarrow> 'd \<Rightarrow> bool) \<Rightarrow> 'd nmbm_instance \<Rightarrow> 'd nmbm_instance \<Rightarrow> bool" where
  "nstep R ni ni' \<longleftrightarrow>
     (\<exists>d pc bs ch. ni' = ni\<lparr>lower := (lower ni)\<lparr>arg := d\<rparr>, page_cache := pc,
                            block_state := bs, block_state_changed := ch\<rparr> \<and>
        R (dev ni) d \<and> length pc = length (page_cache ni) \<and> only_bad (block_state ni) bs \<and>
        (acct ni < 2 ^ 32 \<longrightarrow> ch + st_weight bs \<le> acct ni))"

lemma only_bad_refl [simp]: "only_bad bs bs"
  by (simp add: only_bad_def)

lemma only_bad_trans: "only_bad a b \<Longrightarrow> only_bad b c \<Longrightarrow> only_bad a c"
  unfolding only_bad_def st_dom_def by metis

lemma dstep_set_dev: "R (dev ni) d \<Longrightarrow> dstep R ni (set_dev d ni)"
  unfolding dstep_def set_dev_def
  by (intro exI [of _ d] exI [of _ "page_cache ni"]) simp

lemma dstep_page_cache:
  "R (dev ni) (dev ni) \<Longrightarrow> length pc = length (page_cache ni) \<Longrightarrow>
   dstep R ni (ni\<lparr>page_cache := pc\<rparr>)"
  unfolding dstep_def dev_def
  by (intro exI [of _ "arg (lower ni)"] exI [of _ pc]) simp

lemma dstep_trans:
  assumes "\<And>a b c. R a b \<Longrightarrow> R b c \<Longrightarrow> R a c" and "dstep R a b" and "dstep R b c"
  shows "dstep R a c"
proof -
  obtain d pc where b: "b = a\<lparr>lower := (lower a)\<lparr>arg := d\<rparr>, page_cache := pc\<rparr>"
    "R (dev a) d" "length pc = length (page_cache a)"
    using assms(2) unfolding dstep_def by blast
  obtain d' pc' where c: "c = b\<lparr>lower := (lower b)\<lparr>arg := d'\<rparr>, page_cache := pc'\<rparr>"
    "R (dev b) d'" "length pc' = length (page_cache b)"
    using assms(3) unfolding dstep_def by blast
  show ?thesis
    unfolding dstep_def
    by (intro exI [of _ d'] exI [of _ pc']) (use b c assms(1) in \<open>auto simp: dev_def\<close>)
qed

lemma dstep_imp_nstep: "dstep R ni ni' \<Longrightarrow> nstep R ni ni'"
  unfolding dstep_def nstep_def
proof (elim exE conjE)
  fix d pc
  assume *: "ni' = ni\<lparr>lower := (lower ni)\<lparr>arg := d\<rparr>, page_cache := pc\<rparr>"
    "R (dev ni) d" "length pc = length (page_cache ni)"
  show "\<exists>d pc bs ch. ni' = ni\<lparr>lower := (lower ni)\<lparr>arg := d\<rparr>, page_cache := pc,
      block_state := bs, block_state_changed := ch\<rparr> \<and> R (dev ni) d \<and>
      length pc = length (page_cache ni) \<and> only_bad (block_state ni) bs \<and>
      (acct ni < 2 ^ 32 \<longrightarrow> ch + st_weight bs \<le> acct ni)"
    by (intro exI [of _ d] exI [of _ pc] exI [of _ "block_state ni"]
        exI [of _ "block_state_changed ni"]) (use * in \<open>simp add: acct_def\<close>)
qed

text \<open>Everything the steps leave alone, as one equation, and the rest as bounds.\<close>

lemma nstepE:
  assumes "nstep R ni ni'"
  obtains d pc bs ch where
    "ni' = ni\<lparr>lower := (lower ni)\<lparr>arg := d\<rparr>, page_cache := pc,
              block_state := bs, block_state_changed := ch\<rparr>"
    "R (dev ni) d" "length pc = length (page_cache ni)" "only_bad (block_state ni) bs"
    "acct ni < 2 ^ 32 \<longrightarrow> ch + st_weight bs \<le> acct ni"
  using assms unfolding nstep_def by blast

lemma nstep_dev: "nstep R ni ni' \<Longrightarrow> R (dev ni) (dev ni')"
  by (elim nstepE) (simp add: dev_def)

lemma nstep_trans:
  assumes "\<And>a b c. R a b \<Longrightarrow> R b c \<Longrightarrow> R a c" and "nstep R a b" and "nstep R b c"
  shows "nstep R a c"
proof -
  obtain d pc bs ch where b: "b = a\<lparr>lower := (lower a)\<lparr>arg := d\<rparr>, page_cache := pc,
      block_state := bs, block_state_changed := ch\<rparr>"
    "R (dev a) d" "length pc = length (page_cache a)" "only_bad (block_state a) bs"
    "acct a < 2 ^ 32 \<longrightarrow> ch + st_weight bs \<le> acct a"
    using assms(2) by (rule nstepE)
  obtain d' pc' bs' ch' where c: "c = b\<lparr>lower := (lower b)\<lparr>arg := d'\<rparr>, page_cache := pc',
      block_state := bs', block_state_changed := ch'\<rparr>"
    "R (dev b) d'" "length pc' = length (page_cache b)" "only_bad (block_state b) bs'"
    "acct b < 2 ^ 32 \<longrightarrow> ch' + st_weight bs' \<le> acct b"
    using assms(3) by (rule nstepE)
  have "acct b = ch + st_weight bs"
    using b(1) by (simp add: acct_def)
  moreover have "R (dev a) d'"
    using assms(1) [OF b(2)] b(1) c(2) by (simp add: dev_def)
  ultimately show ?thesis
    unfolding nstep_def
    by (intro exI [of _ d'] exI [of _ pc'] exI [of _ bs'] exI [of _ ch'])
      (use b c only_bad_trans [OF b(4)] in auto)
qed

lemma only_bad_put_bad: "ba < st_dom bs \<Longrightarrow> only_bad bs (st_put bs ba BLOCK_ST_BAD)"
  by (auto simp: only_bad_def st_get_st_put)

lemma set_block_state_bad_nstep:
  assumes "ba < st_dom (block_state ni)" and "R (dev ni) (dev ni)"
  shows "ensures (nmbm_set_block_state ni ba BLOCK_ST_BAD) (\<lambda>(_, ni'). nstep R ni ni')"
proof -
  let ?bs = "st_put (block_state ni) ba BLOCK_ST_BAD"
  have step: "nstep R ni (ni\<lparr>block_state := ?bs, block_state_changed := ch\<rparr>)"
    if "acct ni < 2 ^ 32 \<Longrightarrow> ch + st_weight ?bs \<le> acct ni" for ch
    unfolding nstep_def
    by (intro exI [of _ "dev ni"] exI [of _ "page_cache ni"] exI [of _ ?bs] exI [of _ ch])
      (use assms that in \<open>simp add: dev_def only_bad_put_bad\<close>)
  have w: "st_weight ?bs + st_wt (st_get (block_state ni) ba) = st_weight (block_state ni)"
    using st_weight_put [OF assms(1), of BLOCK_ST_BAD] by simp
  show ?thesis
  proof (cases "st_get (block_state ni) ba = BLOCK_ST_BAD")
    case True
    then have "nstep R ni (ni\<lparr>block_state := ?bs, block_state_changed := block_state_changed ni\<rparr>)"
      using w by (intro step) (simp add: acct_def)
    then show ?thesis
      using True assms by (simp add: set_block_state_eq)
  next
    case False
    then have "0 < st_wt (st_get (block_state ni) ba)"
      by (rule st_wt_pos)
    then have "nstep R ni (ni\<lparr>block_state := ?bs,
        block_state_changed := u32 (block_state_changed ni + 1)\<rparr>)"
      using w u32_le [of "block_state_changed ni + 1"] by (intro step) (simp add: acct_def)
    then show ?thesis
      using False assms by (simp add: set_block_state_eq)
  qed
qed

section \<open>Geometry\<close>

text \<open>The sizes an instance has after \<^verbatim>\<open>nmbm_init_structure\<close>.\<close>

definition geom :: "'d nmbm_instance \<Rightarrow> bool" where
  "geom ni \<longleftrightarrow>
     (let lo = lower ni in
      writesize lo = 2 ^ writesize_shift ni \<and> erasesize lo = 2 ^ erasesize_shift ni \<and>
      writesize lo \<le> erasesize lo \<and> writesize lo < 2 ^ 32 \<and> erasesize lo < 2 ^ 32 \<and>
      writesize_mask ni = writesize lo - 1 \<and> erasesize_mask ni = erasesize lo - 1 \<and>
      0 < oobsize lo \<and> rawpage_size ni = writesize lo + oobsize lo \<and>
      length (page_cache ni) = rawpage_size ni \<and>
      0 < block_count ni \<and> block_count ni < 2 ^ 31 \<and>
      block_count ni * erasesize lo \<le> 2 ^ 63 \<and>
      block_count ni \<le> st_dom (block_state ni))"

lemma geomD:
  assumes "geom ni"
  shows "writesize (lower ni) = 2 ^ writesize_shift ni"
    and "erasesize (lower ni) = 2 ^ erasesize_shift ni"
    and "writesize (lower ni) < 2 ^ 32" and "erasesize (lower ni) < 2 ^ 32"
    and "writesize_mask ni = writesize (lower ni) - 1"
    and "erasesize_mask ni = erasesize (lower ni) - 1"
    and "0 < oobsize (lower ni)" and "rawpage_size ni = writesize (lower ni) + oobsize (lower ni)"
    and "length (page_cache ni) = rawpage_size ni"
    and "0 < block_count ni" and "block_count ni < 2 ^ 31"
    and "block_count ni * erasesize (lower ni) \<le> 2 ^ 63"
    and "block_count ni \<le> st_dom (block_state ni)"
    and "writesize (lower ni) \<le> erasesize (lower ni)"
  using assms unfolding geom_def Let_def by blast+

lemma geom_writesize_pos: "geom ni \<Longrightarrow> 0 < writesize (lower ni)"
  by (simp add: geomD(1))

lemma geom_nstep: "nstep R ni ni' \<Longrightarrow> geom ni \<Longrightarrow> geom ni'"
  by (elim nstepE) (auto simp: geom_def Let_def only_bad_def st_dom_def)

lemma geom_dstep: "dstep R ni ni' \<Longrightarrow> geom ni \<Longrightarrow> geom ni'"
  by (rule geom_nstep [OF dstep_imp_nstep])

lemma geom_erasesize_pos: "geom ni \<Longrightarrow> 0 < erasesize (lower ni)"
  by (simp add: geomD(2))

lemma geom_addr_bound:
  assumes "geom ni" and "ba < block_count ni" and "off < erasesize (lower ni)"
  shows "ba * erasesize (lower ni) + off < 2 ^ 64"
proof -
  have "ba * erasesize (lower ni) + off < (ba + 1) * erasesize (lower ni)"
    using assms(3) by simp
  also have "\<dots> \<le> block_count ni * erasesize (lower ni)"
    using assms(2) by (intro mult_right_mono) auto
  also have "\<dots> \<le> 2 ^ 63"
    by (rule geomD(12) [OF assms(1)])
  finally show ?thesis by simp
qed

lemma ba2addr_eq:
  assumes "geom ni" and "ba < block_count ni"
  shows "ba2addr ni ba = ba * erasesize (lower ni)"
  using geom_addr_bound [OF assms, of 0] geom_erasesize_pos [OF assms(1)] geomD(2) [OF assms(1)]
  by (simp add: ba2addr_def push_bit_eq_mult)

lemma page_addr_div:
  assumes "geom ni" and "ba < block_count ni" and "off < erasesize (lower ni)"
  shows "u64 (ba2addr ni ba + off) div erasesize (lower ni) = ba"
  using geom_addr_bound [OF assms] assms by (simp add: ba2addr_eq)

lemma ba2addr_div:
  "geom ni \<Longrightarrow> ba < block_count ni \<Longrightarrow> ba2addr ni ba div erasesize (lower ni) = ba"
  using geom_erasesize_pos [of ni] by (simp add: ba2addr_eq)

lemma page_offsets_less:
  assumes "geom ni" and "off \<in> set (page_offsets ni)"
  shows "off < erasesize (lower ni)"
proof -
  let ?es = "erasesize (lower ni)" and ?ws = "writesize (lower ni)"
  obtain i where i: "off = i * ?ws" "i < (?es + ?ws - 1) div ?ws"
    using assms(2) by (fastforce simp: page_offsets_def Let_def)
  have ws: "0 < ?ws" and es: "0 < ?es"
    using geom_writesize_pos geom_erasesize_pos assms(1) by auto
  have "(i + 1) * ?ws \<le> (?es + ?ws - 1) div ?ws * ?ws"
    using i(2) by (intro mult_right_mono) auto
  also have "\<dots> \<le> ?es + ?ws - 1"
    by simp
  finally have "i * ?ws + ?ws \<le> ?es + ?ws - 1" by simp
  then show ?thesis
    using i(1) ws es by linarith
qed

lemma chunk_leading_mod:
  "geom ni \<Longrightarrow> chunk_leading ni off = off mod writesize (lower ni)"
  unfolding chunk_leading_def geom_def Let_def
  by (metis mask_eq_exp_minus_1 take_bit_eq_mask take_bit_eq_mod)

lemma geom_writesize_dvd:
  assumes "geom ni" shows "writesize (lower ni) dvd erasesize (lower ni)"
proof -
  have "writesize_shift ni \<le> erasesize_shift ni"
    using geomD(14) [OF assms] unfolding geomD(1,2) [OF assms]
    by (simp add: power_increasing_iff)
  then show ?thesis
    unfolding geomD(1,2) [OF assms] by (rule le_imp_power_dvd)
qed

lemma page_start_div:
  assumes "geom ni"
  shows "(off - chunk_leading ni off) div erasesize (lower ni) = off div erasesize (lower ni)"
proof -
  let ?es = "erasesize (lower ni)" and ?ws = "writesize (lower ni)"
  have es: "0 < ?es"
    by (rule geom_erasesize_pos [OF assms])
  have "off mod ?ws = off mod ?es mod ?ws"
    using geom_writesize_dvd [OF assms] by (simp add: mod_mod_cancel)
  moreover have "off mod ?es mod ?ws \<le> off mod ?es"
    by (rule mod_less_eq_dividend)
  ultimately have "off - off mod ?ws = off div ?es * ?es + (off mod ?es - off mod ?ws)"
    using div_mult_mod_eq [of off ?es] by linarith
  moreover have "off mod ?es - off mod ?ws < ?es"
    using es mod_less_divisor [OF es, of off] by linarith
  ultimately show ?thesis
    using assms by (simp add: chunk_leading_mod)
qed

lemma chunk_size_bounds:
  assumes "geom ni" and "0 < sz"
  shows "0 < chunk_size ni off sz" and "chunk_size ni off sz \<le> sz"
    and "chunk_leading ni off + chunk_size ni off sz \<le> writesize (lower ni)"
proof -
  let ?ws = "writesize (lower ni)"
  have "off mod ?ws < ?ws"
    using geom_writesize_pos [OF assms(1)] by simp
  moreover have "sub32 ?ws (off mod ?ws) = ?ws - off mod ?ws"
    using assms(1) calculation by (intro sub32_id) (auto simp: geom_def Let_def)
  ultimately show "0 < chunk_size ni off sz" and "chunk_size ni off sz \<le> sz"
    and "chunk_leading ni off + chunk_size ni off sz \<le> ?ws"
    using assms by (auto simp: chunk_size_def Let_def chunk_leading_mod)
qed

end
