(* ===== verification/Nmbm_Device.thy ===== *)
theory Nmbm_Device
  imports Nmbm_Steps
begin

text \<open>
  The interface between \<^verbatim>\<open>nmbm-core.c\<close> and the driver below it (\<^verbatim>\<open>struct nmbm_lower_device\<close>), as
  the locale \<open>lower_device\<close>, and what the operations of \<open>Nmbm_Phys\<close>, \<open>Nmbm_State\<close> and
  \<open>Nmbm_Mgmt\<close> do on every device that satisfies it: they have a defined result and make only
  the steps of \<open>Nmbm_Steps\<close>.
\<close>

section \<open>The interface\<close>

text \<open>
  \<open>lo\<close> is the structure the driver fills in; \<open>R\<close> is a preorder on device states; \<open>W\<close> the set of
  physical blocks on which writing, erasing and marking respect \<open>R\<close>; \<open>I\<close> an invariant of the device
  states. With \<open>R\<close> total the lemmas
  of the locale are memory safety; with \<open>R\<close> "block \<open>b\<close> keeps its contents" they are frame
  properties. A driver with \<^verbatim>\<open>NMBM_F_READ_ONLY\<close> need not provide any of the changing calls.
  An instance is \<open>attached_to\<close> the structure if it holds a copy of it, up to the state of the device,
  and its sizes are in order.
\<close>

definition attached_to :: "'d nmbm_lower_device \<Rightarrow> ('d \<Rightarrow> bool) \<Rightarrow> 'd nmbm_instance \<Rightarrow> bool" where
  "attached_to lo I ni \<longleftrightarrow> lower ni = lo\<lparr>arg := dev ni\<rparr> \<and> geom ni \<and> I (dev ni)"

text \<open>Permission for changes to block \<open>ba\<close>; a read-only instance changes nothing.\<close>

definition may_change :: "'d nmbm_lower_device \<Rightarrow> (nat \<Rightarrow> bool) \<Rightarrow> nat \<Rightarrow> bool" where
  "may_change lo W ba \<longleftrightarrow> flags lo AND NMBM_F_READ_ONLY \<noteq> 0 \<or> W ba"

locale lower_device =
  fixes lo :: "'d nmbm_lower_device"
    and R :: "'d \<Rightarrow> 'd \<Rightarrow> bool"
    and W :: "nat \<Rightarrow> bool"
    and I :: "'d \<Rightarrow> bool"
  assumes R_refl: "R d d"
    and R_trans: "R a b \<Longrightarrow> R b c \<Longrightarrow> R a c"
    and I_step: "I d \<Longrightarrow> R d d' \<Longrightarrow> I d'"
    and reset_R: "I d \<Longrightarrow> reset_chip lo = Some rc \<Longrightarrow> R d (snd (rc d))"
    and read_present: "\<exists>rp. read_page lo = Some rp"
    and read_law: "I d \<Longrightarrow> read_page lo = Some rp \<Longrightarrow> rp d addr data oob mode = (ret, dat, ob, d') \<Longrightarrow>
           R d d' \<and> length dat = (if data then writesize lo else 0) \<and>
           length ob \<le> (if oob then oobsize lo else 0)"
    and isbad_R: "I d \<Longrightarrow> is_bad_block lo = Some ib \<Longrightarrow> R d (snd (ib d addr))"
    and write_present: "flags lo AND NMBM_F_READ_ONLY = 0 \<Longrightarrow> \<exists>f. write_page lo = Some f"
    and erase_present: "flags lo AND NMBM_F_READ_ONLY = 0 \<Longrightarrow> \<exists>f. erase_block lo = Some f"
    and write_R: "I d \<Longrightarrow> flags lo AND NMBM_F_READ_ONLY = 0 \<Longrightarrow> write_page lo = Some wr \<Longrightarrow>
           W (addr div erasesize lo) \<Longrightarrow> R d (snd (wr d addr dt obx mode))"
    and erase_R: "I d \<Longrightarrow> flags lo AND NMBM_F_READ_ONLY = 0 \<Longrightarrow> erase_block lo = Some er \<Longrightarrow>
           W (addr div erasesize lo) \<Longrightarrow> R d (snd (er d addr))"
    and mark_R: "I d \<Longrightarrow> flags lo AND NMBM_F_READ_ONLY = 0 \<Longrightarrow> mark_bad_block lo = Some mk \<Longrightarrow>
           W (addr div erasesize lo) \<Longrightarrow> R d (snd (mk d addr))"
begin

abbreviation attached :: "'d nmbm_instance \<Rightarrow> bool" where
  "attached \<equiv> attached_to lo I"

abbreviation may :: "nat \<Rightarrow> bool" where
  "may \<equiv> may_change lo W"

definition dok :: "'d nmbm_instance \<Rightarrow> 'd nmbm_instance \<Rightarrow> bool" where
  "dok ni0 ni \<longleftrightarrow> attached ni \<and> dstep R ni0 ni"

definition nok :: "'d nmbm_instance \<Rightarrow> 'd nmbm_instance \<Rightarrow> bool" where
  "nok ni0 ni \<longleftrightarrow> attached ni \<and> nstep R ni0 ni"

lemma att_fields:
  assumes "attached ni"
  shows "writesize (lower ni) = writesize lo" "erasesize (lower ni) = erasesize lo"
    "oobsize (lower ni) = oobsize lo" "flags (lower ni) = flags lo"
    "read_page (lower ni) = read_page lo" "write_page (lower ni) = write_page lo"
    "erase_block (lower ni) = erase_block lo" "is_bad_block (lower ni) = is_bad_block lo"
    "mark_bad_block (lower ni) = mark_bad_block lo" "reset_chip (lower ni) = reset_chip lo"
    "has_flag ni f \<longleftrightarrow> flags lo AND f \<noteq> 0"
proof -
  have "lower ni = lo\<lparr>arg := dev ni\<rparr>"
    using assms by (simp add: attached_to_def)
  then show "writesize (lower ni) = writesize lo" "erasesize (lower ni) = erasesize lo"
    "oobsize (lower ni) = oobsize lo" "flags (lower ni) = flags lo"
    "read_page (lower ni) = read_page lo" "write_page (lower ni) = write_page lo"
    "erase_block (lower ni) = erase_block lo" "is_bad_block (lower ni) = is_bad_block lo"
    "mark_bad_block (lower ni) = mark_bad_block lo" "reset_chip (lower ni) = reset_chip lo"
    "has_flag ni f \<longleftrightarrow> flags lo AND f \<noteq> 0"
    by (simp_all add: has_flag_def)
qed

lemma att_geom: "attached ni \<Longrightarrow> geom ni"
  by (simp add: attached_to_def)

lemma att_I: "attached ni \<Longrightarrow> I (dev ni)"
  by (simp add: attached_to_def)

lemma lower_nstep:
  "nstep R ni ni' \<Longrightarrow> lower ni = lo\<lparr>arg := dev ni\<rparr> \<Longrightarrow> lower ni' = lo\<lparr>arg := dev ni'\<rparr>"
proof (elim nstepE)
  fix d pc bs ch
  assume eq: "lower ni = lo\<lparr>arg := dev ni\<rparr>" and
    "ni' = ni\<lparr>lower := (lower ni)\<lparr>arg := d\<rparr>, page_cache := pc, block_state := bs,
               block_state_changed := ch\<rparr>"
  then have "lower ni' = (lower ni)\<lparr>arg := d\<rparr>"
    by simp
  also have "\<dots> = lo\<lparr>arg := d\<rparr>"
    by (subst eq) simp
  finally show "lower ni' = lo\<lparr>arg := dev ni'\<rparr>"
    by (simp add: dev_def)
qed

lemma att_nstep: "nstep R ni ni' \<Longrightarrow> attached ni \<Longrightarrow> attached ni'"
  unfolding attached_to_def using lower_nstep geom_nstep I_step nstep_dev by blast

lemma att_dstep: "dstep R ni ni' \<Longrightarrow> attached ni \<Longrightarrow> attached ni'"
  by (rule att_nstep [OF dstep_imp_nstep])

lemma dok_att: "dok ni0 ni \<Longrightarrow> attached ni"
  by (simp add: dok_def)

lemma nok_att: "nok ni0 ni \<Longrightarrow> attached ni"
  by (simp add: nok_def)

lemma dstep_refl: "dstep R ni ni"
  using dstep_page_cache [of R ni "page_cache ni"] R_refl by simp

lemma dok_refl: "attached ni \<Longrightarrow> dok ni ni"
  by (simp add: dok_def dstep_refl)

lemma nok_refl: "attached ni \<Longrightarrow> nok ni ni"
  by (simp add: nok_def dstep_imp_nstep dstep_refl)

lemma dok_step: "dok ni0 ni \<Longrightarrow> dstep R ni ni' \<Longrightarrow> dok ni0 ni'"
  unfolding dok_def using att_dstep dstep_trans [of R] R_trans by blast

lemma nok_step: "nok ni0 ni \<Longrightarrow> nstep R ni ni' \<Longrightarrow> nok ni0 ni'"
  unfolding nok_def using att_nstep nstep_trans [of R] R_trans by blast

lemma nok_trans: "nok a b \<Longrightarrow> nok b c \<Longrightarrow> nok a c"
  using nok_step [of a b c] by (simp add: nok_def)

lemma nok_dok: "nok a b \<Longrightarrow> dok b c \<Longrightarrow> nok a c"
  using nok_step [of a b c] dstep_imp_nstep by (auto simp: dok_def)

text \<open>Device calls as steps.\<close>

lemma dok_set_dev: "dok ni0 ni \<Longrightarrow> R (dev ni) d \<Longrightarrow> dok ni0 (set_dev d ni)"
  by (rule dok_step [of ni0 ni]) (auto intro: dstep_set_dev)

lemma dok_page_cache:
  "dok ni0 ni \<Longrightarrow> length pc = length (page_cache ni) \<Longrightarrow> dok ni0 (ni\<lparr>page_cache := pc\<rparr>)"
  by (rule dok_step [of ni0 ni]) (auto intro: dstep_page_cache R_refl)

lemma dok_mem_write:
  "dok ni0 ni \<Longrightarrow> mem_write (page_cache ni) off bs = Some pc \<Longrightarrow>
   dok ni0 (ni\<lparr>page_cache := pc\<rparr>)"
  by (rule dok_page_cache) (simp_all add: mem_write_length)

lemma dok_reset: "dok ni0 ni \<Longrightarrow> dok ni0 (nmbm_reset_chip ni)"
  using att_fields(10) [OF dok_att, of ni0 ni]
  by (auto simp: nmbm_reset_chip_def split: option.splits intro!: dok_set_dev reset_R att_I dok_att)

lemma dok_page_cache_length:
  "dok ni0 ni \<Longrightarrow> length (page_cache ni) = writesize lo + oobsize lo"
  using att_geom [OF dok_att] att_fields [OF dok_att] by (auto simp: geom_def Let_def)

section \<open>Chip operations\<close>

lemma read_phys_page_loop_ok:
  assumes "dok ni0 ni" and "0 < n"
  shows "ensures (nmbm_read_phys_page_loop n ni addr data oob mode)
    (\<lambda>(ret, dat, ob, ni'). dok ni0 ni' \<and> length dat = (if data then writesize lo else 0) \<and>
       length ob \<le> (if oob then oobsize lo else 0))"
  using assms
proof (induction n arbitrary: ni)
  case (Suc tries)
  obtain rp where rp: "read_page lo = Some rp"
    using read_present by blast
  obtain ret dat ob d where call: "rp (dev ni) addr data oob mode = (ret, dat, ob, d)"
    by (cases "rp (dev ni) addr data oob mode") auto
  have law: "R (dev ni) d" "length dat = (if data then writesize lo else 0)"
    "length ob \<le> (if oob then oobsize lo else 0)"
    using read_law [OF att_I [OF dok_att [OF Suc(2)]] rp call] by auto
  have ok: "dok ni0 (set_dev d ni)"
    using Suc(2) law(1) by (rule dok_set_dev)
  show ?case
    using Suc.IH [OF dok_reset [OF ok]] law ok dok_reset [OF ok]
      att_fields(5) [OF dok_att [OF Suc(2)]] rp call
    by (auto simp: Let_def)
qed simp

lemma read_phys_page_ok:
  assumes "dok ni0 ni"
  shows "ensures (nmbm_read_phys_page ni addr data oob mode)
    (\<lambda>(ret, dat, ob, ni'). dok ni0 ni' \<and> length dat = (if data then writesize lo else 0) \<and>
       length ob \<le> (if oob then oobsize lo else 0))"
  unfolding nmbm_read_phys_page_def
  by (rule read_phys_page_loop_ok [OF assms]) (simp add: NMBM_TRY_COUNT_def)

lemma write_phys_page_loop_ok:
  assumes "dok ni0 ni" and "flags lo AND NMBM_F_READ_ONLY = 0" and "W (addr div erasesize lo)"
  shows "ensures (nmbm_write_phys_page_loop n ni addr data oob mode) (\<lambda>(_, ni'). dok ni0 ni')"
  using assms
proof (induction n arbitrary: ni)
  case (Suc tries)
  obtain wr where wr: "write_page lo = Some wr"
    using write_present Suc(3) by blast
  obtain ret d where call: "wr (dev ni) addr data oob mode = (ret, d)"
    by (cases "wr (dev ni) addr data oob mode") auto
  then have "dok ni0 (set_dev d ni)"
    using dok_set_dev [OF Suc(2)] write_R [OF att_I [OF dok_att [OF Suc(2)]] Suc(3) wr Suc(4)] by (metis snd_conv)
  then show ?case
    using Suc.IH [OF dok_reset] Suc(3,4) att_fields(6) [OF dok_att [OF Suc(2)]] wr call
    by (auto simp: Let_def)
qed simp

lemma write_phys_page_ok:
  assumes "dok ni0 ni" and "may (addr div erasesize lo)"
  shows "ensures (nmbm_write_phys_page ni addr data oob mode) (\<lambda>(_, ni'). dok ni0 ni')"
  using write_phys_page_loop_ok [OF assms(1)] assms att_fields(11) [OF dok_att [OF assms(1)]]
  by (auto simp: nmbm_write_phys_page_def may_change_def)

lemma erase_phys_block_loop_ok:
  assumes "dok ni0 ni" and "flags lo AND NMBM_F_READ_ONLY = 0" and "W (addr div erasesize lo)"
  shows "ensures (nmbm_erase_phys_block_loop n ni addr) (\<lambda>(_, ni'). dok ni0 ni')"
  using assms
proof (induction n arbitrary: ni)
  case (Suc tries)
  obtain er where er: "erase_block lo = Some er"
    using erase_present Suc(3) by blast
  obtain ret d where call: "er (dev ni) addr = (ret, d)"
    by (cases "er (dev ni) addr") auto
  then have "dok ni0 (set_dev d ni)"
    using dok_set_dev [OF Suc(2)] erase_R [OF att_I [OF dok_att [OF Suc(2)]] Suc(3) er Suc(4)] by (metis snd_conv)
  then show ?case
    using Suc.IH [OF dok_reset] Suc(3,4) att_fields(7) [OF dok_att [OF Suc(2)]] er call
    by (auto simp: Let_def)
qed simp

lemma erase_phys_block_ok:
  assumes "dok ni0 ni" and "may (addr div erasesize lo)"
  shows "ensures (nmbm_erase_phys_block ni addr) (\<lambda>(_, ni'). dok ni0 ni')"
  using erase_phys_block_loop_ok [OF assms(1)] assms att_fields(11) [OF dok_att [OF assms(1)]]
  by (auto simp: nmbm_erase_phys_block_def may_change_def)

text \<open>The fields a step keeps.\<close>

lemma dok_fields:
  assumes "dok ni0 ni"
  shows "rawpage_size ni = rawpage_size ni0" "block_count ni = block_count ni0"
    "block_state ni = block_state ni0" "erasesize_shift ni = erasesize_shift ni0"
    "info_table_size ni = info_table_size ni0" "info_table_cache ni = info_table_cache ni0"
    "ba2addr ni ba = ba2addr ni0 ba" "log_display_level ni = log_display_level ni0"
  using assms by (auto simp: dok_def dstep_def ba2addr_def)

lemma dok_rawpage: "dok ni0 ni \<Longrightarrow> rawpage_size ni = writesize lo + oobsize lo"
  using geomD(8) [OF att_geom [OF dok_att]] att_fields [OF dok_att] by simp

lemma page_offsets_fields: "attached ni \<Longrightarrow> off \<in> set (page_offsets ni) \<Longrightarrow> off < erasesize lo"
  using page_offsets_less [OF att_geom] att_fields(2) by metis

lemma addr_div:
  assumes "dok ni0 ni" and "ba < block_count ni0" and "off < erasesize lo"
  shows "u64 (ba2addr ni0 ba + off) div erasesize lo = ba"
  using page_addr_div [OF att_geom [OF dok_att [OF assms(1)]], of ba off] assms
    dok_fields [OF assms(1)] att_fields(2) [OF dok_att [OF assms(1)]] by simp

lemma addr_div0:
  "dok ni0 ni \<Longrightarrow> ba < block_count ni0 \<Longrightarrow> ba2addr ni0 ba div erasesize lo = ba"
  using ba2addr_div [OF att_geom [OF dok_att], of ni0 ni ba]
    dok_fields [of ni0 ni] att_fields(2) [OF dok_att, of ni0 ni] by simp

section \<open>Bad block marks\<close>

lemma writesize_lo_pos: "dok ni0 ni \<Longrightarrow> 0 < writesize lo"
  using geom_writesize_pos [OF att_geom [OF dok_att]] att_fields(1) [OF dok_att] by simp

lemma oobsize_lo_pos: "dok ni0 ni \<Longrightarrow> 0 < oobsize lo"
  using geomD(7) [OF att_geom [OF dok_att]] att_fields(3) [OF dok_att] by simp

lemma check_bad_phys_block_ok:
  assumes "dok ni0 ni"
  shows "ensures (nmbm_check_bad_phys_block ni ba) (\<lambda>(_, ni'). dok ni0 ni')"
proof (cases "is_bad_block lo")
  case None
  have read: "ensures (nmbm_read_phys_page ni a False True NMBM_MODE_RAW)
    (\<lambda>(_, _, ob, ni'). dok ni0 ni' \<and> length ob \<le> oobsize lo)" for a
    using read_phys_page_ok [OF assms, of a False True] by (rule ensures_mono) auto
  have tail: "ensures (mem_write (page_cache ni') (writesize (lower ni')) ob)
    (\<lambda>pc. dok ni0 (ni'\<lparr>page_cache := pc\<rparr>) \<and> writesize (lower ni') < length pc)"
    if "dok ni0 ni'" "length ob \<le> oobsize lo" for ni' ob
    using that dok_page_cache_length [OF that(1)] att_fields(1) [OF dok_att [OF that(1)]]
      oobsize_lo_pos [OF that(1)]
    by (intro ensures_mem_writeI) (auto intro: dok_mem_write)
  show ?thesis
    using None att_fields(8) [OF dok_att [OF assms]]
    by (auto simp: nmbm_check_bad_phys_block_def Let_def ensures_bind
        intro!: ensures_mono [OF read] ensures_mono [OF tail])
next
  case (Some ib)
  then show ?thesis
    using dok_set_dev [OF assms] isbad_R [OF att_I [OF dok_att [OF assms]] Some] att_fields(8) [OF dok_att [OF assms]]
    by (auto simp: nmbm_check_bad_phys_block_def Let_def split: prod.split) (metis snd_conv)
qed

lemma dok_log:
  assumes "dok a b" shows "dok (a\<lparr>log_display_level := l\<rparr>) (b\<lparr>log_display_level := l\<rparr>)"
proof -
  have "attached (b\<lparr>log_display_level := l\<rparr>)"
    using assms by (simp add: dok_def attached_to_def geom_def dev_def)
  moreover have "dstep R (a\<lparr>log_display_level := l\<rparr>) (b\<lparr>log_display_level := l\<rparr>)"
    using assms unfolding dok_def dstep_def dev_def by force
  ultimately show ?thesis
    by (simp add: dok_def)
qed

lemma mark_pages_loop_ok:
  assumes "dok ni0 ni" and "ba < block_count ni0" and "may ba"
    and "\<And>off. off \<in> set offs \<Longrightarrow> off < erasesize lo"
  shows "ensures (nmbm_mark_pages_loop offs ni (ba2addr ni0 ba)) (dok ni0)"
  using assms(1,4)
proof (induction offs arbitrary: ni)
  case (Cons off offs)
  let ?a = "u64 (ba2addr ni0 ba + off)"
  have may: "may (?a div erasesize lo)"
    using addr_div [OF Cons(2) assms(2)] assms(3) Cons(3) by simp
  have "ensures (nmbm_write_phys_page ni ?a d ob m)
      (\<lambda>x. ensures (nmbm_mark_pages_loop offs (snd x) (ba2addr ni0 ba)) (dok ni0))" for d ob m
    by (rule ensures_mono [OF write_phys_page_ok [OF Cons(2) may]]) (use Cons in auto)
  then show ?case
    using dok_page_cache_length [OF Cons(2)] att_fields [OF dok_att [OF Cons(2)]]
    by (auto simp: ensures_bind case_prod_beta intro!: ensures_mem_readI)
qed simp

lemma mark_phys_bad_block_ok:
  assumes "dok ni0 ni" and "ba < block_count ni0" and "may ba"
  shows "ensures (nmbm_mark_phys_bad_block ni ba) (\<lambda>(_, ni'). dok ni0 ni')"
proof (cases "flags lo AND NMBM_F_READ_ONLY = 0")
  case rw: True
  note f = att_fields [OF dok_att [OF assms(1)]]
  show ?thesis
  proof (cases "mark_bad_block lo")
    case None
    let ?l = "log_display_level ni"
    have pages: "ensures (nmbm_mark_pages_loop (page_offsets (n\<lparr>log_display_level := NMBM_LOG_MAX\<rparr>))
        (n\<lparr>log_display_level := NMBM_LOG_MAX\<rparr>) (ba2addr ni ba))
        (\<lambda>n'. dok ni0 (n'\<lparr>log_display_level := ?l\<rparr>))" if "dok ni0 n" for n
    proof -
      note l = dok_log [OF that, of NMBM_LOG_MAX]
      have restore: "dok ni0 (n'\<lparr>log_display_level := ?l\<rparr>)"
        if "dok (ni0\<lparr>log_display_level := NMBM_LOG_MAX\<rparr>) n'" for n'
        using dok_log [OF that, of ?l] dok_fields(8) [OF assms(1)] by simp
      have "ba2addr ni ba = ba2addr (ni0\<lparr>log_display_level := NMBM_LOG_MAX\<rparr>) ba"
        using dok_fields(7) [OF assms(1)] by (simp add: ba2addr_def)
      then show ?thesis
        using mark_pages_loop_ok [OF l _ assms(3) page_offsets_fields [OF dok_att [OF l]]] assms(2)
          restore by (auto intro: ensures_mono)
    qed
    have clear: "ensures (mem_write (page_cache ni) 0 (replicate (rawpage_size ni) 0))
        (\<lambda>pc. dok ni0 (ni\<lparr>page_cache := pc\<rparr>))"
      using dok_page_cache_length [OF assms(1)] dok_rawpage [OF assms(1)]
      by (intro ensures_mem_writeI) (auto intro: dok_mem_write [OF assms(1)])
    have "nmbm_mark_phys_bad_block ni ba =
      do { pc \<leftarrow> mem_write (page_cache ni) 0 (replicate (rawpage_size ni) 0);
           let n = ni\<lparr>page_cache := pc\<rparr>\<lparr>log_display_level := NMBM_LOG_MAX\<rparr>;
           n' \<leftarrow> nmbm_mark_pages_loop (page_offsets n) n (ba2addr ni ba);
           Some (0, n'\<lparr>log_display_level := ?l\<rparr>) }"
      using rw f None
      by (simp add: nmbm_mark_phys_bad_block_def nmbm_set_log_level_def Let_def)
    also have "ensures \<dots> (\<lambda>(_, ni'). dok ni0 ni')"
      unfolding Let_def
      by (rule ensures_bindI [OF clear], rule ensures_bindI [OF pages], assumption) simp
    finally show ?thesis .
  next
    case (Some mk)
    have "R (dev ni) (snd (mk (dev ni) (ba2addr ni ba)))"
      using mark_R [OF att_I [OF dok_att [OF assms(1)]] rw Some] addr_div0 [OF assms(1,2)] dok_fields(7) [OF assms(1)] assms(3) rw
      by (simp add: may_change_def)
    then show ?thesis
      using rw f Some dok_set_dev [OF assms(1)]
      by (simp add: nmbm_mark_phys_bad_block_def Let_def case_prod_beta)
  qed
next
  case False
  then show ?thesis
    using assms(1) att_fields(11) [OF dok_att [OF assms(1)]]
    by (simp add: nmbm_mark_phys_bad_block_def Let_def)
qed

section \<open>Reading and writing through the page cache\<close>

text \<open>Reading a page into the page cache: the pair of calls most loops start with.\<close>

lemma read_page_data_ok:
  assumes "dok ni0 ni"
  shows "ensures (nmbm_read_phys_page ni a True oob mode)
    (\<lambda>(_, dat, _, ni'). dok ni0 ni' \<and> length dat = writesize lo)"
  using read_phys_page_ok [OF assms, of a True oob mode] by (rule ensures_mono) auto

lemmas dok_simps = dok_page_cache_length dok_rawpage att_fields [OF dok_att]

text \<open>Rules to step through the calls of an operation.\<close>

lemmas read_step = ensures_mono [OF read_page_data_ok]
lemmas write_step = ensures_mono [OF write_phys_page_ok]

lemma erase_check_loop_ok:
  assumes "dok ni0 ni"
  shows "ensures (nmbm_erase_check_loop offs ni addr) (\<lambda>(_, ni'). dok ni0 ni')"
  using assms
proof (induction offs arbitrary: ni)
  case (Cons off offs)
  then show ?case
    by (auto simp: ensures_bind Let_def dok_simps [of ni0]
        intro!: read_step [of ni0] ensures_mem_writeI dok_page_cache Cons.IH)
qed simp

lemma erase_block_and_check_ok:
  assumes "dok ni0 ni" and "ba < block_count ni0" and "may ba"
  shows "ensures (nmbm_erase_block_and_check ni ba) (\<lambda>(_, ni'). dok ni0 ni')"
proof -
  have "may (ba2addr ni ba div erasesize lo)"
    using addr_div0 [OF assms(1,2)] dok_fields(7) [OF assms(1)] assms(3) by simp
  note erase = erase_phys_block_ok [OF assms(1) this]
  show ?thesis
    unfolding nmbm_erase_block_and_check_def
    by (rule ensures_bindI [OF erase]) (auto intro: erase_check_loop_ok)
qed

lemma write_repeated_loop_ok:
  assumes "dok ni0 ni" and "ba < block_count ni0" and "may ba"
    and "\<And>off. off \<in> set offs \<Longrightarrow> off < erasesize lo"
    and "sz \<le> writesize lo" and "sz \<le> length data"
  shows "ensures (nmbm_write_repeated_loop offs ni (ba2addr ni0 ba) data sz)
    (\<lambda>(_, ni'). dok ni0 ni')"
  using assms(1,4)
proof (induction offs arbitrary: ni)
  case (Cons off offs)
  have may: "may (u64 (ba2addr ni0 ba + off) div erasesize lo)"
    using addr_div [OF Cons(2) assms(2)] assms(3) Cons(3) by simp
  have IH: "ensures (nmbm_write_repeated_loop offs n (ba2addr ni0 ba) data s)
      (\<lambda>(_, ni'). dok ni0 ni')" if "dok ni0 n" "sz = s" for n s
    using Cons that by simp
  show ?case
    using Cons(2,3) assms(5,6) may
    by (auto simp: ensures_bind Let_def dok_simps [of ni0]
        intro!: read_step [of ni0] write_step [of ni0] ensures_mem_writeI ensures_mem_readI
          dok_page_cache IH)
qed simp

lemma write_repeated_data_ok:
  assumes "dok ni0 ni" and "ba < block_count ni0" and "may ba" and "sz \<le> length data"
  shows "ensures (nmbm_write_repeated_data ni ba data sz) (\<lambda>(_, ni'). dok ni0 ni')"
proof -
  have "ba2addr ni ba = ba2addr ni0 ba"
    by (rule dok_fields(7) [OF assms(1)])
  then show ?thesis
    using assms write_repeated_loop_ok [OF assms(1-3) page_offsets_fields [OF dok_att [OF assms(1)]]]
    by (auto simp: nmbm_write_repeated_data_def dok_simps [of ni0])
qed

lemma dok_chunk:
  assumes "dok ni0 ni" and "0 < sz"
  shows "0 < chunk_size ni off sz" "chunk_size ni off sz \<le> sz"
    "chunk_leading ni off + chunk_size ni off sz \<le> writesize lo"
    "chunk_leading ni off = off mod writesize lo"
  using chunk_size_bounds [OF att_geom [OF dok_att [OF assms(1)]] assms(2), of off]
    chunk_leading_mod [OF att_geom [OF dok_att [OF assms(1)]], of off]
    att_fields(1) [OF dok_att [OF assms(1)]] by simp_all

lemma read_data_loop_ok:
  assumes "dok ni0 ni"
  shows "ensures (nmbn_read_data_loop ni off sz acc)
    (\<lambda>(ret, bs, ni'). dok ni0 ni' \<and> length bs \<le> length acc + sz \<and>
       (0 \<le> ret \<longrightarrow> ret = 0 \<and> length bs = length acc + sz))"
  using assms
proof (induction sz arbitrary: ni off acc rule: less_induct)
  case (less sz)
  show ?case
  proof (cases "sz = 0")
    case True
    then show ?thesis
      using less(2) by (simp add: nmbn_read_data_loop.simps)
  next
    case False
    note ch = dok_chunk [OF less(2), of sz off]
    let ?c = "chunk_size ni off sz"
    have IH: "ensures (nmbn_read_data_loop n o' (sz - c) (acc @ bs))
        (\<lambda>(ret, bs, ni'). dok ni0 ni' \<and> length bs \<le> length acc + sz \<and>
           (0 \<le> ret \<longrightarrow> ret = 0 \<and> length bs = length acc + sz))"
      if "dok ni0 n" "length bs = c" "0 < c" "c \<le> sz" for n bs c o'
      by (rule ensures_mono [OF less(1)]) (use that in auto)
    show ?thesis
      using less(2) False ch
      by (subst nmbn_read_data_loop.simps)
        (auto simp: ensures_bind Let_def dok_simps [of ni0]
          intro!: read_step [of ni0] ensures_mem_writeI ensures_mem_readI dok_page_cache IH)
  qed
qed

lemma read_data_ok:
  assumes "dok ni0 ni"
  shows "ensures (nmbn_read_data ni off sz)
    (\<lambda>(ret, bs, ni'). dok ni0 ni' \<and> length bs \<le> sz \<and> (0 \<le> ret \<longrightarrow> ret = 0 \<and> length bs = sz))"
  using read_data_loop_ok [OF assms, of off sz "[]"] by (simp add: nmbn_read_data_def)

text \<open>Byte addresses inside block \<open>ba\<close>.\<close>

lemma in_block_div:
  assumes "dok ni0 ni" and "ba < block_count ni0"
    and "ba2addr ni0 ba \<le> off" and "off < ba2addr ni0 ba + erasesize lo"
  shows "(off - chunk_leading ni off) div erasesize lo = ba" and "off < 2 ^ 63"
proof -
  note g = att_geom [OF dok_att [OF assms(1)]] and es = att_fields(2) [OF dok_att [OF assms(1)]]
  have ba: "ba2addr ni0 ba = ba * erasesize lo"
    using ba2addr_eq [OF g, of ba] dok_fields [OF assms(1)] assms(2) es by simp
  have "(off - chunk_leading ni off) div erasesize lo = off div erasesize lo"
    using page_start_div [OF g, of off] es by simp
  also have "\<dots> = ba"
    using assms(3,4) unfolding ba by (intro div_nat_eqI) (auto simp: algebra_simps)
  finally show "(off - chunk_leading ni off) div erasesize lo = ba" .
  have "off < (ba + 1) * erasesize lo"
    using assms(4) ba by simp
  also have "\<dots> \<le> block_count ni * erasesize (lower ni)"
    using assms(2) dok_fields(2) [OF assms(1)] es by (simp del: mult_Suc)
  also have "\<dots> \<le> 2 ^ 63"
    by (rule geomD(12) [OF g])
  finally show "off < 2 ^ 63" .
qed

lemma write_verify_loop_ok:
  assumes "dok ni0 ni" and "ba < block_count ni0" and "may ba"
    and "ba2addr ni0 ba \<le> off" and "off + sz \<le> ba2addr ni0 ba + erasesize lo"
    and "ptr + sz \<le> length data"
  shows "ensures (nmbn_write_verify_loop ni off data ptr sz) (\<lambda>(_, ni'). dok ni0 ni')"
  using assms(1,4-6)
proof (induction sz arbitrary: ni off ptr rule: less_induct)
  case (less sz)
  show ?case
  proof (cases "sz = 0")
    case True
    then show ?thesis
      using less(2) by (simp add: nmbn_write_verify_loop.simps)
  next
    case False
    note ch = dok_chunk [OF less(2), of sz off]
    have div: "(off - chunk_leading ni off) div erasesize lo = ba" and bound: "off < 2 ^ 63"
      using in_block_div [OF less(2) assms(2) less(3)] less(4) False by auto
    have IH: "ensures (nmbn_write_verify_loop n (u64 (off + c)) data (ptr + c) (sz - c))
        (\<lambda>(_, ni'). dok ni0 ni')"
      if "dok ni0 n" "0 < c" "c \<le> sz" "c \<le> writesize lo" for n c
    proof -
      have "writesize lo < 2 ^ 32"
        using geomD(3) [OF att_geom [OF dok_att [OF less(2)]]] dok_simps(3) [OF less(2)] by simp
      then have "u64 (off + c) = off + c"
        using bound that(4) by (intro u64_id) simp
      then show ?thesis
        using that less(3-5) by (intro less(1)) auto
    qed
    show ?thesis
      using less(2,5) False ch div assms(3)
      by (subst nmbn_write_verify_loop.simps)
        (auto simp: ensures_bind Let_def dok_simps [of ni0]
          intro!: read_step [of ni0] write_step [of ni0] ensures_mem_writeI ensures_mem_readI
            dok_page_cache IH)
  qed
qed

lemma write_verify_data_ok:
  assumes "dok ni0 ni" and "ba < block_count ni0" and "may ba" and "sz \<le> erasesize lo"
    and "ptr + sz \<le> length data"
  shows "ensures (nmbn_write_verify_data ni (ba2addr ni0 ba) data ptr sz) (\<lambda>(_, ni'). dok ni0 ni')"
  unfolding nmbn_write_verify_data_def
  using assms by (intro write_verify_loop_ok [where ba = ba]) auto

section \<open>Operations that may retire blocks\<close>

lemma nok_fields:
  assumes "nok ni0 ni"
  shows "block_count ni = block_count ni0" "ba2addr ni ba = ba2addr ni0 ba"
    "st_dom (block_state ni) = st_dom (block_state ni0)"
    "info_table_size ni = info_table_size ni0" "info_table_cache ni = info_table_cache ni0"
  using assms by (auto simp: nok_def nstep_def ba2addr_def only_bad_def st_dom_def)

lemma nok_dom: "nok ni0 ni \<Longrightarrow> ba < block_count ni0 \<Longrightarrow> ba < st_dom (block_state ni)"
  using geomD(13) [OF att_geom [OF nok_att]] nok_fields(1) by fastforce

lemma check_bad_n:
  assumes "nok ni0 ni"
  shows "ensures (nmbm_check_bad_phys_block ni ba) (\<lambda>(_, ni'). nok ni0 ni')"
  by (rule ensures_mono [OF check_bad_phys_block_ok [OF dok_refl [OF nok_att [OF assms]]]])
    (auto intro: nok_dok [OF assms])

lemma erase_check_n:
  assumes "nok ni0 ni" and "ba < block_count ni0" and "may ba"
  shows "ensures (nmbm_erase_block_and_check ni ba) (\<lambda>(_, ni'). nok ni0 ni')"
  by (rule ensures_mono [OF erase_block_and_check_ok [OF dok_refl [OF nok_att [OF assms(1)]]]])
    (use assms nok_fields(1) [OF assms(1)] in \<open>auto intro: nok_dok [OF assms(1)]\<close>)

lemma write_repeated_n:
  assumes "nok ni0 ni" and "ba < block_count ni0" and "may ba" and "sz \<le> length data"
  shows "ensures (nmbm_write_repeated_data ni ba data sz) (\<lambda>(_, ni'). nok ni0 ni')"
  by (rule ensures_mono [OF write_repeated_data_ok [OF dok_refl [OF nok_att [OF assms(1)]]]])
    (use assms nok_fields(1) [OF assms(1)] in \<open>auto intro: nok_dok [OF assms(1)]\<close>)

lemma write_verify_n:
  assumes "nok ni0 ni" and "ba < block_count ni0" and "may ba" and "sz \<le> erasesize lo"
    and "ptr + sz \<le> length data"
  shows "ensures (nmbn_write_verify_data ni (ba2addr ni0 ba) data ptr sz) (\<lambda>(_, ni'). nok ni0 ni')"
proof -
  have "ensures (nmbn_write_verify_data ni (ba2addr ni ba) data ptr sz) (\<lambda>(_, ni'). dok ni ni')"
    using assms nok_fields(1) [OF assms(1)]
    by (intro write_verify_data_ok dok_refl nok_att [OF assms(1)]) auto
  then show ?thesis
    unfolding nok_fields(2) [OF assms(1)]
    by (rule ensures_mono) (auto intro: nok_dok [OF assms(1)])
qed

lemma read_data_n:
  assumes "nok ni0 ni"
  shows "ensures (nmbn_read_data ni off sz)
    (\<lambda>(ret, bs, ni'). nok ni0 ni' \<and> length bs \<le> sz \<and> (0 \<le> ret \<longrightarrow> ret = 0 \<and> length bs = sz))"
  by (rule ensures_mono [OF read_data_ok [OF dok_refl [OF nok_att [OF assms]]]])
    (auto intro: nok_dok [OF assms])

lemma set_bad_n:
  assumes "nok ni0 ni" and "ba < block_count ni0"
  shows "ensures (nmbm_set_block_state ni ba BLOCK_ST_BAD) (\<lambda>(_, ni'). nok ni0 ni')"
  by (rule ensures_mono [OF set_block_state_bad_nstep [OF nok_dom [OF assms] R_refl]])
    (auto intro: nok_step [OF assms(1)])

lemma mark_bad_n:
  assumes "nok ni0 ni" and "ba < block_count ni0" and "may ba"
  shows "ensures (nmbm_mark_phys_bad_block ni ba) (\<lambda>(_, ni'). nok ni0 ni')"
  by (rule ensures_mono [OF mark_phys_bad_block_ok [OF dok_refl [OF nok_att [OF assms(1)]]]])
    (use assms nok_fields(1) [OF assms(1)] in \<open>auto intro: nok_dok [OF assms(1)]\<close>)

lemma get_state_n:
  assumes "nok ni0 ni" and "ba < block_count ni0"
  shows "nmbm_get_block_state ni ba = Some (st_get (block_state ni) ba)"
  using nok_dom [OF assms] by (simp add: get_block_state_eq)

lemmas check_bad_step = ensures_mono [OF check_bad_n]
lemmas erase_check_step = ensures_mono [OF erase_check_n]
lemmas write_repeated_step = ensures_mono [OF write_repeated_n]
lemmas write_verify_step = ensures_mono [OF write_verify_n]
lemmas set_bad_step = ensures_mono [OF set_bad_n]
lemmas mark_bad_step = ensures_mono [OF mark_bad_n]

lemma retire_n:
  assumes "nok ni0 ni" and "ba < block_count ni0" and "may ba"
  shows "ensures (nmbm_retire_block ni ba) (nok ni0)"
  using assms
  by (auto simp: nmbm_retire_block_def ensures_bind intro!: mark_bad_step [of ni0] set_bad_step [of ni0])

lemmas retire_step = ensures_mono [OF retire_n]

lemma erase_range_n:
  assumes "nok ni0 ni" and "limit \<le> block_count ni0"
    and "\<And>b. ba \<le> b \<Longrightarrow> b < limit \<Longrightarrow> may b"
  shows "ensures (nmbm_erase_range ni ba limit) (nok ni0)"
  using assms
proof (induction "limit - ba" arbitrary: ni ba)
  case 0
  then show ?case
    by (simp add: nmbm_erase_range.simps)
next
  case (Suc n)
  have IH: "ensures (nmbm_erase_range ni' (Suc ba) limit) (nok ni0)" if "nok ni0 ni'" for ni'
    using Suc(1) [of "Suc ba" ni'] Suc(2-5) that by auto
  have ba: "ba < limit" "ba < block_count ni0" "may ba"
    using Suc(2-5) by auto
  show ?case
    using ba Suc(3) get_state_n [OF Suc(3) ba(2)]
    by (subst nmbm_erase_range.simps)
      (auto simp: ensures_bind intro!: IH check_bad_step [of ni0] set_bad_step [of ni0]
        erase_check_step [of ni0] retire_step [of ni0])
qed

lemma scan_badblocks_loop_n:
  assumes "nok ni0 ni" and "count \<le> block_count ni0"
  shows "ensures (nmbm_scan_badblocks_loop ni ba count) (nok ni0)"
  using assms
proof (induction "count - ba" arbitrary: ni ba)
  case 0
  then show ?case
    by (simp add: nmbm_scan_badblocks_loop.simps)
next
  case (Suc n)
  have IH: "ensures (nmbm_scan_badblocks_loop ni' (Suc ba) count) (nok ni0)" if "nok ni0 ni'" for ni'
    using Suc(1) [of "Suc ba" ni'] Suc(2-4) that by auto
  show ?case
    using Suc(2-4)
    by (subst nmbm_scan_badblocks_loop.simps)
      (auto simp: ensures_bind intro!: IH check_bad_step [of ni0] set_bad_step [of ni0])
qed

lemma scan_badblocks_n:
  "attached ni \<Longrightarrow> ensures (nmbm_scan_badblocks ni) (nok ni)"
  unfolding nmbm_scan_badblocks_def by (rule scan_badblocks_loop_n [OF nok_refl]) auto

lemma write_signature_loop_n:
  assumes "nok ni0 ni" and "ba < block_count ni0" and "sizeof_signature \<le> length sig"
    and "\<And>b. limit < b \<Longrightarrow> b < block_count ni0 \<Longrightarrow> may b"
  shows "ensures (nmbm_write_signature_loop ni ba limit sig)
    (\<lambda>(r, ni'). nok ni0 ni' \<and> (\<forall>b. r = Some b \<longrightarrow> limit < b \<and> b \<le> ba))"
  using assms(1,2)
proof (induction ba arbitrary: ni rule: less_induct)
  case (less ba)
  have IH: "ensures (nmbm_write_signature_loop ni' (ba - 1) limit sig)
      (\<lambda>(r, ni'). nok ni0 ni' \<and> (\<forall>b. r = Some b \<longrightarrow> limit < b \<and> b \<le> ba))"
    if "nok ni0 ni'" "limit < ba" for ni'
    by (rule ensures_mono [OF less(1)]) (use that less(3) in auto)
  show ?case
    using less(2,3) get_state_n [OF less(2,3)] assms(3) assms(4) [of ba]
    by (subst nmbm_write_signature_loop.simps)
      (auto simp: ensures_bind intro!: IH [simplified] check_bad_step [of ni0] set_bad_step [of ni0]
        erase_check_step [of ni0] retire_step [of ni0] write_repeated_step [of ni0])
qed

text \<open>
  A range that is written holds the block where it starts and ends inside the limit; \<open>start\<close> is
  assigned exactly when something was written.
\<close>

definition range_post :: "nat \<Rightarrow> nat \<Rightarrow> bool \<Rightarrow> nat option \<Rightarrow> nat \<Rightarrow> bool" where
  "range_post ba limit success start e \<longleftrightarrow>
     ba \<le> e \<and> (success \<longrightarrow> (\<exists>s. start = Some s \<and> ba \<le> s \<and> s < e \<and> e \<le> limit))"

lemma write_mgmt_range_loop_n:
  assumes "nok ni0 ni" and "limit \<le> block_count ni0" and "\<And>b. ba \<le> b \<Longrightarrow> b < limit \<Longrightarrow> may b"
    and "sz \<le> length data" and "rem \<le> sz" and "0 < sz"
    and "rem \<noteq> sz \<Longrightarrow> \<exists>s. start = Some s \<and> ba0 \<le> s \<and> s < ba \<and> ba \<le> limit" and "ba0 \<le> ba"
  shows "ensures (nmbm_write_mgmt_range_loop ni ba limit data sz rem start)
    (\<lambda>(success, start, e, ni'). nok ni0 ni' \<and> range_post ba0 limit success start e)"
  using assms(1-3,5,7,8)
proof (induction "limit - ba" arbitrary: ni ba rem start)
  case 0
  then show ?case
    using assms(6) by (subst nmbm_write_mgmt_range_loop.simps) (auto simp: range_post_def)
next
  case (Suc n)
  have ba: "ba < limit" "ba < block_count ni0" "may ba"
    using Suc(2-5) by auto
  note IH = Suc(1) [of "Suc ba"]
  have skip: "ensures (nmbm_write_mgmt_range_loop ni' (Suc ba) limit data sz rem start)
      (\<lambda>(success, start, e, ni'). nok ni0 ni' \<and> range_post ba0 limit success start e)"
    if "nok ni0 ni'" for ni'
    by (rule IH) (use Suc(2-8) that ba in force)+
  have go: "ensures (nmbm_write_mgmt_range_loop ni' (Suc ba) limit data sz (rem - c)
        (if rem = sz then Some ba else start))
      (\<lambda>(success, start, e, ni'). nok ni0 ni' \<and> range_post ba0 limit success start e)"
    if "nok ni0 ni'" for ni' c
    by (rule IH) (use Suc(2-8) that ba in force)+
  have fit: "ptr + c \<le> length data" if "ptr = sz - rem" "c \<le> rem" for ptr c
    using that assms(4) Suc(6) by simp
  note addr = nok_fields(2)
  show ?case
  proof (cases "rem = 0")
    case True
    then show ?thesis
      using Suc(3,7,8) assms(6)
      by (subst nmbm_write_mgmt_range_loop.simps) (auto simp: range_post_def)
  next
    case False
    define c where "c = (if erasesize (lower ni) < rem then erasesize (lower ni) else rem)"
    define s where "s = (if rem = sz then Some ba else start)"
    have wv: "ensures (nmbn_write_verify_data n (ba2addr n ba) data (sz - rem) c)
        (\<lambda>(_, ni'). nok ni0 ni')" if "nok ni0 n" for n
      unfolding nok_fields(2) [OF that]
      using that ba att_fields(2) [OF nok_att [OF Suc(3)]]
      by (intro write_verify_n fit) (auto simp: c_def)
    show ?thesis
      using False ba Suc(3) get_state_n [OF Suc(3) ba(2)] go [folded s_def]
      unfolding nmbm_write_mgmt_range_loop.simps [of ni ba] Let_def
        c_def [symmetric] s_def [symmetric]
      by (auto simp: ensures_bind intro!: skip check_bad_step [of ni0] set_bad_step [of ni0]
          erase_check_step [of ni0] retire_step [of ni0] ensures_mono [OF wv])
  qed
qed

lemma write_mgmt_range_n:
  assumes "nok ni0 ni" and "limit \<le> block_count ni0" and "\<And>b. ba \<le> b \<Longrightarrow> b < limit \<Longrightarrow> may b"
    and "sz \<le> length data" and "0 < sz"
  shows "ensures (nmbm_write_mgmt_range ni ba limit data sz)
    (\<lambda>(success, start, e, ni'). nok ni0 ni' \<and> range_post ba limit success start e)"
  unfolding nmbm_write_mgmt_range_def
  by (rule write_mgmt_range_loop_n) (use assms in auto)

end

end
