(* ===== verification/Nmbm_Tables.thy ===== *)
theory Nmbm_Tables
  imports Nmbm_Device Nmbm_Info
begin

text \<open>
  The info tables on flash: a layout invariant of the management area, that every operation of
  \<open>Nmbm_Info\<close> keeps it and changes only blocks of that area, and that the update loop
  ends.
\<close>

section \<open>Sizes and layout\<close>

text \<open>The tables as \<^verbatim>\<open>nmbm_init_structure\<close> lays them out in the cache image.\<close>

definition tabs :: "'d nmbm_instance \<Rightarrow> bool" where
  "tabs ni \<longleftrightarrow>
     sizeof_info_table_header \<le> state_table_off (info_table ni) \<and>
     state_table_off (info_table ni) + state_table_size ni \<le> mapping_table_off (info_table ni) \<and>
     mapping_table_off (info_table ni) + mapping_table_size ni \<le> info_table_size ni \<and>
     info_table_size ni < 2 ^ 32 \<and> length (info_table_cache ni) = info_table_size ni \<and>
     state_table_size ni = 4 * length (block_state ni) \<and>
     mapping_table_size ni = 4 * length (block_mapping ni) \<and>
     length (block_mapping ni) = block_count ni \<and>
     2 * st_dom (block_state ni) < 2 ^ 32 \<and> info_table_spare_blocks ni < 2 ^ 31"

text \<open>
  \<open>tlay hi\<close>: the tables lie in the management area, the main table before the backup, the
  backup before \<^verbatim>\<open>mapping_blocks_ba\<close>, everything below \<open>hi\<close>. Address 0 means "no table".
\<close>

definition tlay :: "nat \<Rightarrow> 'd nmbm_instance \<Rightarrow> bool" where
  "tlay hi ni \<longleftrightarrow>
     0 < mgmt_start_ba ni \<and> mgmt_start_ba ni \<le> mapping_blocks_ba ni \<and>
     mapping_blocks_ba ni \<le> hi \<and> mgmt_start_ba ni \<le> mapping_blocks_top_ba ni \<and>
     mapping_blocks_top_ba ni \<le> hi \<and> hi \<le> block_count ni \<and>
     (main_table_ba ni \<noteq> 0 \<longrightarrow>
        mgmt_start_ba ni \<le> main_table_ba ni \<and> main_table_ba ni < mapping_blocks_ba ni) \<and>
     (backup_table_ba ni \<noteq> 0 \<longrightarrow> main_table_ba ni \<noteq> 0 \<and>
        main_table_ba ni < backup_table_ba ni \<and> backup_table_ba ni < mapping_blocks_ba ni)"

text \<open>Everything the table operations leave alone.\<close>

definition frame :: "'d nmbm_instance \<Rightarrow> _" where
  "frame ni =
     ((rawpage_size ni, rawblock_size ni, rawchip_size ni, writesize_mask ni, erasesize_mask ni,
       writesize_shift ni, erasesize_shift ni, signature ni, info_table_size ni,
       info_table_spare_blocks ni),
      (state_table_size ni, mapping_table_size ni, block_count ni, mgmt_start_ba ni,
       signature_ba ni, log_display_level ni, state_table_off (info_table ni),
       mapping_table_off (info_table ni)),
      (block_mapping ni, data_block_count ni, mapping_blocks_top_ba ni))"

definition tstep :: "('d \<Rightarrow> 'd \<Rightarrow> bool) \<Rightarrow> 'd nmbm_instance \<Rightarrow> 'd nmbm_instance \<Rightarrow> bool" where
  "tstep R ni ni' \<longleftrightarrow>
     frame ni' = frame ni \<and> R (dev ni) (dev ni') \<and>
     only_bad (block_state ni) (block_state ni')"

text \<open>Nothing is left to write but the \<open>acct\<close> changes counted since the last clean point.\<close>

definition clean :: "nat \<Rightarrow> 'd nmbm_instance \<Rightarrow> bool" where
  "clean w ni \<longleftrightarrow> block_mapping_changed ni = 0 \<and> acct ni \<le> w"

lemma st_weight_mono:
  assumes "only_bad bs bs'" shows "st_weight bs' \<le> st_weight bs"
proof -
  have dom: "st_dom bs' = st_dom bs"
    using assms by (simp add: only_bad_def st_dom_def)
  show ?thesis
    unfolding st_weight_def dom
  proof (rule sum_mono)
    fix ba assume "ba \<in> {..<st_dom bs}"
    then show "st_wt (st_get bs' ba) \<le> st_wt (st_get bs ba)"
      using assms by (auto simp: only_bad_def)
  qed
qed

lemma nstep_frame: "nstep R ni ni' \<Longrightarrow> frame ni' = frame ni"
  by (elim nstepE) (simp add: frame_def)

lemma nstep_tstep: "nstep R ni ni' \<Longrightarrow> tstep R ni ni'"
  by (elim nstepE) (simp add: tstep_def frame_def dev_def)

lemma nstep_fields:
  assumes "nstep R ni ni'"
  shows "main_table_ba ni' = main_table_ba ni" "backup_table_ba ni' = backup_table_ba ni"
    "mapping_blocks_ba ni' = mapping_blocks_ba ni" "info_table ni' = info_table ni"
    "info_table_cache ni' = info_table_cache ni" "length (block_state ni') = length (block_state ni)"
    "block_mapping_changed ni' = block_mapping_changed ni" "protected ni' = protected ni"
  using assms by (elim nstepE; simp add: only_bad_def)+

lemma frame_fields:
  assumes "frame a = frame b"
  shows "state_table_size a = state_table_size b" "mapping_table_size a = mapping_table_size b"
    "block_count a = block_count b" "block_mapping a = block_mapping b"
    "info_table_size a = info_table_size b" "info_table_spare_blocks a = info_table_spare_blocks b"
    "mgmt_start_ba a = mgmt_start_ba b" "mapping_blocks_top_ba a = mapping_blocks_top_ba b"
    "state_table_off (info_table a) = state_table_off (info_table b)"
    "mapping_table_off (info_table a) = mapping_table_off (info_table b)"
    "data_block_count a = data_block_count b" "signature_ba a = signature_ba b"
    "erasesize_shift a = erasesize_shift b" "signature a = signature b"
    "writesize_mask a = writesize_mask b" "erasesize_mask a = erasesize_mask b"
    "log_display_level a = log_display_level b"
  using assms unfolding frame_def prod.inject by blast+

lemma nstep_tabs: "nstep R ni ni' \<Longrightarrow> tabs ni' \<longleftrightarrow> tabs ni"
  by (simp add: tabs_def st_dom_def nstep_fields frame_fields [OF nstep_frame])

lemma nstep_tlay: "nstep R ni ni' \<Longrightarrow> tlay hi ni' \<longleftrightarrow> tlay hi ni"
  by (simp add: tlay_def nstep_fields frame_fields [OF nstep_frame])

lemma nstep_clean: "nstep R ni ni' \<Longrightarrow> clean w ni \<Longrightarrow> w < 2 ^ 32 \<Longrightarrow> clean w ni'"
  by (elim nstepE) (simp add: clean_def acct_def)

lemma tstep_trans:
  assumes "\<And>a b c. R a b \<Longrightarrow> R b c \<Longrightarrow> R a c" and "tstep R a b" and "tstep R b c"
  shows "tstep R a c"
  unfolding tstep_def
proof (intro conjI)
  show "frame c = frame a"
    using assms(2,3) by (simp add: tstep_def)
  show "R (dev a) (dev c)"
    using assms by (auto simp: tstep_def)
  show "only_bad (block_state a) (block_state c)"
    using assms(2,3) only_bad_trans by (auto simp: tstep_def)
qed

section \<open>Steps that only set block addresses\<close>

lemma table_upd_simps [simp]:
  "frame (ni\<lparr>main_table_ba := x\<rparr>) = frame ni" "frame (ni\<lparr>backup_table_ba := x\<rparr>) = frame ni"
  "frame (ni\<lparr>mapping_blocks_ba := x\<rparr>) = frame ni" "frame (ni\<lparr>protected := p\<rparr>) = frame ni"
  "frame (ni\<lparr>block_state_changed := x\<rparr>) = frame ni"
  "frame (ni\<lparr>block_mapping_changed := x\<rparr>) = frame ni"
  "frame (ni\<lparr>info_table_cache := c\<rparr>) = frame ni"
  by (simp_all add: frame_def)

lemma geom_upd_simps [simp]:
  "geom (ni\<lparr>main_table_ba := x\<rparr>) = geom ni" "geom (ni\<lparr>backup_table_ba := x\<rparr>) = geom ni"
  "geom (ni\<lparr>mapping_blocks_ba := x\<rparr>) = geom ni" "geom (ni\<lparr>protected := p\<rparr>) = geom ni"
  "geom (ni\<lparr>block_state_changed := x\<rparr>) = geom ni"
  "geom (ni\<lparr>block_mapping_changed := x\<rparr>) = geom ni"
  "geom (ni\<lparr>info_table_cache := c\<rparr>) = geom ni" "geom (ni\<lparr>info_table := t\<rparr>) = geom ni"
  "geom (ni\<lparr>block_mapping := bm\<rparr>) = geom ni"
  "geom (ni\<lparr>mapping_blocks_top_ba := x\<rparr>) = geom ni"
  "geom (ni\<lparr>data_block_count := x\<rparr>) = geom ni"
  "geom (ni\<lparr>mgmt_start_ba := x\<rparr>) = geom ni" "geom (ni\<lparr>signature := s\<rparr>) = geom ni"
  "geom (ni\<lparr>signature_ba := x\<rparr>) = geom ni"
  by (simp_all add: geom_def)

lemma dev_upd_simps [simp]:
  "dev (ni\<lparr>main_table_ba := x\<rparr>) = dev ni" "dev (ni\<lparr>backup_table_ba := x\<rparr>) = dev ni"
  "dev (ni\<lparr>mapping_blocks_ba := x\<rparr>) = dev ni" "dev (ni\<lparr>protected := p\<rparr>) = dev ni"
  "dev (ni\<lparr>block_state_changed := x\<rparr>) = dev ni"
  "dev (ni\<lparr>block_mapping_changed := x\<rparr>) = dev ni"
  "dev (ni\<lparr>info_table_cache := c\<rparr>) = dev ni" "dev (ni\<lparr>info_table := t\<rparr>) = dev ni"
  "dev (ni\<lparr>block_mapping := bm\<rparr>) = dev ni"
  "dev (ni\<lparr>mapping_blocks_top_ba := x\<rparr>) = dev ni"
  "dev (ni\<lparr>data_block_count := x\<rparr>) = dev ni"
  "dev (ni\<lparr>mgmt_start_ba := x\<rparr>) = dev ni" "dev (ni\<lparr>signature := s\<rparr>) = dev ni"
  "dev (ni\<lparr>signature_ba := x\<rparr>) = dev ni"
  by (simp_all add: dev_def)

lemma tabs_upd_simps [simp]:
  "tabs (ni\<lparr>main_table_ba := x\<rparr>) = tabs ni" "tabs (ni\<lparr>backup_table_ba := x\<rparr>) = tabs ni"
  "tabs (ni\<lparr>mapping_blocks_ba := x\<rparr>) = tabs ni" "tabs (ni\<lparr>protected := p\<rparr>) = tabs ni"
  "tabs (ni\<lparr>block_state_changed := x\<rparr>) = tabs ni"
  "tabs (ni\<lparr>block_mapping_changed := x\<rparr>) = tabs ni"
  "tabs (ni\<lparr>mapping_blocks_top_ba := x\<rparr>) = tabs ni"
  "tabs (ni\<lparr>data_block_count := x\<rparr>) = tabs ni"
  "tabs (ni\<lparr>mgmt_start_ba := x\<rparr>) = tabs ni" "tabs (ni\<lparr>signature := s\<rparr>) = tabs ni"
  "tabs (ni\<lparr>signature_ba := x\<rparr>) = tabs ni"
  by (simp_all add: tabs_def)

lemma clean_upd_simps [simp]:
  "clean w (ni\<lparr>main_table_ba := x\<rparr>) = clean w ni"
  "clean w (ni\<lparr>backup_table_ba := x\<rparr>) = clean w ni"
  "clean w (ni\<lparr>mapping_blocks_ba := x\<rparr>) = clean w ni"
  "clean w (ni\<lparr>protected := p\<rparr>) = clean w ni"
  by (simp_all add: clean_def acct_def)

section \<open>The cache image\<close>

lemma tabsD:
  assumes "tabs ni"
  shows "sizeof_info_table_header \<le> state_table_off (info_table ni)"
    "state_table_off (info_table ni) + state_table_size ni \<le> mapping_table_off (info_table ni)"
    "mapping_table_off (info_table ni) + mapping_table_size ni \<le> info_table_size ni"
    "info_table_size ni < 2 ^ 32" "length (info_table_cache ni) = info_table_size ni"
    "state_table_size ni = 4 * length (block_state ni)"
    "mapping_table_size ni = 4 * length (block_mapping ni)"
    "length (block_mapping ni) = block_count ni"
    "2 * st_dom (block_state ni) < 2 ^ 32" "info_table_spare_blocks ni < 2 ^ 31"
  using assms unfolding tabs_def by blast+

text \<open>The image: header, state table and mapping table at their offsets, checksum filled in.\<close>

definition image_header :: "'d nmbm_instance \<Rightarrow> bool \<Rightarrow> nmbm_info_table_header" where
  "image_header ni changed =
     (let hdr = (ift_header (info_table ni))\<lparr>magic := NMBM_MAGIC_INFO_TABLE, version := NMBM_VER,
                    hdr_size := info_table_size ni\<rparr>;
          it = (info_table ni)\<lparr>ift_header := hdr\<rparr>
      in if changed then it\<lparr>write_count := u32 (write_count it + 1)\<rparr> else it)"

definition dirty :: "'d nmbm_instance \<Rightarrow> bool" where
  "dirty ni \<longleftrightarrow> block_state_changed ni \<noteq> 0 \<or> block_mapping_changed ni \<noteq> 0"

definition image_body :: "'d nmbm_instance \<Rightarrow> byte list \<Rightarrow> bool" where
  "image_body ni c \<longleftrightarrow> length c = info_table_size ni \<and>
     take (state_table_size ni) (drop (state_table_off (info_table ni)) c) =
       words_le (block_state ni) \<and>
     take (mapping_table_size ni) (drop (mapping_table_off (info_table ni)) c) =
       ints_le (block_mapping ni)"

lemma image_header_offsets [simp]:
  "state_table_off (image_header ni ch) = state_table_off (info_table ni)"
  "mapping_table_off (image_header ni ch) = mapping_table_off (info_table ni)"
  "hdr_size (ift_header (image_header ni ch)) = info_table_size ni"
  "magic (ift_header (image_header ni ch)) = NMBM_MAGIC_INFO_TABLE"
  "write_count (image_header ni ch) =
     (if ch then u32 (write_count (info_table ni) + 1) else write_count (info_table ni))"
  by (simp_all add: image_header_def Let_def)

lemma cache_layout:
  assumes "tabs ni"
  shows "ensures (do {
       cache \<leftarrow> mem_write (info_table_cache ni) 0 (replicate (info_table_size ni) 0xff);
       sb \<leftarrow> mem_read (words_le (block_state ni)) 0 (state_table_size ni);
       cache \<leftarrow> mem_write cache (state_table_off (info_table ni)) sb;
       mb \<leftarrow> mem_read (ints_le (block_mapping ni)) 0 (mapping_table_size ni);
       cache \<leftarrow> mem_write cache (mapping_table_off (info_table ni)) mb;
       mem_write cache 0 (enc_info_table_header it) })
     (\<lambda>c. image_body ni c \<and> take 32 c = enc_info_table_header it)"
proof -
  note t = tabsD [OF assms, unfolded sizeof_info_table_header_def]
  have sb: "mem_read (words_le (block_state ni)) 0 (state_table_size ni) =
      Some (words_le (block_state ni))"
    and mb: "mem_read (ints_le (block_mapping ni)) 0 (mapping_table_size ni) =
      Some (ints_le (block_mapping ni))"
    using t(6,7) by (simp_all add: mem_read_def)
  obtain c0 where c0: "mem_write (info_table_cache ni) 0 (replicate (info_table_size ni) 0xff) = Some c0"
    "length c0 = info_table_size ni"
    using t(5) by (simp add: mem_write_def)
  obtain c1 where c1: "mem_write c0 (state_table_off (info_table ni)) (words_le (block_state ni)) = Some c1"
    using t c0(2) by (simp add: mem_write_def)
  obtain c2 where c2: "mem_write c1 (mapping_table_off (info_table ni)) (ints_le (block_mapping ni)) = Some c2"
    using t mem_write_length [OF c1] c0(2) by (simp add: mem_write_def)
  obtain c3 where c3: "mem_write c2 0 (enc_info_table_header it) = Some c3"
    using t mem_write_length [OF c1] mem_write_length [OF c2] c0(2) by (simp add: mem_write_def)
  note len = mem_write_length [OF c1] mem_write_length [OF c2] mem_write_length [OF c3] c0(2)
  have "take (state_table_size ni) (drop (state_table_off (info_table ni)) c3) = words_le (block_state ni)"
    using mem_write_slice_disjoint [OF c3, of "state_table_off (info_table ni)" "state_table_size ni"]
      mem_write_slice_disjoint [OF c2, of "state_table_off (info_table ni)" "state_table_size ni"]
      mem_write_slice_same [OF c1] t len by simp
  moreover have "take (mapping_table_size ni) (drop (mapping_table_off (info_table ni)) c3) =
      ints_le (block_mapping ni)"
    using mem_write_slice_disjoint [OF c3, of "mapping_table_off (info_table ni)" "mapping_table_size ni"]
      mem_write_slice_same [OF c2] t len by simp
  moreover have "take 32 c3 = enc_info_table_header it"
    using mem_write_slice_same [OF c3] by simp
  ultimately show ?thesis
    using c0 c1 c2 c3 sb mb len by (simp add: image_body_def)
qed

lemma with_checksum_slice:
  "16 \<le> length c \<Longrightarrow> length x = 4 \<Longrightarrow> 16 \<le> p \<Longrightarrow>
   take n (drop p (with_checksum c x)) = take n (drop p c)"
  using with_checksum_simps(4) [of c x] drop_drop [of "p - 16" 16 c]
    drop_drop [of "p - 16" 16 "with_checksum c x"] by simp

lemma generate_cache_ok:
  assumes "tabs ni"
  shows "ensures (nmbm_generate_info_table_cache crc ni)
    (\<lambda>(changed, ni'). changed = dirty ni \<and>
       (\<exists>c c0. ni' = ni\<lparr>info_table_cache := c, info_table := image_header ni (dirty ni)\<rparr> \<and>
          image_body ni c \<and> take 32 c0 = enc_info_table_header (image_header ni (dirty ni)) \<and>
          length c0 = info_table_size ni \<and>
          nmbm_update_checksum crc c0 = Some c))"
proof -
  let ?it = "image_header ni (dirty ni)"
  obtain c0 where c0: "(do {
       cache \<leftarrow> mem_write (info_table_cache ni) 0 (replicate (info_table_size ni) 0xff);
       sb \<leftarrow> mem_read (words_le (block_state ni)) 0 (state_table_size ni);
       cache \<leftarrow> mem_write cache (state_table_off (info_table ni)) sb;
       mb \<leftarrow> mem_read (ints_le (block_mapping ni)) 0 (mapping_table_size ni);
       cache \<leftarrow> mem_write cache (mapping_table_off (info_table ni)) mb;
       mem_write cache 0 (enc_info_table_header ?it) }) = Some c0"
    and body: "image_body ni c0" and head: "take 32 c0 = enc_info_table_header ?it"
    using cache_layout [OF assms, of ?it] by (auto simp: ensures_iff)
  note t = tabsD [OF assms, unfolded sizeof_info_table_header_def]
  have len: "length c0 = info_table_size ni" "32 \<le> length c0"
    using body t by (auto simp: image_body_def)
  have "take 16 c0 = enc_header (ift_header ?it)"
    using arg_cong [OF head, of "take 16"] by (simp add: enc_info_table_header_def)
  then have "dec_header c0 = dec_header (enc_header (ift_header ?it))"
    by (metis dec_header_take16)
  then have "hdr_size (dec_header c0) = info_table_size ni"
    using t(4) by (simp add: dec_header_def enc_header_def le_dec_le_enc)
  then obtain x where upd: "nmbm_update_checksum crc c0 = Some (with_checksum c0 x)" "length x = 4"
    using update_checksum_eq [of c0 crc] len by auto
  have "image_body ni (with_checksum c0 x)"
    using body len upd(2) t by (simp add: image_body_def with_checksum_slice with_checksum_simps)
  moreover have "nmbm_generate_info_table_cache crc ni =
      Some (dirty ni, ni\<lparr>info_table_cache := with_checksum c0 x, info_table := ?it\<rparr>)"
    using c0 upd
    unfolding nmbm_generate_info_table_cache_def image_header_def dirty_def Let_def
    by (auto simp: bind_eq_Some_conv)
  ultimately show ?thesis
    using head upd len by auto
qed

end
