(* ===== verification/Nmbm_Update.thy ===== *)
theory Nmbm_Update
  imports Nmbm_Tables
begin

text \<open>
  The operations of \<open>Nmbm_Info\<close> on a device that satisfies the interface of \<open>Nmbm_Device\<close>: they
  keep the layout of the management area, and the update of the info tables ends.
\<close>

context lower_device
begin

definition tok :: "'d nmbm_instance \<Rightarrow> 'd nmbm_instance \<Rightarrow> bool" where
  "tok ni0 ni \<longleftrightarrow> attached ni \<and> tabs ni \<and> tstep R ni0 ni"

text \<open>Permission to change the management area below \<open>hi\<close>.\<close>

definition area :: "nat \<Rightarrow> 'd nmbm_instance \<Rightarrow> bool" where
  "area hi ni0 \<longleftrightarrow> (\<forall>b. mgmt_start_ba ni0 \<le> b \<and> b < hi \<longrightarrow> may b)"

lemma attached_upd_simps [simp]:
  "attached (ni\<lparr>main_table_ba := x\<rparr>) = attached ni"
  "attached (ni\<lparr>backup_table_ba := x\<rparr>) = attached ni"
  "attached (ni\<lparr>mapping_blocks_ba := x\<rparr>) = attached ni"
  "attached (ni\<lparr>protected := p\<rparr>) = attached ni"
  "attached (ni\<lparr>block_state_changed := x\<rparr>) = attached ni"
  "attached (ni\<lparr>block_mapping_changed := x\<rparr>) = attached ni"
  "attached (ni\<lparr>info_table_cache := c\<rparr>) = attached ni"
  "attached (ni\<lparr>info_table := t\<rparr>) = attached ni"
  "attached (ni\<lparr>block_mapping := bm\<rparr>) = attached ni"
  "attached (ni\<lparr>mapping_blocks_top_ba := x\<rparr>) = attached ni"
  "attached (ni\<lparr>data_block_count := x\<rparr>) = attached ni"
  "attached (ni\<lparr>mgmt_start_ba := x\<rparr>) = attached ni"
  "attached (ni\<lparr>signature := s\<rparr>) = attached ni"
  "attached (ni\<lparr>signature_ba := x\<rparr>) = attached ni"
  by (simp_all add: attached_to_def)

lemma tstep_upd_simps [simp]:
  "tstep R ni0 (ni\<lparr>main_table_ba := x\<rparr>) = tstep R ni0 ni"
  "tstep R ni0 (ni\<lparr>backup_table_ba := x\<rparr>) = tstep R ni0 ni"
  "tstep R ni0 (ni\<lparr>mapping_blocks_ba := x\<rparr>) = tstep R ni0 ni"
  "tstep R ni0 (ni\<lparr>protected := p\<rparr>) = tstep R ni0 ni"
  "tstep R ni0 (ni\<lparr>block_state_changed := x\<rparr>) = tstep R ni0 ni"
  "tstep R ni0 (ni\<lparr>block_mapping_changed := x\<rparr>) = tstep R ni0 ni"
  by (simp_all add: tstep_def)

lemma tok_upd_simps [simp]:
  "tok ni0 (ni\<lparr>main_table_ba := x\<rparr>) = tok ni0 ni"
  "tok ni0 (ni\<lparr>backup_table_ba := x\<rparr>) = tok ni0 ni"
  "tok ni0 (ni\<lparr>mapping_blocks_ba := x\<rparr>) = tok ni0 ni"
  "tok ni0 (ni\<lparr>protected := p\<rparr>) = tok ni0 ni"
  "tok ni0 (ni\<lparr>block_state_changed := x\<rparr>) = tok ni0 ni"
  "tok ni0 (ni\<lparr>block_mapping_changed := x\<rparr>) = tok ni0 ni"
  by (simp_all add: tok_def)

lemma tok_refl: "attached ni \<Longrightarrow> tabs ni \<Longrightarrow> tok ni ni"
  by (simp add: tok_def tstep_def R_refl)

lemma tok_nok: "tok ni0 ni \<Longrightarrow> nok ni ni' \<Longrightarrow> tok ni0 ni'"
  unfolding tok_def nok_def
  using nstep_tabs nstep_tstep tstep_trans [of R ni0 ni ni'] R_trans by blast

lemma tok_frame: "tok ni0 ni \<Longrightarrow> frame ni = frame ni0"
  by (simp add: tok_def tstep_def)

lemmas tok_fields = frame_fields [OF tok_frame]

lemma nok_same:
  assumes "nok ni ni'"
  shows "main_table_ba ni' = main_table_ba ni" "backup_table_ba ni' = backup_table_ba ni"
    "mapping_blocks_ba ni' = mapping_blocks_ba ni" "protected ni' = protected ni"
    "block_mapping_changed ni' = block_mapping_changed ni"
  using nstep_fields [of R ni ni'] assms by (auto simp: nok_def)

lemma nok_clean: "nok ni ni' \<Longrightarrow> clean w ni \<Longrightarrow> w < 2 ^ 32 \<Longrightarrow> clean w ni'"
  using nstep_clean by (auto simp: nok_def)

lemma tok_weight: "tok ni0 ni \<Longrightarrow> st_weight (block_state ni) \<le> st_weight (block_state ni0)"
  using st_weight_mono by (auto simp: tok_def tstep_def)

lemma tok_weight_less: "tok ni0 ni \<Longrightarrow> st_weight (block_state ni0) < 2 ^ 32"
proof -
  assume "tok ni0 ni"
  then have "2 * st_dom (block_state ni) < 2 ^ 32" "st_dom (block_state ni) = st_dom (block_state ni0)"
    using tabsD(9) [of ni] by (auto simp: tok_def tstep_def only_bad_def st_dom_def)
  then show ?thesis
    using st_weight_le [of "block_state ni0"] by simp
qed

lemma mark_clean_tok [simp]:
  "tok ni0 (nmbm_mark_tables_clean ni) \<longleftrightarrow> tok ni0 ni"
  by (simp add: tok_def nmbm_mark_tables_clean_def)

lemma mark_clean_clean: "tok ni0 ni \<Longrightarrow> clean (st_weight (block_state ni0)) (nmbm_mark_tables_clean ni)"
  using tok_weight by (simp add: clean_def acct_def nmbm_mark_tables_clean_def)

lemma mark_clean_fields [simp]:
  "main_table_ba (nmbm_mark_tables_clean ni) = main_table_ba ni"
  "backup_table_ba (nmbm_mark_tables_clean ni) = backup_table_ba ni"
  "mapping_blocks_ba (nmbm_mark_tables_clean ni) = mapping_blocks_ba ni"
  "mapping_blocks_top_ba (nmbm_mark_tables_clean ni) = mapping_blocks_top_ba ni"
  "mgmt_start_ba (nmbm_mark_tables_clean ni) = mgmt_start_ba ni"
  "info_table_spare_blocks (nmbm_mark_tables_clean ni) = info_table_spare_blocks ni"
  by (simp_all add: nmbm_mark_tables_clean_def)

section \<open>Calls\<close>

lemma write_info_table_step:
  assumes "tok ni0 ni" and "tlay hi ni" and "area hi ni0" and "mgmt_start_ba ni0 \<le> ba" and "limit \<le> hi"
    and "\<And>success start e ni'. tok ni0 ni' \<Longrightarrow> nok ni ni' \<Longrightarrow>
           range_post ba limit success start e \<Longrightarrow> Q (success, start, e, ni')"
  shows "ensures (nmbm_write_info_table ni ba limit) Q"
proof -
  have att: "attached ni" and t: "tabs ni"
    using assms(1) by (auto simp: tok_def)
  have "0 < info_table_size ni"
    using tabsD [OF t] by (simp add: sizeof_info_table_header_def)
  moreover have "limit \<le> block_count ni"
    using assms(2,5) by (simp add: tlay_def)
  moreover have "may b" if "ba \<le> b" "b < limit" for b
    using assms(3-5) that by (auto simp: area_def)
  ultimately show ?thesis
    unfolding nmbm_write_info_table_def using tabsD(5) [OF t]
    by (intro ensures_mono [OF write_mgmt_range_n [OF nok_refl [OF att]]])
      (auto intro: assms(6) tok_nok [OF assms(1)])
qed

lemma erase_range_step:
  assumes "tok ni0 ni" and "tlay hi ni" and "area hi ni0" and "mgmt_start_ba ni0 \<le> ba" and "limit \<le> hi"
    and "\<And>ni'. tok ni0 ni' \<Longrightarrow> nok ni ni' \<Longrightarrow> Q ni'"
  shows "ensures (nmbm_erase_range ni ba limit) Q"
proof -
  have att: "attached ni"
    using assms(1) by (auto simp: tok_def)
  have "limit \<le> block_count ni"
    using assms(2,5) by (simp add: tlay_def)
  moreover have "may b" if "ba \<le> b" "b < limit" for b
    using assms(3-5) that by (auto simp: area_def)
  ultimately show ?thesis
    by (intro ensures_mono [OF erase_range_n [OF nok_refl [OF att]]])
      (auto intro: assms(6) tok_nok [OF assms(1)])
qed

lemma try_reserve_loop_ok:
  assumes "attached ni" and "nblocks < 2 ^ 31" and "0 \<le> min_count"
  shows "ensures (nmbm_try_reserve_loop ni ba nblocks min_count limit)
    (\<lambda>r. \<forall>nba. r = Some nba \<longrightarrow> ba \<le> nba)"
  using assms(2)
proof (induction "nat (nblocks - min_count + 1)" arbitrary: nblocks)
  case 0
  then show ?case
    by (simp add: nmbm_try_reserve_loop.simps)
next
  case (Suc n)
  note g = geomD [OF att_geom [OF assms(1)]]
  have "u32_of_int nblocks = nat nblocks"
    using Suc(2,3) assms(3) by (intro u32_of_int_nonneg) auto
  then have walk: "nmbm_block_walk ni True ba (u32_of_int nblocks) limit =
      Some (nth_opt (good_blocks ni ba (walk_limit ni limit)) (nat nblocks))"
    using g Suc(3) by (simp add: nmbm_block_walk_def walk_asc_eq)
  have IH: "ensures (nmbm_try_reserve_loop ni ba (nblocks - 1) min_count limit)
      (\<lambda>r. \<forall>nba. r = Some nba \<longrightarrow> ba \<le> nba)"
    using Suc by simp
  show ?case
    using walk IH
    by (subst nmbm_try_reserve_loop.simps)
      (auto split: option.split dest!: nth_opt_Some_mem simp: set_good_blocks)
qed

lemma try_reserve_step:
  assumes "tok ni0 ni" and "count < 2 ^ 31" and "Q None" and "\<And>nba. ba \<le> nba \<Longrightarrow> Q (Some nba)"
  shows "ensures (nmbm_try_reserve_blocks ni ba count 0 limit) Q"
proof -
  have "ensures (nmbm_try_reserve_blocks ni ba count 0 limit) (\<lambda>r. \<forall>nba. r = Some nba \<longrightarrow> ba \<le> nba)"
    unfolding nmbm_try_reserve_blocks_def
    using assms(1,2) by (intro try_reserve_loop_ok) (auto simp: tok_def s32_id)
  then show ?thesis
  proof (rule ensures_mono)
    fix r assume "\<forall>nba. r = Some nba \<longrightarrow> ba \<le> nba"
    then show "Q r"
      using assms(3,4) by (cases r) auto
  qed
qed

lemma tok_bounds:
  assumes "tok ni0 ni"
  shows "info_table_spare_blocks ni0 < 2 ^ 31" "st_weight (block_state ni0) < 2 ^ 32"
  using tok_weight_less [OF assms] tabsD(10) [of ni] tok_fields(6) [OF assms] assms
  by (auto simp: tok_def)

section \<open>Operations on the tables\<close>

text \<open>The result of an operation on the tables: on success nothing is left to write.\<close>

definition tpost :: "nat \<Rightarrow> 'd nmbm_instance \<Rightarrow> bool \<times> 'd nmbm_instance \<Rightarrow> bool" where
  "tpost hi ni0 r \<longleftrightarrow> tok ni0 (snd r) \<and> tlay hi (snd r) \<and>
     (fst r \<longrightarrow> clean (st_weight (block_state ni0)) (snd r))"

lemma tpost_pair [simp]:
  "tpost hi ni0 (success, ni) \<longleftrightarrow> tok ni0 ni \<and> tlay hi ni \<and>
     (success \<longrightarrow> clean (st_weight (block_state ni0)) ni)"
  by (simp add: tpost_def)

lemmas step_simps = ensures_bind Let_def tlay_def range_post_def nok_same tok_fields(3,6-8)
  nok_clean mark_clean_clean

lemma write_table_down_loop_ok:
  assumes "tok ni0 ni" and "tlay hi ni" and "area hi ni0" and "mgmt_start_ba ni0 \<le> low"
    and "low \<le> write_ba" and "nok ni1 ni"
  shows "ensures (nmbm_write_table_down_loop ni write_ba low) (\<lambda>(success, start, e, ni').
    tok ni0 ni' \<and> nok ni1 ni' \<and>
    (success \<longrightarrow> (\<exists>s. start = Some s \<and> low \<le> s \<and> s < e \<and> e \<le> mapping_blocks_top_ba ni0)))"
  using assms(1,2,5,6)
proof (induction write_ba arbitrary: ni rule: less_induct)
  case (less write_ba)
  have pos: "0 < write_ba" and top: "mapping_blocks_top_ba ni \<le> hi"
    "mapping_blocks_top_ba ni = mapping_blocks_top_ba ni0"
    using less(3,4) assms(4) tok_fields(7,8) [OF less(2)] by (auto simp: tlay_def)
  have IH: "ensures (nmbm_write_table_down_loop n (write_ba - 1) low) (\<lambda>(success, start, e, ni').
      tok ni0 ni' \<and> nok ni1 ni' \<and>
      (success \<longrightarrow> (\<exists>s. start = Some s \<and> low \<le> s \<and> s < e \<and> e \<le> mapping_blocks_top_ba ni0)))"
    if "tok ni0 n" "nok ni n" "low \<le> write_ba - 1" for n
    using that pos nok_trans [OF less(5) that(2)] less(3) nstep_tlay [of R ni n hi]
    by (intro less(1)) (auto simp: nok_def)
  show ?case
    unfolding nmbm_write_table_down_loop.simps [of ni] ensures_bind
    by (rule write_info_table_step [OF less(2,3) assms(3)])
      (use less(4) assms(4) top pos nok_trans [OF less(5)] in
        \<open>auto simp: range_post_def intro!: IH [simplified]\<close>)
qed

lemma write_table_down_step:
  assumes "tok ni0 ni" and "tlay hi ni" and "area hi ni0" and "mgmt_start_ba ni0 \<le> low"
    and "low \<le> write_ba"
    and "\<And>success start e ni'. tok ni0 ni' \<Longrightarrow> nok ni ni' \<Longrightarrow>
      (success \<Longrightarrow> \<exists>s. start = Some s \<and> low \<le> s \<and> s < e \<and> e \<le> mapping_blocks_top_ba ni0) \<Longrightarrow>
      Q (success, start, e, ni')"
  shows "ensures (nmbm_write_table_down ni write_ba low) Q"
  using assms(5) att_geom nok_refl assms(1)
  by (auto simp: nmbm_write_table_down_def tok_def
      intro!: ensures_mono [OF write_table_down_loop_ok [OF assms(1-5)]] assms(6))

lemma rebuild_ok:
  assumes "tok ni0 ni" and "tlay hi ni" and "area hi ni0"
  shows "ensures (nmbm_rebuild_info_table ni) (tpost hi ni0)"
  using assms tok_bounds [OF assms(1)]
  apply (simp add: nmbm_rebuild_info_table_def ensures_bind)
  apply (rule write_info_table_step [of ni0 _ hi] try_reserve_step [of ni0]
        erase_range_step [of ni0 _ hi] | clarsimp simp: step_simps | (auto simp: step_simps)[1])+
  done

lemma rescue_single_ok:
  assumes "tok ni0 ni" and "tlay hi ni" and "area hi ni0" and "main_table_ba ni \<noteq> 0"
  shows "ensures (nmbm_rescue_single_info_table ni) (tpost hi ni0)"
  using assms tok_bounds [OF assms(1)]
  apply (simp add: nmbm_rescue_single_info_table_def ensures_bind)
  apply (rule write_info_table_step [of ni0 _ hi] try_reserve_step [of ni0]
        erase_range_step [of ni0 _ hi] write_table_down_step [of ni0 _ hi] |
      clarsimp simp: step_simps | (auto simp: step_simps)[1])+
  done

lemma mark_clean_tlay [simp]: "tlay hi (nmbm_mark_tables_clean ni) = tlay hi ni"
  by (simp add: nmbm_mark_tables_clean_def tlay_def)

lemma update_single_ok:
  assumes "tok ni0 ni" and "tlay hi ni" and "area hi ni0" and "backup_table_ba ni \<noteq> 0"
  shows "ensures (nmbm_update_single_info_table ni update_main) (tpost hi ni0)"
  using assms tok_bounds [OF assms(1)]
  apply (cases update_main)
   apply (simp_all add: nmbm_update_single_info_table_def ensures_bind)
   apply (rule write_info_table_step [of ni0 _ hi] rescue_single_ok |
      clarsimp simp: step_simps | (auto simp: step_simps)[1])+
  done

lemma rescue_main_ok:
  assumes "tok ni0 ni" and "tlay hi ni" and "area hi ni0" and "backup_table_ba ni \<noteq> 0"
    and "clean (st_weight (block_state ni0)) ni"
  shows "ensures (nmbm_rescue_main_info_table ni) (tpost hi ni0)"
  using assms tok_bounds [OF assms(1)]
  apply (simp add: nmbm_rescue_main_info_table_def ensures_bind Let_def)
  apply (rule write_info_table_step [of ni0 _ hi] try_reserve_step [of ni0]
        erase_range_step [of ni0 _ hi] write_table_down_step [of ni0 _ hi] |
      clarsimp simp: step_simps | (auto simp: step_simps)[1])+
  done

lemma update_write_main_ok:
  assumes "tok ni0 ni" and "tlay hi ni" and "area hi ni0" and "mgmt_start_ba ni0 \<le> limit"
    and "limit \<le> hi" and "backup_table_ba ni = 0 \<Longrightarrow> limit \<le> mapping_blocks_top_ba ni"
    and "backup_table_ba ni \<noteq> 0 \<Longrightarrow>
      limit = backup_table_ba ni \<and> clean (st_weight (block_state ni0)) ni"
  shows "ensures (nmbm_update_write_main_table ni limit) (tpost hi ni0)"
proof (cases "main_table_ba ni = 0")
  case True
  then show ?thesis
    using rebuild_ok [OF assms(1-3)] by (simp add: nmbm_update_write_main_table_def)
next
  case False
  have lay: "tlay hi n" if "nok ni n" for n
    using assms(2) nstep_tlay that by (auto simp: nok_def)
  note w = tok_bounds [OF assms(1)]
  have fail: "ensures (nmbm_rebuild_info_table n) (tpost hi ni0)" if "tok ni0 n" "nok ni n" for n
    by (rule rebuild_ok [OF that(1) lay [OF that(2)] assms(3)])
  have rescue: "ensures (nmbm_rescue_main_info_table n) (tpost hi ni0)"
    if "tok ni0 n" "nok ni n" "0 < backup_table_ba n" for n
    using rescue_main_ok [OF that(1) lay [OF that(2)] assms(3)] assms(7) nok_same(2) [OF that(2)]
      nok_clean [OF that(2)] w that(3) by simp
  have start: "mgmt_start_ba ni0 \<le> main_table_ba ni"
    using False assms(2) tok_fields(7) [OF assms(1)] by (auto simp: tlay_def)
  have lay0: "tlay hi (n\<lparr>main_table_ba := s, mapping_blocks_ba := e\<rparr>)"
    if "nok ni n" "main_table_ba ni \<le> s" "s < e" "e \<le> limit" "backup_table_ba n = 0" for n s e
    using that lay [OF that(1)] nok_same [OF that(1)] assms(5) start tok_fields(7) [OF assms(1)]
      frame_fields(7) [OF nstep_frame [of R ni n]]
    by (auto simp: tlay_def nok_def)
  have lay1: "tlay hi (n\<lparr>main_table_ba := s\<rparr>)"
    if "nok ni n" "main_table_ba ni \<le> s" "s < e" "e \<le> limit" "0 < backup_table_ba n" for n s e
    using that lay [OF that(1)] nok_same [OF that(1)] assms(7) False by (auto simp: tlay_def)
  show ?thesis
    using False
    by (auto simp: nmbm_update_write_main_table_def ensures_bind range_post_def Let_def
        mark_clean_clean intro!: fail rescue lay0 lay1
        write_info_table_step [OF assms(1-3) start assms(5)])
qed

section \<open>The update loop\<close>

lemma tok_trans: "tok a b \<Longrightarrow> tok b c \<Longrightarrow> tok a c"
  unfolding tok_def using tstep_trans [of R a b c] R_trans by blast

lemma tlay_cache [simp]:
  "tlay hi (ni\<lparr>info_table_cache := c, info_table := t\<rparr>) = tlay hi ni"
  by (simp add: tlay_def)

lemma generate_tok:
  assumes "tok ni0 ni" and "image_body ni c"
  shows "tok ni0 (ni\<lparr>info_table_cache := c, info_table := image_header ni ch\<rparr>)"
proof -
  have "frame (ni\<lparr>info_table_cache := c, info_table := image_header ni ch\<rparr>) = frame ni"
    by (simp add: frame_def)
  moreover have "tabs (ni\<lparr>info_table_cache := c, info_table := image_header ni ch\<rparr>)"
    using assms by (auto simp: tok_def tabs_def image_body_def)
  ultimately show ?thesis
    using assms by (simp add: tok_def tstep_def)
qed

lemma generate_step:
  assumes "tok ni0 ni"
    and "\<And>c ch. image_body ni c \<Longrightarrow> tok ni0 (ni\<lparr>info_table_cache := c, info_table := image_header ni ch\<rparr>)
      \<Longrightarrow> Q (dirty ni, ni\<lparr>info_table_cache := c, info_table := image_header ni ch\<rparr>)"
  shows "ensures (nmbm_generate_info_table_cache crc ni) Q"
proof (rule ensures_mono [OF generate_cache_ok])
  show "tabs ni"
    using assms(1) by (simp add: tok_def)
  fix r assume "case r of (changed, ni') \<Rightarrow> changed = dirty ni \<and>
       (\<exists>c c0. ni' = ni\<lparr>info_table_cache := c, info_table := image_header ni (dirty ni)\<rparr> \<and>
          image_body ni c \<and> take 32 c0 = enc_info_table_header (image_header ni (dirty ni)) \<and>
          length c0 = info_table_size ni \<and> nmbm_update_checksum crc c0 = Some c)"
  then obtain c where "r = (dirty ni,
      ni\<lparr>info_table_cache := c, info_table := image_header ni (dirty ni)\<rparr>)" "image_body ni c"
    by auto
  then show "Q r"
    using assms(2) [OF _ generate_tok [OF assms(1)]] by simp
qed

lemma update_write_tables_ok:
  assumes "tok ni0 n" and "tlay hi n" and "area hi ni0"
  shows "ensures (nmbm_update_write_tables n) (tpost hi ni0)"
proof -
  have main: "ensures (nmbm_update_write_main_table n lim) (tpost hi ni0)"
    if "tok ni0 n" "tlay hi n" "backup_table_ba n = 0" "lim = mapping_blocks_top_ba n" for n lim
    using that assms(3) tok_fields(7) [OF that(1)]
    by (intro update_write_main_ok) (auto simp: tlay_def)
  have main2: "ensures (nmbm_update_write_main_table n lim) (tpost hi ni0)"
    if "tok ni0 n" "tlay hi n" "clean (st_weight (block_state ni0)) n" "backup_table_ba n \<noteq> 0"
      "lim = backup_table_ba n" for n lim
    using that assms(3) tok_fields(7) [OF that(1)]
    by (intro update_write_main_ok) (auto simp: tlay_def)
  show ?thesis
  proof (cases "backup_table_ba n = 0")
    case True
    then show ?thesis
      using main assms by (simp add: nmbm_update_write_tables_def)
  next
    case False
    have fail: "tlay hi (n'\<lparr>mapping_blocks_ba := backup_table_ba n', backup_table_ba := 0\<rparr>)"
      if "nok n n'" for n'
      using assms(2) False nok_same [OF that] nstep_tlay [of R n n' hi] that
      by (auto simp: tlay_def nok_def)
    have succ: "tlay hi (n'\<lparr>backup_table_ba := s, mapping_blocks_ba := e\<rparr>)"
      if "nok n n'" "backup_table_ba n \<le> s" "s < e" "e \<le> mapping_blocks_top_ba n" for n' s e
      using assms(2) False nok_same [OF that(1)] nstep_tlay [of R n n' hi] that
        frame_fields(8) [OF nstep_frame [of R n n']]
      by (auto simp: tlay_def nok_def)
    have start: "mgmt_start_ba ni0 \<le> backup_table_ba n" "mapping_blocks_top_ba n \<le> hi"
      using assms(2) False tok_fields(7) [OF assms(1)] by (auto simp: tlay_def)
    have fail_main: "ensures (nmbm_update_write_main_table
        (n'\<lparr>mapping_blocks_ba := backup_table_ba n', backup_table_ba := 0\<rparr>)
        (mapping_blocks_top_ba n')) (tpost hi ni0)" if "tok ni0 n'" "nok n n'" for n'
      using that fail [OF that(2)] by (intro main) auto
    have succ_main: "ensures (nmbm_update_write_main_table
        (nmbm_mark_tables_clean (n'\<lparr>backup_table_ba := s, mapping_blocks_ba := e\<rparr>)) s)
        (tpost hi ni0)" if "tok ni0 n'" "nok n n'" "backup_table_ba n \<le> s" "s < e"
      "e \<le> mapping_blocks_top_ba n" for n' s e
      using that succ [OF that(2-5)] False by (intro main2) (auto simp: mark_clean_clean)
    show ?thesis
      using False
      by (auto simp: nmbm_update_write_tables_def ensures_bind range_post_def Let_def
          intro!: fail_main succ_main write_info_table_step [OF assms start])
  qed
qed

lemma update_once_ok:
  assumes "tok ni0 ni" and "tlay hi ni" and "area hi ni0"
  shows "ensures (nmbm_update_info_table_once crc ni force) (tpost hi ni0)"
  unfolding nmbm_update_info_table_once_def ensures_bind
proof (rule generate_step [OF assms(1)])
  fix c ch assume t: "tok ni0 (ni\<lparr>info_table_cache := c, info_table := image_header ni ch\<rparr>)"
  have "clean (st_weight (block_state ni0)) (ni\<lparr>info_table_cache := c, info_table := t\<rparr>)"
    if "\<not> dirty ni" for t
    using that tok_weight [OF assms(1)] by (simp add: dirty_def clean_def acct_def)
  then show "ensures (case (dirty ni, ni\<lparr>info_table_cache := c, info_table := image_header ni ch\<rparr>) of
      (changed, ni) \<Rightarrow> if \<not> changed \<and> \<not> force then Some (True, ni)
        else nmbm_update_write_tables ni) (tpost hi ni0)"
    using update_write_tables_ok [OF t _ assms(3)] t assms(2) by simp
qed

lemma update_loop_ok:
  assumes "attached ni" and "tabs ni" and "tlay hi ni" and "area hi ni"
  shows "ensures (nmbm_update_info_table_loop crc ni)
    (\<lambda>(success, ni'). tok ni ni' \<and> tlay hi ni' \<and> (success \<longrightarrow> \<not> dirty ni'))"
  using assms
proof (induction "st_weight (block_state ni)" arbitrary: ni rule: less_induct)
  case less
  note refl = tok_refl [OF less(2,3)]
  show ?case
  proof (cases "dirty ni")
    case False
    then show ?thesis
      using refl less(4) by (subst nmbm_update_info_table_loop.simps) (simp add: dirty_def)
  next
    case True
    have rec: "ensures (nmbm_update_info_table_loop crc n)
        (\<lambda>(success, ni'). tok ni ni' \<and> tlay hi ni' \<and> (success \<longrightarrow> \<not> dirty ni'))"
      if n: "tok ni n" "tlay hi n" "clean (st_weight (block_state ni)) n" for n
    proof (cases "dirty n")
      case d: True
      then have "st_weight (block_state n) < st_weight (block_state ni)"
        using n(3) by (auto simp: dirty_def clean_def acct_def)
      then show ?thesis
        using n less(5) tok_fields(7) [OF n(1)] tok_trans [OF n(1)]
        by (intro ensures_mono [OF less(1)]) (auto simp: tok_def area_def)
    next
      case False
      then show ?thesis
        using n by (subst nmbm_update_info_table_loop.simps) (simp add: dirty_def)
    qed
    have "nmbm_update_info_table_loop crc ni = do {
        (success, ni) \<leftarrow> nmbm_update_info_table_once crc ni False;
        if \<not> success then Some (False, ni) else nmbm_update_info_table_loop crc ni }"
      using True by (subst nmbm_update_info_table_loop.simps) (auto simp: dirty_def)
    then show ?thesis
      using update_once_ok [OF refl less(4,5), of crc False]
      by (auto simp: ensures_bind elim!: ensures_mono intro!: rec)
  qed
qed

lemma update_info_table_ok:
  assumes "attached ni" and "tabs ni" and "tlay hi ni" and "area hi ni"
  shows "ensures (nmbm_update_info_table crc ni)
    (\<lambda>(success, ni'). tok ni ni' \<and> tlay hi ni' \<and> (success \<and> \<not> protected ni \<longrightarrow> \<not> dirty ni'))"
  using assms tok_refl [OF assms(1,2)] update_loop_ok [OF assms, of crc]
  by (auto simp: nmbm_update_info_table_def elim: ensures_mono)

end

end
