(* ===== verification/Nmbm_Api.thy ===== *)
theory Nmbm_Api
  imports Nmbm_Update Nmbm_Logic
begin

text \<open>
  The operations on logic blocks on a device that satisfies the interface of \<open>Nmbm_Device\<close>: an
  invariant of attached instances that every operation of the API keeps, that each of them has a
  defined result (so the retry loop of the erasure ends), and which physical blocks they change.
\<close>

section \<open>The invariant of an attached instance\<close>

definition inst_ok :: "'d nmbm_instance \<Rightarrow> bool" where
  "inst_ok ni \<longleftrightarrow> tabs ni \<and> tlay (mapping_blocks_top_ba ni) ni \<and>
     mapping_blocks_top_ba ni < block_count ni \<and>
     (\<forall>m\<in>set (block_mapping ni). m < int (block_count ni)) \<and>
     data_block_count ni \<le> block_count ni"

text \<open>What no operation of the API changes.\<close>

definition shape :: "'d nmbm_instance \<Rightarrow> _" where
  "shape ni = (fst (frame ni), fst (snd (frame ni)), data_block_count ni)"

lemma shape_fields:
  assumes "shape a = shape b"
  shows "block_count a = block_count b" "mgmt_start_ba a = mgmt_start_ba b"
    "data_block_count a = data_block_count b" "erasesize_shift a = erasesize_shift b"
    "info_table_size a = info_table_size b" "erasesize_mask a = erasesize_mask b"
    "writesize_mask a = writesize_mask b" "signature_ba a = signature_ba b"
    "ba2addr a ba = ba2addr b ba" "addr2ba a addr = addr2ba b addr"
  using assms by (simp_all add: shape_def frame_def ba2addr_def addr2ba_def)

lemma frame_shape: "frame a = frame b \<Longrightarrow> shape a = shape b"
  by (simp add: shape_def frame_def)

lemma shape_upd [simp]:
  "shape (ni\<lparr>block_mapping := bm\<rparr>) = shape ni"
  "shape (ni\<lparr>mapping_blocks_top_ba := x\<rparr>) = shape ni"
  "shape (ni\<lparr>block_mapping_changed := x\<rparr>) = shape ni"
  "shape (ni\<lparr>block_state := bs, block_state_changed := x\<rparr>) = shape ni"
  "shape (ni\<lparr>block_state := bs\<rparr>) = shape ni"
  by (simp_all add: shape_def frame_def)

lemma inst_okD:
  assumes "inst_ok ni"
  shows "tabs ni" "tlay (mapping_blocks_top_ba ni) ni" "mapping_blocks_top_ba ni < block_count ni"
    "m \<in> set (block_mapping ni) \<Longrightarrow> m < int (block_count ni)"
    "data_block_count ni \<le> block_count ni" "length (block_mapping ni) = block_count ni"
  using assms tabsD(8) by (auto simp: inst_ok_def)

lemma inst_ok_mapped:
  assumes "inst_ok ni" and "lb < block_count ni" and "0 \<le> block_mapping ni ! lb"
  shows "nat (block_mapping ni ! lb) < block_count ni"
  using inst_okD(4) [OF assms(1), of "block_mapping ni ! lb"] inst_okD(6) [OF assms(1)] assms(2,3)
  by simp

lemma inst_ok_set_mapping:
  assumes "inst_ok ni" and "m < int (block_count ni)"
  shows "inst_ok (ni\<lparr>block_mapping := (block_mapping ni)[lb := m]\<rparr>)"
  using assms set_update_subset_insert [of "block_mapping ni" lb m]
  by (auto simp: inst_ok_def tabs_def tlay_def)

lemma inst_ok_block_state:
  "length bs = length (block_state ni) \<Longrightarrow>
   inst_ok (ni\<lparr>block_state := bs, block_state_changed := x\<rparr>) = inst_ok ni"
  by (simp add: inst_ok_def tabs_def tlay_def st_dom_def)

lemma inst_ok_top:
  assumes "inst_ok ni" and "t \<le> mapping_blocks_top_ba ni" and "mapping_blocks_ba ni \<le> t"
  shows "inst_ok (ni\<lparr>mapping_blocks_top_ba := t\<rparr>)"
  using assms by (auto simp: inst_ok_def tabs_def tlay_def)

lemma inst_ok_changed [simp]: "inst_ok (ni\<lparr>block_mapping_changed := x\<rparr>) = inst_ok ni"
  by (simp add: inst_ok_def tabs_def tlay_def)

lemma ba2addr_le:
  assumes "geom ni" and "n \<le> block_count ni"
  shows "ba2addr ni n = n * erasesize (lower ni)" and "n * erasesize (lower ni) \<le> 2 ^ 63"
proof -
  have "n * erasesize (lower ni) \<le> block_count ni * erasesize (lower ni)"
    using assms(2) by simp
  also have "\<dots> \<le> 2 ^ 63"
    by (rule geomD(12) [OF assms(1)])
  finally show "n * erasesize (lower ni) \<le> 2 ^ 63" .
  then show "ba2addr ni n = n * erasesize (lower ni)"
    using geomD(2) [OF assms(1)] by (simp add: ba2addr_def push_bit_eq_mult)
qed

lemma addr2ba_less:
  assumes "geom ni" and "n \<le> block_count ni" and "addr < ba2addr ni n"
  shows "addr2ba ni addr = addr div erasesize (lower ni)" and "addr2ba ni addr < n"
proof -
  have less: "addr div erasesize (lower ni) < n"
    using assms(3) ba2addr_le [OF assms(1,2)] by (simp add: less_mult_imp_div_less)
  moreover have "n < 2 ^ 32"
    using assms(2) geomD(11) [OF assms(1)] by simp
  moreover have "drop_bit (erasesize_shift ni) addr = addr div erasesize (lower ni)"
    unfolding geomD(2) [OF assms(1)] by (rule drop_bit_eq_div)
  ultimately show "addr2ba ni addr = addr div erasesize (lower ni)"
    by (simp add: addr2ba_def)
  with less show "addr2ba ni addr < n" by simp
qed

lemma inst_ok_close: "inst_ok ni \<Longrightarrow> inst_ok (ni\<lparr>mapping_blocks_top_ba := mapping_blocks_ba ni\<rparr>)"
  by (rule inst_ok_top) (auto simp: inst_ok_def tlay_def)

lemma geom_block_state:
  "length bs = length (block_state ni) \<Longrightarrow>
   geom (ni\<lparr>block_state := bs\<rparr>) = geom ni"
  by (simp add: geom_def st_dom_def)

context lower_device
begin

definition aok :: "'d nmbm_instance \<Rightarrow> 'd nmbm_instance \<Rightarrow> bool" where
  "aok ni0 ni \<longleftrightarrow> attached ni \<and> inst_ok ni \<and> R (dev ni0) (dev ni) \<and> shape ni = shape ni0 \<and>
     mapping_blocks_top_ba ni \<le> mapping_blocks_top_ba ni0"

definition mgmt_area :: "'d nmbm_instance \<Rightarrow> bool" where
  "mgmt_area ni \<longleftrightarrow> (\<forall>b. mgmt_start_ba ni \<le> b \<and> b \<le> mapping_blocks_top_ba ni \<longrightarrow> may b)"

lemma aok_refl: "attached ni \<Longrightarrow> inst_ok ni \<Longrightarrow> aok ni ni"
  by (simp add: aok_def R_refl)

lemma aok_trans: "aok a b \<Longrightarrow> aok b c \<Longrightarrow> aok a c"
  unfolding aok_def using R_trans by auto

lemma aok_fields:
  assumes "aok ni0 ni"
  shows "block_count ni = block_count ni0" "mgmt_start_ba ni = mgmt_start_ba ni0"
    "data_block_count ni = data_block_count ni0" "erasesize_shift ni = erasesize_shift ni0"
    "ba2addr ni ba = ba2addr ni0 ba" "addr2ba ni addr = addr2ba ni0 addr"
    "erasesize_mask ni = erasesize_mask ni0" "writesize_mask ni = writesize_mask ni0"
  using shape_fields [of ni ni0] assms by (simp_all add: aok_def)

lemma aok_area: "aok ni0 ni \<Longrightarrow> mgmt_area ni0 \<Longrightarrow> mgmt_area ni"
  using aok_fields(2) by (auto simp: mgmt_area_def aok_def)

lemma nok_aok:
  assumes "aok ni0 ni" and "nok ni ni'" shows "aok ni0 ni'"
proof -
  note f = frame_fields [OF nstep_frame [of R ni ni']]
  have "inst_ok ni'"
    using assms f nstep_tabs [of R ni ni'] nstep_tlay [of R ni ni']
    by (simp add: aok_def nok_def inst_ok_def)
  moreover have "R (dev ni0) (dev ni')"
    using assms nstep_tstep [of R ni ni'] R_trans by (auto simp: aok_def nok_def tstep_def)
  moreover have "shape ni' = shape ni0"
    using assms frame_shape [OF nstep_frame [of R ni ni']] by (simp add: aok_def nok_def)
  ultimately show ?thesis
    using assms f(8) by (simp add: aok_def nok_def)
qed

lemma dok_aok: "aok ni0 ni \<Longrightarrow> dok ni ni' \<Longrightarrow> aok ni0 ni'"
  using nok_aok nok_dok [OF nok_refl] by (metis aok_def)

lemma tok_aok:
  assumes "aok ni0 ni" and "tok ni ni'" and "tlay (mapping_blocks_top_ba ni) ni'"
  shows "aok ni0 ni'"
proof -
  note f = tok_fields [OF assms(2)]
  have "inst_ok ni'"
    using assms f by (simp add: aok_def inst_ok_def tok_def)
  moreover have "R (dev ni0) (dev ni')"
    using assms R_trans by (auto simp: aok_def tok_def tstep_def)
  ultimately show ?thesis
    using assms frame_shape [OF tok_frame [OF assms(2)]] f(8) by (simp add: aok_def tok_def)
qed

section \<open>Calls\<close>

lemma update_info_table_a:
  assumes "aok ni0 ni" and "mgmt_area ni0"
  shows "ensures (nmbm_update_info_table crc ni)
    (\<lambda>(success, ni'). aok ni0 ni' \<and> mapping_blocks_top_ba ni' = mapping_blocks_top_ba ni \<and>
       block_mapping ni' = block_mapping ni \<and> (success \<and> \<not> protected ni \<longrightarrow> \<not> dirty ni'))"
proof -
  have "area (mapping_blocks_top_ba ni) ni"
    using aok_area [OF assms] by (auto simp: area_def mgmt_area_def)
  then have "ensures (nmbm_update_info_table crc ni)
    (\<lambda>(success, ni'). tok ni ni' \<and> tlay (mapping_blocks_top_ba ni) ni' \<and>
       (success \<and> \<not> protected ni \<longrightarrow> \<not> dirty ni'))"
    using assms(1) by (intro update_info_table_ok) (auto simp: aok_def inst_ok_def)
  then show ?thesis
    by (rule ensures_mono) (auto dest: tok_fields(4,8) intro: tok_aok [OF assms(1)])
qed

lemma nok_keeps:
  "nok ni ni' \<Longrightarrow> mapping_blocks_top_ba ni' = mapping_blocks_top_ba ni \<and>
     block_mapping ni' = block_mapping ni"
  using frame_fields(4,8) [OF nstep_frame] by (auto simp: nok_def)

lemma aok_att: "aok ni0 ni \<Longrightarrow> attached ni"
  by (simp add: aok_def)

lemma aok_inst: "aok ni0 ni \<Longrightarrow> inst_ok ni"
  by (simp add: aok_def)

text \<open>Any operation that is a step in the sense of \<open>nok\<close> is one here.\<close>

lemma nok_call:
  assumes "aok ni0 ni" and "attached ni \<Longrightarrow> ensures m (\<lambda>(r, ni'). nok ni ni')"
    and "\<And>r ni'. aok ni0 ni' \<Longrightarrow> mapping_blocks_top_ba ni' = mapping_blocks_top_ba ni \<Longrightarrow>
           block_mapping ni' = block_mapping ni \<Longrightarrow> Q (r, ni')"
  shows "ensures m Q"
  using assms(2) [OF aok_att [OF assms(1)]]
  by (rule ensures_mono) (auto intro!: assms(3) nok_aok [OF assms(1)] simp: nok_keeps)

lemmas check_bad_a = nok_call [OF _ check_bad_n [OF nok_refl]]
lemmas erase_check_a = nok_call [OF _ erase_check_n [OF nok_refl]]

lemma retire_a:
  assumes "aok ni0 ni" and "ba < block_count ni" and "may ba"
    and "\<And>ni'. aok ni0 ni' \<Longrightarrow> mapping_blocks_top_ba ni' = mapping_blocks_top_ba ni \<Longrightarrow>
           block_mapping ni' = block_mapping ni \<Longrightarrow> Q ni'"
  shows "ensures (nmbm_retire_block ni ba) Q"
  by (rule ensures_mono [OF retire_n [OF nok_refl [OF aok_att [OF assms(1)]] assms(2,3)]])
    (auto intro!: assms(4) nok_aok [OF assms(1)] simp: nok_keeps)

lemma get_state_a:
  "aok ni0 ni \<Longrightarrow> ba < block_count ni \<Longrightarrow>
   nmbm_get_block_state ni ba = Some (st_get (block_state ni) ba)"
  using get_state_n [OF nok_refl [OF aok_att]] by blast

lemma set_state_a:
  assumes "aok ni0 ni" and "ba < block_count ni"
    and "\<And>r ni'. aok ni0 ni' \<Longrightarrow> mapping_blocks_top_ba ni' = mapping_blocks_top_ba ni \<Longrightarrow>
           block_mapping ni' = block_mapping ni \<Longrightarrow> Q (r, ni')"
  shows "ensures (nmbm_set_block_state ni ba st) Q"
proof -
  have dom: "ba < st_dom (block_state ni)"
    using geomD(13) [OF att_geom [OF aok_att [OF assms(1)]]] assms(2) by simp
  have "aok ni0 (ni\<lparr>block_state := st_put (block_state ni) ba st, block_state_changed := c\<rparr>)" for c
    using assms(1)
    by (simp add: aok_def inst_ok_block_state attached_to_def geom_block_state dev_def)
  then have "Q (r, ni\<lparr>block_state := st_put (block_state ni) ba st, block_state_changed := c\<rparr>)" for r c
    by (intro assms(3)) auto
  from this [of True "u32 (block_state_changed ni + 1)"] this [of False "block_state_changed ni"]
  show ?thesis
    using dom by (simp add: set_block_state_eq Let_def)
qed

section \<open>Remapping\<close>

lemma map_block_a:
  assumes "aok ni0 ni" and "mgmt_area ni0" and "lb < block_count ni0"
  shows "ensures (nmbm_map_block crc ni lb) (\<lambda>(success, ni'). aok ni0 ni' \<and>
    (if success then mapping_blocks_top_ba ni' < mapping_blocks_top_ba ni \<and>
       (\<exists>pb. mapping_blocks_ba ni < pb \<and> pb \<le> mapping_blocks_top_ba ni \<and>
         st_get (block_state ni) pb = BLOCK_ST_GOOD \<and>
         block_mapping ni' = (block_mapping ni)[lb := int pb])
     else block_mapping ni' = block_mapping ni))"
proof (cases "mapping_blocks_ba ni = mapping_blocks_top_ba ni")
  case True
  then show ?thesis
    using assms(1) by (simp add: nmbm_map_block_def)
next
  case False
  note i = inst_okD [OF aok_inst [OF assms(1)]] and g = geomD [OF att_geom [OF aok_att [OF assms(1)]]]
  let ?t = "mapping_blocks_top_ba ni" and ?m = "mapping_blocks_ba ni"
  have le: "?m < ?t"
    using False i(2) by (simp add: tlay_def)
  have walk: "nmbm_block_walk ni False ?t 0 ?m =
      Some (nth_opt (rev (good_blocks ni (Suc ?m) (Suc ?t))) 0)"
    using g i(3) le by (simp add: nmbm_block_walk_def walk_desc_eq walk_limit_def)
  show ?thesis
  proof (cases "nth_opt (rev (good_blocks ni (Suc ?m) (Suc ?t))) 0")
    case None
    have "ensures (nmbm_update_info_table crc ni)
       (\<lambda>(_, ni'). aok ni0 (ni'\<lparr>mapping_blocks_top_ba := mapping_blocks_ba ni'\<rparr>) \<and>
          block_mapping ni' = block_mapping ni)"
      by (rule ensures_mono [OF update_info_table_a [OF assms(1,2)]])
        (auto simp: aok_def tlay_def dest: inst_okD(2) intro: inst_ok_close)
    then show ?thesis
      using False None walk by (auto simp: nmbm_map_block_def ensures_bind elim: ensures_mono)
  next
    case (Some pb)
    then have pb: "?m < pb" "pb \<le> ?t" "st_get (block_state ni) pb = BLOCK_ST_GOOD"
      using nth_opt_Some_mem [OF Some] by (auto simp: set_good_blocks)
    have "s32 pb = int pb" "sub32 ?t 1 = ?t - 1"
      using pb i(3) g(11) le by (auto intro!: s32_id sub32_id)
    moreover have "aok ni0 (ni\<lparr>block_mapping := (block_mapping ni)[lb := int pb],
        mapping_blocks_top_ba := ?t - 1, block_mapping_changed := c\<rparr>)" for c
      using assms(1) pb i(3) le inst_ok_set_mapping [OF aok_inst [OF assms(1)], of "int pb" lb]
        inst_ok_top [of "ni\<lparr>block_mapping := (block_mapping ni)[lb := int pb]\<rparr>" "?t - 1"]
      by (auto simp: aok_def)
    ultimately show ?thesis
      using False Some walk pb assms(3) aok_fields(1) [OF assms(1)] i(6) le
      by (auto simp: nmbm_map_block_def arr_set_def Let_def)
  qed
qed

section \<open>Erasure\<close>

lemma remap_logic_block_a:
  assumes "aok ni0 ni" and "mgmt_area ni0" and "lb < block_count ni0" and "pb < block_count ni0"
  shows "ensures (nmbm_remap_logic_block crc ni lb pb) (\<lambda>(r, ni'). aok ni0 ni' \<and> (\<forall>i. i \<noteq> lb \<longrightarrow> block_mapping ni' ! i = block_mapping ni ! i) \<and>
    (r = None \<longrightarrow> mapping_blocks_top_ba ni' < mapping_blocks_top_ba ni \<and>
       0 \<le> block_mapping ni' ! lb \<and> mgmt_start_ba ni0 \<le> nat (block_mapping ni' ! lb) \<and>
       nat (block_mapping ni' ! lb) \<le> mapping_blocks_top_ba ni0))"
proof -
  have upd: "ensures (nmbm_update_info_table crc n) (\<lambda>(_, n'). aok ni0 n' \<and>
      mapping_blocks_top_ba n' = mapping_blocks_top_ba n \<and> block_mapping n' = block_mapping n)"
    if "aok ni0 n" for n
    by (rule ensures_mono [OF update_info_table_a [OF that assms(2)]]) auto
  have tail: "ensures (do {
        st \<leftarrow> nmbm_get_block_state n pb;
        (_, n) \<leftarrow> (if st \<noteq> BLOCK_ST_NEED_REMAP
                    then nmbm_set_block_state n pb BLOCK_ST_BAD else Some (False, n));
        (_, n) \<leftarrow> nmbm_update_info_table crc n;
        Some (r, n) })
      (\<lambda>(r', n'). r' = r \<and> aok ni0 n' \<and> mapping_blocks_top_ba n' = mapping_blocks_top_ba n \<and>
         block_mapping n' = block_mapping n)" if "aok ni0 n" for n and r :: "int option"
    using get_state_a [OF that] aok_fields(1) [OF that] assms(4) that
    by (auto simp: ensures_bind intro!: set_state_a [of ni0] ensures_mono [OF upd])
  have unmap: "aok ni0 (n\<lparr>block_mapping := bm\<rparr>)"
    if "aok ni0 n" "bm = (block_mapping n)[lb := - 1]" for n bm
    using that inst_ok_set_mapping [of n "- 1" lb] by (auto simp: aok_def)
  have len: "length (block_mapping n) = block_count ni0" if "aok ni0 n" for n
    using aok_fields(1) [OF that] inst_okD(6) [OF aok_inst [OF that]] by auto
  have low: "mgmt_start_ba ni0 \<le> mapping_blocks_ba ni" "mapping_blocks_top_ba ni \<le> mapping_blocks_top_ba ni0"
    using inst_okD(2) [OF aok_inst [OF assms(1)]] aok_fields(2) [OF assms(1)] assms(1)
    by (auto simp: tlay_def aok_def)
  show ?thesis
    unfolding nmbm_remap_logic_block_def ensures_bind
    by (rule ensures_mono [OF map_block_a [OF assms(1-3)]])
      (use assms(3) low len [OF assms(1)] in \<open>auto simp: len arr_set_def unmap Let_def
        intro!: ensures_mono [OF tail]\<close>)
qed

lemma erase_logic_block_pass_a:
  assumes "aok ni0 ni" and "mgmt_area ni0" and "lb < block_count ni0"
    and "0 \<le> block_mapping ni ! lb \<Longrightarrow> may (nat (block_mapping ni ! lb))"
  shows "ensures (nmbm_erase_logic_block_pass crc ni lb) (\<lambda>(r, ni'). aok ni0 ni' \<and> (\<forall>i. i \<noteq> lb \<longrightarrow> block_mapping ni' ! i = block_mapping ni ! i) \<and>
    (r = None \<longrightarrow> mapping_blocks_top_ba ni' < mapping_blocks_top_ba ni \<and>
       may (nat (block_mapping ni' ! lb))))"
proof -
  define pb where "pb = nat (block_mapping ni ! lb)"
  have len: "lb < length (block_mapping ni)"
    using assms(3) inst_okD(6) [OF aok_inst [OF assms(1)]] aok_fields(1) [OF assms(1)] by simp
  have remap: "ensures (nmbm_remap_logic_block crc n lb pb) (\<lambda>(r, ni'). aok ni0 ni' \<and> (\<forall>i. i \<noteq> lb \<longrightarrow> block_mapping ni' ! i = block_mapping ni ! i) \<and>
    (r = None \<longrightarrow> mapping_blocks_top_ba ni' < mapping_blocks_top_ba ni \<and>
       may (nat (block_mapping ni' ! lb))))"
    if "aok ni0 n" "pb < block_count ni0" "mapping_blocks_top_ba n = mapping_blocks_top_ba ni"
      "block_mapping n = block_mapping ni" for n
    by (rule ensures_mono [OF remap_logic_block_a [OF that(1) assms(2,3) that(2)]])
      (use assms(2) that(3,4) in \<open>auto simp: mgmt_area_def\<close>)
  show ?thesis
  proof (cases "block_mapping ni ! lb < 0")
    case True
    then show ?thesis
      using len assms(1) by (simp add: nmbm_erase_logic_block_pass_def arr_get_def)
  next
    case False
    then have pb: "pb < block_count ni0" "may pb"
      using inst_ok_mapped [OF aok_inst [OF assms(1)], of lb] assms(3,4) aok_fields(1) [OF assms(1)]
      by (auto simp: pb_def)
    then have pbn: "pb < block_count n" if "aok ni0 n" for n
      using aok_fields(1) [OF that] by simp
    show ?thesis
      using False len get_state_a [OF assms(1) pbn [OF assms(1)]] assms(1) pb
      unfolding nmbm_erase_logic_block_pass_def arr_get_def
      by (auto simp: ensures_bind Let_def pbn pb_def [symmetric] intro!: remap check_bad_a [of ni0]
          set_state_a [of ni0] erase_check_a [of ni0] retire_a [of ni0])
  qed
qed

lemma erase_logic_block_a:
  assumes "aok ni0 ni" and "mgmt_area ni0" and "lb < block_count ni0"
    and "0 \<le> block_mapping ni ! lb \<Longrightarrow> may (nat (block_mapping ni ! lb))"
  shows "ensures (nmbm_erase_logic_block crc ni lb) (\<lambda>(ret, ni'). aok ni0 ni' \<and>
    (\<forall>i. i \<noteq> lb \<longrightarrow> block_mapping ni' ! i = block_mapping ni ! i))"
  using assms
proof (induction "mapping_blocks_top_ba ni" arbitrary: ni rule: less_induct)
  case less
  have "ensures (nmbm_erase_logic_block_pass crc ni lb) (\<lambda>(r, n). ensures
      (case r of Some ret \<Rightarrow> Some (ret, n) | None \<Rightarrow> nmbm_erase_logic_block crc n lb)
      (\<lambda>(ret, ni'). aok ni0 ni' \<and> (\<forall>i. i \<noteq> lb \<longrightarrow> block_mapping ni' ! i = block_mapping ni ! i)))"
    by (rule ensures_mono [OF erase_logic_block_pass_a [OF less(2-5)]])
      (use less(3,4) in \<open>auto split: option.split intro!: ensures_mono [OF less(1)]\<close>)
  then show ?case
    by (subst nmbm_erase_logic_block.simps) (auto simp: ensures_bind elim!: ensures_mono)
qed

section \<open>Reading\<close>

lemma aok_data_addr:
  assumes "aok ni0 ni" and "addr < ba2addr ni0 (data_block_count ni0)"
  shows "addr2ba ni addr = addr div erasesize lo" "addr2ba ni addr < block_count ni"
    "addr2ba ni addr < length (block_mapping ni)" "addr < 2 ^ 63"
proof -
  note g = att_geom [OF aok_att [OF assms(1)]] and i = inst_okD [OF aok_inst [OF assms(1)]]
  have a: "addr < ba2addr ni (data_block_count ni)"
    using assms(2) aok_fields [OF assms(1)] by simp
  note l = addr2ba_less [OF g i(5) a]
  show "addr2ba ni addr = addr div erasesize lo"
    using l(1) att_fields(2) [OF aok_att [OF assms(1)]] by simp
  show "addr2ba ni addr < block_count ni" "addr2ba ni addr < length (block_mapping ni)"
    using l(2) i(5,6) by auto
  show "addr < 2 ^ 63"
    using a ba2addr_le [OF g i(5)] by simp
qed

lemma page_of_data_addr:
  assumes "aok ni0 ni" and "off < ba2addr ni0 (data_block_count ni0)"
  shows "off - chunk_leading ni off < ba2addr ni0 (data_block_count ni0)"
    "(off - chunk_leading ni off) div erasesize lo = off div erasesize lo"
  using assms page_start_div [OF att_geom [OF aok_att [OF assms(1)]], of off]
    att_fields(2) [OF aok_att [OF assms(1)]] by simp_all

lemma read_logic_page_a:
  assumes "aok ni0 ni" and "addr < ba2addr ni0 (data_block_count ni0)"
  shows "ensures (nmbm_read_logic_page ni addr data oob mode) (\<lambda>(ret, dat, ob, ni').
    aok ni0 ni' \<and> length dat \<le> (if data then writesize lo else 0) \<and>
    length ob \<le> (if oob then oobsize lo else 0) \<and>
    (length dat = (if data then writesize lo else 0) \<or> ret < 0 \<and> ret \<noteq> - EBADMSG))"
proof -
  note a = aok_data_addr [OF assms]
  have pb: "nmbm_get_block_state ni (nat (block_mapping ni ! addr2ba ni addr)) =
      Some (st_get (block_state ni) (nat (block_mapping ni ! addr2ba ni addr)))"
    if "0 \<le> block_mapping ni ! addr2ba ni addr"
    using get_state_a [OF assms(1)] inst_ok_mapped [OF aok_inst [OF assms(1)] a(2) that] by simp
  have read: "ensures (nmbm_read_phys_page ni p data oob mode) (\<lambda>(ret, dat, ob, ni').
    aok ni0 ni' \<and> length dat \<le> (if data then writesize lo else 0) \<and>
    length ob \<le> (if oob then oobsize lo else 0) \<and>
    (length dat = (if data then writesize lo else 0) \<or> ret < 0 \<and> ret \<noteq> - EBADMSG))" for p
    by (rule ensures_mono [OF read_phys_page_ok [OF dok_refl [OF aok_att [OF assms(1)]]]])
      (auto intro: dok_aok [OF assms(1)])
  show ?thesis
    using a(3) pb assms(1) read
    by (auto simp: nmbm_read_logic_page_def Let_def ensures_bind errno_defs)
qed

lemma read_single_page_a:
  assumes "aok ni0 ni"
  shows "ensures (nmbm_read_single_page ni addr data oob mode) (\<lambda>(ret, dat, ob, ni').
    aok ni0 ni' \<and> length dat \<le> (if data then writesize lo else 0) \<and>
    length ob \<le> (if oob then oobsize lo else 0))"
  using assms aok_fields [OF assms] ensures_mono [OF read_logic_page_a [OF assms, of addr data oob mode]]
  by (auto simp: nmbm_read_single_page_def)

lemma read_range_loop_a:
  assumes "aok ni0 ni" and "off + sz \<le> ba2addr ni0 (data_block_count ni0)"
  shows "ensures (nmbm_read_range_loop ni off sz mode acc e m r)
    (\<lambda>(ret, e', m', bs, rem, ni'). aok ni0 ni' \<and> rem \<le> sz \<and> length bs + rem = length acc + sz \<and>
       (0 \<le> ret \<longrightarrow> rem = 0) \<and> (ret = - EBADMSG \<longrightarrow> rem = 0))"
  using assms
proof (induction sz arbitrary: ni off acc e m r rule: less_induct)
  case (less sz)
  show ?case
  proof (cases "sz = 0")
    case True
    then show ?thesis
      using less(2) by (simp add: nmbm_read_range_loop.simps)
  next
    case False
    note dok = dok_refl [OF aok_att [OF less(2)]]
    note ch = dok_chunk [OF dok, of sz off]
    have off: "off < ba2addr ni0 (data_block_count ni0)"
      using less(3) False by simp
    note pg = page_of_data_addr [OF less(2) off]
    have "writesize lo < 2 ^ 32"
      using geomD(3) [OF att_geom [OF aok_att [OF less(2)]]] dok_simps(3) [OF dok] by simp
    then have nowrap: "u64 (off + c) = off + c" if "c \<le> writesize lo" for c
      using that aok_data_addr(4) [OF less(2) off] by (intro u64_id) simp
    have IH: "ensures (nmbm_read_range_loop n (u64 (off + c)) (sz - c) mode (acc @ bs) e' m' r')
      (\<lambda>(ret, e', m', bs, rem, ni'). aok ni0 ni' \<and> rem \<le> sz \<and> length bs + rem = length acc + sz \<and>
         (0 \<le> ret \<longrightarrow> rem = 0) \<and> (ret = - EBADMSG \<longrightarrow> rem = 0))"
      if "aok ni0 n" "length bs = c" "0 < c" "c \<le> sz" "c \<le> writesize lo" for n bs c e' m' r'
      using that nowrap [of c] less(3)
      by (intro ensures_mono [OF less(1)]) auto
    have st: "ensures (mem_write (page_cache n) 0 dat)
      (\<lambda>pc. let n = n\<lparr>page_cache := pc\<rparr> in aok ni0 n \<and> length pc = writesize lo + oobsize lo)"
      if "aok ni0 n" "length dat \<le> writesize lo" for n dat
      using that dok_simps [OF dok_refl [OF aok_att [OF that(1)]]]
        dok_aok [OF that(1) dok_page_cache [OF dok_refl [OF aok_att [OF that(1)]]]]
      by (intro ensures_mem_writeI) (auto simp: Let_def)
    have ws: "writesize (lower n) = writesize lo" if "aok ni0 n" for n
      using that att_fields(1) [OF aok_att] by simp
    show ?thesis
      using False ch(1-3)
      by (subst nmbm_read_range_loop.simps)
        (auto simp: ensures_bind Let_def ws
          intro!: ensures_mem_readI ensures_mono [OF read_logic_page_a [OF less(2) pg(1)]] IH ensures_mono [OF st])
  qed
qed

lemma read_range_a:
  assumes "aok ni0 ni" and "addr + sz < 2 ^ 64"
  shows "ensures (nmbm_read_range ni addr sz mode) (\<lambda>(ret, bs, retlen, ni'). aok ni0 ni' \<and>
    (\<forall>n. retlen = Some n \<longrightarrow> length bs = n \<and> n \<le> sz \<and> (0 \<le> ret \<or> ret = - EBADMSG \<longrightarrow> n = sz)))"
proof (cases "addr + sz \<le> ba2addr ni0 (data_block_count ni0)")
  case True
  have "ensures (nmbm_read_range_loop ni addr sz mode [] False 0 0)
    (\<lambda>(ret, e', m', bs, rem, ni'). aok ni0 ni' \<and> rem \<le> sz \<and> length bs + rem = sz \<and>
       (0 \<le> ret \<longrightarrow> rem = 0) \<and> (ret = - EBADMSG \<longrightarrow> rem = 0))"
    using read_range_loop_a [OF assms(1) True, of mode "[]"] by simp
  then show ?thesis
    using True assms aok_fields [OF assms(1)]
    by (auto simp: nmbm_read_range_def ensures_bind Let_def errno_defs elim!: ensures_mono)
next
  case False
  then show ?thesis
    using assms aok_fields [OF assms(1)] by (auto simp: nmbm_read_range_def errno_defs)
qed

section \<open>Writing\<close>

text \<open>Permission to change the physical block behind a logic block.\<close>

definition lmay :: "'d nmbm_instance \<Rightarrow> nat \<Rightarrow> bool" where
  "lmay ni lb \<longleftrightarrow> (0 \<le> block_mapping ni ! lb \<longrightarrow> may (nat (block_mapping ni ! lb)))"

lemma all_areas: "(\<And>b. W b) \<Longrightarrow> mgmt_area ni" "(\<And>b. W b) \<Longrightarrow> lmay ni lb"
  by (simp_all add: mgmt_area_def lmay_def may_change_def)

lemma read_only_areas:
  assumes "flags lo AND NMBM_F_READ_ONLY \<noteq> 0" shows "mgmt_area ni" "lmay ni lb"
  using assms by (simp_all add: mgmt_area_def lmay_def may_change_def)

text \<open>Permission for every block but \<open>b\<close> is enough where \<open>b\<close> is not touched.\<close>

lemma areas_except:
  assumes "\<And>x. x \<noteq> b \<Longrightarrow> W x"
  shows "b < mgmt_start_ba ni \<or> mapping_blocks_top_ba ni < b \<Longrightarrow> mgmt_area ni"
    "block_mapping ni ! lb \<noteq> int b \<Longrightarrow> lmay ni lb"
  using assms by (fastforce simp: mgmt_area_def lmay_def may_change_def)+

lemma aok_in_block:
  assumes "aok ni0 ni" and "pb < block_count ni" and "off < erasesize lo"
  shows "u64 (ba2addr ni pb + off) div erasesize lo = pb"
  using page_addr_div [OF att_geom [OF aok_att [OF assms(1)]] assms(2), of off] assms(3)
    att_fields(2) [OF aok_att [OF assms(1)]] by simp

lemma erasesize_mask_mod:
  assumes "aok ni0 ni"
  shows "addr AND erasesize_mask ni = addr mod erasesize lo" and "addr mod erasesize lo < erasesize lo"
proof -
  note g = geomD [OF att_geom [OF aok_att [OF assms]]]
  have "addr AND erasesize_mask ni = addr mod erasesize (lower ni)"
    unfolding g(6) g(2) by (metis mask_eq_exp_minus_1 take_bit_eq_mask take_bit_eq_mod)
  then show "addr AND erasesize_mask ni = addr mod erasesize lo"
    using att_fields(2) [OF aok_att [OF assms]] by simp
  show "addr mod erasesize lo < erasesize lo"
    using geom_erasesize_pos [OF att_geom [OF aok_att [OF assms]]] att_fields(2) [OF aok_att [OF assms]]
    by simp
qed

lemma dok_mapping: "dok ni n \<Longrightarrow> block_mapping n = block_mapping ni"
  by (auto simp: dok_def dstep_def)

lemma write_logic_page_a:
  assumes "aok ni0 ni" and "mgmt_area ni0" and "addr < ba2addr ni0 (data_block_count ni0)"
    and "lmay ni (addr div erasesize lo)"
  shows "ensures (nmbm_write_logic_page crc ni addr data oob mode)
    (\<lambda>(ret, ni'). aok ni0 ni' \<and> block_mapping ni' = block_mapping ni)"
proof -
  note a = aok_data_addr [OF assms(1,3)]
  define m where "m = block_mapping ni ! addr2ba ni addr"
  show ?thesis
  proof (cases "m < 0")
    case True
    then show ?thesis
      using a(3) assms(1) by (simp add: nmbm_write_logic_page_def Let_def arr_get_def m_def)
  next
    case False
    have pb: "nat m < block_count ni" and may: "may (nat m)"
      using False inst_ok_mapped [OF aok_inst [OF assms(1)] a(2)] assms(4) a(1)
      by (auto simp: m_def lmay_def)
    have pbn: "nat m < block_count n" if "aok ni0 n" for n
      using pb aok_fields(1) [OF that] aok_fields(1) [OF assms(1)] by simp
    have "u64 (ba2addr ni (nat m) + (addr AND erasesize_mask ni)) div erasesize lo = nat m"
      using aok_in_block [OF assms(1) pb] erasesize_mask_mod [OF assms(1)] by simp
    then have wr: "ensures (nmbm_write_phys_page ni
        (u64 (ba2addr ni (nat m) + (addr AND erasesize_mask ni))) data oob mode)
        (\<lambda>(_, n). aok ni0 n \<and> block_mapping n = block_mapping ni)"
      using may by (intro ensures_mono [OF write_phys_page_ok [OF dok_refl [OF aok_att [OF assms(1)]]]])
        (auto intro: dok_aok [OF assms(1)] simp: dok_mapping)
    show ?thesis
      using False a(3) get_state_a [OF assms(1) pb] assms(1)
      unfolding nmbm_write_logic_page_def m_def [symmetric] arr_get_def Let_def
      by (auto simp: ensures_bind m_def [symmetric] pbn
          intro!: ensures_mono [OF wr] set_state_a [of ni0]
            ensures_mono [OF update_info_table_a [OF _ assms(2)]])
  qed
qed

lemma write_single_page_a:
  assumes "aok ni0 ni" and "mgmt_area ni0" and "lmay ni (addr div erasesize lo)"
  shows "ensures (nmbm_write_single_page crc ni addr data oob mode) (\<lambda>(ret, ni'). aok ni0 ni')"
  using assms aok_fields [OF assms(1)]
    ensures_mono [OF write_logic_page_a [OF assms(1,2) _ assms(3), of crc data oob mode]]
  by (auto simp: nmbm_write_single_page_def)

lemma write_range_loop_a:
  assumes "aok ni0 ni" and "mgmt_area ni0" and "off + sz \<le> ba2addr ni0 (data_block_count ni0)"
    and "\<And>a. off \<le> a \<Longrightarrow> a < off + sz \<Longrightarrow> lmay ni (a div erasesize lo)" and "ptr + sz \<le> length data"
  shows "ensures (nmbm_write_range_loop crc ni off data ptr sz mode r)
    (\<lambda>(ret, rem, ni'). aok ni0 ni' \<and> rem \<le> sz \<and> (ret = 0 \<longrightarrow> rem = 0))"
  using assms(1,3-5)
proof (induction sz arbitrary: ni off ptr r rule: less_induct)
  case (less sz)
  show ?case
  proof (cases "sz = 0")
    case True
    then show ?thesis
      using less(2) by (simp add: nmbm_write_range_loop.simps)
  next
    case False
    note dok = dok_refl [OF aok_att [OF less(2)]]
    note ch = dok_chunk [OF dok, of sz off]
    have off: "off < ba2addr ni0 (data_block_count ni0)"
      using less(3) False by simp
    note pg = page_of_data_addr [OF less(2) off]
    have "writesize lo < 2 ^ 32"
      using geomD(3) [OF att_geom [OF aok_att [OF less(2)]]] dok_simps(3) [OF dok] by simp
    then have nowrap: "u64 (off + c) = off + c" if "c \<le> writesize lo" for c
      using that aok_data_addr(4) [OF less(2) off] by (intro u64_id) simp
    have IH: "ensures (nmbm_write_range_loop crc n (u64 (off + c)) data (ptr + c) (sz - c) mode r')
      (\<lambda>(ret, rem, ni'). aok ni0 ni' \<and> rem \<le> sz \<and> (ret = 0 \<longrightarrow> rem = 0))"
      if "aok ni0 n" "block_mapping n = block_mapping ni" "0 < c" "c \<le> sz" "c \<le> writesize lo" for n c r'
      using that nowrap [of c] less(3-5)
      by (intro ensures_mono [OF less(1)]) (auto simp: lmay_def)
    have wr: "ensures (nmbm_write_logic_page crc n (off - chunk_leading ni off) d ob mode)
        (\<lambda>(ret, n'). aok ni0 n' \<and> block_mapping n' = block_mapping ni)"
      if "aok ni0 n" "block_mapping n = block_mapping ni" for n d ob
      by (rule ensures_mono [OF write_logic_page_a [OF that(1) assms(2) pg(1)]])
        (use that less(4) [of off] False pg(2) in \<open>auto simp: lmay_def\<close>)
    have cache: "aok ni0 (ni\<lparr>page_cache := pc\<rparr>)" if "length pc = writesize lo + oobsize lo" for pc
      using that dok_aok [OF less(2) dok_page_cache [OF dok]] dok_simps(1) [OF dok] by simp
    show ?thesis
      using False ch(1-3) less(2,5) dok_simps(1,3) [OF dok]
      by (subst nmbm_write_range_loop.simps)
        (auto simp: ensures_bind Let_def cache
          intro!: ensures_mem_readI ensures_mem_writeI ensures_mono [OF wr] IH)
  qed
qed

lemma write_range_a:
  assumes "aok ni0 ni" and "mgmt_area ni0" and "addr + sz < 2 ^ 64" and "sz \<le> length data"
    and "\<And>a. addr \<le> a \<Longrightarrow> a < addr + sz \<Longrightarrow> lmay ni (a div erasesize lo)"
  shows "ensures (nmbm_write_range crc ni addr sz data mode) (\<lambda>(ret, retlen, ni'). aok ni0 ni' \<and>
    (\<forall>n. retlen = Some n \<longrightarrow> n \<le> sz \<and> (ret = 0 \<longrightarrow> n = sz)))"
proof (cases "addr + sz \<le> ba2addr ni0 (data_block_count ni0)")
  case True
  show ?thesis
    using True assms aok_fields [OF assms(1)]
      write_range_loop_a [OF assms(1,2) True assms(5), of 0 data crc mode 0]
    by (auto simp: nmbm_write_range_def ensures_bind Let_def elim!: ensures_mono)
next
  case False
  then show ?thesis
    using assms aok_fields [OF assms(1)] by (auto simp: nmbm_write_range_def)
qed

section \<open>Ranges of blocks and bad block marks\<close>

lemma erase_block_range_loop_a:
  assumes "aok ni0 ni" and "mgmt_area ni0" and "e < block_count ni0"
    and "\<And>lb. s \<le> lb \<Longrightarrow> lb \<le> e \<Longrightarrow> lmay ni lb"
  shows "ensures (nmbm_erase_block_range_loop crc ni s e) (\<lambda>(ret, failed, ni'). aok ni0 ni')"
  using assms(1,4)
proof (induction "Suc e - s" arbitrary: ni s)
  case 0
  then show ?case
    by (simp add: nmbm_erase_block_range_loop.simps)
next
  case (Suc k)
  have s: "s \<le> e" "s < block_count ni0" "s \<noteq> 2 ^ 32 - 1"
    using Suc(2) assms(3) geomD(11) [OF att_geom [OF aok_att [OF Suc(3)]]] aok_fields(1) [OF Suc(3)]
    by auto
  have IH: "ensures (nmbm_erase_block_range_loop crc n (Suc s) e) (\<lambda>(ret, failed, ni'). aok ni0 ni')"
    if "aok ni0 n" "\<forall>i. i \<noteq> s \<longrightarrow> block_mapping n ! i = block_mapping ni ! i" for n
    using Suc(1) [of "Suc s" n] Suc(2,4) that by (auto simp: lmay_def)
  have "lmay ni s"
    using Suc(4) s by simp
  then show ?case
    using s
    by (subst nmbm_erase_block_range_loop.simps)
      (auto simp: ensures_bind lmay_def
        intro!: ensures_mono [OF erase_logic_block_a [OF Suc(3) assms(2) s(2)]] IH)
qed

lemma erase_block_range_a:
  assumes "aok ni0 ni" and "mgmt_area ni0" and "addr + sz < 2 ^ 64"
    and "\<And>lb. addr div erasesize lo \<le> lb \<Longrightarrow> lb \<le> (addr + sz - 1) div erasesize lo \<Longrightarrow> lmay ni lb"
  shows "ensures (nmbm_erase_block_range crc ni addr sz) (\<lambda>(ret, failed, ni'). aok ni0 ni')"
proof (cases "addr + sz \<le> ba2addr ni0 (data_block_count ni0) \<and> 0 < sz")
  case True
  have sub: "sub64 (addr + sz) 1 = addr + sz - 1"
    using True assms(3) by (intro sub64_id') auto
  have last: "addr + sz - 1 < ba2addr ni0 (data_block_count ni0)"
    and first: "addr < ba2addr ni0 (data_block_count ni0)"
    using True by auto
  note l = aok_data_addr [OF assms(1) last] and f = aok_data_addr [OF assms(1) first]
  have "ensures (nmbm_erase_block_range_loop crc ni (addr2ba ni addr) (addr2ba ni (addr + sz - 1)))
      (\<lambda>(ret, failed, ni'). aok ni0 ni')"
    by (rule erase_block_range_loop_a [OF assms(1,2)])
      (use l f assms(4) aok_fields(1) [OF assms(1)] in auto)
  then show ?thesis
    using True sub assms aok_fields [OF assms(1)] by (auto simp: nmbm_erase_block_range_def)
next
  case False
  then show ?thesis
    using assms aok_fields [OF assms(1)] by (auto simp: nmbm_erase_block_range_def)
qed

lemma check_bad_block_a:
  assumes "aok ni0 ni"
  shows "ensures (nmbm_check_bad_block ni addr) (\<lambda>ret. ret \<in> {0, 1, - EINVAL})"
proof (cases "addr < ba2addr ni0 (data_block_count ni0)")
  case True
  note a = aok_data_addr [OF assms True]
  show ?thesis
    using True a(3) aok_fields [OF assms] get_state_a [OF assms]
      inst_ok_mapped [OF aok_inst [OF assms] a(2)]
    by (auto simp: nmbm_check_bad_block_def ensures_bind Let_def)
next
  case False
  then show ?thesis
    using aok_fields [OF assms] by (simp add: nmbm_check_bad_block_def)
qed

lemma mark_bad_block_a:
  assumes "aok ni0 ni" and "mgmt_area ni0" and "lmay ni (addr div erasesize lo)"
  shows "ensures (nmbm_mark_bad_block crc ni addr) (\<lambda>(ret, ni'). aok ni0 ni')"
proof (cases "addr < ba2addr ni0 (data_block_count ni0)")
  case True
  note a = aok_data_addr [OF assms(1) True]
  define m where "m = block_mapping ni ! addr2ba ni addr"
  have unmap: "aok ni0 (ni\<lparr>block_mapping := (block_mapping ni)[addr2ba ni addr := - 1]\<rparr>)"
    using assms(1) inst_ok_set_mapping [of ni "- 1"] by (auto simp: aok_def)
  have pb: "nat m < block_count n" if "0 \<le> m" "aok ni0 n" for n
    using inst_ok_mapped [OF aok_inst [OF assms(1)] a(2)] that aok_fields(1) [OF that(2)]
      aok_fields(1) [OF assms(1)] by (simp add: m_def)
  have may: "may (nat m)" if "0 \<le> m"
    using that assms(3) a(1) by (simp add: lmay_def m_def)
  show ?thesis
    using True a(3) aok_fields(3,5) [OF assms(1)] assms(1) unmap pb may
    unfolding nmbm_mark_bad_block_def arr_get_def arr_set_def Let_def m_def [symmetric]
    by (auto simp: ensures_bind m_def [symmetric]
        intro!: nok_call [OF unmap mark_bad_n [OF nok_refl]] set_state_a [of ni0]
          ensures_mono [OF update_info_table_a [OF _ assms(2)]])
next
  case False
  then show ?thesis
    using assms(1) aok_fields [OF assms(1)] by (simp add: nmbm_mark_bad_block_def)
qed

end

end
