(* ===== verification/Nmbm_Create.thy ===== *)
theory Nmbm_Create
  imports Nmbm_Api Nmbm_Attach
begin

text \<open>
  Attaching to a new chip: the sizes \<^verbatim>\<open>nmbm_init_structure\<close> computes, the search for a signature,
  and the creation of the management area. They establish the invariant of \<open>Nmbm_Api\<close>.
\<close>

section \<open>Powers of two\<close>

lemma and_pred_eq_0: "0 < n \<Longrightarrow> n AND (n - 1) = 0 \<Longrightarrow> \<exists>k. n = 2 ^ k" for n :: nat
proof (induction n rule: less_induct)
  case (less n)
  show ?case
  proof (cases "even n")
    case True
    then obtain m where m: "n = 2 * m" by blast
    then have "n - 1 = 1 + 2 * (m - 1)" "0 < m" "m < n"
      using less(2) by auto
    moreover from this have "m AND (m - 1) = 0"
      using less(3) and_nat_rec [of n "n - 1"] by (simp add: m)
    ultimately obtain k where "m = 2 ^ k"
      using less(1) by blast
    then have "n = 2 ^ Suc k" by (simp add: m)
    then show ?thesis by blast
  next
    case False
    then obtain m where m: "n = 1 + 2 * m" by (auto elim: oddE)
    then have "m AND m = 0"
      using less(3) and_nat_rec [of n "n - 1"] by simp
    then have "n = 2 ^ 0" by (simp add: m)
    then show ?thesis by blast
  qed
qed

lemma sub64_1: "0 < n \<Longrightarrow> n < 2 ^ 64 \<Longrightarrow> sub64 n (Suc 0) = n - 1"
  using sub64_id' [of 1 n] by simp

lemma is_power_of_2_iff:
  assumes "n < 2 ^ 64" shows "is_power_of_2 n \<longleftrightarrow> (\<exists>k. n = 2 ^ k)"
proof
  assume "is_power_of_2 n"
  then show "\<exists>k. n = 2 ^ k"
    using and_pred_eq_0 [of n] assms by (auto simp: is_power_of_2_def sub64_1)
next
  assume "\<exists>k. n = 2 ^ k"
  then obtain k where k: "n = 2 ^ k" ..
  have "(2 ^ k :: nat) AND mask k = 0"
    by (rule bit_eqI) (auto simp: bit_simps)
  then have "(2 ^ k :: nat) AND (2 ^ k - 1) = 0"
    by (simp add: mask_eq_exp_minus_1)
  then show "is_power_of_2 n"
    using assms by (simp add: is_power_of_2_def sub64_1 k)
qed

lemma is_power_of_2_u64_eq: "is_power_of_2_u64 = is_power_of_2"
  by (simp add: fun_eq_iff is_power_of_2_def is_power_of_2_u64_def)

lemma ffs_exp: "ffs (2 ^ k) = Suc k"
  by (induction k) (simp_all add: ffs.simps)

lemma shift_exp: "k < 65535 \<Longrightarrow> u16 (ffs (2 ^ k) + 65535) = k"
  by (simp add: ffs_exp u16_def)

lemma sub32_1: "0 < n \<Longrightarrow> n < 2 ^ 32 \<Longrightarrow> sub32 n (Suc 0) = n - 1"
  using sub32_id' [of 1 n] by simp

text \<open>\<^verbatim>\<open>NMBM_ALIGN\<close> rounds up to a multiple of a power of two.\<close>

lemma NMBM_ALIGN_eq:
  assumes "v + 2 ^ k \<le> 2 ^ 32"
  shows "NMBM_ALIGN v (2 ^ k) = (v + 2 ^ k - 1) div 2 ^ k * 2 ^ k"
proof -
  let ?x = "v + 2 ^ k - 1"
  have "?x < 2 ^ 32" and k: "(2 ^ k :: nat) \<le> 2 ^ 32"
    using assms by auto
  then have "k \<le> 32"
    using power_le_imp_le_exp [of "2 :: nat" k 32] by simp
  have pos: "Suc 0 \<le> v + 2 ^ k"
    by (simp add: Suc_le_eq)
  have "sub32 (v + 2 ^ k) 1 = ?x"
    by (rule sub32_id') (use assms pos in auto)
  moreover have "2 ^ 32 - 1 - sub32 (2 ^ k) 1 = push_bit k (mask (32 - k) :: nat)"
    using k \<open>k \<le> 32\<close> sub32_id' [of 1 "2 ^ k"]
    by (simp add: push_bit_eq_mult mask_eq_exp_minus_1 diff_mult_distrib power_add [symmetric])
  moreover have "?x AND push_bit k (mask (32 - k)) = push_bit k (drop_bit k ?x)"
  proof (rule bit_eqI)
    fix n
    have "bit ?x n \<Longrightarrow> n < 32"
      using \<open>?x < 2 ^ 32\<close> by (metis bit_take_bit_iff take_bit_nat_eq_self)
    then show "bit (?x AND push_bit k (mask (32 - k))) n = bit (push_bit k (drop_bit k ?x)) n"
      by (auto simp: bit_simps)
  qed
  ultimately show ?thesis
    by (simp add: NMBM_ALIGN_def push_bit_eq_mult drop_bit_eq_div)
qed

lemma NMBM_ALIGN_bounds:
  assumes "v + 2 ^ k \<le> 2 ^ 32"
  shows "v \<le> NMBM_ALIGN v (2 ^ k)" "NMBM_ALIGN v (2 ^ k) < v + 2 ^ k"
proof -
  have "(v + 2 ^ k - 1) div 2 ^ k * 2 ^ k + (v + 2 ^ k - 1) mod 2 ^ k = v + 2 ^ k - 1"
    by (rule div_mult_mod_eq)
  moreover have "(v + 2 ^ k - 1) mod 2 ^ k < 2 ^ k"
    by simp
  moreover have "0 < (2 :: nat) ^ k"
    by simp
  ultimately show "v \<le> NMBM_ALIGN v (2 ^ k)" "NMBM_ALIGN v (2 ^ k) < v + 2 ^ k"
    unfolding NMBM_ALIGN_eq [OF assms] by linarith+
qed

section \<open>The structure after initialisation\<close>

text \<open>
  What \<^verbatim>\<open>nmbm_check_lower_members\<close> does not check of the device: the page is at most a block, and
  the sizes are those of a real chip, far from the limits of the 32-bit arithmetic.
\<close>

definition real_chip :: "'d nmbm_lower_device \<Rightarrow> bool" where
  "real_chip lo \<longleftrightarrow> writesize lo \<le> erasesize lo \<and> writesize lo \<le> 2 ^ 24 \<and> erasesize lo < 2 ^ 32 \<and>
     oobsize lo \<le> 2 ^ 24 \<and> chip_size lo \<le> 2 ^ 24 * erasesize lo \<and> 16 * erasesize lo \<le> chip_size lo"

lemma check_members_cases:
  assumes "nmbm_check_lower_members nld = (True, lo)"
  shows "lo = nld\<lparr>max_ratio := max_ratio lo\<rparr>" "is_power_of_2_u64 (chip_size nld)"
    "is_power_of_2 (erasesize nld)" "is_power_of_2 (writesize nld)" "0 < oobsize nld"
    "0 < max_ratio lo" "max_ratio lo < 15"
    "max_reserved_blocks lo = 0 \<or> 32 \<le> max_reserved_blocks lo"
  using assms
  by (auto simp: nmbm_check_lower_members_def Let_def NMBM_MGMT_DIV_def NMBM_MGMT_BLOCKS_MIN_def
      split: if_splits)

lemma checked_members:
  assumes "nmbm_check_lower_members nld = (True, lo)" and "real_chip nld"
  obtains w e c where "writesize lo = 2 ^ w" "erasesize lo = 2 ^ e" "chip_size lo = 2 ^ c"
    "w \<le> e" "e < 32" "c \<le> 24 + e" "4 + e \<le> c" "w \<le> 24"
proof -
  note c = check_members_cases [OF assms(1)] and r = assms(2) [unfolded real_chip_def]
  have same: "chip_size lo = chip_size nld" "erasesize lo = erasesize nld" "writesize lo = writesize nld"
    by (subst c(1), simp)+
  have "2 ^ 24 * erasesize nld < 2 ^ 24 * 2 ^ 32"
    using r by (intro mult_strict_left_mono) auto
  then have "chip_size nld < 2 ^ 64"
    using r by simp
  then obtain w e c where exp: "writesize nld = 2 ^ w" "erasesize nld = 2 ^ e" "chip_size nld = 2 ^ c"
    using c(2-4) r is_power_of_2_iff by (auto simp: is_power_of_2_u64_eq)
  have "(2 :: nat) ^ c \<le> 2 ^ (24 + e)" "(2 :: nat) ^ (4 + e) \<le> 2 ^ c"
    using r unfolding exp power_add by simp_all
  then have "c \<le> 24 + e" "4 + e \<le> c"
    by simp_all
  moreover have "(2 :: nat) ^ w \<le> 2 ^ e" "(2 :: nat) ^ e < 2 ^ 32" "(2 :: nat) ^ w \<le> 2 ^ 24"
    using r unfolding exp by simp_all
  then have "w \<le> e" "e < 32" "w \<le> 24"
    by (simp_all only: power_increasing_iff power_strict_increasing_iff one_less_numeral_iff semiring_norm)
  ultimately show thesis
    using that exp same by simp
qed

lemma calc_table_sizes:
  assumes "n \<le> 2 ^ 24"
  shows "calc_state_table_size n = 4 * ((n + 15) div 16)" "calc_mapping_table_size n = 4 * n"
  using assms sub32_id' [of 1 "n + 16"]
  by (simp_all add: calc_state_table_size_def calc_mapping_table_size_def NMBM_BITMAP_UNIT_SIZE_def)

lemma spare_block_count_bounds:
  assumes "n \<le> 2 ^ 30" shows "nmbm_get_spare_block_count n < 2 ^ 31"
  using assms by (simp add: nmbm_get_spare_block_count_def Let_def NMBM_SPARE_BLOCK_DIV_def
      NMBM_SPARE_BLOCK_MULTI_def NMBM_SPARE_BLOCK_MIN_def div_less_iff_less_mult)

text \<open>The fields the initialisation sets, for a chip of \<open>2 ^ n\<close> blocks.\<close>

lemma init_structure_fields:
  fixes ni :: "'d nmbm_instance"
  assumes "writesize lo = 2 ^ w" "erasesize lo = 2 ^ e" "chip_size lo = 2 ^ (n + e)"
    "w \<le> e" "e < 32" "w \<le> 24" "n \<le> 24" "oobsize lo \<le> 2 ^ 24"
  defines "ni' \<equiv> nmbm_init_structure (ni\<lparr>lower := lo\<rparr>)"
  shows "lower ni' = lo" "writesize_shift ni' = w" "erasesize_shift ni' = e"
    "writesize_mask ni' = 2 ^ w - 1" "erasesize_mask ni' = 2 ^ e - 1"
    "rawpage_size ni' = 2 ^ w + oobsize lo" "length (page_cache ni') = 2 ^ w + oobsize lo"
    "block_count ni' = 2 ^ n" "block_state ni' = replicate ((2 ^ n + 15) div 16) (- 1)"
    "length (block_mapping ni') = 2 ^ n" "state_table_size ni' = 4 * ((2 ^ n + 15) div 16)"
    "mapping_table_size ni' = 4 * 2 ^ n" "block_state_changed ni' = 0" "block_mapping_changed ni' = 0"
    "length (info_table_cache ni') = info_table_size ni'" "signature ni' = signature ni"
    "protected ni' = protected ni"
proof -
  have n: "(2 :: nat) ^ n \<le> 2 ^ 24" and w: "(2 :: nat) ^ w \<le> 2 ^ 24" and e: "(2 :: nat) ^ e < 2 ^ 32"
    using assms by (simp_all only: power_increasing_iff power_strict_increasing_iff one_less_numeral_iff semiring_norm)
  have bc: "u32 (drop_bit e (2 ^ (n + e))) = 2 ^ n"
    using n by (simp add: drop_bit_eq_div power_add)
  note sz = calc_table_sizes [OF n]
  have shifts: "u16 (ffs (2 ^ w) + 65535) = w" "u16 (ffs (2 ^ e) + 65535) = e"
    using assms by (simp_all add: shift_exp)
  have masks: "sub32 (2 ^ w) (Suc 0) = 2 ^ w - 1" "sub32 (2 ^ e) (Suc 0) = 2 ^ e - 1"
    using w e by (simp_all add: sub32_1)
  have raw: "u32 (2 ^ w + oobsize lo) = 2 ^ w + oobsize lo"
    using w assms(8) by simp
  show "lower ni' = lo" "writesize_shift ni' = w" "erasesize_shift ni' = e"
    "writesize_mask ni' = 2 ^ w - 1" "erasesize_mask ni' = 2 ^ e - 1"
    "rawpage_size ni' = 2 ^ w + oobsize lo" "length (page_cache ni') = 2 ^ w + oobsize lo"
    "block_count ni' = 2 ^ n" "block_state ni' = replicate ((2 ^ n + 15) div 16) (- 1)"
    "length (block_mapping ni') = 2 ^ n" "state_table_size ni' = 4 * ((2 ^ n + 15) div 16)"
    "mapping_table_size ni' = 4 * 2 ^ n" "block_state_changed ni' = 0" "block_mapping_changed ni' = 0"
    "length (info_table_cache ni') = info_table_size ni'" "signature ni' = signature ni"
    "protected ni' = protected ni"
    by (simp_all add: ni'_def nmbm_init_structure_def Let_def assms(1-3) bc sz shifts masks raw)
qed

lemma init_structure_tables:
  fixes ni :: "'d nmbm_instance"
  assumes "writesize lo = 2 ^ w" "erasesize lo = 2 ^ e" "chip_size lo = 2 ^ (n + e)"
    "w \<le> e" "e < 32" "w \<le> 24" "n \<le> 24" "oobsize lo \<le> 2 ^ 24"
  defines "ni' \<equiv> nmbm_init_structure (ni\<lparr>lower := lo\<rparr>)"
  shows "sizeof_info_table_header \<le> state_table_off (info_table ni')"
    "state_table_off (info_table ni') + state_table_size ni' \<le> mapping_table_off (info_table ni')"
    "mapping_table_off (info_table ni') + mapping_table_size ni' \<le> info_table_size ni'"
    "info_table_size ni' < 2 ^ 28" "info_table_spare_blocks ni' < 2 ^ 31"
proof -
  have n: "(2 :: nat) ^ n \<le> 2 ^ 24" and w: "(2 :: nat) ^ w \<le> 2 ^ 24" and e: "(2 :: nat) ^ e < 2 ^ 32"
    using assms by (simp_all only: power_increasing_iff power_strict_increasing_iff one_less_numeral_iff semiring_norm)
  note f = init_structure_fields [OF assms(1-8), where ni = ni, folded ni'_def]
  define a1 where "a1 = NMBM_ALIGN sizeof_info_table_header (2 ^ w)"
  define a2 where "a2 = NMBM_ALIGN (state_table_size ni') (2 ^ w)"
  define a3 where "a3 = NMBM_ALIGN (mapping_table_size ni') (2 ^ w)"
  have st: "state_table_size ni' \<le> 2 ^ 24" "mapping_table_size ni' \<le> 2 ^ 26"
    using n unfolding f by simp_all
  have b: "32 \<le> a1" "a1 < 32 + 2 ^ w" "state_table_size ni' \<le> a2" "a2 < state_table_size ni' + 2 ^ w"
    "mapping_table_size ni' \<le> a3" "a3 < mapping_table_size ni' + 2 ^ w"
    unfolding a1_def a2_def a3_def sizeof_info_table_header_def
    by (rule NMBM_ALIGN_bounds; use st w in simp)+
  have sum: "a1 + a2 + a3 < 2 ^ 28"
    using b st w by simp
  have off: "state_table_off (info_table ni') = a1" "mapping_table_off (info_table ni') = u32 (a1 + a2)"
    "info_table_size ni' = u32 (u32 (a1 + a2) + a3)"
    "info_table_spare_blocks ni' = nmbm_get_spare_block_count (size2blk ni' (info_table_size ni'))"
    unfolding a1_def a2_def a3_def
    by (simp_all add: ni'_def nmbm_init_structure_def Let_def assms(1) size2blk_def)
  have small: "info_table_size ni' < 2 ^ 28"
    using off b sum by simp
  show "sizeof_info_table_header \<le> state_table_off (info_table ni')"
    "state_table_off (info_table ni') + state_table_size ni' \<le> mapping_table_off (info_table ni')"
    "mapping_table_off (info_table ni') + mapping_table_size ni' \<le> info_table_size ni'"
    "info_table_size ni' < 2 ^ 28"
    using off b sum by (simp_all add: sizeof_info_table_header_def)
  have "size2blk ni' sz \<le> sz" if "sz < 2 ^ 28" for sz
  proof -
    have "sub64 (sz + 2 ^ e) 1 = sz + 2 ^ e - 1"
      using that e by (intro sub64_id') (simp_all add: Suc_le_eq)
    moreover have "sz + 2 ^ e - 1 < (sz + 1) * 2 ^ e"
    proof -
      have "sz * 1 \<le> sz * 2 ^ e" "0 < (2 :: nat) ^ e"
        by (rule mult_le_mono2, rule one_le_power) simp_all
      moreover have "(sz + 1) * 2 ^ e = sz * 2 ^ e + 2 ^ e"
        by simp
      ultimately show ?thesis
        by linarith
    qed
    ultimately have "drop_bit e (sub64 (sz + 2 ^ e) 1) < sz + 1"
      unfolding drop_bit_eq_div by (simp add: less_mult_imp_div_less)
    then show ?thesis
      using u32_le [of "drop_bit e (sub64 (sz + 2 ^ e) 1)"]
      by (simp add: size2blk_def f assms(2))
  qed
  from this [OF small] have "size2blk ni' (info_table_size ni') \<le> 2 ^ 30"
    using small by simp
  then show "info_table_spare_blocks ni' < 2 ^ 31"
    using spare_block_count_bounds off(4) by simp
qed

lemma init_structure_geom:
  fixes ni :: "'d nmbm_instance"
  assumes "nmbm_check_lower_members nld = (True, lo)" and "real_chip nld"
  defines "ni' \<equiv> nmbm_init_structure (ni\<lparr>lower := lo\<rparr>)"
  shows "geom ni'" "tabs ni'" "lower ni' = lo" "signature ni' = signature ni" "16 \<le> block_count ni'"
    "block_count ni' \<le> 2 ^ 24" "block_state_changed ni' = 0" "block_mapping_changed ni' = 0"
    "block_count ni' * erasesize lo = chip_size lo" "protected ni' = protected ni"
proof -
  obtain w e c where m: "writesize lo = 2 ^ w" "erasesize lo = 2 ^ e" "chip_size lo = 2 ^ c"
    "w \<le> e" "e < 32" "c \<le> 24 + e" "4 + e \<le> c" "w \<le> 24"
    using checked_members [OF assms(1,2)] by blast
  define n where "n = c - e"
  have n: "chip_size lo = 2 ^ (n + e)" "n \<le> 24" "4 \<le> n"
    using m(3,6,7) by (simp_all add: n_def)
  have oob: "oobsize lo = oobsize nld"
    by (subst check_members_cases(1) [OF assms(1)]) simp
  then have oob: "oobsize lo \<le> 2 ^ 24" "0 < oobsize lo"
    using assms(2) check_members_cases(5) [OF assms(1)] by (simp_all add: real_chip_def)
  note f = init_structure_fields [OF m(1,2) n(1) m(4,5,8) n(2) oob(1), where ni = ni, folded ni'_def]
    and t = init_structure_tables [OF m(1,2) n(1) m(4,5,8) n(2) oob(1), where ni = ni, folded ni'_def]
  have p: "(2 :: nat) ^ n \<le> 2 ^ 24" "(2 :: nat) ^ 4 \<le> 2 ^ n" "(2 :: nat) ^ w \<le> 2 ^ 24"
    "(2 :: nat) ^ e < 2 ^ 32" "(2 :: nat) ^ w \<le> 2 ^ e"
    using m n by (simp_all only: power_increasing_iff power_strict_increasing_iff one_less_numeral_iff semiring_norm)
  have size: "block_count ni' * erasesize lo = chip_size lo"
    by (simp add: f(8) m(2) n(1) power_add)
  have "(2 :: nat) ^ (n + e) \<le> 2 ^ 63"
    using n(2) m(5) by (intro power_increasing) auto
  then show "geom ni'"
    using p oob m size n(1) unfolding geom_def Let_def f st_dom_def by simp
  show "tabs ni'"
    using p t f unfolding tabs_def st_dom_def by simp
  show "lower ni' = lo" "signature ni' = signature ni" "16 \<le> block_count ni'"
    "block_count ni' \<le> 2 ^ 24" "block_state_changed ni' = 0" "block_mapping_changed ni' = 0"
    "block_count ni' * erasesize lo = chip_size lo" "protected ni' = protected ni"
    using f p size by simp_all
qed

section \<open>The search for a signature\<close>

lemma check_header_total:
  assumes "16 \<le> length data" and "sz \<le> length data"
  shows "ensures (nmbm_check_header crc data sz) (\<lambda>_. True)"
  using assms by (auto simp: nmbm_check_header_def mem_read_def sizeof_header_def Let_def)

lemma signature_limit_pos:
  assumes "16 \<le> bc" and "bc \<le> 2 ^ 24" and "0 < max_ratio (lower ni)" and "max_ratio (lower ni) < 15"
    and "max_reserved_blocks (lower ni) = 0 \<or> 32 \<le> max_reserved_blocks (lower ni)"
  shows "0 < nmbm_signature_limit ni bc"
proof -
  let ?r = "16 - max_ratio (lower ni)"
  have r: "sub32 16 (max_ratio (lower ni)) = ?r" "0 < ?r" "?r \<le> 16"
    using assms(3,4) by (simp_all add: sub32_id)
  have "bc div 16 * ?r \<le> bc div 16 * 16"
    using r(3) by (rule mult_le_mono2)
  also have "\<dots> \<le> bc"
    by simp
  finally have lim: "u32 (bc div 16 * ?r) = bc div 16 * ?r" "bc div 16 * ?r \<le> bc"
    using assms(2) by simp_all
  have "0 < bc div 16"
    using assms(1) by (simp add: div_greater_zero_iff)
  then have "0 < bc div 16 * ?r"
    using r(2) by simp
  then show ?thesis
    using lim assms(2) r(1) sub32_id' [of "bc div 16 * ?r" bc] sub32_id' [of "max_reserved_blocks (lower ni)" bc]
    by (auto simp: nmbm_signature_limit_def NMBM_MGMT_DIV_def Let_def)
qed

lemma mgmt_boundary_bounds:
  assumes "16 \<le> block_count ni" and "block_count ni \<le> 2 ^ 24" and "0 < max_ratio (lower ni)"
    and "max_ratio (lower ni) < 15"
  shows "0 < nmbm_mgmt_boundary ni" "nmbm_mgmt_boundary ni < block_count ni"
proof -
  let ?bc = "block_count ni" and ?r = "16 - max_ratio (lower ni)"
  have r: "sub32 16 (max_ratio (lower ni)) = ?r" "2 \<le> ?r" "?r \<le> 15"
    using assms(3,4) by (simp_all add: sub32_id)
  define x where "x = ?bc * ?r"
  have "x \<le> ?bc * 15" "16 * 2 \<le> x"
    unfolding x_def using r assms(1) by (intro mult_le_mono; simp)+
  then have "u32 x = x" "0 < x div 16" "x div 16 < ?bc"
    using assms(1,2) by (simp_all add: div_greater_zero_iff div_less_iff_less_mult)
  then have b: "u32 (?bc * ?r) = ?bc * ?r" "0 < ?bc * ?r div 16" "?bc * ?r div 16 < ?bc"
    by (simp_all only: x_def)
  then show "0 < nmbm_mgmt_boundary ni" "nmbm_mgmt_boundary ni < ?bc"
    using r(1) assms(2) sub32_id' [of "?bc * ?r div 16" ?bc]
      sub32_id' [of "max_reserved_blocks (lower ni)" ?bc]
    by (auto simp: nmbm_mgmt_boundary_def NMBM_MGMT_DIV_def Let_def)
qed

lemma length_enc_dec_signature: "length bs = 48 \<Longrightarrow> length (enc_signature (dec_signature bs)) = 48"
  by (intro length_enc_signature) (simp_all add: dec_signature_def)

lemma fill_signature_ok:
  assumes "length (sig_padding (signature ni)) = 3" and "length (sig_tail (signature ni)) = 4"
  shows "ensures (nmbm_fill_signature crc ni) (\<lambda>sig. length (enc_signature sig) = sizeof_signature)"
proof -
  have "ensures (nmbm_update_checksum crc (enc_signature s)) (\<lambda>bs. length bs = 48)"
    if "hdr_size (sig_header s) = 48" "length (sig_padding s) = 3" "length (sig_tail s) = 4" for s
  proof -
    have len: "length (enc_signature s) = 48"
      using that by simp
    have "hdr_size (dec_header (enc_signature s)) = 48"
      using that(1) by (simp add: enc_signature_def dec_header_def enc_header_def le_dec_le_enc)
    then show ?thesis
      using len by (simp add: update_checksum_eq with_checksum_simps)
  qed
  then show ?thesis
    using assms
    by (auto simp: nmbm_fill_signature_def Let_def ensures_bind sizeof_signature_def
        intro!: ensures_mono [OF _ length_enc_dec_signature])
qed

context lower_device
begin

lemma find_signature_pages_ok:
  assumes "attached ni"
  shows "ensures (nmbm_find_signature_pages crc offs ni addr) (\<lambda>(r, ni'). nok ni ni')"
proof -
  have "ensures (nmbm_find_signature_pages crc offs ni' addr) (\<lambda>(r, ni'). nok ni ni')" if "nok ni ni'" for ni'
    using that
  proof (induction offs arbitrary: ni')
    case (Cons off offs)
    have "ensures (nmbm_check_header crc bs sizeof_signature) (\<lambda>_. True)"
      if "length bs = sizeof_signature" for bs
      using that by (intro check_header_total) (simp_all add: sizeof_signature_def)
    then show ?case
      using Cons.IH
      by (auto simp: ensures_bind split: prod.splits
          intro!: ensures_mono [OF read_data_n [OF Cons.prems]] elim!: ensures_mono)
  qed simp
  then show ?thesis
    using nok_refl [OF assms] by blast
qed

lemma find_signature_loop_ok:
  assumes "nok ni0 ni" and "0 < limit"
  shows "ensures (nmbm_find_signature_loop crc ni ba limit)
    (\<lambda>(r, ni'). nok ni0 ni' \<and> (\<forall>sig b. r = Some (sig, b) \<longrightarrow> b < ba))"
  using assms
proof (induction ba arbitrary: ni rule: less_induct)
  case (less ba)
  show ?case
  proof (cases "limit \<le> ba")
    case True
    then have IH: "ensures (nmbm_find_signature_loop crc ni' (ba - Suc 0) limit)
        (\<lambda>(r, ni'). nok ni0 ni' \<and> (\<forall>sig b. r = Some (sig, b) \<longrightarrow> b < ba))" if "nok ni0 ni'" for ni'
      using less(3) that by (intro ensures_mono [OF less(1)]) auto
    have pages: "ensures (nmbm_find_signature_pages crc offs ni' addr) (\<lambda>(r, n). nok ni0 n)"
      if "nok ni0 ni'" for offs ni' addr
      by (rule ensures_mono [OF find_signature_pages_ok [OF nok_att [OF that]]]) (auto intro: nok_trans [OF that])
    show ?thesis
      using True less(3)
      by (subst nmbm_find_signature_loop.simps)
        (auto simp: ensures_bind Let_def split: option.splits intro!: IH
          ensures_mono [OF check_bad_n [OF less(2)]] ensures_mono [OF pages])
  next
    case False
    then show ?thesis
      using less(2) by (simp add: nmbm_find_signature_loop.simps)
  qed
qed

section \<open>Creating the management area\<close>

text \<open>The rebuild forgets the old tables before it reads them.\<close>

lemma rebuild_forgets:
  "nmbm_rebuild_info_table (ni\<lparr>main_table_ba := 0, backup_table_ba := 0,
     mapping_blocks_ba := mapping_blocks_top_ba ni\<rparr>) = nmbm_rebuild_info_table ni"
  by (simp add: nmbm_rebuild_info_table_def)

lemma rebuild_new_ok:
  assumes "tok ni0 ni" and "0 < mgmt_start_ba ni" and "mgmt_start_ba ni \<le> mapping_blocks_top_ba ni"
    and "mapping_blocks_top_ba ni \<le> block_count ni" and "area (mapping_blocks_top_ba ni) ni0"
  shows "ensures (nmbm_rebuild_info_table ni) (tpost (mapping_blocks_top_ba ni) ni0)"
  using rebuild_ok [of ni0 "ni\<lparr>main_table_ba := 0, backup_table_ba := 0,
     mapping_blocks_ba := mapping_blocks_top_ba ni\<rparr>" "mapping_blocks_top_ba ni"] assms
  by (simp add: rebuild_forgets tlay_def)

text \<open>Enlarging the data area keeps the invariant.\<close>

lemma remap_tail_loop_ok:
  assumes "\<And>b. W b" and "attached ni" and "inst_ok ni" and "data_block_count ni = lb"
    and "limit \<le> block_count ni"
  shows "ensures (nmbm_remap_tail_loop crc ni lb limit) (\<lambda>ni'. attached ni' \<and> inst_ok ni' \<and>
    R (dev ni) (dev ni') \<and> block_count ni' = block_count ni)"
  using assms(2-5)
proof (induction "limit - lb" arbitrary: ni lb)
  case 0
  then show ?case
    by (simp add: nmbm_remap_tail_loop.simps R_refl)
next
  case (Suc k)
  have lb: "lb < limit" "lb < block_count ni"
    using Suc(2,6) by auto
  have small: "Suc lb < 2 ^ 32"
    using lb geomD(11) [OF att_geom [OF Suc(3)]] by simp
  have next_ok: "ensures (nmbm_remap_tail_loop crc (n\<lparr>data_block_count := u32 (data_block_count n + 1)\<rparr>) (lb + 1) limit)
      (\<lambda>ni'. attached ni' \<and> inst_ok ni' \<and> R (dev ni) (dev ni') \<and> block_count ni' = block_count ni)"
    if "aok ni n" for n
  proof -
    have dc: "data_block_count n = lb" "block_count n = block_count ni"
      using aok_fields [OF that] Suc(5) by simp_all
    have "inst_ok (n\<lparr>data_block_count := u32 (data_block_count n + 1)\<rparr>)"
      using aok_inst [OF that] lb small dc by (simp add: inst_ok_def tabs_def tlay_def)
    then show ?thesis
      using that small dc Suc(2,6) R_trans [of "dev ni" "dev n"]
      by (intro ensures_mono [OF Suc(1)]) (auto simp: aok_def)
  qed
  have stop: "attached n \<and> inst_ok n \<and> R (dev ni) (dev n) \<and> block_count n = block_count ni"
    if "aok ni n" for n
    using that aok_fields(1) [OF that] by (simp add: aok_def)
  show ?case
    using lb(1)
    by (subst nmbm_remap_tail_loop.simps)
      (auto dest: stop intro!: next_ok [simplified]
        ensures_bindI [OF map_block_a [OF aok_refl [OF Suc(3,4)] all_areas(1) [OF assms(1)] lb(2)]])
qed

lemma create_info_table_ok:
  assumes "\<And>b. W b" and "attached ni" and "tabs ni" and "0 < mgmt_start_ba ni"
    and "mgmt_start_ba ni < block_count ni" and "signature_ba ni < block_count ni"
    and "\<forall>m\<in>set (block_mapping ni). m < int (block_count ni)" and "data_block_count ni \<le> mgmt_start_ba ni"
  shows "ensures (nmbm_create_info_table crc ni)
    (\<lambda>(success, ni'). attached ni' \<and> (success \<longrightarrow> inst_ok ni') \<and> R (dev ni) (dev ni'))"
proof -
  note g = att_geom [OF assms(2)]
  have walk: "nmbm_block_walk ni False (signature_ba ni) 1 (mgmt_start_ba ni) =
      Some (nth_opt (rev (good_blocks ni (Suc (mgmt_start_ba ni)) (Suc (signature_ba ni)))) 1)"
    using assms(5,6) geomD(10,11,13) [OF g]
    by (simp add: nmbm_block_walk_def walk_desc_eq walk_limit_def)
  have rest: "ensures (do {
        (_, ni) \<leftarrow> nmbm_generate_info_table_cache crc (ni\<lparr>mapping_blocks_top_ba := t\<rparr>);
        (success, ni) \<leftarrow> nmbm_rebuild_info_table ni;
        if \<not> success then Some (False, ni)
        else do {
          ni \<leftarrow> nmbm_remap_tail_loop crc ni (data_block_count ni) (mgmt_start_ba ni);
          (success, ni) \<leftarrow> nmbm_update_info_table crc ni;
          if \<not> success then Some (False, ni) else Some (True, ni)
        } }) (\<lambda>(success, ni'). attached ni' \<and> (success \<longrightarrow> inst_ok ni') \<and> R (dev ni) (dev ni'))"
    if t: "mgmt_start_ba ni < t" "t \<le> signature_ba ni" for t
  proof -
    let ?n1 = "ni\<lparr>mapping_blocks_top_ba := t\<rparr>"
    have tok1: "tok ?n1 ?n1"
      using assms(2,3) by (intro tok_refl) (simp_all add: tabs_def)
    have area: "area hi ?n1" for hi
      using assms(1) by (simp add: area_def may_change_def)
    have rebuild: "ensures (nmbm_rebuild_info_table n) (tpost t ?n1)" if "tok ?n1 n" for n
      using rebuild_new_ok [OF that] tok_fields [OF that] assms(4-6) t area by simp
    have inst: "inst_ok n" if "tok ?n1 n" "tlay t n" for n
      using that tok_fields [OF that(1)] t assms(5-8) by (simp add: inst_ok_def tok_def)
    have final: "ensures (do {
          ni \<leftarrow> nmbm_remap_tail_loop crc n (data_block_count n) (mgmt_start_ba n);
          (success, ni) \<leftarrow> nmbm_update_info_table crc ni;
          if \<not> success then Some (False, ni) else Some (True, ni) })
        (\<lambda>(success, ni'). attached ni' \<and> (success \<longrightarrow> inst_ok ni') \<and> R (dev ni) (dev ni'))"
      if n: "tok ?n1 n" "tlay t n" for n
    proof -
      have Rn: "R (dev ni) (dev n)" and att: "attached n" and lim: "mgmt_start_ba n \<le> block_count n"
        using n(1) tok_fields [OF n(1)] assms(5) by (auto simp: tok_def tstep_def)
      have upd: "ensures (nmbm_update_info_table crc m)
          (\<lambda>(_, ni'). attached ni' \<and> inst_ok ni' \<and> R (dev ni) (dev ni'))"
        if m: "attached m" "inst_ok m" "R (dev n) (dev m)" for m
        by (rule ensures_mono [OF update_info_table_a [OF aok_refl [OF m(1,2)] all_areas(1) [OF assms(1)]]])
          (use R_trans [OF R_trans [OF Rn m(3)]] in \<open>auto simp: aok_def\<close>)
      show ?thesis
        unfolding ensures_bind
        by (rule ensures_mono [OF remap_tail_loop_ok [OF assms(1) att inst [OF n] refl lim]])
          (auto intro!: ensures_mono [OF upd])
    qed
    show ?thesis
      unfolding ensures_bind [of "nmbm_generate_info_table_cache crc ?n1"]
    proof (rule generate_step [OF tok1], unfold prod.case, rule ensures_bindI [OF rebuild])
      fix r assume "tpost t ?n1 r"
      then obtain success n where r: "r = (success, n)" "tok ?n1 n" "tlay t n"
        by (cases r) simp
      then have "attached n" "R (dev ni) (dev n)"
        by (auto simp: tok_def tstep_def)
      then show "ensures (case r of (success, ni) \<Rightarrow> if \<not> success then Some (False, ni)
        else do {
          ni \<leftarrow> nmbm_remap_tail_loop crc ni (data_block_count ni) (mgmt_start_ba ni);
          (success, ni) \<leftarrow> nmbm_update_info_table crc ni;
          if \<not> success then Some (False, ni) else Some (True, ni)
        }) (\<lambda>(success, ni'). attached ni' \<and> (success \<longrightarrow> inst_ok ni') \<and> R (dev ni) (dev ni'))"
        using final [OF r(2,3)] by (simp add: r(1))
    qed
  qed
  show ?thesis
    unfolding nmbm_create_info_table_def walk using assms(2) R_refl rest
    by (auto simp: ensures_bind Let_def set_good_blocks split: option.split dest!: nth_opt_Some_mem)
qed

lemma create_new_ok:
  assumes "\<And>b. W b" and "attached ni" and "tabs ni" and "16 \<le> block_count ni"
    and "block_count ni \<le> 2 ^ 24" and "0 < max_ratio lo" and "max_ratio lo < 15"
    and "length (sig_padding (signature ni)) = 3" and "length (sig_tail (signature ni)) = 4"
    and "flags lo AND NMBM_F_READ_ONLY = 0"
  shows "ensures (nmbm_create_new crc ni)
    (\<lambda>(success, ni'). attached ni' \<and> (success \<longrightarrow> inst_ok ni') \<and> R (dev ni) (dev ni'))"
proof -
  let ?n0 = "ni\<lparr>mgmt_start_ba := nmbm_mgmt_boundary ni\<rparr>"
    and ?Q = "\<lambda>(success, ni'). attached ni' \<and> (success \<longrightarrow> inst_ok ni') \<and> R (dev ni) (dev ni')"
  have "lower ni = lo\<lparr>arg := dev ni\<rparr>"
    using assms(2) by (simp add: attached_to_def)
  then have low: "max_ratio (lower ni) = max_ratio lo"
    by simp
  note b = mgmt_boundary_bounds [OF assms(4,5), unfolded low, OF assms(6,7)]
  have n0: "attached ?n0" "tabs ?n0"
    using assms(2,3) by (simp_all add: tabs_def)
  have "ensures (do {
      ni \<leftarrow> nmbm_build_mapping_table n;
      sig \<leftarrow> nmbm_fill_signature crc ni;
      let ni = ni\<lparr>signature := sig\<rparr>;
      if has_flag ni NMBM_F_READ_ONLY then Some (True, ni)
      else do {
        (r, ni) \<leftarrow> nmbm_write_signature ni (mgmt_start_ba ni) (enc_signature (signature ni));
        case r of None \<Rightarrow> Some (False, ni)
        | Some ba \<Rightarrow> do { let ni = ni\<lparr>signature_ba := ba\<rparr>; nmbm_create_info_table crc ni }
      } }) ?Q" if n: "nok ?n0 n" for n
  proof -
    have att: "attached n" and t: "tabs n" and Rn: "R (dev ni) (dev n)"
      using n n0 nstep_tabs [of R ?n0 n] nstep_dev [of R ?n0 n] by (auto simp: nok_def)
    have f: "block_count n = block_count ni" "mgmt_start_ba n = nmbm_mgmt_boundary ni"
      "signature n = signature ni"
      using frame_fields [OF nstep_frame, of R ?n0 n] n by (simp_all add: nok_def)
    note g = att_geom [OF att]
    define bm where "bm = map int (usable_blocks n 0) @
        replicate (block_count n - length (usable_blocks n 0)) (- 1)"
    define n2 where "n2 = n\<lparr>block_mapping := bm, data_block_count := length (usable_blocks n 0)\<rparr>"
    have u: "length (usable_blocks n 0) \<le> mgmt_start_ba n" "\<forall>x\<in>set (usable_blocks n 0). x < mgmt_start_ba n"
      using length_usable_blocks [of n 0] by (auto simp: usable_blocks_def)
    have build: "nmbm_build_mapping_table n = Some n2"
      unfolding n2_def bm_def using b f geomD(11,13) [OF g] tabsD(8) [OF t]
      by (intro build_mapping_table_eq) auto
    have n2: "attached n2" "tabs n2" "signature n2 = signature ni" "dev n2 = dev n"
      "mgmt_start_ba n2 = mgmt_start_ba n" "block_count n2 = block_count n"
      using att t u(1) f b tabsD(8) [OF t] by (auto simp: n2_def bm_def tabs_def)
    have map: "\<forall>m\<in>set (block_mapping n2). m < int (block_count n)" "data_block_count n2 \<le> mgmt_start_ba n"
      using u f b by (auto simp: n2_def bm_def)
    have wsig: "ensures (nmbm_write_signature n3 (mgmt_start_ba n3) (enc_signature (signature n3)))
        (\<lambda>(r, n4). nok n3 n4 \<and> (\<forall>x. r = Some x \<longrightarrow> x < block_count n))"
      if "n3 = n2\<lparr>signature := sig\<rparr>" "length (enc_signature sig) = sizeof_signature" for n3 sig
    proof -
      have "attached n3" "block_count n3 = block_count n" "sub32 (block_count n) 1 = block_count n - 1"
        using that n2 geomD(10,11) [OF g] by (simp_all add: sub32_1)
      then show ?thesis
        unfolding nmbm_write_signature_def using assms(1) geomD(10) [OF g] that
        by (intro ensures_mono [OF write_signature_loop_n [OF nok_refl]]) (auto simp: may_change_def)
    qed
    have create: "ensures (nmbm_create_info_table crc (n4\<lparr>signature_ba := x\<rparr>)) ?Q"
      if "n3 = n2\<lparr>signature := sig\<rparr>" "nok n3 n4" "x < block_count n" for n3 n4 sig x
    proof -
      have f4: "frame n4 = frame n3" "attached n4" "tabs n4" "R (dev ni) (dev n4)"
        using that n2 nstep_frame [of R n3 n4] nstep_tabs [of R n3 n4] nstep_dev [of R n3 n4]
          R_trans [OF Rn] by (auto simp: nok_def tabs_def)
      show ?thesis
        using frame_fields [OF f4(1)] f4(2-4) that(1,3) n2 map b f R_trans [OF f4(4)]
        by (intro ensures_mono [OF create_info_table_ok [OF assms(1)]]) (auto simp: tabs_def)
    qed
    have stop: "attached n4 \<and> R (dev ni) (dev n4)" if "nok (n2\<lparr>signature := sig\<rparr>) n4" for n4 sig
      using that n2(4) nstep_dev [of R "n2\<lparr>signature := sig\<rparr>" n4] R_trans [OF Rn]
      by (auto simp: nok_def)
    have ro: "\<not> has_flag (n2\<lparr>signature := sig\<rparr>) NMBM_F_READ_ONLY" for sig
      using att_fields(11) [of "n2\<lparr>signature := sig\<rparr>"] n2(1) assms(10) by simp
    have "ensures (nmbm_fill_signature crc n2) (\<lambda>sig. length (enc_signature sig) = sizeof_signature)"
      using n2(3) assms(8,9) by (intro fill_signature_ok) simp_all
    then show ?thesis
      unfolding build by (auto simp: Let_def ro split: option.splits dest: stop
        intro!: create [OF refl] elim!: ensures_bindI intro!: ensures_bindI [OF wsig [OF refl, simplified]])
  qed
  then show ?thesis
    using scan_badblocks_n [OF n0(1)] by (auto simp: nmbm_create_new_def intro: ensures_bindI)
qed

section \<open>Attaching to a chip without a signature\<close>

lemma find_signature_ok:
  assumes "attached ni" and "16 \<le> block_count ni" and "block_count ni \<le> 2 ^ 24"
    and "block_count ni * erasesize lo = chip_size lo" and "0 < max_ratio lo" and "max_ratio lo < 15"
    and "max_reserved_blocks lo = 0 \<or> 32 \<le> max_reserved_blocks lo"
  shows "ensures (nmbm_find_signature crc ni)
    (\<lambda>(r, ni'). nok ni ni' \<and> (\<forall>sig b. r = Some (sig, b) \<longrightarrow> b < block_count ni))"
proof -
  have "lower ni = lo\<lparr>arg := dev ni\<rparr>"
    using assms(1) by (simp add: attached_to_def)
  then have low: "max_ratio (lower ni) = max_ratio lo" "chip_size (lower ni) = chip_size lo"
    "max_reserved_blocks (lower ni) = max_reserved_blocks lo" "erasesize (lower ni) = erasesize lo"
    by simp_all
  have bc: "u32 (drop_bit (erasesize_shift ni) (chip_size (lower ni))) = block_count ni"
    using geomD(2) [OF att_geom [OF assms(1)]] assms(3,4) low
    by (simp add: drop_bit_eq_div flip: assms(4))
  have "0 < nmbm_signature_limit ni (block_count ni)"
    using assms(2,3,5-7) low by (intro signature_limit_pos) simp_all
  then show ?thesis
    unfolding nmbm_find_signature_def Let_def bc
    by (rule find_signature_loop_ok [OF nok_refl [OF assms(1)]])
qed

lemma attach_new_ok:
  assumes "\<And>b. W b" and "nmbm_check_lower_members nld = (True, lo)" and "real_chip nld" and "I (arg lo)"
    and "length (sig_padding (signature ni)) = 3" and "length (sig_tail (signature ni)) = 4"
    and "flags lo AND NMBM_F_CREATE \<noteq> 0" and "flags lo AND NMBM_F_READ_ONLY = 0"
    and "nmbm_find_signature crc (nmbm_init_structure
           (ni\<lparr>log_display_level := NMBM_DEFAULT_LOG_LEVEL, lower := lo\<rparr>)) = Some (None, n1)"
  shows "ensures (nmbm_attach crc nld ni) (\<lambda>(ret, ni').
    attached ni' \<and> ret \<in> {0, - ENODEV} \<and> (ret = 0 \<longrightarrow> inst_ok ni') \<and> R (arg lo) (dev ni'))"
proof -
  let ?n = "ni\<lparr>log_display_level := NMBM_DEFAULT_LOG_LEVEL\<rparr>"
  define n0 where "n0 = nmbm_init_structure (?n\<lparr>lower := lo\<rparr>)"
  note c = check_members_cases [OF assms(2)]
  note f = init_structure_geom [OF assms(2,3), of ?n, folded n0_def]
  have att: "attached n0" and dev0: "dev n0 = arg lo"
    using f(1,3) assms(4) by (simp_all add: attached_to_def dev_def)
  have n1: "nok n0 n1"
    using find_signature_ok [OF att f(5,6,9) c(6,7,8), of crc] assms(9) by (simp add: n0_def)
  then have n1': "attached n1" "tabs n1" "block_count n1 = block_count n0" "signature n1 = signature ni"
    "R (arg lo) (dev n1)"
    using f nstep_tabs [of R n0 n1] frame_fields [OF nstep_frame, of R n0 n1] nstep_dev [of R n0 n1] dev0
    by (auto simp: nok_def)
  have "nmbm_attach crc nld ni = do {
      (success, ni) \<leftarrow> nmbm_create_new crc n1;
      if \<not> success then Some (- ENODEV, ni) else Some (0, ni) }"
    using assms(2,7,9) by (simp add: nmbm_attach_def)
  then show ?thesis
    using create_new_ok [OF assms(1) n1'(1,2), of crc] n1' f(5,6) c(6,7) assms(5,6,8) R_trans [OF n1'(5)]
    by (auto simp: errno_defs elim!: ensures_bindI)
qed

end

end
