(* ===== verification/Nmbm_Nand.thy ===== *)
theory Nmbm_Nand
  imports Nmbm_Create
begin

text \<open>
  What the operations store and return, on a NAND driver whose calls do what they report: a page that
  was read without error has the contents of the page; a page that was programmed without error has
  the bits cleared that are clear in the data, and one whose programming failed has some of them
  cleared; a block that was erased without error holds \<^verbatim>\<open>0xff\<close>. \<open>pg d a\<close> are the contents of the
  page at address \<open>a\<close>.
\<close>

section \<open>Drivers that report truthfully\<close>

definition program :: "byte list \<Rightarrow> byte list \<Rightarrow> byte list" where
  "program old new = map2 (AND) old new"

lemma program_erased: "length data = n \<Longrightarrow> program (replicate n 0xff) data = data"
proof (induction data arbitrary: n)
  case (Cons b bs)
  moreover have "(0xff :: byte) AND b = b"
  proof -
    have "(0xff :: byte) = - 1"
      by simp
    then show ?thesis
      by (metis and.left_neutral)
  qed
  ultimately show ?case
    by (auto simp: program_def)
qed (simp add: program_def)

locale nand =
  fixes lo :: "'d nmbm_lower_device"
    and I :: "'d \<Rightarrow> bool"
    and pg :: "'d \<Rightarrow> nat \<Rightarrow> byte list"
  assumes nd_read_present: "\<exists>rp. read_page lo = Some rp"
    and nd_write_present: "flags lo AND NMBM_F_READ_ONLY = 0 \<Longrightarrow> \<exists>f. write_page lo = Some f"
    and nd_erase_present: "flags lo AND NMBM_F_READ_ONLY = 0 \<Longrightarrow> \<exists>f. erase_block lo = Some f"
    and nd_read: "I d \<Longrightarrow> read_page lo = Some rp \<Longrightarrow> rp d addr data oob mode = (ret, dat, ob, d') \<Longrightarrow>
          I d' \<and> pg d' = pg d \<and> length dat = (if data then writesize lo else 0) \<and>
          length ob \<le> (if oob then oobsize lo else 0)"
    and nd_read_data: "I d \<Longrightarrow> read_page lo = Some rp \<Longrightarrow> addr mod writesize lo = 0 \<Longrightarrow>
          rp d addr True oob mode = (ret, dat, ob, d') \<Longrightarrow> 0 \<le> ret \<Longrightarrow> dat = pg d addr"
    and nd_reset: "I d \<Longrightarrow> reset_chip lo = Some rc \<Longrightarrow> I (snd (rc d)) \<and> pg (snd (rc d)) = pg d"
    and nd_isbad: "I d \<Longrightarrow> is_bad_block lo = Some ib \<Longrightarrow>
          I (snd (ib d addr)) \<and> pg (snd (ib d addr)) = pg d"
    and nd_write: "I d \<Longrightarrow> write_page lo = Some wr \<Longrightarrow> wr d addr dt obx mode = (ret, d') \<Longrightarrow>
          I d' \<and> (addr mod writesize lo = 0 \<longrightarrow>
            (\<forall>a. a div writesize lo \<noteq> addr div writesize lo \<longrightarrow> pg d' a = pg d a) \<and>
            (\<forall>data. dt = Some data \<and> length data = writesize lo \<longrightarrow>
               program (pg d' addr) data = program (pg d addr) data \<and>
               (ret = 0 \<longrightarrow> pg d' addr = program (pg d addr) data)))"
    and nd_erase: "I d \<Longrightarrow> erase_block lo = Some er \<Longrightarrow> er d addr = (ret, d') \<Longrightarrow>
          I d' \<and> (\<forall>a. a div erasesize lo \<noteq> addr div erasesize lo \<longrightarrow> pg d' a = pg d a) \<and>
          (ret = 0 \<longrightarrow> (\<forall>a. a div erasesize lo = addr div erasesize lo \<longrightarrow>
             pg d' a = replicate (writesize lo) 0xff))"
    and nd_mark: "I d \<Longrightarrow> mark_bad_block lo = Some mk \<Longrightarrow> mk d addr = (ret, d') \<Longrightarrow>
          I d' \<and> (\<forall>a. a div erasesize lo \<noteq> addr div erasesize lo \<longrightarrow> pg d' a = pg d a)"

text \<open>As long as nothing is written, all pages are kept; and every call keeps \<open>I\<close>.\<close>

sublocale nand \<subseteq> rd: lower_device lo "\<lambda>d d'. (I d \<longrightarrow> I d') \<and> pg d' = pg d" "\<lambda>_. False" I
proof unfold_locales
  fix d rp addr data oob mode ret dat ob d'
  assume "I d" "read_page lo = Some rp" "rp d addr data oob mode = (ret, dat, ob, d')"
  then show "((I d \<longrightarrow> I d') \<and> pg d' = pg d) \<and> length dat = (if data then writesize lo else 0) \<and>
      length ob \<le> (if oob then oobsize lo else 0)"
    using nd_read by blast
qed (auto simp: nd_read_present nd_write_present nd_erase_present nd_reset nd_isbad)

sublocale nand \<subseteq> every: lower_device lo "\<lambda>d d'. I d \<longrightarrow> I d'" "\<lambda>_. True" I
proof unfold_locales
  fix d rp addr data oob mode ret dat ob d'
  assume "I d" "read_page lo = Some rp" "rp d addr data oob mode = (ret, dat, ob, d')"
  then show "(I d \<longrightarrow> I d') \<and> length dat = (if data then writesize lo else 0) \<and>
      length ob \<le> (if oob then oobsize lo else 0)"
    using nd_read by blast
next
  show "I d \<longrightarrow> I (snd (wr d addr dt obx mode))" if "I d" "write_page lo = Some wr" for d wr addr dt obx mode
    using nd_write [OF that] by (metis prod.collapse)
  show "I d \<longrightarrow> I (snd (er d addr))" if "I d" "erase_block lo = Some er" for d er addr
    using nd_erase [OF that] by (metis prod.collapse)
  show "I d \<longrightarrow> I (snd (mk d addr))" if "I d" "mark_bad_block lo = Some mk" for d mk addr
    using nd_mark [OF that] by (metis prod.collapse)
qed (auto simp: nd_read_present nd_write_present nd_erase_present nd_reset nd_isbad)

section \<open>Reading\<close>

context nand
begin

lemma rd_dev: "rd.dok ni0 ni \<Longrightarrow> pg (dev ni) = pg (dev ni0)"
  using nstep_dev [OF dstep_imp_nstep] by (fastforce simp: rd.dok_def)

lemma read_phys_page_loop_pg:
  assumes "rd.dok ni0 ni" and "0 < n" and "addr mod writesize lo = 0"
  shows "allows (nmbm_read_phys_page_loop n ni addr True oob mode)
    (\<lambda>(ret, dat, ob, ni'). 0 \<le> ret \<longrightarrow> dat = pg (dev ni0) addr)"
  using assms(1,2)
proof (induction n arbitrary: ni)
  case (Suc n)
  obtain rp where rp: "read_page lo = Some rp"
    using nd_read_present by blast
  obtain ret dat ob d where call: "rp (dev ni) addr True oob mode = (ret, dat, ob, d)"
    by (cases "rp (dev ni) addr True oob mode") auto
  have "rd.dok ni0 (set_dev d ni)"
    using rd.read_law [OF rd.att_I [OF rd.dok_att [OF Suc(2)]] rp call]
    by (intro rd.dok_set_dev [OF Suc(2)]) simp
  then show ?case
    using Suc.IH [OF rd.dok_reset] nd_read_data [OF rd.att_I [OF rd.dok_att [OF Suc(2)]] rp assms(3) call]
      rd_dev [OF Suc(2)] rd.att_fields(5) [OF rd.dok_att [OF Suc(2)]] rp call
    by (auto simp: Let_def)
qed simp

lemma read_phys_page_pg:
  assumes "rd.attached ni" and "addr mod writesize lo = 0"
  shows "ensures (nmbm_read_phys_page ni addr True oob mode) (\<lambda>(ret, dat, ob, ni').
    rd.dok ni ni' \<and> length dat = writesize lo \<and> (0 \<le> ret \<longrightarrow> dat = pg (dev ni) addr))"
  using rd.read_phys_page_ok [OF rd.dok_refl [OF assms(1)], of addr True oob mode]
    read_phys_page_loop_pg [OF rd.dok_refl [OF assms(1)] _ assms(2), of NMBM_TRY_COUNT oob mode]
  by (auto simp: nmbm_read_phys_page_def NMBM_TRY_COUNT_def ensures_iff allows_iff)

end

section \<open>The logic flash image\<close>

text \<open>
  The abstract view of the API: a flash array of bytes. The contents of the logic page at \<open>addr\<close> are
  those of the physical page the mapping leads to.
\<close>

definition phys_addr :: "'d nmbm_instance \<Rightarrow> nat \<Rightarrow> nat" where
  "phys_addr ni addr =
     nat (block_mapping ni ! (addr div erasesize (lower ni))) * erasesize (lower ni) +
       addr mod erasesize (lower ni)"

definition logic_page :: "('d \<Rightarrow> nat \<Rightarrow> byte list) \<Rightarrow> 'd nmbm_instance \<Rightarrow> nat \<Rightarrow> byte list" where
  "logic_page pg ni addr = pg (dev ni) (phys_addr ni addr)"

definition logic_byte :: "('d \<Rightarrow> nat \<Rightarrow> byte list) \<Rightarrow> 'd nmbm_instance \<Rightarrow> nat \<Rightarrow> byte" where
  "logic_byte pg ni a =
     logic_page pg ni (a - a mod writesize (lower ni)) ! (a mod writesize (lower ni))"

lemma logic_bytes_chunk:
  assumes "off mod writesize (lower ni) + c \<le> writesize (lower ni)"
    and "length (logic_page pg ni (off - off mod writesize (lower ni))) = writesize (lower ni)"
  shows "take c (drop (off mod writesize (lower ni))
      (logic_page pg ni (off - off mod writesize (lower ni)))) = map (logic_byte pg ni) [off..<off + c]"
proof (rule nth_equalityI)
  let ?ws = "writesize (lower ni)" and ?l = "off mod writesize (lower ni)"
  fix i assume "i < length (take c (drop ?l (logic_page pg ni (off - ?l))))"
  then have i: "i < c"
    by simp
  then have "?l + i < ?ws"
    using assms(1) by simp
  moreover have "off + i = (?l + i) + off div ?ws * ?ws"
    by simp
  ultimately have m: "(off + i) mod ?ws = ?l + i"
    by (metis mod_less mod_mult_self1)
  then have "off + i - (off + i) mod ?ws = off - ?l"
    by simp
  then show "take c (drop ?l (logic_page pg ni (off - ?l))) ! i = map (logic_byte pg ni) [off..<off + c] ! i"
    using i m assms by (simp add: logic_byte_def)
qed (use assms in simp)

text \<open>Bytes of a page that was read into the page cache.\<close>

lemma mem_read_cached:
  assumes "mem_write buf 0 dat = Some pc" and "l + c \<le> length dat"
  shows "mem_read pc l c = Some (take c (drop l dat))"
  using assms by (auto simp: mem_write_def mem_read_def split: if_splits)

text \<open>Address of a page inside its block.\<close>

lemma phys_page_addr:
  assumes "geom ni" and "pb < block_count ni" and "addr mod writesize (lower ni) = 0"
  shows "u64 (ba2addr ni pb + (addr AND erasesize_mask ni)) =
      pb * erasesize (lower ni) + addr mod erasesize (lower ni)"
    and "(pb * erasesize (lower ni) + addr mod erasesize (lower ni)) mod writesize (lower ni) = 0"
proof -
  let ?es = "erasesize (lower ni)"
  have "addr AND erasesize_mask ni = addr mod ?es"
    using assms(1) unfolding geom_def Let_def
    by (metis mask_eq_exp_minus_1 take_bit_eq_mask take_bit_eq_mod)
  moreover have "addr mod ?es < ?es"
    using geom_erasesize_pos [OF assms(1)] by simp
  ultimately show "u64 (ba2addr ni pb + (addr AND erasesize_mask ni)) = pb * ?es + addr mod ?es"
    using geom_addr_bound [OF assms(1,2)] assms(1,2) by (simp add: ba2addr_eq)
  have dvd: "writesize (lower ni) dvd ?es"
    by (rule geom_writesize_dvd [OF assms(1)])
  then have "writesize (lower ni) dvd addr mod ?es"
    using assms(3) by (simp add: dvd_mod_iff mod_eq_0_iff_dvd)
  with dvd show "(pb * ?es + addr mod ?es) mod writesize (lower ni) = 0"
    unfolding mod_eq_0_iff_dvd by (intro dvd_add dvd_mult)
qed

context nand
begin

lemma logic_same:
  assumes "rd.dok ni ni'"
  shows "logic_page pg ni' = logic_page pg ni" "logic_byte pg ni' = logic_byte pg ni"
proof -
  have "erasesize (lower ni') = erasesize (lower ni)" "writesize (lower ni') = writesize (lower ni)"
    "block_mapping ni' = block_mapping ni"
    using assms by (auto simp: rd.dok_def dstep_def)
  then show "logic_page pg ni' = logic_page pg ni" "logic_byte pg ni' = logic_byte pg ni"
    using rd_dev [OF assms] by (simp_all add: fun_eq_iff logic_page_def logic_byte_def phys_addr_def)
qed

lemma read_logic_page_pg:
  assumes "rd.attached ni" and "inst_ok ni" and "addr < ba2addr ni (data_block_count ni)"
    and "addr mod writesize lo = 0"
  shows "ensures (nmbm_read_logic_page ni addr True oob mode) (\<lambda>(ret, dat, ob, ni'). rd.dok ni ni' \<and>
    (0 \<le> ret \<or> ret = - EBADMSG \<longrightarrow> length dat = writesize lo) \<and> length dat \<le> writesize lo \<and>
    (0 \<le> ret \<longrightarrow> dat = logic_page pg ni addr))"
proof -
  note aok = rd.aok_refl [OF assms(1,2)] and g = rd.att_geom [OF assms(1)]
  note a = rd.aok_data_addr [OF aok assms(3)] and f = rd.att_fields [OF assms(1)]
  define pb where "pb = nat (block_mapping ni ! addr2ba ni addr)"
  have pb: "pb < block_count ni" "nmbm_get_block_state ni pb = Some (st_get (block_state ni) pb)"
    if "0 \<le> block_mapping ni ! addr2ba ni addr"
    using inst_ok_mapped [OF assms(2) a(2) that] rd.get_state_a [OF aok] by (simp_all add: pb_def)
  have read: "ensures (nmbm_read_phys_page ni (u64 (ba2addr ni pb + (addr AND erasesize_mask ni))) True oob mode)
      (\<lambda>(ret, dat, ob, ni'). rd.dok ni ni' \<and> length dat = writesize lo \<and>
         (0 \<le> ret \<longrightarrow> dat = logic_page pg ni addr))" if "0 \<le> block_mapping ni ! addr2ba ni addr"
    using read_phys_page_pg [OF assms(1), of "pb * erasesize lo + addr mod erasesize lo" oob mode]
      phys_page_addr [OF g pb(1) [OF that], of addr] assms(4) f(1,2) a(1)
    by (simp add: logic_page_def phys_addr_def pb_def)
  show ?thesis
    using a(3) pb(2) rd.dok_refl [OF assms(1)] read
    by (auto simp: nmbm_read_logic_page_def Let_def ensures_bind errno_defs pb_def [symmetric]
        elim!: ensures_mono)
qed

lemma read_range_loop_pg:
  assumes "rd.dok ni0 ni" and "rd.attached ni0" and "inst_ok ni0"
    and "off + sz \<le> ba2addr ni0 (data_block_count ni0)"
  shows "ensures (nmbm_read_range_loop ni off sz mode acc e m r) (\<lambda>(ret, e', m', bs, rem, ni').
    (\<not> e' \<and> rem = 0 \<longrightarrow> \<not> e \<and> bs = acc @ map (logic_byte pg ni0) [off..<off + sz]))"
  using assms(1,4)
proof (induction sz arbitrary: ni off acc e m r rule: less_induct)
  case (less sz)
  show ?case
  proof (cases "sz = 0")
    case True
    then show ?thesis
      by (simp add: nmbm_read_range_loop.simps)
  next
    case False
    have aok: "rd.aok ni0 ni"
      by (rule rd.dok_aok [OF rd.aok_refl [OF assms(2,3)] less(2)])
    have att: "rd.attached ni" and inst: "inst_ok ni"
      using rd.aok_att [OF aok] rd.aok_inst [OF aok] .
    note f = rd.att_fields [OF att] and g = rd.att_geom [OF att]
    note ch = chunk_size_bounds [OF g, of sz off] and cl = chunk_leading_mod [OF g, of off]
    have off: "off < ba2addr ni0 (data_block_count ni0)"
      using less(3) False by simp
    have pg: "off - off mod writesize lo < ba2addr ni (data_block_count ni)"
      using rd.page_of_data_addr(1) [OF aok off] rd.aok_fields [OF aok] cl f(1) by simp
    have al: "(off - off mod writesize lo) mod writesize lo = 0"
      by (simp add: minus_mod_eq_mult_div)
    have ws: "writesize lo < 2 ^ 32" "writesize (lower n) = writesize lo" if "rd.dok ni n" for n
      using geomD(3) [OF g] f(1) rd.att_fields(1) [OF rd.dok_att [OF that]] by simp_all
    have nowrap: "u64 (off + c) = off + c" if "c \<le> writesize lo" for c
      using that rd.aok_data_addr(4) [OF aok off] ws(1) [OF rd.dok_refl [OF att]] by (intro u64_id) simp
    have IH: "ensures (nmbm_read_range_loop n (u64 (off + c)) (sz - c) mode (acc @ bs) e2 m2 r2)
        (\<lambda>(ret, e', m', bs, rem, ni'). (\<not> e' \<and> rem = 0 \<longrightarrow> \<not> e \<and>
           bs = acc @ map (logic_byte pg ni0) [off..<off + sz]))"
      if n: "rd.dok ni n" and c: "0 < c" "c \<le> sz" "c \<le> writesize lo" and e: "\<not> e2 \<Longrightarrow> \<not> e"
        "\<not> e2 \<Longrightarrow> bs = map (logic_byte pg ni0) [off..<off + c]" for n bs c e2 m2 r2
    proof -
      have "rd.dok ni0 n"
        using less(2) n rd.dok_step [of ni0 ni n] by (simp add: rd.dok_def)
      moreover have "[off..<off + sz] = [off..<off + c] @ [off + c..<off + sz]"
        using c(2) upt_add_eq_append [of off "off + c" "sz - c"] by simp
      ultimately show ?thesis
        using c e less(3) nowrap [OF c(3)] by (intro ensures_mono [OF less(1)]) auto
    qed
    have bytes: "take c (drop (off mod writesize lo) dat) = map (logic_byte pg ni0) [off..<off + c]"
      if "length dat = writesize lo" "dat = logic_page pg ni (off - off mod writesize lo)"
        "off mod writesize lo + c \<le> writesize lo" for dat c
      using logic_bytes_chunk [of off ni c pg] that f(1) logic_same(2) [OF less(2)] by simp
    have store: "ensures (mem_write (page_cache n) 0 dat) (\<lambda>pc. rd.dok ni (n\<lparr>page_cache := pc\<rparr>) \<and>
        mem_write (page_cache n) 0 dat = Some pc)" if "rd.dok ni n" "length dat \<le> writesize lo" for n dat
      using that rd.dok_page_cache_length [OF that(1)] rd.dok_page_cache [OF that(1)]
      by (intro ensures_mem_writeI) auto
    have lead: "chunk_leading ni off = off mod writesize lo"
      using cl f(1) by simp
    have fits: "off mod writesize lo + chunk_size ni off sz \<le> writesize lo"
      using ch(3) cl f(1) False by simp
    have full: "off mod writesize lo = 0" if "chunk_size ni off sz = writesize lo"
      using fits that by simp
    have go: "ensures (nmbm_read_range_loop n (u64 (off + chunk_size ni off sz)) (sz - chunk_size ni off sz)
          mode (acc @ take (chunk_size ni off sz) (drop (off mod writesize lo) dat))
          (if ret = - EBADMSG then True else e) m2 r2)
        (\<lambda>(ret, e', m', bs, rem, ni'). (\<not> e' \<and> rem = 0 \<longrightarrow> \<not> e \<and>
           bs = acc @ map (logic_byte pg ni0) [off..<off + sz]))"
      if n: "rd.dok ni n" and ret: "\<not> (ret < 0 \<and> ret \<noteq> - EBADMSG)"
        and dat: "0 \<le> ret \<or> ret = - EBADMSG \<longrightarrow> length dat = writesize lo"
        "0 \<le> ret \<longrightarrow> dat = logic_page pg ni (off - off mod writesize lo)" for n dat ret m2 r2
    proof (rule IH [OF n])
      assume ok: "\<not> (if ret = - EBADMSG then True else e)"
      then have "0 \<le> ret"
        using ret by (auto split: if_splits)
      then show "take (chunk_size ni off sz) (drop (off mod writesize lo) dat) =
          map (logic_byte pg ni0) [off..<off + chunk_size ni off sz]"
        using dat fits by (intro bytes) auto
      show "\<not> e"
        using ok by (simp split: if_splits)
    qed (use ch(1,2) fits False in auto)
    show ?thesis
      apply (subst nmbm_read_range_loop.simps)
      apply (simp only: False if_False Let_def lead)
      apply (rule ensures_ifI)
      using ch(1) False apply simp
      apply (rule ensures_bindI [OF read_logic_page_pg [OF att inst pg al]])
      apply (clarsimp split del: if_split)
      apply (rule ensures_ifI)
       apply (rule ensures_ifI, simp)
      subgoal for ret dat n
        using go [of n ret dat] full by (simp add: ws(2))
      apply (rule ensures_bindI [OF store], assumption, assumption)
      apply (clarsimp split del: if_split)
      apply (rule ensures_ifI, simp)
      subgoal for ret dat n pc
        using go [of "n\<lparr>page_cache := pc\<rparr>" ret dat] fits by (subst mem_read_cached) auto
      done
  qed
qed

text \<open>
  A read that reports no error returns the bytes of the logic flash image, whatever the alignment of
  the range.
\<close>

lemma read_range_pg:
  assumes "rd.attached ni" and "inst_ok ni" and "addr + sz < 2 ^ 64"
  shows "allows (nmbm_read_range ni addr sz mode) (\<lambda>(ret, bs, retlen, ni').
    0 \<le> ret \<longrightarrow> bs = map (logic_byte pg ni) [addr..<addr + sz])"
proof (cases "addr + sz \<le> ba2addr ni (data_block_count ni)")
  case True
  note aok = rd.aok_refl [OF assms(1,2)]
  have "ensures (nmbm_read_range_loop ni addr sz mode [] False 0 0) (\<lambda>(ret, e', m', bs, rem, ni').
      (ret < 0 \<and> ret \<noteq> - EBADMSG) \<or> e' \<or> bs = map (logic_byte pg ni) [addr..<addr + sz])"
    using ensures_conjI [OF read_range_loop_pg [OF rd.dok_refl [OF assms(1)] assms(1,2) True,
          of mode "[]" False 0 0]
        ensures_allows [OF rd.read_range_loop_a [OF aok True, of mode "[]" False 0 0]]]
    by (rule ensures_mono) auto
  then show ?thesis
    by (auto simp: nmbm_read_range_def Let_def errno_defs ensures_iff allows_iff split: if_splits)
next
  case False
  then show ?thesis
    using assms(3) by (auto simp: nmbm_read_range_def errno_defs)
qed

end

end
