(* ===== verification/Nmbm_Store.thy ===== *)
theory Nmbm_Store
  imports Nmbm_Nand
begin

text \<open>
  What writing and erasing leave in the logic flash image of \<open>Nmbm_Nand\<close>, on a NAND driver that
  reports truthfully: data written to erased pages is read back.
\<close>

section \<open>Addresses\<close>

text \<open>The page an address lies in.\<close>

definition page_of :: "'d nmbm_instance \<Rightarrow> nat \<Rightarrow> nat" where
  "page_of ni a = a - a mod writesize (lower ni)"

lemma page_of_mult: "page_of ni a = a div writesize (lower ni) * writesize (lower ni)"
  by (simp add: page_of_def minus_mod_eq_div_mult)

lemma page_of_mod [simp]: "page_of ni a mod writesize (lower ni) = 0"
  by (simp add: page_of_mult)

lemma page_of_block:
  assumes "geom ni"
  shows "page_of ni a div erasesize (lower ni) = a div erasesize (lower ni)"
  using page_start_div [OF assms, of a] chunk_leading_mod [OF assms, of a] by (simp add: page_of_def)

lemma phys_addr_aligned:
  assumes "geom ni" and "addr mod writesize (lower ni) = 0"
  shows "phys_addr ni addr mod writesize (lower ni) = 0"
proof -
  have "writesize (lower ni) dvd erasesize (lower ni)"
    by (rule geom_writesize_dvd [OF assms(1)])
  then show ?thesis
    using assms(2) by (simp add: phys_addr_def mod_eq_0_iff_dvd dvd_mod_iff)
qed

lemma page_of_same:
  assumes "off mod writesize (lower ni) + c \<le> writesize (lower ni)" and "off \<le> a" and "a < off + c"
  shows "a mod writesize (lower ni) = off mod writesize (lower ni) + (a - off)"
    and "page_of ni a = page_of ni off"
proof -
  let ?ws = "writesize (lower ni)"
  have "a = off mod ?ws + (a - off) + off div ?ws * ?ws"
    using assms(2) by simp
  moreover have "off mod ?ws + (a - off) < ?ws"
    using assms by linarith
  ultimately show "a mod ?ws = off mod ?ws + (a - off)"
    by (metis mod_less mod_mult_self1)
  then show "page_of ni a = page_of ni off"
    using assms(2) by (simp add: page_of_def)
qed

lemma page_of_later:
  assumes "off mod writesize (lower ni) + c = writesize (lower ni)" and "off + c \<le> a"
    and "0 < writesize (lower ni)"
  shows "page_of ni a \<noteq> page_of ni off"
proof -
  let ?ws = "writesize (lower ni)"
  have "page_of ni off + ?ws \<le> a"
    using assms(1,2) mod_less_eq_dividend [of off ?ws] unfolding page_of_def by linarith
  moreover have "a - a mod ?ws + ?ws > a"
    using mod_less_divisor [OF assms(3), of a] mod_less_eq_dividend [of a ?ws] by linarith
  ultimately show ?thesis
    unfolding page_of_def by linarith
qed

lemma chunk_size_eq:
  assumes "geom ni" and "0 < sz"
  shows "chunk_size ni off sz = min (writesize (lower ni) - off mod writesize (lower ni)) sz"
proof -
  have "sub32 (writesize (lower ni)) (off mod writesize (lower ni)) =
      writesize (lower ni) - off mod writesize (lower ni)"
    using geom_writesize_pos [OF assms(1)] geomD(3) [OF assms(1)]
    by (intro sub32_id) (auto intro: less_imp_le)
  then show ?thesis
    using assms by (simp add: chunk_size_def Let_def chunk_leading_mod)
qed

text \<open>
  A range that can be written in place: its blocks are mapped to different blocks and its pages are
  erased.
\<close>

definition range_writable ::
  "'d nmbm_lower_device \<Rightarrow> ('d \<Rightarrow> nat \<Rightarrow> byte list) \<Rightarrow> 'd nmbm_instance \<Rightarrow> nat \<Rightarrow> nat \<Rightarrow> bool" where
  "range_writable lo pg ni off sz \<longleftrightarrow>
     (\<forall>a. off \<le> a \<and> a < off + sz \<longrightarrow>
        0 \<le> block_mapping ni ! (a div erasesize lo) \<and>
        logic_page pg ni (page_of ni a) = replicate (writesize lo) 0xff) \<and>
     (\<forall>a b. off \<le> a \<and> a < off + sz \<and> off \<le> b \<and> b < off + sz \<and>
        a div erasesize lo \<noteq> b div erasesize lo \<longrightarrow>
        block_mapping ni ! (a div erasesize lo) \<noteq> block_mapping ni ! (b div erasesize lo))"

text \<open>The physical pages of a range.\<close>

definition in_pages ::
  "'d nmbm_lower_device \<Rightarrow> 'd nmbm_instance \<Rightarrow> nat \<Rightarrow> nat \<Rightarrow> nat \<Rightarrow> bool" where
  "in_pages lo ni off sz p \<longleftrightarrow>
     (\<exists>a. off \<le> a \<and> a < off + sz \<and> phys_addr ni (page_of ni a) div writesize lo = p div writesize lo)"

text \<open>A logic block that is mapped and erased.\<close>

definition block_erased ::
  "'d nmbm_lower_device \<Rightarrow> ('d \<Rightarrow> nat \<Rightarrow> byte list) \<Rightarrow> 'd nmbm_instance \<Rightarrow> nat \<Rightarrow> bool" where
  "block_erased lo pg ni lb \<longleftrightarrow> 0 \<le> block_mapping ni ! lb \<and>
     (\<forall>a. a div erasesize lo = lb \<longrightarrow> logic_page pg ni a = replicate (writesize lo) 0xff)"

text \<open>Different pages of differently mapped blocks lie on different physical pages.\<close>

lemma phys_page_distinct:
  assumes "geom ni" and "a mod writesize (lower ni) = 0" and "b mod writesize (lower ni) = 0" and "a \<noteq> b"
    and "0 \<le> block_mapping ni ! (a div erasesize (lower ni))"
    and "0 \<le> block_mapping ni ! (b div erasesize (lower ni))"
    and "a div erasesize (lower ni) \<noteq> b div erasesize (lower ni) \<Longrightarrow>
      block_mapping ni ! (a div erasesize (lower ni)) \<noteq> block_mapping ni ! (b div erasesize (lower ni))"
  shows "phys_addr ni a div writesize (lower ni) \<noteq> phys_addr ni b div writesize (lower ni)"
proof
  let ?es = "erasesize (lower ni)" and ?ws = "writesize (lower ni)"
  assume "phys_addr ni a div ?ws = phys_addr ni b div ?ws"
  then have eq: "phys_addr ni a = phys_addr ni b"
    using phys_addr_aligned [OF assms(1,2)] phys_addr_aligned [OF assms(1,3)]
    by (metis mult_div_mod_eq)
  have pos: "0 < ?es"
    by (rule geom_erasesize_pos [OF assms(1)])
  have "phys_addr ni x div ?es = nat (block_mapping ni ! (x div ?es))" "phys_addr ni x mod ?es = x mod ?es" for x
    using pos by (simp_all add: phys_addr_def)
  with eq have "nat (block_mapping ni ! (a div ?es)) = nat (block_mapping ni ! (b div ?es))"
    and m: "a mod ?es = b mod ?es"
    by metis+
  then have "a div ?es = b div ?es"
    using assms(5-7) by (metis nat_eq_iff2)
  with m show False
    using assms(4) by (metis mult_div_mod_eq)
qed

text \<open>The page that \<^verbatim>\<open>nmbm_write_range\<close> puts together in the page cache.\<close>

lemma padded_page:
  assumes "mem_write buf 0 (replicate l x) = Some buf1" and "mem_write buf1 l src = Some buf2"
    and "mem_read buf2 0 ws = Some page" and "l + length src \<le> ws"
  shows "length page = ws" and "take (length src) (drop l page) = src"
proof -
  have "length buf1 = length buf" "length buf2 = length buf" "ws \<le> length buf"
    using assms(1-3) by (auto simp: mem_write_length mem_read_def split: if_splits)
  moreover have "take (length src) (drop l buf2) = src" "page = take ws buf2"
    using assms(2,3) by (auto simp: mem_write_def mem_read_def split: if_splits)
  ultimately show "length page = ws" and "take (length src) (drop l page) = src"
    using assms(4) by (simp_all add: drop_take min_absorb1)
qed

section \<open>Writing pages\<close>

lemma dev_set_dev [simp]: "dev (set_dev d ni) = d"
  by (simp add: set_dev_def dev_def)

context nand
begin

abbreviation writable :: "'d nmbm_instance \<Rightarrow> nat \<Rightarrow> nat \<Rightarrow> bool" where
  "writable \<equiv> range_writable lo pg"

abbreviation erased_block :: "'d nmbm_instance \<Rightarrow> nat \<Rightarrow> bool" where
  "erased_block \<equiv> block_erased lo pg"

lemma every_dok_reset: "every.dok ni0 ni \<Longrightarrow> pg (dev (nmbm_reset_chip ni)) = pg (dev ni)"
proof -
  assume dok: "every.dok ni0 ni"
  have "I (dev ni)" and "reset_chip (lower ni) = reset_chip lo"
    using every.att_I [OF every.dok_att [OF dok]] every.att_fields [OF every.dok_att [OF dok]] by auto
  then show ?thesis
    using nd_reset by (auto simp: nmbm_reset_chip_def set_dev_def dev_def split: option.split)
qed

lemma write_phys_page_loop_pg:
  assumes "every.dok ni0 ni" and "addr mod writesize lo = 0" and "length data = writesize lo"
    and "flags lo AND NMBM_F_READ_ONLY = 0"
  shows "allows (nmbm_write_phys_page_loop n ni addr (Some data) oob mode) (\<lambda>(ok, ni').
    (\<forall>a. a div writesize lo \<noteq> addr div writesize lo \<longrightarrow> pg (dev ni') a = pg (dev ni) a) \<and>
    (ok \<longrightarrow> pg (dev ni') addr = program (pg (dev ni) addr) data))"
  using assms(1)
proof (induction n arbitrary: ni)
  case (Suc n)
  note att = every.dok_att [OF Suc(2)]
  obtain wr where wr: "write_page lo = Some wr"
    using nd_write_present assms(4) by blast
  obtain ret d where call: "wr (dev ni) addr (Some data) oob mode = (ret, d)"
    by (cases "wr (dev ni) addr (Some data) oob mode") auto
  note law = nd_write [OF every.att_I [OF att] wr call]
  have dok: "every.dok ni0 (set_dev d ni)"
    using law by (intro every.dok_set_dev [OF Suc(2)]) simp
  note IH = Suc.IH [OF every.dok_reset [OF dok], unfolded every_dok_reset [OF dok]]
  show ?case
    using law assms(2,3) every.att_fields(6) [OF att] wr call
    by (auto simp: Let_def intro!: allows_mono [OF IH])
qed simp

lemma write_phys_page_pg:
  assumes "every.attached ni" and "addr mod writesize lo = 0" and "length data = writesize lo"
  shows "allows (nmbm_write_phys_page ni addr (Some data) oob mode) (\<lambda>(ok, ni').
    every.dok ni ni' \<and>
    (\<forall>a. a div writesize lo \<noteq> addr div writesize lo \<longrightarrow> pg (dev ni') a = pg (dev ni) a) \<and>
    (ok \<longrightarrow> pg (dev ni') addr = program (pg (dev ni) addr) data))"
  using every.write_phys_page_ok [OF every.dok_refl [OF assms(1)], of addr "Some data" oob mode]
    write_phys_page_loop_pg [OF every.dok_refl [OF assms(1)] assms(2,3), of NMBM_TRY_COUNT oob mode]
    every.att_fields(11) [OF assms(1)]
  by (auto simp: nmbm_write_phys_page_def ensures_iff allows_iff may_change_def every.dok_refl assms(1))

text \<open>A logic page that was written without error.\<close>

lemma write_logic_page_pg:
  assumes "every.attached ni" and "inst_ok ni" and "addr < ba2addr ni (data_block_count ni)"
    and "addr mod writesize lo = 0" and "length data = writesize lo"
  shows "allows (nmbm_write_logic_page crc ni addr (Some data) oob mode) (\<lambda>(ret, ni'). ret = 0 \<longrightarrow>
    every.dok ni ni' \<and> pg (dev ni') (phys_addr ni addr) = program (pg (dev ni) (phys_addr ni addr)) data \<and>
    (\<forall>a. a div writesize lo \<noteq> phys_addr ni addr div writesize lo \<longrightarrow> pg (dev ni') a = pg (dev ni) a))"
proof -
  note aok = every.aok_refl [OF assms(1,2)] and g = every.att_geom [OF assms(1)]
  note a = every.aok_data_addr [OF aok assms(3)] and f = every.att_fields [OF assms(1)]
  define pb where "pb = nat (block_mapping ni ! addr2ba ni addr)"
  have pb: "pb < block_count ni" if "0 \<le> block_mapping ni ! addr2ba ni addr"
    using inst_ok_mapped [OF assms(2) a(2) that] by (simp_all add: pb_def)
  have wr: "allows (nmbm_write_phys_page ni (u64 (ba2addr ni pb + (addr AND erasesize_mask ni))) (Some data) oob mode)
      (\<lambda>(ok, ni'). ok \<longrightarrow> every.dok ni ni' \<and>
        pg (dev ni') (phys_addr ni addr) = program (pg (dev ni) (phys_addr ni addr)) data \<and>
        (\<forall>a. a div writesize lo \<noteq> phys_addr ni addr div writesize lo \<longrightarrow> pg (dev ni') a = pg (dev ni) a))"
    if "0 \<le> block_mapping ni ! addr2ba ni addr"
    using write_phys_page_pg [OF assms(1) _ assms(5), of "phys_addr ni addr" oob mode]
      phys_page_addr [OF g pb [OF that], of addr] assms(4) f(1,2) a(1)
    by (auto simp: phys_addr_def pb_def elim!: allows_mono)
  show ?thesis
    using wr
    by (auto simp: nmbm_write_logic_page_def Let_def allows_bind errno_defs pb_def [symmetric]
        elim!: allows_mono intro!: allows_mono [OF allows_True, where m = "nmbm_get_block_state ni pb"])
      (auto simp: allows_iff split: Option.bind_splits)
qed

section \<open>Writing ranges\<close>

lemma every_same:
  assumes "every.dok ni ni'"
  shows "phys_addr ni' = phys_addr ni" "page_of ni' = page_of ni" "block_mapping ni' = block_mapping ni"
    "writesize (lower ni') = writesize (lower ni)"
proof -
  have "erasesize (lower ni') = erasesize (lower ni)" "writesize (lower ni') = writesize (lower ni)"
    "block_mapping ni' = block_mapping ni"
    using assms by (auto simp: every.dok_def dstep_def)
  then show "phys_addr ni' = phys_addr ni" "page_of ni' = page_of ni" "block_mapping ni' = block_mapping ni"
    "writesize (lower ni') = writesize (lower ni)"
    by (simp_all add: fun_eq_iff phys_addr_def page_of_def)
qed

text \<open>Later pages of the range are other pages than the one that \<open>off\<close> lies in.\<close>

lemma writable_other_page:
  assumes "every.attached ni" and "writable ni off sz" and "off \<le> a" and "a < off + sz"
    and "page_of ni a \<noteq> page_of ni off"
  shows "phys_addr ni (page_of ni a) div writesize lo \<noteq> phys_addr ni (page_of ni off) div writesize lo"
proof -
  note g = every.att_geom [OF assms(1)] and f = every.att_fields [OF assms(1)]
  have "off < off + sz"
    using assms(3,4) by simp
  then show ?thesis
    using phys_page_distinct [OF g page_of_mod page_of_mod, of a off] page_of_block [OF g] assms f(1,2)
    by (auto simp: range_writable_def)
qed

text \<open>What a successful write of the first page of a range leaves, and the pages after it.\<close>

definition wrote :: "'d nmbm_instance \<Rightarrow> nat \<Rightarrow> byte list \<Rightarrow> 'd nmbm_instance \<Rightarrow> bool" where
  "wrote ni P page ni' \<longleftrightarrow> every.dok ni ni' \<and> pg (dev ni') (phys_addr ni P) = page \<and>
     (\<forall>a. a div writesize lo \<noteq> phys_addr ni P div writesize lo \<longrightarrow> pg (dev ni') a = pg (dev ni) a)"

lemma write_erased_page_pg:
  assumes "every.attached ni" and "inst_ok ni" and "P < ba2addr ni (data_block_count ni)"
    and "P mod writesize lo = 0" and "length page = writesize lo"
    and "logic_page pg ni P = replicate (writesize lo) 0xff"
  shows "allows (nmbm_write_logic_page crc ni P (Some page) oob mode)
    (\<lambda>(ret, ni'). ret = 0 \<longrightarrow> wrote ni P page ni')"
  using write_logic_page_pg [OF assms(1-5), of crc oob mode] assms(5,6) program_erased [OF assms(5)]
  by (auto simp: wrote_def logic_page_def elim!: allows_mono)

lemma wrote_writable:
  assumes "every.attached ni" and "writable ni off sz" and "wrote ni (page_of ni off) page ni'"
    and "off mod writesize lo + c = writesize lo \<or> c = sz"
  shows "writable ni' (off + c) (sz - c)"
proof -
  note f = every.att_fields [OF assms(1)] and same = every_same [of ni ni']
  have ws: "0 < writesize lo"
    using geom_writesize_pos [OF every.att_geom [OF assms(1)]] f(1) by simp
  have dok: "every.dok ni ni'"
    using assms(3) by (simp add: wrote_def)
  have "logic_page pg ni' (page_of ni' a) = logic_page pg ni (page_of ni a)"
    if "off + c \<le> a" "a < off + c + (sz - c)" for a
  proof -
    have "page_of ni a \<noteq> page_of ni off"
      using page_of_later [of off ni c a] that assms(4) ws f(1) by auto
    then have "phys_addr ni (page_of ni a) div writesize lo \<noteq> phys_addr ni (page_of ni off) div writesize lo"
      using that by (intro writable_other_page [OF assms(1,2)]) auto
    then show ?thesis
      using assms(3) same [OF dok] by (simp add: wrote_def logic_page_def)
  qed
  then show ?thesis
    using assms(2) same [OF dok] by (auto simp: range_writable_def)
qed

text \<open>The bytes of a page that was written, and what later writes to other pages leave of it.\<close>

lemma wrote_bytes:
  assumes "every.attached ni" and "wrote ni (page_of ni off) page n" and "every.dok n n'"
    and "pg (dev n') (phys_addr ni (page_of ni off)) = pg (dev n) (phys_addr ni (page_of ni off))"
    and "off mod writesize lo + c \<le> writesize lo" and "length page = writesize lo"
    and "take c (drop (off mod writesize lo) page) = src" and "off \<le> a" and "a < off + c"
  shows "logic_byte pg n' a = src ! (a - off)"
proof -
  note f = every.att_fields [OF assms(1)]
  have dok: "every.dok ni n"
    using assms(2) by (simp add: wrote_def)
  note same = every_same [OF dok] every_same [OF assms(3)]
  have p: "page_of ni a = page_of ni off" "a mod writesize lo = off mod writesize lo + (a - off)"
    using page_of_same [of off ni c a] assms(5,8,9) f(1) by simp_all
  have "logic_byte pg n' a = page ! (a mod writesize lo)"
    using assms(2,4) same p(1) f(1) unfolding page_of_def
    by (simp add: logic_byte_def logic_page_def wrote_def page_of_def)
  also have "\<dots> = src ! (a - off)"
    unfolding assms(7) [symmetric] using assms(5,6,8,9) p(2) by simp
  finally show ?thesis .
qed

lemma wrote_cache:
  assumes "every.dok ni m" and "dev m = dev ni" and "wrote m P page n"
  shows "wrote ni P page n"
  using assms every_same [OF assms(1)] every.dok_step [OF assms(1), of n]
  by (auto simp: wrote_def every.dok_def)

text \<open>One pass of the loop of \<^verbatim>\<open>nmbm_write_range\<close>, up to the page that is written.\<close>

lemma write_chunk_pg:
  fixes ni off src
  defines "l \<equiv> off mod writesize lo" and "P \<equiv> page_of ni off"
  assumes "every.attached ni" and "inst_ok ni" and "P < ba2addr ni (data_block_count ni)"
    and "logic_page pg ni P = replicate (writesize lo) 0xff" and "l + c \<le> writesize lo" and "length src = c"
  shows "allows (if c = writesize lo then nmbm_write_logic_page crc ni P (Some src) None mode
      else do {
        pc \<leftarrow> mem_write (page_cache ni) 0 (replicate l 0xff);
        pc \<leftarrow> mem_write pc l src;
        page \<leftarrow> mem_read pc 0 (writesize lo);
        nmbm_write_logic_page crc (ni\<lparr>page_cache := pc\<rparr>) P (Some page) None mode
      }) (\<lambda>(ret, n). ret = 0 \<longrightarrow> (\<exists>page. wrote ni P page n \<and> length page = writesize lo \<and>
           take c (drop l page) = src))"
proof -
  note f = every.att_fields [OF assms(3)] and aok = every.aok_refl [OF assms(3,4)]
  have page: "allows (nmbm_write_logic_page crc n P (Some page) None mode)
      (\<lambda>(ret, n'). ret = 0 \<longrightarrow> wrote ni P page n')"
    if n: "every.dok ni n" "dev n = dev ni" and len: "length page = writesize lo" for n page
  proof -
    have "P < ba2addr n (data_block_count n)"
      using assms(5) every.aok_fields [OF every.dok_aok [OF aok n(1)]] by simp
    moreover have "P mod writesize lo = 0"
      using page_of_mod [of ni off] f(1) by (simp add: P_def)
    moreover have "logic_page pg n P = replicate (writesize lo) 0xff"
      using assms(6) every_same(1) [OF n(1)] n(2) by (simp add: logic_page_def)
    ultimately show ?thesis
      by (intro allows_mono [OF write_erased_page_pg [OF every.dok_att [OF n(1)]
              every.aok_inst [OF every.dok_aok [OF aok n(1)]] _ _ len]])
        (auto intro: wrote_cache [OF n])
  qed
  show ?thesis
  proof (cases "c = writesize lo")
    case True
    then have "l = 0"
      using assms(7) by simp
    then show ?thesis
      using True assms(8) by (auto intro!: allows_mono [OF page [OF every.dok_refl [OF assms(3)] refl]])
  next
    case False
    have cached: "every.dok ni (ni\<lparr>page_cache := pc\<rparr>)" "dev (ni\<lparr>page_cache := pc\<rparr>) = dev ni"
      if "length pc = length (page_cache ni)" for pc
      using every.dok_page_cache [OF every.dok_refl [OF assms(3)] that] by (simp_all add: dev_def)
    have "allows (nmbm_write_logic_page crc (ni\<lparr>page_cache := pc2\<rparr>) P (Some pag) None mode)
        (\<lambda>(ret, n). ret = 0 \<longrightarrow> (\<exists>page. wrote ni P page n \<and> length page = writesize lo \<and>
           take c (drop l page) = src))"
      if "mem_write (page_cache ni) 0 (replicate l 0xff) = Some pc1" "mem_write pc1 l src = Some pc2"
        "mem_read pc2 0 (writesize lo) = Some pag" for pc1 pc2 pag
      using padded_page [OF that] assms(7,8) mem_write_length [OF that(1)] mem_write_length [OF that(2)]
      by (intro allows_mono [OF page [OF cached]]) auto
    then show ?thesis
      using False by (auto simp: allows_bind allows_iff [of "mem_write a b c" for a b c]
          allows_iff [of "mem_read a b c" for a b c])
  qed
qed

text \<open>The range holds the data from position \<open>ptr\<close> on, and no other page has changed.\<close>

definition stored ::
  "'d nmbm_instance \<Rightarrow> nat \<Rightarrow> nat \<Rightarrow> byte list \<Rightarrow> nat \<Rightarrow> 'd nmbm_instance \<Rightarrow> bool" where
  "stored ni off sz data ptr ni' \<longleftrightarrow> every.dok ni ni' \<and>
     (\<forall>a. off \<le> a \<and> a < off + sz \<longrightarrow> logic_byte pg ni' a = data ! (ptr + a - off)) \<and>
     (\<forall>p. \<not> in_pages lo ni off sz p \<longrightarrow> pg (dev ni') p = pg (dev ni) p)"

lemma stored_rest:
  assumes "every.attached ni" and "writable ni off sz" and "wrote ni (page_of ni off) page n"
    and "length page = writesize lo" and "take c (drop (off mod writesize lo) page) = take c (drop ptr data)"
    and "c \<le> sz" and "off mod writesize lo + c = writesize lo \<or> c = sz"
    and "off mod writesize lo + c \<le> writesize lo" and "ptr + c \<le> length data" and "0 < c"
    and "stored n (off + c) (sz - c) data (ptr + c) n'"
  shows "stored ni off sz data ptr n'"
proof -
  have ws: "0 < writesize (lower ni)" "writesize (lower ni) = writesize lo"
    using geom_writesize_pos [OF every.att_geom [OF assms(1)]] every.att_fields(1) [OF assms(1)] by simp_all
  have dok: "every.dok ni n" and dok': "every.dok n n'"
    using assms(3,11) by (simp_all add: wrote_def stored_def)
  note same = every_same [OF dok]
  have frame: "pg (dev n') p = pg (dev n) p" if "\<not> in_pages lo n (off + c) (sz - c) p" for p
    using assms(11) that by (simp add: stored_def)
  have "phys_addr ni (page_of ni a) div writesize lo \<noteq> phys_addr ni (page_of ni off) div writesize lo"
    if "off + c \<le> a" "a < off + sz" for a
    using page_of_later [of off ni c a] that assms(7) ws
    by (intro writable_other_page [OF assms(1,2)]) auto
  then have "\<not> in_pages lo n (off + c) (sz - c) (phys_addr ni (page_of ni off))"
    using same assms(6) by (auto simp: in_pages_def)
  note first = wrote_bytes [OF assms(1,3) dok' frame [OF this] assms(8,4,5)]
  have "logic_byte pg n' a = data ! (ptr + a - off)" if "off \<le> a" "a < off + sz" for a
    using first [of a] that assms(6,9,11) by (cases "a < off + c") (simp_all add: stored_def)
  moreover have "pg (dev n') p = pg (dev ni) p" if "\<not> in_pages lo ni off sz p" for p
  proof -
    have "\<not> in_pages lo n (off + c) (sz - c) p"
      using that assms(6) same by (auto simp: in_pages_def)
    moreover have "p div writesize lo \<noteq> phys_addr ni (page_of ni off) div writesize lo"
      using that assms(6,10) unfolding in_pages_def
      by (metis le_add1 le_refl less_add_same_cancel1 less_le_trans)
    ultimately show ?thesis
      using assms(3) frame by (simp add: wrote_def)
  qed
  moreover have "every.dok ni n'"
    using every.dok_step [OF dok, of n'] dok' by (simp add: every.dok_def)
  ultimately show ?thesis
    by (simp add: stored_def)
qed

lemma write_range_loop_pg:
  assumes "every.dok ni0 ni" and "every.attached ni0" and "inst_ok ni0"
    and "off + sz \<le> ba2addr ni0 (data_block_count ni0)" and "writable ni off sz"
  shows "allows (nmbm_write_range_loop crc ni off data ptr sz mode r)
    (\<lambda>(ret, rem, ni'). ret = 0 \<longrightarrow> stored ni off sz data ptr ni')"
  using assms(1,4,5)
proof (induction sz arbitrary: ni off ptr r rule: less_induct)
  case (less sz)
  show ?case
  proof (cases "sz = 0")
    case True
    then show ?thesis
      using every.dok_refl [OF every.dok_att [OF less(2)]]
      by (auto simp: nmbm_write_range_loop.simps stored_def)
  next
    case False
    let ?c = "chunk_size ni off sz" and ?P = "page_of ni off" and ?l = "off mod writesize lo"
    have aok: "every.aok ni0 ni"
      by (rule every.dok_aok [OF every.aok_refl [OF assms(2,3)] less(2)])
    note att = every.aok_att [OF aok] and inst = every.aok_inst [OF aok]
    note f = every.att_fields [OF att] and g = every.att_geom [OF att]
    have lead: "chunk_leading ni off = ?l" and P: "off - ?l = ?P"
      using chunk_leading_mod [OF g, of off] f(1) by (simp_all add: page_of_def)
    have c: "0 < ?c" "?c \<le> sz" "?l + ?c \<le> writesize lo"
      using chunk_size_bounds [OF g, of sz off] lead False f(1) by simp_all
    have last: "?l + ?c = writesize lo \<or> ?c = sz"
      using c(3) chunk_size_eq [OF g, of sz off] False f(1) by (auto simp: min_def split: if_splits)
    have off: "off < ba2addr ni0 (data_block_count ni0)"
      using less(3) False by simp
    have Pend: "?P < ba2addr ni (data_block_count ni)"
      using every.page_of_data_addr(1) [OF aok off] every.aok_fields [OF aok] lead P by simp
    have erased: "logic_page pg ni ?P = replicate (writesize lo) 0xff"
      using less(4) False by (simp add: range_writable_def)
    have nowrap: "u64 (off + ?c) = off + ?c"
      using c(3) every.aok_data_addr(4) [OF aok off] geomD(3) [OF g] f(1) by (intro u64_id) simp
    have rest: "allows (nmbm_write_range_loop crc n (off + ?c) data (ptr + ?c) (sz - ?c) mode 0)
        (\<lambda>(ret, rem, ni'). ret = 0 \<longrightarrow> stored ni off sz data ptr ni')"
      if w: "wrote ni ?P page n" "length page = writesize lo"
        "take ?c (drop ?l page) = take ?c (drop ptr data)" "ptr + ?c \<le> length data" for n page
    proof -
      have dok: "every.dok ni0 n"
        using w(1) every.dok_step [OF less(2), of n] by (simp add: wrote_def every.dok_def)
      note IH = less(1) [OF _ dok _ wrote_writable [OF att less(4) w(1) last], of "ptr + ?c" 0]
      show ?thesis
        using c(1,2) less(3)
        by (intro allows_mono [OF IH])
          (auto intro: stored_rest [OF att less(4) w(1-3) c(2) last c(3) w(4) c(1)])
    qed
    have cache: "page_cache (ni\<lparr>page_cache := pc\<rparr>) = pc"
      "writesize (lower (ni\<lparr>page_cache := pc\<rparr>)) = writesize lo" for pc
      using f(1) by simp_all
    have src: "length src = ?c \<and> take ?c (drop ptr data) = src \<and> ptr + ?c \<le> length data"
      if "mem_read data ptr ?c = Some src" for src
      using that by (auto simp: mem_read_def split: if_splits)
    show ?thesis
      apply (subst nmbm_write_range_loop.simps)
      apply (simp only: False if_False Let_def lead P nowrap f(1) cache less_imp_neq [OF c(1), symmetric])
      apply (rule allows_bindI [where P = "\<lambda>src. mem_read data ptr ?c = Some src"], simp add: allows_iff)
      subgoal for src
        using src [of src]
        by (intro allows_bindI [OF write_chunk_pg [OF att inst Pend erased c(3)]]) (auto intro!: rest)
      done
  qed
qed

lemma write_range_pg:
  assumes "every.attached ni" and "inst_ok ni" and "addr + sz < 2 ^ 64" and "writable ni addr sz"
  shows "allows (nmbm_write_range crc ni addr sz data mode)
    (\<lambda>(ret, retlen, ni'). ret = 0 \<longrightarrow> stored ni addr sz data 0 ni')"
proof (cases "sz = 0")
  case True
  then show ?thesis
    using every.dok_refl [OF assms(1)] by (auto simp: nmbm_write_range_def stored_def errno_defs)
next
  case False
  then show ?thesis
    using write_range_loop_pg [OF every.dok_refl [OF assms(1)] assms(1,2) _ assms(4), of crc data 0 mode 0] assms(3)
    by (auto simp: nmbm_write_range_def errno_defs allows_bind elim!: allows_mono)
qed

section \<open>Erasing\<close>

lemma erase_phys_block_loop_pg:
  assumes "every.dok ni0 ni" and "flags lo AND NMBM_F_READ_ONLY = 0"
  shows "allows (nmbm_erase_phys_block_loop n ni addr) (\<lambda>(ok, ni').
    ok \<longrightarrow> (\<forall>a. a div erasesize lo = addr div erasesize lo \<longrightarrow>
      pg (dev ni') a = replicate (writesize lo) 0xff))"
  using assms(1)
proof (induction n arbitrary: ni)
  case (Suc n)
  note att = every.dok_att [OF Suc(2)]
  obtain er where er: "erase_block lo = Some er"
    using nd_erase_present assms(2) by blast
  obtain ret d where call: "er (dev ni) addr = (ret, d)"
    by (cases "er (dev ni) addr") auto
  note law = nd_erase [OF every.att_I [OF att] er call]
  have dok: "every.dok ni0 (set_dev d ni)"
    using law by (intro every.dok_set_dev [OF Suc(2)]) simp
  show ?case
    using law every.att_fields(7) [OF att] er call Suc.IH [OF every.dok_reset [OF dok]]
    by (auto simp: Let_def)
qed simp

lemma erase_check_loop_pg:
  assumes "rd.dok ni0 ni"
  shows "allows (nmbm_erase_check_loop offs ni addr) (\<lambda>(_, ni'). pg (dev ni') = pg (dev ni0))"
  using ensures_allows [OF rd.erase_check_loop_ok [OF assms, of offs addr]]
  by (rule allows_mono) (auto dest: rd_dev)

lemma erase_block_and_check_pg:
  assumes "every.attached ni" and "ba < block_count ni"
  shows "allows (nmbm_erase_block_and_check ni ba) (\<lambda>(ok, ni').
    ok \<longrightarrow> (\<forall>a. a div erasesize lo = ba \<longrightarrow> pg (dev ni') a = replicate (writesize lo) 0xff))"
proof -
  have div: "ba2addr ni ba div erasesize lo = ba"
    using ba2addr_div [OF every.att_geom [OF assms(1)] assms(2)] every.att_fields(2) [OF assms(1)] by simp
  have "allows (nmbm_erase_phys_block ni (ba2addr ni ba)) (\<lambda>(ok, ni'). every.dok ni ni' \<and>
      (ok \<longrightarrow> (\<forall>a. a div erasesize lo = ba \<longrightarrow> pg (dev ni') a = replicate (writesize lo) 0xff)))"
    using every.erase_phys_block_ok [OF every.dok_refl [OF assms(1)], of "ba2addr ni ba"] div
      erase_phys_block_loop_pg [OF every.dok_refl [OF assms(1)], of NMBM_TRY_COUNT "ba2addr ni ba"]
      every.att_fields(11) [OF assms(1)]
    by (auto simp: nmbm_erase_phys_block_def ensures_iff allows_iff may_change_def)
  then show ?thesis
    unfolding nmbm_erase_block_and_check_def
    by (rule allows_bindI)
      (auto intro!: allows_mono [OF erase_check_loop_pg [OF rd.dok_refl]] dest: every.dok_att)
qed

lemma remap_not_done: "allows (nmbm_remap_logic_block crc ni lb pb) (\<lambda>(r, ni'). r \<noteq> Some 0)"
  by (auto simp: nmbm_remap_logic_block_def allows_iff errno_defs Let_def split: Option.bind_splits if_splits)

lemma erase_pass_pg:
  assumes "every.attached ni" and "inst_ok ni" and "lb < block_count ni"
  shows "allows (nmbm_erase_logic_block_pass crc ni lb) (\<lambda>(r, ni'). r = Some 0 \<longrightarrow> erased_block ni' lb)"
proof -
  note aok = every.aok_refl [OF assms(1,2)]
  let ?pb = "nat (block_mapping ni ! lb)"
  have good: "allows (nmbm_erase_block_and_check n ?pb) (\<lambda>(ok, ni'). ok \<longrightarrow> erased_block ni' lb)"
    if n: "every.dok ni n" and m: "0 \<le> block_mapping ni ! lb" for n
  proof -
    have pb: "?pb < block_count n"
      using inst_ok_mapped [OF assms(2,3) m] every.aok_fields(1) [OF every.dok_aok [OF aok n]] by simp
    have "ensures (nmbm_erase_block_and_check n ?pb) (\<lambda>(_, n'). every.dok ni n')"
      using inst_ok_mapped [OF assms(2,3) m]
      by (intro ensures_mono [OF every.erase_block_and_check_ok [OF n]]) (auto simp: may_change_def)
    then have "allows (nmbm_erase_block_and_check n ?pb) (\<lambda>(ok, n'). every.dok ni n' \<and>
       (ok \<longrightarrow> (\<forall>a. a div erasesize lo = ?pb \<longrightarrow> pg (dev n') a = replicate (writesize lo) 0xff)))"
      using erase_block_and_check_pg [OF every.dok_att [OF n] pb] by (auto simp: ensures_iff allows_iff)
    then show ?thesis
    proof (rule allows_mono, clarify)
      fix ok n'
      assume n': "every.dok ni n'" and "\<forall>a. a div erasesize lo = ?pb \<longrightarrow> pg (dev n') a = replicate (writesize lo) 0xff"
      moreover have "phys_addr n' a div erasesize lo = ?pb" if "a div erasesize lo = lb" for a
        using that every.dok_mapping [OF n'] geom_erasesize_pos [OF every.att_geom [OF assms(1)]]
          every.att_fields(2) [OF every.dok_att [OF n']] every.att_fields(2) [OF assms(1)]
        by (simp add: phys_addr_def)
      ultimately show "erased_block n' lb"
        using m every.dok_mapping [OF n'] by (simp add: block_erased_def logic_page_def)
    qed
  qed
  have bad: "allows (nmbm_check_bad_phys_block ni ?pb) (\<lambda>(_, n). every.dok ni n)"
    if "0 \<le> block_mapping ni ! lb"
    using inst_ok_mapped [OF assms(2,3) that]
    by (intro allows_mono [OF ensures_allows [OF every.check_bad_phys_block_ok [OF every.dok_refl [OF assms(1)]]]]) auto
  have remap: "allows (nmbm_remap_logic_block crc n lb pb) (\<lambda>(r, ni'). r = Some 0 \<longrightarrow> erased_block ni' lb)" for n pb
    by (rule allows_mono [OF remap_not_done]) auto
  have retire: "allows (nmbm_retire_block n ?pb \<bind> (\<lambda>ni. nmbm_remap_logic_block crc ni lb ?pb))
      (\<lambda>(r, ni'). r = Some 0 \<longrightarrow> erased_block ni' lb)" for n
    by (rule allows_bindI [OF allows_True]) (rule remap)
  have state: "allows (nmbm_set_block_state n ?pb st \<bind> (\<lambda>(_, ni). nmbm_remap_logic_block crc ni lb ?pb))
      (\<lambda>(r, ni'). r = Some 0 \<longrightarrow> erased_block ni' lb)" for n st
    by (rule allows_bindI [OF allows_True]) (auto intro: remap)
  have check: "allows (nmbm_check_bad_phys_block ni ?pb \<bind> (\<lambda>(bad, ni).
      if bad then do {
        (_, ni) \<leftarrow> nmbm_set_block_state ni ?pb BLOCK_ST_BAD;
        nmbm_remap_logic_block crc ni lb ?pb
      } else do {
        (success, ni) \<leftarrow> nmbm_erase_block_and_check ni ?pb;
        if success then Some (Some 0, ni)
        else do {
          ni \<leftarrow> nmbm_retire_block ni ?pb;
          nmbm_remap_logic_block crc ni lb ?pb
        }
      })) (\<lambda>(r, ni'). r = Some 0 \<longrightarrow> erased_block ni' lb)" if m: "0 \<le> block_mapping ni ! lb"
    by (rule allows_bindI [OF bad [OF m]])
      (auto intro!: state retire allows_bindI [OF good [OF _ m]])
  show ?thesis
    unfolding nmbm_erase_logic_block_pass_def Let_def
    by (rule allows_bindI [where P = "\<lambda>m. m = block_mapping ni ! lb"])
      (auto simp: errno_defs intro!: remap check allows_bindI [OF allows_True, where m = "nmbm_get_block_state ni ?pb"])
qed

text \<open>Whatever is remapped on the way, a block whose erasure is reported as done is erased.\<close>

lemma erase_logic_block_pg:
  assumes "every.attached ni" and "inst_ok ni" and "lb < block_count ni"
  shows "allows (nmbm_erase_logic_block crc ni lb) (\<lambda>(ret, ni'). ret = 0 \<longrightarrow> erased_block ni' lb)"
proof -
  define ok where "ok = (\<lambda>(crc :: crc_fun) ni lb r. every.attached ni \<longrightarrow> inst_ok ni \<longrightarrow> lb < block_count ni \<longrightarrow>
      fst r = (0 :: int) \<longrightarrow> erased_block (snd r) lb)"
  have "ok crc ni lb r" if "nmbm_erase_logic_block crc ni lb = Some r" for r
    using _ that
  proof (rule nmbm_erase_logic_block.raw_induct)
    fix f crc ni lb r
    assume IH: "\<And>crc ni lb r. f crc ni lb = Some r \<Longrightarrow> ok crc ni lb r"
      and step: "(nmbm_erase_logic_block_pass crc ni lb \<bind> (\<lambda>(r, ni). case r of None \<Rightarrow> f crc ni lb
        | Some ret \<Rightarrow> Some (ret, ni))) = Some r"
    show "ok crc ni lb r"
      unfolding ok_def
    proof (intro impI)
      assume a: "every.attached ni" "inst_ok ni" "lb < block_count ni" "fst r = 0"
      have "ensures (nmbm_erase_logic_block_pass crc ni lb)
          (\<lambda>(r, n). every.attached n \<and> inst_ok n \<and> block_count n = block_count ni)"
        by (rule ensures_mono [OF every.erase_logic_block_pass_a [OF every.aok_refl [OF a(1,2)]
                every.all_areas(1) [OF TrueI] a(3)]])
          (auto simp: may_change_def dest: every.aok_att every.aok_inst every.aok_fields(1))
      then obtain q n where q: "nmbm_erase_logic_block_pass crc ni lb = Some (q, n)" "every.attached n"
          "inst_ok n" "block_count n = block_count ni"
        by (auto simp: ensures_iff)
      then show "erased_block (snd r) lb"
        using step IH [of crc n lb r] a erase_pass_pg [OF a(1-3), of crc]
        by (cases q) (auto simp: ok_def)
    qed
  qed
  then show ?thesis
    using assms by (auto simp: allows_iff ok_def)
qed

text \<open>The API function on a range inside one block.\<close>

lemma erase_block_range_pg:
  assumes "every.attached ni" and "inst_ok ni" and "addr + sz \<le> ba2addr ni (data_block_count ni)"
    and "addr div erasesize lo = lb" and "(addr + sz - 1) div erasesize lo = lb" and "0 < sz"
  shows "allows (nmbm_erase_block_range crc ni addr sz) (\<lambda>(ret, failed, ni'). ret = 0 \<longrightarrow> erased_block ni' lb)"
proof -
  note aok = every.aok_refl [OF assms(1,2)]
  have end_addr: "addr < ba2addr ni (data_block_count ni)" "addr + sz - 1 < ba2addr ni (data_block_count ni)"
    using assms(3,6) by simp_all
  note a = every.aok_data_addr [OF aok end_addr(1)] and b = every.aok_data_addr [OF aok end_addr(2)]
  have lb: "addr2ba ni addr = lb" "addr2ba ni (addr + sz - 1) = lb" "lb < block_count ni"
    using a b assms(4,5) by auto
  have "sub64 (addr + sz) 1 = addr + sz - 1"
    using b(4) assms(6) by (intro sub64_id') auto
  moreover have "block_count ni < 2 ^ 32"
    using geomD [OF every.att_geom [OF assms(1)]] by simp
  moreover have "nmbm_erase_block_range_loop crc n (Suc b) b = Some (0, None, n)" for n :: "'d nmbm_instance" and b
    by (subst nmbm_erase_block_range_loop.simps) simp
  ultimately show ?thesis
    using lb erase_logic_block_pg [OF assms(1,2) lb(3), of crc] assms(3,6) end_addr b(4)
    by (auto simp: nmbm_erase_block_range_def nmbm_erase_block_range_loop.simps [of crc _ lb] errno_defs
        allows_bind elim!: allows_mono)
qed

section \<open>Erasing, writing, reading\<close>

lemma erased_writable:
  assumes "every.attached ni" and "erased_block ni lb"
    and "addr div erasesize lo = lb" and "(addr + sz - 1) div erasesize lo = lb"
  shows "writable ni addr sz"
proof -
  have lb: "a div erasesize lo = lb" if "addr \<le> a" "a < addr + sz" for a
    using div_le_mono [OF that(1), of "erasesize lo"] div_le_mono [of a "addr + sz - 1" "erasesize lo"]
      that assms(3,4) by simp
  then show ?thesis
    using assms(2) page_of_block [OF every.att_geom [OF assms(1)]] every.att_fields(2) [OF assms(1)]
    by (auto simp: range_writable_def block_erased_def)
qed

lemma stored_read:
  assumes "stored ni addr sz data 0 ni'" and "sz \<le> length data"
  shows "map (logic_byte pg ni') [addr..<addr + sz] = take sz data"
  using assms by (intro nth_equalityI) (auto simp: stored_def)

lemma write_read_pg:
  assumes "every.attached ni" and "inst_ok ni" and "addr + sz < 2 ^ 64" and "sz \<le> length data"
  shows "ensures (do {
      (r2, _, ni) \<leftarrow> nmbm_write_range crc ni addr sz data mode;
      (r3, bs, _, ni) \<leftarrow> nmbm_read_range ni addr sz mode;
      Some (r2, r3, bs)
    }) (\<lambda>(r2, r3, bs). writable ni addr sz \<and> r2 = 0 \<and> 0 \<le> r3 \<longrightarrow> bs = take sz data)"
proof (rule ensures_bindI)
  note areas = every.all_areas(1) [OF TrueI] every.all_areas(2) [OF TrueI]
  show "ensures (nmbm_write_range crc ni addr sz data mode) (\<lambda>(ret, _, n). every.attached n \<and> inst_ok n \<and>
      (writable ni addr sz \<and> ret = 0 \<longrightarrow> stored ni addr sz data 0 n))"
    using every.write_range_a [OF every.aok_refl [OF assms(1,2)] areas(1) assms(3,4) areas(2), of crc mode]
      write_range_pg [OF assms(1-3), of crc data mode]
    by (auto simp: ensures_iff dest: every.aok_att every.aok_inst)
  fix x
  assume "case x of (ret, _, n) \<Rightarrow> every.attached n \<and> inst_ok n \<and> (writable ni addr sz \<and> ret = 0 \<longrightarrow> stored ni addr sz data 0 n)"
  then obtain ret rl n where x: "x = (ret, rl, n)" "every.attached n" "inst_ok n"
      "writable ni addr sz \<Longrightarrow> ret = 0 \<Longrightarrow> stored ni addr sz data 0 n"
    by (cases x) auto
  have "ensures (nmbm_read_range n addr sz mode) (\<lambda>(r3, bs, _, _). writable ni addr sz \<and> ret = 0 \<and> 0 \<le> r3 \<longrightarrow> bs = take sz data)"
    using ensures_conjI [OF rd.read_range_a [OF rd.aok_refl [OF x(2,3)] assms(3)] read_range_pg [OF x(2,3) assms(3)]]
    by (rule ensures_mono) (use x(4) stored_read assms(4) in auto)
  then show "ensures (case x of (r2, _, ni) \<Rightarrow> do {
      (r3, bs, _, ni) \<leftarrow> nmbm_read_range ni addr sz mode;
      Some (r2, r3, bs)
    }) (\<lambda>(r2, r3, bs). writable ni addr sz \<and> r2 = 0 \<and> 0 \<le> r3 \<longrightarrow> bs = take sz data)"
    by (auto simp: x(1) ensures_bind elim!: ensures_mono)
qed

text \<open>A range inside a block that is erased and then written reads back as the data.\<close>

lemma erase_write_read_pg:
  assumes "every.attached ni" and "inst_ok ni" and "addr + sz \<le> ba2addr ni (data_block_count ni)"
    and "addr div erasesize lo = lb" and "(addr + sz - 1) div erasesize lo = lb" and "0 < sz"
    and "sz \<le> length data"
  shows "ensures (do {
      (r1, _, ni) \<leftarrow> nmbm_erase_block_range crc ni addr sz;
      (r2, _, ni) \<leftarrow> nmbm_write_range crc ni addr sz data mode;
      (r3, bs, _, ni) \<leftarrow> nmbm_read_range ni addr sz mode;
      Some (r1, r2, r3, bs)
    }) (\<lambda>(r1, r2, r3, bs). r1 = 0 \<and> r2 = 0 \<and> 0 \<le> r3 \<longrightarrow> bs = take sz data)"
proof -
  note aok = every.aok_refl [OF assms(1,2)]
  note areas = every.all_areas(1) [OF TrueI] every.all_areas(2) [OF TrueI]
  have "addr + sz - 1 < 2 ^ 63"
    using every.aok_data_addr(4) [OF aok, of "addr + sz - 1"] assms(3,6) by simp
  then have end_addr: "addr + sz < 2 ^ 64"
    by simp
  have er: "ensures (nmbm_erase_block_range crc ni addr sz) (\<lambda>(ret, _, n). every.attached n \<and> inst_ok n \<and>
      (ret = 0 \<longrightarrow> writable n addr sz))"
    using ensures_conjI [OF every.erase_block_range_a [OF aok areas(1) end_addr areas(2), of crc]
        erase_block_range_pg [OF assms(1-6), of crc]]
    by (rule ensures_mono)
      (auto intro: erased_writable [OF _ _ assms(4,5)] dest: every.aok_att every.aok_inst)
  have rest: "ensures (do {
      (r2, _, ni) \<leftarrow> nmbm_write_range crc n addr sz data mode;
      (r3, bs, _, ni) \<leftarrow> nmbm_read_range ni addr sz mode;
      Some (r1, r2, r3, bs)
    }) (\<lambda>(r1, r2, r3, bs). r1 = 0 \<and> r2 = 0 \<and> 0 \<le> r3 \<longrightarrow> bs = take sz data)"
    if "every.attached n" "inst_ok n" "r1 = 0 \<Longrightarrow> writable n addr sz" for n r1
    using write_read_pg [OF that(1,2) end_addr assms(7), of crc mode] that(3)
    by (auto simp: ensures_bind split_def elim!: ensures_mono)
  show ?thesis
    by (rule ensures_bindI [OF er]) (clarify, rule rest, auto)
qed

section \<open>The operations as a whole\<close>

text \<open>Defined results together with the contents, as the properties of the development need them.\<close>

lemma read_range_nd:
  assumes "every.attached ni" and "inst_ok ni" and "addr + sz < 2 ^ 64"
  shows "ensures (nmbm_read_range ni addr sz mode) (\<lambda>(ret, bs, retlen, ni').
    (0 \<le> ret \<longrightarrow> bs = map (logic_byte pg ni) [addr..<addr + sz]) \<and> pg (dev ni') = pg (dev ni))"
  using ensures_conjI [OF rd.read_range_a [OF rd.aok_refl [OF assms(1,2)] assms(3)] read_range_pg [OF assms]]
  by (rule ensures_mono) (auto simp: rd.aok_def)

lemma logic_byte_kept:
  assumes "stored ni addr sz data ptr ni'" and "every.attached ni"
    and "\<not> in_pages lo ni addr sz (phys_addr ni (page_of ni a))"
  shows "logic_byte pg ni' a = logic_byte pg ni a"
  using assms every_same [of ni ni']
  by (auto simp: stored_def logic_byte_def logic_page_def page_of_def)

lemma write_range_nd:
  assumes "every.attached ni" and "inst_ok ni" and "addr + sz < 2 ^ 64" and "sz \<le> length data"
    and "writable ni addr sz"
  shows "ensures (nmbm_write_range crc ni addr sz data mode) (\<lambda>(ret, retlen, ni'). ret = 0 \<longrightarrow>
    map (logic_byte pg ni') [addr..<addr + sz] = take sz data \<and>
    (\<forall>a. \<not> in_pages lo ni addr sz (phys_addr ni (page_of ni a)) \<longrightarrow> logic_byte pg ni' a = logic_byte pg ni a))"
proof -
  note areas = every.all_areas(1) [OF TrueI] every.all_areas(2) [OF TrueI]
  show ?thesis
    using ensures_conjI [OF every.write_range_a [OF every.aok_refl [OF assms(1,2)] areas(1) assms(3,4) areas(2)]
        write_range_pg [OF assms(1,2,3,5)]]
    by (rule ensures_mono) (auto intro: stored_read [OF _ assms(4)] logic_byte_kept [OF _ assms(1)])
qed

lemma erase_block_range_nd:
  assumes "every.attached ni" and "inst_ok ni" and "addr + sz \<le> ba2addr ni (data_block_count ni)"
    and "addr div erasesize lo = lb" and "(addr + sz - 1) div erasesize lo = lb" and "0 < sz"
  shows "ensures (nmbm_erase_block_range crc ni addr sz) (\<lambda>(ret, failed, ni'). ret = 0 \<longrightarrow> erased_block ni' lb)"
proof -
  note aok = every.aok_refl [OF assms(1,2)]
  note areas = every.all_areas(1) [OF TrueI] every.all_areas(2) [OF TrueI]
  have "addr + sz - 1 < 2 ^ 63"
    using every.aok_data_addr(4) [OF aok, of "addr + sz - 1"] assms(3,6) by simp
  then have "addr + sz < 2 ^ 64"
    by simp
  then show ?thesis
    using every.erase_block_range_a [OF aok areas(1) _ areas(2), of addr sz crc]
      erase_block_range_pg [OF assms, of crc]
    by (auto simp: ensures_iff allows_iff)
qed

end

end
