(* ===== verification/Nmbm_Upper.thy ===== *)
theory Nmbm_Upper
  imports Nmbm_Api Nmbm_Mtd
begin

text \<open>
  What NMBM relies on of the kernel's MTD core (the locale \<open>mtd_device\<close>), that the callbacks of
  \<^verbatim>\<open>nmbm-mtd.c\<close> then satisfy the interface of \<open>Nmbm_Device\<close>, and the operations of the upper
  device: they are defined, keep the invariant and give the device back.
\<close>

section \<open>The MTD core\<close>

text \<open>The sizes of a device, which no call changes.\<close>

definition mtd_geo :: "'m mtd_info \<Rightarrow> _" where
  "mtd_geo l = (mtd_size l, mtd_erasesize l, mtd_writesize l, mtd_oobsize l, mtd_oobavail_size l,
     mtd_writesize_shift l, mtd_writesize_mask l)"

lemma mtd_geoD:
  assumes "mtd_geo l = mtd_geo l'"
  shows "mtd_size l = mtd_size l'" "mtd_erasesize l = mtd_erasesize l'"
    "mtd_writesize l = mtd_writesize l'" "mtd_oobsize l = mtd_oobsize l'"
    "mtd_writesize_shift l = mtd_writesize_shift l'" "mtd_writesize_mask l = mtd_writesize_mask l'"
  using assms by (simp_all add: mtd_geo_def)

text \<open>
  \<open>geo\<close> is the lower device as \<^verbatim>\<open>nmbm_probe\<close> finds it. The calls fill the buffers they are given
  and keep the sizes of the device; \<^verbatim>\<open>mtd_oobavail\<close> is at most the OOB size; the mask of the
  page size is the one \<^verbatim>\<open>add_mtd_device\<close> computes.
\<close>

locale mtd_device =
  fixes api :: "'m mtd_api"
    and env :: "'m nmbm_probe_env"
    and geo :: "'m mtd_info"
    and Rm :: "'m mtd_info \<Rightarrow> 'm mtd_info \<Rightarrow> bool"
    and W :: "nat \<Rightarrow> bool"
  assumes Rm_refl: "Rm l l"
    and Rm_trans: "Rm a b \<Longrightarrow> Rm b c \<Longrightarrow> Rm a c"
    and Rm_geo: "Rm l l' \<Longrightarrow> mtd_geo l' = mtd_geo l"
    and mask: "mtd_writesize_mask geo = mtd_writesize geo - 1"
    and oobavail_le: "mtd_oobavail api l m \<le> mtd_oobsize l"
    and oobavail_sizes: "mtd_oobavail_size l = mtd_oobavail_size l' \<Longrightarrow>
          mtd_oobsize l = mtd_oobsize l' \<Longrightarrow> mtd_oobavail api l m = mtd_oobavail api l' m"
    and read_oob: "mtd_geo l = mtd_geo geo \<Longrightarrow>
          mtd_read_oob api l addr m len ooblen d ob = (ret, dat, oo, l') \<Longrightarrow>
          Rm l l' \<and> length dat = len \<and> length oo = ooblen"
    and write_oob: "mtd_geo l = mtd_geo geo \<Longrightarrow> W (addr div mtd_erasesize geo) \<Longrightarrow>
          Rm l (snd (mtd_write_oob api l addr m wd wo))"
    and erase: "mtd_geo l = mtd_geo geo \<Longrightarrow> W (addr div mtd_erasesize geo) \<Longrightarrow>
          Rm l (snd (mtd_erase api l addr len))"
    and isbad: "mtd_geo l = mtd_geo geo \<Longrightarrow> Rm l (snd (mtd_block_isbad api l addr))"
    and markbad: "mtd_geo l = mtd_geo geo \<Longrightarrow> W (addr div mtd_erasesize geo) \<Longrightarrow>
          Rm l (snd (mtd_block_markbad api l addr))"
begin

abbreviation nld :: "'m nmbm_mtd_arg nmbm_lower_device" where
  "nld \<equiv> nmbm_probe_nld api env geo"

lemma nld_fields [simp]:
  "writesize nld = mtd_writesize geo" "erasesize nld = mtd_erasesize geo"
  "oobsize nld = mtd_oobsize geo" "reset_chip nld = None"
  "read_page nld = Some (nmbm_lower_read_page api)"
  "write_page nld = Some (nmbm_lower_write_page api)"
  "erase_block nld = Some (nmbm_lower_erase_block api)"
  "is_bad_block nld = Some (nmbm_lower_is_bad_block api)"
  "mark_bad_block nld = Some (nmbm_lower_mark_bad_block api)"
  by (simp_all add: nmbm_probe_nld_def)

lemma lower_read_page_law:
  assumes "mtd_geo (nm_lower d) = mtd_geo geo"
    and "nmbm_lower_read_page api d addr data oob mode = (ret, dat, ob, d')"
  shows "Rm (nm_lower d) (nm_lower d') \<and> length dat = (if data then mtd_writesize geo else 0) \<and>
    length ob \<le> (if oob then mtd_oobsize geo else 0)"
proof -
  note g = mtd_geoD [OF assms(1)]
  obtain r x y l where call: "mtd_read_oob api (nm_lower d) addr (to_mtd_mode mode)
      (if data then mtd_writesize (nm_lower d) else 0)
      (if oob then mtd_oobavail api (nm_lower d) (to_mtd_mode mode) else 0) data oob = (r, x, y, l)"
    by (metis prod_cases4)
  have "x = dat" "y = ob" "nm_lower d' = l"
    using assms(2) call by (auto simp: nmbm_lower_read_page_def Let_def split: if_splits)
  then show ?thesis
    using read_oob [OF assms(1) call] g oobavail_le [of "nm_lower d" "to_mtd_mode mode"] by auto
qed

end

sublocale mtd_device \<subseteq> low: lower_device
  "nmbm_probe_nld api env geo" "\<lambda>a b. Rm (nm_lower a) (nm_lower b)" W
  "\<lambda>d. mtd_geo (nm_lower d) = mtd_geo geo"
proof unfold_locales
  show "Rm (nm_lower d) (nm_lower d)" for d :: "'m nmbm_mtd_arg"
    by (rule Rm_refl)
  show "Rm (nm_lower a) (nm_lower b) \<Longrightarrow> Rm (nm_lower b) (nm_lower c) \<Longrightarrow>
      Rm (nm_lower a) (nm_lower c)" for a b c :: "'m nmbm_mtd_arg"
    by (rule Rm_trans)
  show "mtd_geo (nm_lower d) = mtd_geo geo \<Longrightarrow> Rm (nm_lower d) (nm_lower d') \<Longrightarrow>
      mtd_geo (nm_lower d') = mtd_geo geo" for d d' :: "'m nmbm_mtd_arg"
    using Rm_geo by metis
qed (auto dest: lower_read_page_law simp: nmbm_lower_write_page_def nmbm_lower_erase_block_def
    nmbm_lower_is_bad_block_def nmbm_lower_mark_bad_block_def case_prod_beta Let_def
    intro: write_oob erase isbad markbad)

section \<open>Operations of the upper device\<close>

text \<open>The device between two calls.\<close>

definition upper_ok :: "'m mtd_api \<Rightarrow> 'm nmbm_probe_env \<Rightarrow> 'm mtd_info \<Rightarrow> 'm nmbm_mtd \<Rightarrow> bool" where
  "upper_ok api env geo nm \<longleftrightarrow>
     attached_to (nmbm_probe_nld api env geo) (\<lambda>d. mtd_geo (nm_lower d) = mtd_geo geo) (nm_ni nm) \<and>
     inst_ok (nm_ni nm) \<and> length (nm_page_cache nm) = mtd_writesize geo + mtd_oobsize geo"

context mtd_device
begin

definition uok :: "'m nmbm_mtd \<Rightarrow> 'm nmbm_mtd \<Rightarrow> bool" where
  "uok nm0 nm \<longleftrightarrow> low.aok (nm_ni nm0) (nm_ni nm) \<and> nm_upper_size nm = nm_upper_size nm0 \<and>
     length (nm_page_cache nm) = mtd_writesize geo + mtd_oobsize geo"

lemma uok_refl: "upper_ok api env geo nm \<Longrightarrow> uok nm nm"
  by (simp add: uok_def upper_ok_def low.aok_refl)

lemma uok_upper_ok: "uok nm0 nm \<Longrightarrow> upper_ok api env geo nm"
  by (simp add: uok_def upper_ok_def low.aok_def)

lemma uok_geo:
  assumes "uok nm0 nm"
  shows "mtd_writesize (lower_mtd nm) = mtd_writesize geo" "mtd_oobsize (lower_mtd nm) = mtd_oobsize geo"
    "mtd_writesize_mask (lower_mtd nm) = mtd_writesize geo - 1"
  using mtd_geoD [of "lower_mtd nm" geo] low.att_I [of "nm_ni nm"] assms mask
  by (auto simp: uok_def low.aok_def lower_mtd_def)

lemma uok_col:
  assumes "uok nm0 nm"
  shows "addr AND mtd_writesize_mask (lower_mtd nm) < mtd_writesize geo"
proof -
  have att: "low.attached (nm_ni nm)"
    using assms by (simp add: uok_def low.aok_def)
  have "writesize_mask (nm_ni nm) = mtd_writesize geo - 1"
    using geomD(5) [OF low.att_geom [OF att]] low.att_fields(1) [OF att] by simp
  then have "addr AND mtd_writesize_mask (lower_mtd nm) = chunk_leading (nm_ni nm) addr"
    using uok_geo(3) [OF assms] by (simp add: chunk_leading_def)
  then show ?thesis
    using chunk_leading_mod [OF low.att_geom [OF att]] low.att_fields(1) [OF att]
      geom_writesize_pos [OF low.att_geom [OF att]] by simp
qed

lemma writesize_bounds:
  assumes "uok nm0 nm" shows "mtd_writesize geo < 2 ^ 32" "0 < mtd_writesize geo"
proof -
  have att: "low.attached (nm_ni nm)"
    using assms by (simp add: uok_def low.aok_def)
  show "mtd_writesize geo < 2 ^ 32" "0 < mtd_writesize geo"
    using geomD(3) [OF low.att_geom [OF att]] geom_writesize_pos [OF low.att_geom [OF att]]
      low.att_fields(1) [OF att] by simp_all
qed

lemma uok_ni: "uok nm0 nm \<Longrightarrow> low.aok (nm_ni nm0) ni \<Longrightarrow> uok nm0 (nm\<lparr>nm_ni := ni\<rparr>)"
  by (simp add: uok_def)

lemma uok_cache:
  "uok nm0 nm \<Longrightarrow> low.aok (nm_ni nm0) ni \<Longrightarrow> length pc = mtd_writesize geo + mtd_oobsize geo \<Longrightarrow>
   uok nm0 (nm\<lparr>nm_ni := ni, nm_page_cache := pc\<rparr>)"
  by (simp add: uok_def)

lemma uok_state [simp]: "uok nm0 (nm\<lparr>nm_state := st\<rparr>) = uok nm0 nm"
  by (simp add: uok_def)

lemma nm_state_upd [simp]: "nm_state (nm\<lparr>nm_ni := ni, nm_page_cache := pc\<rparr>) = nm_state nm"
  by simp

subsection \<open>Reading\<close>

definition rd_post :: "'m nmbm_mtd \<Rightarrow> nat \<Rightarrow> nat \<Rightarrow> int \<times> byte list \<times> byte list \<times> 'm nmbm_mtd \<Rightarrow> bool" where
  "rd_post nm0 n k r \<longleftrightarrow> (case r of (ret, d, oo, nm') \<Rightarrow> uok nm0 nm' \<and> length d \<le> n \<and> length oo \<le> k \<and>
     (ret < 0 \<and> ret \<noteq> - EBADMSG \<or> length d = n \<and> length oo = k))"

lemma mtd_read_page_ok:
  assumes "uok nm0 nm"
  shows "ensures (nmbm_mtd_read_page nm addr dc oc mode) (\<lambda>(ret, nm'). uok nm0 nm')"
proof -
  have aok: "low.aok (nm_ni nm0) (nm_ni nm)"
    and pc: "length (nm_page_cache nm) = mtd_writesize geo + mtd_oobsize geo"
    using assms by (auto simp: uok_def)
  show ?thesis
    unfolding nmbm_mtd_read_page_def
    by (rule ensures_bindI [OF low.read_single_page_a [OF aok]])
      (auto simp: ensures_bind uok_geo(1) [OF assms] pc intro!: ensures_mem_writeI
        uok_cache [OF assms] split: if_splits)
qed

text \<open>How much one pass moves.\<close>

lemma chunk_data: "col < ws \<Longrightarrow> ws < 2 ^ 32 \<Longrightarrow> min (sub32 ws col) len = min (ws - col) len"
  by (simp add: sub32_id)

lemma chunk_oob:
  "(len \<noteq> 0 \<Longrightarrow> o' < m) \<Longrightarrow> m < 2 ^ 64 \<Longrightarrow> min (sub64 m o') len = min (m - o') len"
  by (cases "len = 0") (auto simp: sub64_id')

lemma mtd_read_data_loop_ok:
  assumes "uok nm0 nm" and "col < mtd_writesize geo" and "maxoob \<le> mtd_oobsize geo"
    and "ooblen \<noteq> 0 \<Longrightarrow> ooboffs < maxoob" and "maxoob < 2 ^ 64" and "0 \<le> b"
  shows "ensures (nmbm_mtd_read_data_loop nm addr mode maxoob dc oc col ooboffs len ooblen e b dat ob)
    (rd_post nm0 (length dat + len) (length ob + ooblen))"
  using assms(1,2,4,6)
proof (induction "len + ooblen" arbitrary: nm addr col ooboffs len ooblen e b dat ob rule: less_induct)
  case less
  let ?ws = "mtd_writesize geo"
  note wsb = writesize_bounds [OF less(2)]
  show ?case
  proof (cases "len = 0 \<and> ooblen = 0")
    case True
    then show ?thesis
      using less(2,5) by (simp add: nmbm_mtd_read_data_loop.simps rd_post_def)
  next
    case False
    define dl where "dl = min (?ws - col) len"
    define ol where "ol = min (maxoob - ooboffs) ooblen"
    define col' where "col' = (if len = 0 then col else 0)"
    define oo' where "oo' = (if ooblen = 0 then ooboffs else 0)"
    define rd where "rd n = (if len = 0 then Some [] else mem_read (nm_page_cache n) col dl)"
      for n :: "'m nmbm_mtd"
    define ro where "ro n = (if ooblen = 0 then Some [] else mem_read (nm_page_cache n) (?ws + ooboffs) ol)"
      for n :: "'m nmbm_mtd"
    have prog: "\<not> (dl = 0 \<and> ol = 0)" "(len - dl) + (ooblen - ol) < len + ooblen"
      "dl \<le> len" "ol \<le> ooblen"
      using False less(3,4) by (auto simp: dl_def ol_def)
    have next1: "col' < ?ws" and next2: "ooblen - ol \<noteq> 0 \<Longrightarrow> oo' < maxoob"
      using less(3,4) wsb(2) by (auto simp: col'_def oo'_def)
    have IH: "ensures (nmbm_mtd_read_data_loop n a mode maxoob dc oc col' oo' (len - c)
        (ooblen - k) e' b' (dat @ ds) (ob @ os)) (rd_post nm0 (length dat + len) (length ob + ooblen))"
      if "uok nm0 n" "length ds = dl" "length os = ol" "0 \<le> b'" "dl = c" "ol = k"
      for n a e' b' ds os c k
      using less(1) [OF prog(2) that(1) next1 next2 that(4), of a e' "dat @ ds" "ob @ os"] that(2,3)
        prog(3,4) unfolding that(5,6) [symmetric] by (simp add: ac_simps)
    have ds: "ensures (rd n) (\<lambda>x. length x = dl)" "ensures (ro n) (\<lambda>x. length x = ol)"
      if "uok nm0 n" for n
      using that less(3,4) assms(3)
      by (auto simp: rd_def ro_def dl_def ol_def uok_def intro!: ensures_mem_readI)
    have stop: "rd_post nm0 (length dat + len) (length ob + ooblen) (a, dat, ob, n)"
      if "uok nm0 n" "a < 0" "a \<noteq> - EBADMSG" for n a
      using that by (simp add: rd_post_def)
    have ch_oob: "min (sub64 maxoob ooboffs) ooblen = min (maxoob - ooboffs) ooblen"
      using less(4) assms(5) by (rule chunk_oob)
    show ?thesis
      using less(5) prog(1)
      unfolding nmbm_mtd_read_data_loop.simps [of nm] Let_def uok_geo(1) [OF less(2)]
        chunk_data [OF less(3) wsb(1)] ch_oob
        dl_def [symmetric] ol_def [symmetric] col'_def [symmetric] oo'_def [symmetric]
        rd_def [symmetric] ro_def [symmetric] if_not_P [OF False]
      by (auto simp: ensures_bind intro!: ensures_mono [OF mtd_read_page_ok [OF less(2)]]
          ensures_mono [OF ds(1)] ensures_mono [OF ds(2)] IH stop)
  qed
qed

lemma mtd_read_data_ok:
  assumes "uok nm0 nm" and "ooblen \<noteq> 0 \<Longrightarrow> ooboffs < mtd_oobavail api (lower_mtd nm) omode"
    and "mtd_oobsize geo < 2 ^ 64"
  shows "ensures (nmbm_mtd_read_data api nm addr omode mode len ooblen ooboffs) (rd_post nm0 len ooblen)"
proof -
  have "mtd_oobavail api (lower_mtd nm) omode \<le> mtd_oobsize geo"
    using oobavail_le [of "lower_mtd nm" omode] uok_geo(2) [OF assms(1)] by simp
  then show ?thesis
    unfolding nmbm_mtd_read_data_def Let_def
    using mtd_read_data_loop_ok [OF assms(1) uok_col [OF assms(1)] _ assms(2), where b = 0 and dat = "[]"
        and ob = "[]"] assms(3) by simp
qed

lemma get_device_ready:
  "nm_state nm = FL_READY \<Longrightarrow> nmbm_get_device nm st = Some (nm\<lparr>nm_state := st\<rparr>)"
  by (simp add: nmbm_get_device_def)

lemma release_uok [simp]: "uok nm0 (nmbm_release_device nm) = uok nm0 nm"
  by (simp add: nmbm_release_device_def)

lemma release_state [simp]: "nm_state (nmbm_release_device nm) = FL_READY"
  by (simp add: nmbm_release_device_def)

lemma lower_mtd_state [simp]: "lower_mtd (nm\<lparr>nm_state := st\<rparr>) = lower_mtd nm"
  by (simp add: lower_mtd_def)

lemma oobavail_upper: "mtd_oobavail api (upper_mtd nm) m = mtd_oobavail api (lower_mtd nm) m"
  by (rule oobavail_sizes) (simp_all add: upper_mtd_def)

lemma mtd_read_oob_ok:
  assumes "upper_ok api env geo nm" and "nm_state nm = FL_READY" and "from + len < 2 ^ 64"
    and "mtd_oobsize geo < 2 ^ 64"
  shows "ensures (nmbm_mtd_read_oob api nm from omode has_dat has_oob len ooblen ooboffs)
    (\<lambda>(ret, dat, ob, nm'). uok nm nm' \<and> nm_state nm' = FL_READY)"
proof -
  note u = uok_refl [OF assms(1)]
  have aok: "low.aok (nm_ni nm) (nm_ni nm)"
    using u by (simp add: uok_def)
  have rng: "ensures (nmbm_read_range (nm_ni nm) from k mode)
      (\<lambda>(ret, bs, _, ni). uok nm (nm\<lparr>nm_state := st, nm_ni := ni\<rparr>))"
    if "from + k < 2 ^ 64" for mode st k
    by (rule ensures_mono [OF low.read_range_a [OF aok that]]) (use u in \<open>auto intro!: uok_ni\<close>)
  have dat: "ensures (nmbm_mtd_read_data api (nm\<lparr>nm_state := st\<rparr>) from omode mode k j ooboffs)
      (\<lambda>(ret, d, oo, nm'). uok nm nm')"
    if "ooboffs < mtd_oobavail api (upper_mtd nm) omode" for st mode k j
    by (rule ensures_mono [OF mtd_read_data_ok])
      (use u that assms(4) oobavail_upper [of nm omode] in \<open>auto simp: rd_post_def\<close>)
  show ?thesis
    using u assms(2,3)
    by (auto simp: nmbm_mtd_read_oob_def Let_def ensures_bind get_device_ready
        intro!: ensures_mono [OF rng] ensures_mono [OF dat])
qed

subsection \<open>Writing\<close>

lemma mtd_fill_ok:
  assumes "off + length bs \<le> sz" and "base + sz \<le> length pc" and "sz < 2 ^ 32"
  shows "ensures (nmbm_mtd_fill pc base sz off bs) (\<lambda>pc'. length pc' = length pc)"
proof -
  have "sub64 (sub32 sz off) (length bs) = sz - off - length bs"
    using assms by (simp add: sub32_id sub64_id')
  then show ?thesis
    using assms by (auto simp: nmbm_mtd_fill_def ensures_bind intro!: ensures_mem_writeI)
qed

definition wr_post :: "'m nmbm_mtd \<Rightarrow> nat \<Rightarrow> nat \<Rightarrow> int \<times> nat \<times> nat \<times> 'm nmbm_mtd \<Rightarrow> bool" where
  "wr_post nm0 n k r \<longleftrightarrow> (case r of (ret, rl, orl, nm') \<Rightarrow> uok nm0 nm' \<and> rl \<le> n \<and> orl \<le> k \<and>
     (ret = 0 \<longrightarrow> rl = n \<and> orl = k))"

lemma mtd_write_data_loop_ok:
  assumes "\<And>b. W b" and "uok nm0 nm" and "col < mtd_writesize geo" and "maxoob \<le> mtd_oobsize geo"
    and "ooblen \<noteq> 0 \<Longrightarrow> ooboffs < maxoob" and "mtd_oobsize geo < 2 ^ 32"
    and "dp + len \<le> length datbuf" and "op + ooblen \<le> length oobbuf"
  shows "ensures (nmbm_mtd_write_data_loop crc nm addr mode maxoob dc oc col ooboffs len ooblen
      datbuf dp oobbuf op) (wr_post nm0 (dp + len) (op + ooblen))"
  using assms(2,3,5,7,8)
proof (induction "len + ooblen" arbitrary: nm addr dc oc col ooboffs len ooblen dp op
    rule: less_induct)
  case less
  let ?ws = "mtd_writesize geo" and ?os = "mtd_oobsize geo"
  note wsb = writesize_bounds [OF less(2)]
  show ?case
  proof (cases "len = 0 \<and> ooblen = 0")
    case True
    then show ?thesis
      using less(2) by (simp add: nmbm_mtd_write_data_loop.simps wr_post_def)
  next
    case False
    define dl where "dl = min (?ws - col) len"
    define ol where "ol = min (maxoob - ooboffs) ooblen"
    define col' where "col' = (if len = 0 then col else 0)"
    define oo' where "oo' = (if ooblen = 0 then ooboffs else 0)"
    define fd where "fd = (if len = 0 then Some (nm_page_cache nm)
        else do { ds \<leftarrow> mem_read datbuf dp dl; nmbm_mtd_fill (nm_page_cache nm) 0 ?ws col ds })"
    define fo where "fo pc = (if ooblen = 0 then Some pc
        else do { os \<leftarrow> mem_read oobbuf op ol; nmbm_mtd_fill pc ?ws ?os ooboffs os })" for pc
    have prog: "\<not> (dl = 0 \<and> ol = 0)" "(len - dl) + (ooblen - ol) < len + ooblen"
      "dl \<le> len" "ol \<le> ooblen"
      using False less(3,4) by (auto simp: dl_def ol_def)
    have next1: "col' < ?ws" and next2: "ooblen - ol \<noteq> 0 \<Longrightarrow> oo' < maxoob"
      using less(3,4) wsb(2) by (auto simp: col'_def oo'_def)
    have aok: "low.aok (nm_ni nm0) (nm_ni nm)" and pc: "length (nm_page_cache nm) = ?ws + ?os"
      using less(2) by (auto simp: uok_def)
    have fill: "ensures fd (\<lambda>pc. length pc = ?ws + ?os)"
      "length p = ?ws + ?os \<Longrightarrow> ensures (fo p) (\<lambda>pc. length pc = ?ws + ?os)" for p
      using less(3-6) pc wsb assms(4,6)
      by (auto simp: fd_def fo_def dl_def ol_def ensures_bind
          intro!: ensures_mem_readI ensures_mono [OF mtd_fill_ok])
    have IH: "ensures (nmbm_mtd_write_data_loop crc n a mode maxoob x y col' oo' (len - dl)
        (ooblen - ol) datbuf (dp + dl) oobbuf (op + ol)) (wr_post nm0 (dp + len) (op + ooblen))"
      if "uok nm0 n" for n a x y
      using less(1) [OF prog(2) that next1 next2, of "dp + dl" "op + ol" a x y] less(5,6) prog(3,4)
      by simp
    have stop: "wr_post nm0 (dp + len) (op + ooblen) (ret, dp + dl, op + ol, n)"
      if "uok nm0 n" "ret \<noteq> 0" for n ret
      using that prog(3,4) by (simp add: wr_post_def)
    have sp: "ensures (nmbm_write_single_page crc (nm_ni nm) addr d ob mode)
        (\<lambda>(ret, ni). low.aok (nm_ni nm0) ni)" for d ob
      by (rule low.write_single_page_a [OF aok])
        (use assms(1) in \<open>auto simp: low.mgmt_area_def low.lmay_def may_change_def\<close>)
    have ch_oob: "min (sub64 maxoob ooboffs) ooblen = min (maxoob - ooboffs) ooblen"
      using less(4) assms(4,6) by (intro chunk_oob) auto
    show ?thesis
      using prog(1)
      unfolding nmbm_mtd_write_data_loop.simps [of crc nm] Let_def uok_geo(1,2) [OF less(2)]
        chunk_data [OF less(3) wsb(1)] ch_oob
        dl_def [symmetric] ol_def [symmetric] col'_def [symmetric] oo'_def [symmetric]
        fd_def [symmetric] fo_def [symmetric] if_not_P [OF False]
      by (auto simp: ensures_bind intro!: ensures_mono [OF fill(1)] ensures_mono [OF fill(2)]
          ensures_mem_readI ensures_mono [OF sp] IH stop uok_cache [OF less(2)])
  qed
qed

lemma mtd_write_data_ok:
  assumes "\<And>b. W b" and "uok nm0 nm" and "ooblen \<noteq> 0 \<Longrightarrow> ooboffs < mtd_oobavail api (lower_mtd nm) omode"
    and "mtd_oobsize geo < 2 ^ 32" and "len \<le> length datbuf" and "ooblen \<le> length oobbuf"
  shows "ensures (nmbm_mtd_write_data crc api nm addr omode mode len ooblen ooboffs datbuf oobbuf)
    (wr_post nm0 len ooblen)"
proof -
  have "mtd_oobavail api (lower_mtd nm) omode \<le> mtd_oobsize geo"
    using oobavail_le [of "lower_mtd nm" omode] uok_geo(2) [OF assms(2)] by simp
  then show ?thesis
    unfolding nmbm_mtd_write_data_def Let_def
    using mtd_write_data_loop_ok [OF assms(1,2) uok_col [OF assms(2)] _ assms(3,4), where dp = 0
        and op = 0] assms(5,6) by simp
qed

lemma nm_ni_state: "nm_ni (nm\<lparr>nm_state := st\<rparr>) = nm_ni nm"
  by simp

lemma mtd_write_oob_ok:
  assumes "\<And>b. W b" and "upper_ok api env geo nm" and "nm_state nm = FL_READY"
    and "to + len < 2 ^ 64" and "mtd_oobsize geo < 2 ^ 32"
    and "len \<le> length (buf_of datbuf)" and "ooblen \<le> length (buf_of oobbuf)"
  shows "ensures (nmbm_mtd_write_oob crc api nm to omode datbuf oobbuf len ooblen ooboffs)
    (\<lambda>(ret, rl, orl, nm'). uok nm nm' \<and> nm_state nm' = FL_READY)"
proof -
  note u = uok_refl [OF assms(2)]
  have aok: "low.aok (nm_ni nm) (nm_ni nm)"
    using u by (simp add: uok_def)
  have rng: "ensures (nmbm_write_range crc (nm_ni (nm\<lparr>nm_state := st\<rparr>)) to len (buf_of datbuf) mode)
      (\<lambda>(ret, _, ni). uok nm (nm\<lparr>nm_state := st, nm_ni := ni\<rparr>))" for mode st
    unfolding nm_ni_state
    by (rule ensures_mono [OF low.write_range_a [OF aok _ assms(4,6)]])
      (use u assms(1) in \<open>auto simp: low.mgmt_area_def low.lmay_def may_change_def intro!: uok_ni\<close>)
  have dat: "ensures (nmbm_mtd_write_data crc api (nm\<lparr>nm_state := st\<rparr>) to omode mode len ooblen ooboffs
        (buf_of datbuf) (buf_of oobbuf)) (\<lambda>(ret, rl, orl, nm'). uok nm nm')"
    if "ooboffs < mtd_oobavail api (upper_mtd nm) omode" for st mode
    by (rule ensures_mono [OF mtd_write_data_ok [OF assms(1)]])
      (use u that assms(5-7) oobavail_upper [of nm omode] in \<open>auto simp: wr_post_def\<close>)
  show ?thesis
    using u assms(3)
    unfolding nmbm_mtd_write_oob_def Let_def get_device_ready [OF assms(3)] Option.bind.simps
    by (intro ensures_ifI ensures_bindI [OF rng] ensures_bindI [OF dat]) auto
qed

subsection \<open>Erasing and bad blocks\<close>

lemma mtd_erase_ok:
  assumes "\<And>b. W b" and "upper_ok api env geo nm" and "nm_state nm = FL_READY" and "addr + len < 2 ^ 64"
  shows "ensures (nmbm_mtd_erase crc nm addr len)
    (\<lambda>(ret, fail_addr, nm'). uok nm nm' \<and> nm_state nm' = FL_READY)"
proof -
  note u = uok_refl [OF assms(2)]
  then have aok: "low.aok (nm_ni nm) (nm_ni nm)"
    by (simp add: uok_def)
  show ?thesis
    unfolding nmbm_mtd_erase_def get_device_ready [OF assms(3)]
    using u by (auto simp: ensures_bind Let_def low.all_areas assms(1) intro!: uok_ni
        ensures_mono [OF low.erase_block_range_a [OF aok _ assms(4)]])
qed

lemma mtd_block_isbad_ok:
  assumes "upper_ok api env geo nm" and "nm_state nm = FL_READY"
  shows "ensures (nmbm_mtd_block_isbad nm offs)
    (\<lambda>(ret, nm'). uok nm nm' \<and> nm_state nm' = FL_READY \<and> ret \<in> {0, 1, - EINVAL})"
proof -
  note u = uok_refl [OF assms(1)]
  then have aok: "low.aok (nm_ni nm) (nm_ni nm)"
    by (simp add: uok_def)
  show ?thesis
    unfolding nmbm_mtd_block_isbad_def get_device_ready [OF assms(2)]
    using u by (auto simp: ensures_bind intro!: ensures_mono [OF low.check_bad_block_a [OF aok]])
qed

lemma mtd_block_markbad_ok:
  assumes "\<And>b. W b" and "upper_ok api env geo nm" and "nm_state nm = FL_READY"
  shows "ensures (nmbm_mtd_block_markbad crc nm offs)
    (\<lambda>(ret, nm'). uok nm nm' \<and> nm_state nm' = FL_READY)"
proof -
  note u = uok_refl [OF assms(2)]
  then have aok: "low.aok (nm_ni nm) (nm_ni nm)"
    by (simp add: uok_def)
  show ?thesis
    unfolding nmbm_mtd_block_markbad_def get_device_ready [OF assms(3)]
    using u by (auto simp: ensures_bind low.all_areas assms(1) intro!: uok_ni
        ensures_mono [OF low.mark_bad_block_a [OF aok]])
qed

end

end
