(* ===== verification/Nmbm_Fresh.thy ===== *)
theory Nmbm_Fresh
  imports Nmbm_Nand Nmbm_Upper
begin

text \<open>
  Attaching to a chip that has never been used by NMBM, on a NAND driver that reports truthfully:
  what \<^verbatim>\<open>nmbn_read_data\<close> returns, that the search finds no signature on a chip without one, and that
  the management area is then created.
\<close>

section \<open>Reading management data\<close>

definition phys_byte :: "('d \<Rightarrow> nat \<Rightarrow> byte list) \<Rightarrow> 'd nmbm_instance \<Rightarrow> nat \<Rightarrow> byte" where
  "phys_byte pg ni a = pg (dev ni) (a - a mod writesize (lower ni)) ! (a mod writesize (lower ni))"

lemma phys_bytes_chunk:
  assumes "off mod writesize (lower ni) + c \<le> writesize (lower ni)"
    and "dat = pg (dev ni) (off - off mod writesize (lower ni))" and "length dat = writesize (lower ni)"
  shows "take c (drop (off mod writesize (lower ni)) dat) = map (phys_byte pg ni) [off..<off + c]"
proof (rule nth_equalityI)
  let ?ws = "writesize (lower ni)" and ?l = "off mod writesize (lower ni)"
  fix i assume "i < length (take c (drop ?l dat))"
  then have i: "i < c"
    by simp
  have "?l + i < ?ws" "off + i = (?l + i) + off div ?ws * ?ws"
    using i assms(1) by simp_all
  then have m: "(off + i) mod ?ws = ?l + i"
    by (metis mod_less mod_mult_self1)
  then show "take c (drop ?l dat) ! i = map (phys_byte pg ni) [off..<off + c] ! i"
    using i assms by (simp add: phys_byte_def)
qed (use assms in simp)

context nand
begin

lemma phys_byte_same:
  assumes "rd.dok ni ni'"
  shows "phys_byte pg ni' = phys_byte pg ni"
proof -
  have "writesize (lower ni') = writesize (lower ni)"
    using assms by (auto simp: rd.dok_def dstep_def)
  then show ?thesis
    using rd_dev [OF assms] by (simp add: fun_eq_iff phys_byte_def)
qed

lemma read_data_loop_pg:
  assumes "rd.dok ni0 ni" and "off + sz < 2 ^ 64"
  shows "allows (nmbn_read_data_loop ni off sz acc) (\<lambda>(ret, bs, ni'). 0 \<le> ret \<longrightarrow>
    bs = acc @ map (phys_byte pg ni0) [off..<off + sz])"
  using assms
proof (induction sz arbitrary: ni off acc rule: less_induct)
  case (less sz)
  show ?case
  proof (cases "sz = 0")
    case True
    then show ?thesis
      by (simp add: nmbn_read_data_loop.simps)
  next
    case False
    let ?c = "chunk_size ni off sz" and ?l = "off mod writesize lo"
    note att = rd.dok_att [OF less(2)]
    note f = rd.att_fields [OF att] and g = rd.att_geom [OF att]
    have lead: "chunk_leading ni off = ?l"
      using chunk_leading_mod [OF g, of off] f(1) by simp
    have c: "0 < ?c" "?c \<le> sz" "?l + ?c \<le> writesize lo"
      using chunk_size_bounds [OF g, of sz off] lead False f(1) by simp_all
    have al: "(off - ?l) mod writesize lo = 0"
      by (simp add: minus_mod_eq_mult_div)
    have nowrap: "u64 (off + ?c) = off + ?c"
      using c(2) less(3) by (intro u64_id) simp
    have split: "[off..<off + sz] = [off..<off + ?c] @ [off + ?c..<off + sz]"
      using c(2) upt_add_eq_append [of off "off + ?c" "sz - ?c"] by simp
    have rest: "allows (nmbn_read_data_loop n (off + ?c) (sz - ?c) (acc @ bs)) (\<lambda>(ret, bs, ni'). 0 \<le> ret \<longrightarrow>
        bs = acc @ map (phys_byte pg ni0) [off..<off + sz])"
      if "rd.dok ni n" "bs = take ?c (drop ?l dat)" "dat = pg (dev ni) (off - ?l)" "length dat = writesize lo"
      for n bs dat
    proof -
      have "rd.dok ni0 n"
        using less(2) that(1) rd.dok_step [of ni0 ni n] by (simp add: rd.dok_def)
      moreover have "bs = map (phys_byte pg ni0) [off..<off + ?c]"
        using phys_bytes_chunk [of off ni ?c dat pg] that c(3) f(1) phys_byte_same [OF less(2)] by simp
      ultimately show ?thesis
        using c(1,2) less(3) unfolding split by (intro allows_mono [OF less(1)]) auto
    qed
    have read: "allows (nmbm_read_phys_page ni (off - ?l) True False NMBM_MODE_PLACE_OOB)
        (\<lambda>(ret, dat, ob, n). rd.dok ni n \<and> length dat = writesize lo \<and> (0 \<le> ret \<longrightarrow> dat = pg (dev ni) (off - ?l)))"
      by (rule ensures_allows [OF read_phys_page_pg [OF att al]])
    show ?thesis
    proof (cases "?c = writesize lo")
      case True
      then have "?l = 0"
        using c(3) by simp
      have "allows (nmbn_read_data_loop n (off + ?c) (sz - ?c) (acc @ dat)) (\<lambda>(ret, bs, ni'). 0 \<le> ret \<longrightarrow>
          bs = acc @ map (phys_byte pg ni0) [off..<off + sz])"
        if "rd.dok ni n" "dat = pg (dev ni) (off - ?l)" "length dat = writesize lo" for n dat
        using that True \<open>?l = 0\<close> by (intro rest [OF that(1)]) auto
      note rest' = this and ne = less_imp_neq [OF c(1), symmetric]
      show ?thesis
        apply (subst nmbn_read_data_loop.simps)
        apply (simp only: False ne if_False Let_def lead nowrap f(1))
        apply (simp only: True if_True refl nowrap [unfolded True])
        apply (rule allows_bindI [OF read])
        apply (auto intro: rest' [unfolded True])
        done
    next
      case partial: False
      have "allows (mem_write (page_cache n) 0 dat \<bind> (\<lambda>pc.
          let ni' = n\<lparr>page_cache := pc\<rparr> in
          if ret < 0 then Some (ret, acc, ni')
          else do {
            bs \<leftarrow> mem_read (page_cache ni') ?l ?c;
            nmbn_read_data_loop ni' (off + ?c) (sz - ?c) (acc @ bs)
          })) (\<lambda>(ret, bs, ni'). 0 \<le> ret \<longrightarrow> bs = acc @ map (phys_byte pg ni0) [off..<off + sz])"
        if n: "rd.dok ni n" "length dat = writesize lo" "0 \<le> ret \<longrightarrow> dat = pg (dev ni) (off - ?l)" for n dat ret
      proof (rule allows_bindI [where P = "\<lambda>pc. mem_write (page_cache n) 0 dat = Some pc"])
        fix pc assume pc: "mem_write (page_cache n) 0 dat = Some pc"
        have "mem_read pc ?l ?c = Some (take ?c (drop ?l dat))"
          using mem_read_cached [OF pc] c(3) n(2) by simp
        moreover have "rd.dok ni (n\<lparr>page_cache := pc\<rparr>)"
          by (rule rd.dok_page_cache [OF n(1) mem_write_length [OF pc]])
        ultimately show "allows (let ni' = n\<lparr>page_cache := pc\<rparr> in
          if ret < 0 then Some (ret, acc, ni')
          else do {
            bs \<leftarrow> mem_read (page_cache ni') ?l ?c;
            nmbn_read_data_loop ni' (off + ?c) (sz - ?c) (acc @ bs)
          }) (\<lambda>(ret, bs, ni'). 0 \<le> ret \<longrightarrow> bs = acc @ map (phys_byte pg ni0) [off..<off + sz])"
          using n(2,3) rest [of "n\<lparr>page_cache := pc\<rparr>" "take ?c (drop ?l dat)" dat] by (auto simp: Let_def)
      qed (simp add: allows_iff)
      note part = this [unfolded Let_def] and ne = less_imp_neq [OF c(1), symmetric]
      show ?thesis
        apply (subst nmbn_read_data_loop.simps)
        apply (simp only: False ne partial if_False Let_def lead nowrap f(1))
        apply (rule allows_bindI [OF read], clarify)
        apply (rule part, assumption+)
        done
    qed
  qed
qed

lemma read_data_pg:
  assumes "rd.dok ni0 ni" and "off + sz < 2 ^ 64"
  shows "ensures (nmbn_read_data ni off sz) (\<lambda>(ret, bs, ni'). rd.dok ni0 ni' \<and>
    (0 \<le> ret \<longrightarrow> ret = 0 \<and> length bs = sz \<and> bs = map (phys_byte pg ni0) [off..<off + sz]))"
  using ensures_conjI [OF rd.read_data_ok [OF assms(1)] read_data_loop_pg [OF assms, of "[]", folded nmbn_read_data_def]]
  by (rule ensures_mono) auto

end

section \<open>Chips without a signature\<close>

text \<open>No page starts with the magic number of a signature; a blank chip is one example.\<close>

definition no_signature :: "'d nmbm_lower_device \<Rightarrow> ('d \<Rightarrow> nat \<Rightarrow> byte list) \<Rightarrow> 'd \<Rightarrow> bool" where
  "no_signature lo pg d \<longleftrightarrow> (\<forall>a. a mod writesize lo = 0 \<longrightarrow>
     le_dec (map (\<lambda>i. pg d (i - i mod writesize lo) ! (i mod writesize lo)) [a..<a + 4]) \<noteq> NMBM_MAGIC_SIGNATURE)"

lemma take_map_upt: "k \<le> n \<Longrightarrow> take k (map f [a..<a + n]) = map f [a..<a + k]"
  by (rule nth_equalityI) auto

context nand
begin

lemma find_signature_pages_none:
  assumes "rd.dok ni0 ni" and "no_signature lo pg (dev ni0)" and "rd.attached ni0"
    and "\<And>off. off \<in> set offs \<Longrightarrow> (addr + off) mod writesize lo = 0 \<and> addr + off + sizeof_signature < 2 ^ 64"
  shows "allows (nmbm_find_signature_pages crc offs ni addr) (\<lambda>(r, ni'). r = None \<and> rd.dok ni0 ni')"
  using assms(1,4)
proof (induction offs arbitrary: ni)
  case (Cons off offs)
  have a: "u64 (addr + off) = addr + off" "(addr + off) mod writesize lo = 0"
    "addr + off + sizeof_signature < 2 ^ 64"
    using Cons.prems(2) [of off] by (auto intro: u64_id)
  have IH: "allows (nmbm_find_signature_pages crc offs n addr) (\<lambda>(r, ni'). r = None \<and> rd.dok ni0 ni')"
    if "rd.dok ni0 n" for n
    using Cons.IH [OF that] Cons.prems(2) by simp
  have ws: "writesize (lower ni0) = writesize lo"
    by (rule rd.att_fields(1) [OF assms(3)])
  have magic: "magic (sig_header (dec_signature (map (phys_byte pg ni0) [addr + off..<addr + off + sizeof_signature])))
      \<noteq> NMBM_MAGIC_SIGNATURE"
    using assms(2) [unfolded no_signature_def, rule_format, OF a(2)]
      take_map_upt [of 4 sizeof_signature "phys_byte pg ni0" "addr + off"]
    unfolding dec_signature_def dec_header_def sizeof_signature_def phys_byte_def [abs_def] ws by simp
  show ?case
    unfolding nmbm_find_signature_pages.simps a(1)
    by (rule allows_bindI [OF ensures_allows [OF read_data_pg [OF Cons.prems(1) a(3)]]])
      (auto intro!: IH allows_bindI [OF allows_True] simp: magic)
qed simp

lemma find_signature_loop_none:
  assumes "rd.dok ni0 ni" and "no_signature lo pg (dev ni0)" and "rd.attached ni0"
    and "ba \<le> block_count ni0" and "0 < limit"
  shows "allows (nmbm_find_signature_loop crc ni ba limit) (\<lambda>(r, ni'). r = None)"
  using assms(1,4)
proof (induction ba arbitrary: ni)
  case 0
  then show ?case
    using assms(5) by (simp add: nmbm_find_signature_loop.simps)
next
  case (Suc ba)
  have att: "rd.attached n" if "rd.dok ni0 n" for n
    by (rule rd.dok_att [OF that])
  have pages: "(ba2addr n ba + off) mod writesize lo = 0 \<and> ba2addr n ba + off + sizeof_signature < 2 ^ 64"
    if n: "rd.dok ni0 n" and off: "off \<in> set (page_offsets n)" for n off
  proof -
    note g = rd.att_geom [OF att [OF n]] and f = rd.att_fields [OF att [OF n]]
    have "block_count n = block_count ni0"
      using n by (auto simp: rd.dok_def dstep_def)
    then have ba: "ba < block_count n"
      using Suc.prems(2) by simp
    have "writesize lo dvd ba2addr n ba"
      using geom_writesize_dvd [OF g] f(1,2) by (simp add: ba2addr_eq [OF g ba])
    moreover have "writesize lo dvd off"
      using off f(1) by (auto simp: page_offsets_def Let_def)
    moreover have "off < erasesize lo"
      by (rule rd.page_offsets_fields [OF att [OF n] off])
    moreover have "ba2addr n ba + erasesize lo \<le> 2 ^ 63"
      using ba mult_right_mono [of "Suc ba" "block_count n" "erasesize lo"] geomD(12) [OF g] ba2addr_eq [OF g ba] f(2)
      by simp
    ultimately show ?thesis
      by (simp add: mod_eq_0_iff_dvd sizeof_signature_def)
  qed
  have IH: "allows (nmbm_find_signature_loop crc n ba limit) (\<lambda>(r, ni'). r = None)" if "rd.dok ni0 n" for n
    using Suc.IH [OF that] Suc.prems(2) by simp
  have block: "allows (nmbm_find_signature_pages crc (page_offsets n) n (ba2addr ni ba) \<bind> (\<lambda>(r, n).
      case r of None \<Rightarrow> nmbm_find_signature_loop crc n ba limit | Some sig \<Rightarrow> Some (Some (sig, ba), n)))
      (\<lambda>(r, ni'). r = None)" if n: "rd.dok ni0 n" for n
  proof (rule allows_bindI)
    have "ba2addr n ba = ba2addr ni ba"
      using n Suc.prems(1) by (auto simp: rd.dok_def dstep_def ba2addr_def)
    then show "allows (nmbm_find_signature_pages crc (page_offsets n) n (ba2addr ni ba)) (\<lambda>(r, ni'). r = None \<and> rd.dok ni0 ni')"
      using pages [OF n] by (intro find_signature_pages_none [OF n assms(2,3)]) simp
  qed (auto intro: IH)
  show ?case
    apply (subst nmbm_find_signature_loop.simps)
    apply (unfold Let_def diff_Suc_1)
    apply simp
    apply (intro impI allows_bindI [OF ensures_allows [OF rd.check_bad_phys_block_ok [OF Suc.prems(1)]]])
    subgoal for x
      using IH [of "snd x"] block [of "snd x"] by (cases x) auto
    done
qed

lemma every_device: "lower_device lo (\<lambda>d d'. I d \<longrightarrow> I d') (\<lambda>_. True) I"
  by (rule every.lower_device_axioms)

text \<open>Attaching to such a chip creates the management area.\<close>

lemma attach_fresh:
  assumes "nmbm_check_lower_members nld = (True, lo)" and "real_chip nld" and "I (arg lo)"
    and "length (sig_padding (signature ni)) = 3" and "length (sig_tail (signature ni)) = 4"
    and "flags lo AND NMBM_F_CREATE \<noteq> 0" and "flags lo AND NMBM_F_READ_ONLY = 0"
    and "no_signature lo pg (arg lo)"
  shows "ensures (nmbm_attach crc nld ni) (\<lambda>(ret, ni').
    attached_to lo I ni' \<and> ret \<in> {0, - ENODEV} \<and> (ret = 0 \<longrightarrow> inst_ok ni'))"
proof -
  let ?n = "ni\<lparr>log_display_level := NMBM_DEFAULT_LOG_LEVEL\<rparr>"
  define n0 where "n0 = nmbm_init_structure (?n\<lparr>lower := lo\<rparr>)"
  note c = check_members_cases [OF assms(1)]
  note f = init_structure_geom [OF assms(1,2), of ?n, folded n0_def]
  have att: "rd.attached n0" and dev0: "dev n0 = arg lo"
    using f(1,3) assms(3) by (simp_all add: attached_to_def dev_def)
  have bc: "u32 (drop_bit (erasesize_shift n0) (chip_size (lower n0))) = block_count n0"
    using geomD(2) [OF rd.att_geom [OF att]] f(3,6,9) by (simp add: drop_bit_eq_div flip: f(9))
  have limit: "0 < nmbm_signature_limit n0 (block_count n0)"
    by (rule signature_limit_pos) (use c(6,7,8) f(3,5,6) in simp_all)
  have "allows (nmbm_find_signature crc n0) (\<lambda>(r, _). r = None)"
    unfolding nmbm_find_signature_def Let_def bc
    by (rule find_signature_loop_none [OF rd.dok_refl [OF att] _ att order_refl limit])
      (use assms(8) dev0 in simp)
  then obtain n1 where "nmbm_find_signature crc n0 = Some (None, n1)"
    using rd.find_signature_ok [OF att f(5,6,9) c(6,7,8), of crc] by (auto simp: ensures_iff allows_iff)
  then show ?thesis
    using every.attach_new_ok [OF TrueI assms(1-7), of crc n1]
    by (auto simp: n0_def elim!: ensures_mono)
qed

end

section \<open>Probing a fresh chip\<close>

lemma attached_weaken: "attached_to lo I ni \<Longrightarrow> (\<And>d. I d \<Longrightarrow> J d) \<Longrightarrow> attached_to lo J ni"
  by (auto simp: attached_to_def)

text \<open>Detaching writes the info tables a last time.\<close>

lemma detach_ok:
  assumes "lower_device lo R (\<lambda>_. True) I" and "attached_to lo I ni" and "inst_ok ni"
  shows "ensures (nmbm_detach crc ni) (\<lambda>(ret, ni'). ret = 0 \<and> attached_to lo I ni' \<and> inst_ok ni')"
  using lower_device.update_info_table_a [OF assms(1) lower_device.aok_refl [OF assms]
      lower_device.all_areas(1) [OF assms(1)], of crc] assms(2,3)
  by (auto simp: nmbm_detach_def ensures_bind lower_device.aok_def [OF assms(1)] elim!: ensures_mono)

lemma probe_fresh_ok:
  assumes "nand (nmbm_probe_nld api env low) I pg" and "\<And>d. I d \<Longrightarrow> mtd_geo (nm_lower d) = mtd_geo low"
    and "by_node env = Some (Some low)"
    and "nmbm_check_lower_members (nmbm_probe_nld api env low) = (True, nmbm_probe_nld api env low)"
    and "real_chip (nmbm_probe_nld api env low)" and "I (arg (nmbm_probe_nld api env low))"
    and "length (sig_padding (signature zeroed)) = 3" and "length (sig_tail (signature zeroed)) = 4"
    and "prop_forced_create env"
    and "no_signature (nmbm_probe_nld api env low) pg (arg (nmbm_probe_nld api env low))"
  shows "ensures (nmbm_probe crc api env zeroed pdev devs) (\<lambda>(ret, nm, put, devs').
    (ret = 0 \<longleftrightarrow> nm \<noteq> None) \<and> (\<forall>m. nm = Some m \<longrightarrow> upper_ok api env low m \<and> nm_state m = FL_READY \<and>
       devs' = list_add_tail pdev devs))"
proof -
  let ?lo = "nmbm_probe_nld api env low"
  have flags: "flags ?lo AND NMBM_F_CREATE \<noteq> 0" "flags ?lo AND NMBM_F_READ_ONLY = 0"
    using assms(9) by (auto simp: nmbm_probe_nld_def NMBM_F_CREATE_def NMBM_F_READ_ONLY_def NMBM_F_EMPTY_PAGE_ECC_OK_def)
  have every: "lower_device ?lo (\<lambda>d d'. I d \<longrightarrow> I d') (\<lambda>_. True) I"
    by (rule nand.every_device [OF assms(1)])
  have att: "ensures (nmbm_attach crc ?lo zeroed) (\<lambda>(ret, ni). ret \<in> {0, - ENODEV} \<and> attached_to ?lo I ni \<and>
      (ret = 0 \<longrightarrow> inst_ok ni))"
    by (rule ensures_mono [OF nand.attach_fresh [OF assms(1,4-8) flags assms(10)]]) auto
  show ?thesis
    using assms(3) att
    apply (auto simp: nmbm_probe_def Let_def errno_defs ensures_bind upper_ok_def elim!: ensures_mono
        intro!: ensures_mono [OF detach_ok [OF every]] attached_weaken [OF _ assms(2)])
    done
qed

end
