(* ===== verification/Nmbm_Pool.thy ===== *)
theory Nmbm_Pool
  imports Nmbm_Api
begin

text \<open>
  The pool of replacement blocks, \<^verbatim>\<open>mapping_blocks_ba + 1\<close> to \<^verbatim>\<open>mapping_blocks_top_ba\<close>: which block
  \<^verbatim>\<open>nmbm_map_block\<close> takes, and when a block is handed out twice.
\<close>

definition pool_ok :: "'d nmbm_instance \<Rightarrow> bool" where
  "pool_ok ni \<longleftrightarrow> mapping_blocks_ba ni \<le> mapping_blocks_top_ba ni \<and>
     mapping_blocks_top_ba ni < block_count ni \<and> block_count ni < 2 ^ 31 \<and>
     block_count ni \<le> st_dom (block_state ni)"

definition pool :: "'d nmbm_instance \<Rightarrow> nat list" where
  "pool ni = good_blocks ni (Suc (mapping_blocks_ba ni)) (Suc (mapping_blocks_top_ba ni))"

lemma inst_pool_ok: "geom ni \<Longrightarrow> inst_ok ni \<Longrightarrow> pool_ok ni"
  using geomD [of ni] by (auto simp: pool_ok_def inst_ok_def tlay_def)

text \<open>A successful call takes the highest good block of the pool.\<close>

lemma map_block_takes:
  assumes "pool_ok ni" and "pool ni \<noteq> []" and "lb < length (block_mapping ni)"
  shows "nmbm_map_block crc ni lb = Some (True,
    ni\<lparr>block_mapping := (block_mapping ni)[lb := int (last (pool ni))],
       mapping_blocks_top_ba := mapping_blocks_top_ba ni - 1,
       block_mapping_changed := u32 (block_mapping_changed ni + 1)\<rparr>)"
proof -
  let ?t = "mapping_blocks_top_ba ni" and ?m = "mapping_blocks_ba ni"
  have pb: "?m < last (pool ni)" "last (pool ni) \<le> ?t"
    using last_in_set [OF assms(2)] by (auto simp: pool_def set_good_blocks)
  have "nmbm_block_walk ni False ?t 0 ?m = Some (nth_opt (rev (pool ni)) 0)"
    using assms(1) pb by (simp add: pool_ok_def pool_def nmbm_block_walk_def walk_desc_eq walk_limit_def)
  also have "nth_opt (rev (pool ni)) 0 = Some (last (pool ni))"
    using assms(2) by (simp add: nth_opt_def last_conv_nth rev_nth)
  finally have walk: "nmbm_block_walk ni False ?t 0 ?m = Some (Some (last (pool ni)))" .
  have "s32 (last (pool ni)) = int (last (pool ni))" "sub32 ?t 1 = ?t - 1"
    using pb assms(1) by (auto simp: pool_ok_def intro!: s32_id sub32_id)
  then show ?thesis
    using walk pb assms(3) by (simp add: nmbm_map_block_def arr_set_def Let_def)
qed

lemma pool_shrinks:
  assumes "Suc (mapping_blocks_ba ni) \<le> mapping_blocks_top_ba ni"
  shows "pool ni = pool (ni\<lparr>mapping_blocks_top_ba := mapping_blocks_top_ba ni - 1\<rparr>) @
    (if st_get (block_state ni) (mapping_blocks_top_ba ni) = BLOCK_ST_GOOD
     then [mapping_blocks_top_ba ni] else [])"
  using assms by (simp add: pool_def good_blocks_def)

text \<open>The block mapped is out of the pool afterwards exactly if it was its top block.\<close>

lemma map_block_pool:
  assumes "pool_ok ni" and "pool ni \<noteq> []" and "lb < length (block_mapping ni)"
  shows "ensures (nmbm_map_block crc ni lb) (\<lambda>(success, ni'). success \<and> pool_ok ni' \<and>
    block_mapping ni' = (block_mapping ni)[lb := int (last (pool ni))] \<and>
    (last (pool ni) \<in> set (pool ni') \<longleftrightarrow>
       st_get (block_state ni) (mapping_blocks_top_ba ni) \<noteq> BLOCK_ST_GOOD))"
proof -
  let ?n = "ni\<lparr>mapping_blocks_top_ba := mapping_blocks_top_ba ni - 1\<rparr>"
  have m: "Suc (mapping_blocks_ba ni) \<le> mapping_blocks_top_ba ni"
    using last_in_set [OF assms(2)] by (auto simp: pool_def set_good_blocks)
  have "pool (ni\<lparr>block_mapping := x, mapping_blocks_top_ba := y, block_mapping_changed := z\<rparr>) =
      pool (ni\<lparr>mapping_blocks_top_ba := y\<rparr>)" for x y z
    by (simp add: pool_def good_blocks_def)
  moreover have "last (pool ni) \<in> set (pool ?n) \<longleftrightarrow>
      st_get (block_state ni) (mapping_blocks_top_ba ni) \<noteq> BLOCK_ST_GOOD"
  proof (cases "st_get (block_state ni) (mapping_blocks_top_ba ni) = BLOCK_ST_GOOD")
    case True
    then have "last (pool ni) = mapping_blocks_top_ba ni"
      using pool_shrinks [OF m] by simp
    moreover have "mapping_blocks_top_ba ni \<notin> set (pool ?n)"
      using m by (auto simp: pool_def good_blocks_def)
    ultimately show ?thesis
      using True by simp
  next
    case False
    then show ?thesis
      using pool_shrinks [OF m] last_in_set [OF assms(2)] by simp
  qed
  ultimately show ?thesis
    using assms(1) m by (auto simp: map_block_takes [OF assms] pool_ok_def)
qed

text \<open>A block left in the pool is mapped a second time.\<close>

lemma map_block_twice:
  assumes "pool_ok ni" and "pool ni \<noteq> []" and "a < length (block_mapping ni)"
    and "b < length (block_mapping ni)" and "a \<noteq> b"
    and "st_get (block_state ni) (mapping_blocks_top_ba ni) \<noteq> BLOCK_ST_GOOD"
  shows "ensures (do {
      (s1, ni) \<leftarrow> nmbm_map_block crc ni a;
      (s2, ni) \<leftarrow> nmbm_map_block crc ni b;
      Some (s1, s2, ni)
    }) (\<lambda>(s1, s2, ni'). s1 \<and> s2 \<and> block_mapping ni' ! a = block_mapping ni' ! b \<and> 0 \<le> block_mapping ni' ! a)"
proof -
  let ?n = "ni\<lparr>block_mapping := (block_mapping ni)[a := int (last (pool ni))],
       mapping_blocks_top_ba := mapping_blocks_top_ba ni - 1,
       block_mapping_changed := u32 (block_mapping_changed ni + 1)\<rparr>"
  have m: "Suc (mapping_blocks_ba ni) \<le> mapping_blocks_top_ba ni"
    using last_in_set [OF assms(2)] by (auto simp: pool_def set_good_blocks)
  have "pool ?n = pool ni"
    using pool_shrinks [OF m] assms(6) by (simp add: pool_def good_blocks_def)
  moreover have "pool_ok ?n"
    using assms(1) m by (auto simp: pool_ok_def)
  ultimately show ?thesis
    using assms map_block_takes [OF assms(1-3), of crc] map_block_takes [of ?n b crc] by simp
qed

end
