(* ===== verification/Nmbm_Image.thy ===== *)
theory Nmbm_Image
  imports Nmbm_Tables Nmbm_Load
begin

text \<open>
  The image of the info tables that \<^verbatim>\<open>nmbm_generate_info_table_cache\<close> puts together passes the
  checks of \<^verbatim>\<open>Nmbm_Load\<close> and holds the two tables.
\<close>

definition image_valid :: "crc_fun \<Rightarrow> 'd nmbm_instance \<Rightarrow> byte list \<Rightarrow> bool" where
  "image_valid crc ni c \<longleftrightarrow> length c = info_table_size ni \<and>
     nmbm_check_header crc c (info_table_size ni) = Some True \<and>
     nmbm_check_info_table_header ni (dec_info_table_header (take sizeof_info_table_header c)) \<and>
     le_words (take (state_table_size ni) (drop (state_table_off (dec_info_table_header c)) c)) = block_state ni \<and>
     le_ints (take (mapping_table_size ni) (drop (mapping_table_off (dec_info_table_header c)) c)) = block_mapping ni"

lemma slice_of_take: "n + k \<le> m \<Longrightarrow> take k (drop n (take m xs)) = take k (drop n xs)"
  by (simp add: drop_take min_def)

lemma dec_image_header:
  assumes "take 12 c = take 12 c0" and "drop 16 c = drop 16 c0" and "take 32 c0 = enc_info_table_header it"
    and "magic (ift_header it) < 2 ^ 32" and "hdr_size (ift_header it) < 2 ^ 32"
    and "state_table_off it < 2 ^ 32" and "mapping_table_off it < 2 ^ 32"
  shows "magic (ift_header (dec_info_table_header c)) = magic (ift_header it)"
    and "hdr_size (ift_header (dec_info_table_header c)) = hdr_size (ift_header it)"
    and "state_table_off (dec_info_table_header c) = state_table_off it"
    and "mapping_table_off (dec_info_table_header c) = mapping_table_off it"
proof -
  have front: "take 4 (drop n c) = take 4 (drop n (enc_info_table_header it))" if "n + 4 \<le> 12" for n
    using that slice_of_take [of n 4 12 c] slice_of_take [of n 4 12 c0] slice_of_take [of n 4 32 c0] assms(1,3)
    by simp
  have rear: "take 4 (drop n c) = take 4 (drop n (enc_info_table_header it))" if "16 \<le> n" "n + 4 \<le> 32" for n
  proof -
    have "drop n c = drop n c0"
      using arg_cong [OF assms(2), of "drop (n - 16)"] that(1) by simp
    then show ?thesis
      using that(2) slice_of_take [of n 4 32 c0] assms(3) by simp
  qed
  show "magic (ift_header (dec_info_table_header c)) = magic (ift_header it)"
    "hdr_size (ift_header (dec_info_table_header c)) = hdr_size (ift_header it)"
    "state_table_off (dec_info_table_header c) = state_table_off it"
    "mapping_table_off (dec_info_table_header c) = mapping_table_off it"
    using front [of 0] front [of 8] rear [of 20] rear [of 24] assms(4-7)
    by (simp_all add: dec_info_table_header_def dec_header_def enc_info_table_header_def enc_header_def le_dec_le_enc)
qed

lemma dec_info_take: "dec_info_table_header (take sizeof_info_table_header c) = dec_info_table_header c"
  by (simp add: dec_info_table_header_def dec_header_def sizeof_info_table_header_def drop_take min_def)

lemma generate_image_valid:
  assumes "incremental_crc crc" and "tabs ni"
    and "\<And>m. m \<in> set (block_mapping ni) \<Longrightarrow> - (2 ^ 31) \<le> m \<and> m < 2 ^ 31"
  shows "ensures (nmbm_generate_info_table_cache crc ni) (\<lambda>(changed, ni').
    image_valid crc ni (info_table_cache ni'))"
proof -
  note t = tabsD [OF assms(2), unfolded sizeof_info_table_header_def]
  let ?it = "image_header ni (dirty ni)"
  have valid: "image_valid crc ni c"
    if c: "image_body ni c" "take 32 c0 = enc_info_table_header ?it" "length c0 = info_table_size ni"
      "nmbm_update_checksum crc c0 = Some c" for c c0
  proof -
    have h0: "hdr_size (dec_header c0) = info_table_size ni"
      using dec_image_header(2) [OF refl refl c(2)] t by (simp add: dec_info_table_header_def nmbm_const_defs)
    have upd: "length c = length c0" "drop 16 c = drop 16 c0" "take 12 c = take 12 c0"
      "nmbm_check_header crc c (info_table_size ni) = Some True"
      using incremental_crc.check_update_checksum [OF assms(1), of c0 "info_table_size ni"] c(3,4) h0 t by auto
    note d = dec_image_header [OF upd(3,2) c(2)]
    have off: "state_table_off (dec_info_table_header c) = state_table_off (info_table ni)"
      "mapping_table_off (dec_info_table_header c) = mapping_table_off (info_table ni)"
      "magic (ift_header (dec_info_table_header c)) = NMBM_MAGIC_INFO_TABLE"
      "hdr_size (ift_header (dec_info_table_header c)) = info_table_size ni"
      using d t by (simp_all add: nmbm_const_defs)
    have "sub32 (mapping_table_off (info_table ni)) (state_table_off (info_table ni)) =
        mapping_table_off (info_table ni) - state_table_off (info_table ni)"
      "sub32 (info_table_size ni) (mapping_table_off (info_table ni)) =
        info_table_size ni - mapping_table_off (info_table ni)"
      using t by (auto intro!: sub32_id)
    then have "nmbm_check_info_table_header ni (dec_info_table_header c)"
      using off t by (simp add: nmbm_check_info_table_header_def) linarith
    then show ?thesis
      using upd c(1,3) off le_ints_ints_le [of "block_mapping ni"] assms(3)
      by (simp add: image_valid_def dec_info_take image_body_def)
  qed
  show ?thesis
    by (rule ensures_mono [OF generate_cache_ok [OF assms(2)]]) (auto intro: valid)
qed

end
