(* ===== verification/Nmbm_Ram.thy ===== *)
theory Nmbm_Ram
  imports Nmbm_Lock Nmbm_Store Nmbm_Fresh Nmbm_Pool Nmbm_Image Crc32
begin

text \<open>
  A NAND chip in memory behind the functions of the MTD core, as an instance of the interface
  \<open>mtd_device\<close>: the laws the development assumes of the kernel can hold, and the operations can be
  run on it. Programming clears bits, erasing sets them.
\<close>

section \<open>The chip\<close>

record ram =
  ram_blocks :: "byte list list"
  ram_oobs :: "byte list list"
  ram_bad :: "bool list"

definition program_bytes :: "byte list \<Rightarrow> nat \<Rightarrow> byte list \<Rightarrow> byte list" where
  "program_bytes xs off ys =
     take off xs @ map2 (AND) (take (length ys) (drop off xs)) ys @ drop (off + length ys) xs"

definition ram_oobavail :: "ram mtd_info \<Rightarrow> mtd_ops_mode \<Rightarrow> nat" where
  "ram_oobavail l m =
     (if m = MTD_OPS_AUTO_OOB then min (mtd_oobavail_size l) (mtd_oobsize l) else mtd_oobsize l)"

text \<open>Block and page of an address.\<close>

definition ram_block :: "ram mtd_info \<Rightarrow> nat \<Rightarrow> nat" where
  "ram_block l addr = addr div mtd_erasesize l"

definition ram_oob_pos :: "ram mtd_info \<Rightarrow> nat \<Rightarrow> nat" where
  "ram_oob_pos l addr = addr mod mtd_erasesize l div mtd_writesize l * mtd_oobsize l"

definition fetch :: "byte list list \<Rightarrow> nat \<Rightarrow> nat \<Rightarrow> nat \<Rightarrow> byte list" where
  "fetch bs b off n = take n (drop off (if b < length bs then bs ! b else []) @ replicate n 0xff)"

definition ram_read_oob ::
  "ram mtd_info \<Rightarrow> nat \<Rightarrow> mtd_ops_mode \<Rightarrow> nat \<Rightarrow> nat \<Rightarrow> bool \<Rightarrow> bool \<Rightarrow>
     int \<times> byte list \<times> byte list \<times> ram mtd_info" where
  "ram_read_oob l addr m len ooblen d ob =
     (if ram_block l addr < length (ram_blocks (mtd_priv l)) then 0 else - EINVAL,
      fetch (ram_blocks (mtd_priv l)) (ram_block l addr) (addr mod mtd_erasesize l) len,
      fetch (ram_oobs (mtd_priv l)) (ram_block l addr) (ram_oob_pos l addr) ooblen, l)"

definition store :: "byte list list \<Rightarrow> nat \<Rightarrow> nat \<Rightarrow> byte list option \<Rightarrow> byte list list" where
  "store bs b off ys = (case ys of None \<Rightarrow> bs | Some y \<Rightarrow> bs[b := program_bytes (bs ! b) off y])"

definition ram_write_oob ::
  "ram mtd_info \<Rightarrow> nat \<Rightarrow> mtd_ops_mode \<Rightarrow> byte list option \<Rightarrow> byte list option \<Rightarrow>
     int \<times> ram mtd_info" where
  "ram_write_oob l addr m wd wo =
     (if ram_block l addr < length (ram_blocks (mtd_priv l)) then
        (0, l\<lparr>mtd_priv := (mtd_priv l)
               \<lparr>ram_blocks := store (ram_blocks (mtd_priv l)) (ram_block l addr)
                                (addr mod mtd_erasesize l) wd,
                ram_oobs := store (ram_oobs (mtd_priv l)) (ram_block l addr)
                              (ram_oob_pos l addr) wo\<rparr>\<rparr>)
      else (- EINVAL, l))"

definition ram_erase :: "ram mtd_info \<Rightarrow> nat \<Rightarrow> nat \<Rightarrow> int \<times> ram mtd_info" where
  "ram_erase l addr len =
     (let b = ram_block l addr; p = mtd_priv l in
      if b < length (ram_blocks p) \<and> b < length (ram_bad p) \<and> \<not> ram_bad p ! b then
        (0, l\<lparr>mtd_priv := p\<lparr>ram_blocks := (ram_blocks p)[b := replicate (length (ram_blocks p ! b)) 0xff],
                            ram_oobs := (ram_oobs p)[b := replicate (length (ram_oobs p ! b)) 0xff]\<rparr>\<rparr>)
      else (- EIO, l))"

definition ram_block_isbad :: "ram mtd_info \<Rightarrow> nat \<Rightarrow> int \<times> ram mtd_info" where
  "ram_block_isbad l addr =
     (let b = ram_block l addr; p = mtd_priv l
      in (if b < length (ram_bad p) \<and> ram_bad p ! b then 1 else 0, l))"

definition ram_block_markbad :: "ram mtd_info \<Rightarrow> nat \<Rightarrow> int \<times> ram mtd_info" where
  "ram_block_markbad l addr =
     (let b = ram_block l addr; p = mtd_priv l
      in (0, l\<lparr>mtd_priv := p\<lparr>ram_bad := (ram_bad p)[b := True]\<rparr>\<rparr>))"

definition ram_api :: "ram mtd_api" where
  "ram_api = \<lparr> mtd_oobavail = ram_oobavail, mtd_read_oob = ram_read_oob,
     mtd_write_oob = ram_write_oob, mtd_erase = ram_erase,
     mtd_block_isbad = ram_block_isbad, mtd_block_markbad = ram_block_markbad \<rparr>"

section \<open>It satisfies the interface\<close>

lemma length_fetch [simp]: "length (fetch bs b off n) = n"
  by (simp add: fetch_def)

lemma mtd_geo_priv [simp]: "mtd_geo (l\<lparr>mtd_priv := p\<rparr>) = mtd_geo l"
  by (simp add: mtd_geo_def)

lemma ram_geo_keeps [simp]:
  "mtd_geo (snd (ram_write_oob l addr m wd wo)) = mtd_geo l"
  "mtd_geo (snd (ram_erase l addr len)) = mtd_geo l"
  "snd (ram_block_isbad l addr) = l"
  "mtd_geo (snd (ram_block_markbad l addr)) = mtd_geo l"
  by (simp_all add: ram_write_oob_def ram_erase_def ram_block_isbad_def ram_block_markbad_def Let_def)

text \<open>What block \<open>b\<close> holds.\<close>

definition ram_contents :: "ram mtd_info \<Rightarrow> nat \<Rightarrow> byte list" where
  "ram_contents l b = fetch (ram_blocks (mtd_priv l)) b 0 (mtd_erasesize l)"

lemma fetch_update: "b \<noteq> c \<Longrightarrow> fetch (bs[c := x]) b off n = fetch bs b off n"
  by (simp add: fetch_def)

lemma mtd_erasesize_geo: "mtd_geo l = mtd_geo l' \<Longrightarrow> mtd_erasesize l = mtd_erasesize l'"
  by (simp add: mtd_geo_def)

lemma ram_frame:
  assumes "ram_block l addr \<noteq> b"
  shows "ram_contents (snd (ram_write_oob l addr m wd wo)) b = ram_contents l b"
    "ram_contents (snd (ram_erase l addr len)) b = ram_contents l b"
    "ram_contents (snd (ram_block_markbad l addr)) b = ram_contents l b"
  using assms
  by (auto simp: ram_contents_def ram_write_oob_def ram_erase_def ram_block_markbad_def store_def
      fetch_update Let_def split: option.split)

lemma ram_mtd_device:
  assumes "mtd_writesize_mask geo = mtd_writesize geo - 1"
  shows "mtd_device ram_api geo (\<lambda>l l'. mtd_geo l' = mtd_geo l) (\<lambda>_. True)"
  by unfold_locales (use assms in \<open>auto simp: ram_api_def ram_oobavail_def ram_read_oob_def\<close>)

lemma ram_mtd_frame:
  assumes "mtd_writesize_mask geo = mtd_writesize geo - 1"
  shows "mtd_device ram_api geo
    (\<lambda>l l'. mtd_geo l' = mtd_geo l \<and> ram_contents l' b = ram_contents l b) (\<lambda>x. x \<noteq> b)"
  by unfold_locales
    (use assms in \<open>auto simp: ram_api_def ram_oobavail_def ram_read_oob_def ram_frame ram_block_def
      dest: mtd_erasesize_geo\<close>)

section \<open>A chip of 16 blocks\<close>

text \<open>
  Pages of 64 bytes and 4 bytes of OOB, blocks of 128 bytes; blocks 0 to 7 hold data, the info
  tables are in blocks 8 to 11, the signature in block 15.
\<close>

definition chip16 :: "ram mtd_info" where
  "chip16 = \<lparr> mtd_size = 2048, mtd_erasesize = 128, mtd_writesize = 64, mtd_oobsize = 4,
     mtd_oobavail_size = 4, mtd_writesize_shift = 6, mtd_writesize_mask = 63,
     bitflip_threshold = 1, ecc_strength = 4, ecc_stats = \<lparr> corrected = 0, failed = 0 \<rparr>,
     mtd_priv = \<lparr> ram_blocks = replicate 16 (replicate 128 0xff),
                  ram_oobs = replicate 16 (replicate 8 0xff), ram_bad = replicate 16 False \<rparr> \<rparr>"

definition env16 :: "ram nmbm_probe_env" where
  "env16 = \<lparr> by_node = Some (Some chip16), by_name = None, prop_max_ratio = None,
     prop_max_reserved_blocks = None, prop_forced_create = True, prop_empty_page_ecc_ok = False,
     alloc_ok = True, register_ret = 0 \<rparr>"

abbreviation nld16 :: "ram nmbm_mtd_arg nmbm_lower_device" where
  "nld16 \<equiv> nmbm_probe_nld ram_api env16 chip16"

definition ni16 :: "ram nmbm_mtd_arg nmbm_instance" where
  "ni16 = \<lparr> lower = nld16, rawpage_size = 68, rawblock_size = 136, rawchip_size = 2176,
     writesize_mask = 63, erasesize_mask = 127, writesize_shift = 6, erasesize_shift = 7,
     signature = dec_signature [], info_table_cache = replicate 192 0, info_table_size = 192,
     info_table_spare_blocks = 2,
     info_table = \<lparr> ift_header = dec_header [], write_count = 1, state_table_off = 64,
                    mapping_table_off = 128, ift_padding = 0 \<rparr>,
     block_state = [- 1], block_state_changed = 0, state_table_size = 4,
     block_mapping = [0, 1, 2, 3, 4, 5, 6, 7, -1, -1, -1, -1, -1, -1, -1, -1],
     block_mapping_changed = 0, mapping_table_size = 64, page_cache = replicate 68 0,
     protected = False, block_count = 16, data_block_count = 8, mgmt_start_ba = 8,
     main_table_ba = 8, backup_table_ba = 10, mapping_blocks_ba = 12, mapping_blocks_top_ba = 14,
     signature_ba = 15, log_display_level = NMBM_LOG_INFO \<rparr>"

definition nm16 :: "ram nmbm_mtd" where
  "nm16 = \<lparr> nm_ni = ni16, nm_page_cache = replicate 68 0, nm_state = FL_READY,
     nm_upper_size = 1024 \<rparr>"

lemma nld16_sizes [simp]:
  "writesize nld16 = 64" "erasesize nld16 = 128" "oobsize nld16 = 4" "arg (nld16\<lparr>arg := d\<rparr>) = d"
  "nm_lower (arg nld16) = chip16"
  by (simp_all add: nmbm_probe_nld_def chip16_def)

lemma chip16_sizes [simp]:
  "mtd_writesize chip16 = 64" "mtd_erasesize chip16 = 128" "mtd_oobsize chip16 = 4"
  by (simp_all add: chip16_def)

lemma nm16_fields [simp]: "nm_state nm16 = FL_READY" "nm_ni nm16 = ni16"
  by (simp_all add: nm16_def)

lemma ni16_fields:
  "block_count ni16 = 16" "data_block_count ni16 = 8" "mgmt_start_ba ni16 = 8"
  "mapping_blocks_ba ni16 = 12" "mapping_blocks_top_ba ni16 = 14" "signature_ba ni16 = 15"
  "length (block_state ni16) = 1" "block_state_changed ni16 = 0" "block_mapping_changed ni16 = 0"
  "block_mapping ni16 = [0, 1, 2, 3, 4, 5, 6, 7, -1, -1, -1, -1, -1, -1, -1, -1]"
  "protected ni16 = False" "lower ni16 = nld16"
  by (simp_all add: ni16_def)

lemma ni16_good: "b < 16 \<Longrightarrow> st_get (block_state ni16) b = BLOCK_ST_GOOD"
proof -
  assume "b < 16"
  then have "drop_bit (2 * b) (- 1 :: 32 word) AND 3 = 3"
    by (auto intro!: bit_word_eqI simp: bit_simps bit_numeral_rec numeral_eq_Suc split: nat.splits)
  then show ?thesis
    using \<open>b < 16\<close> by (simp add: ni16_def st_get_def st_unit_eq st_shift_eq block_st_defs)
qed

lemma ni16_good_blocks: "b \<le> 16 \<Longrightarrow> good_blocks ni16 a b = [a..<b]"
  by (auto simp: good_blocks_def ni16_good)

lemma ni16_geom: "geom ni16"
  by (simp add: geom_def ni16_def Let_def st_dom_def)

lemma ni16_inst_ok: "inst_ok ni16"
  by (simp add: inst_ok_def tabs_def tlay_def ni16_def sizeof_info_table_header_def st_dom_def)

lemma ni16_attached: "attached_to nld16 (\<lambda>d. mtd_geo (nm_lower d) = mtd_geo chip16) ni16"
  using ni16_geom by (simp add: attached_to_def dev_def ni16_def)

lemma nm16_upper_ok: "upper_ok ram_api env16 chip16 nm16"
  using ni16_attached ni16_inst_ok by (simp add: upper_ok_def nm16_def chip16_def)

interpretation ram: mtd_device ram_api env16 chip16 "\<lambda>l l'. mtd_geo l' = mtd_geo l" "\<lambda>_. True"
  by (rule ram_mtd_device) (simp add: chip16_def)

text \<open>The same device, watching the contents of block 5.\<close>

interpretation ram5: mtd_device ram_api env16 chip16
  "\<lambda>l l'. mtd_geo l' = mtd_geo l \<and> ram_contents l' 5 = ram_contents l 5" "\<lambda>x. x \<noteq> 5"
  by (rule ram_mtd_frame) (simp add: chip16_def)

text \<open>The chip attached read-only: nothing is changed at all.\<close>

definition nld_ro :: "ram nmbm_mtd_arg nmbm_lower_device" where
  "nld_ro = nld16\<lparr>flags := NMBM_F_READ_ONLY\<rparr>"

definition ni_ro :: "ram nmbm_mtd_arg nmbm_instance" where
  "ni_ro = ni16\<lparr>lower := nld_ro\<rparr>"

interpretation ro: lower_device nld_ro "\<lambda>a b. nm_lower b = nm_lower a" "\<lambda>_. False"
  "\<lambda>d. nm_lower d = chip16"
proof unfold_locales
  fix d d' :: "ram nmbm_mtd_arg" and rp addr data oob mode ret dat ob
  assume "nm_lower d = chip16" "read_page nld_ro = Some rp" "rp d addr data oob mode = (ret, dat, ob, d')"
  then have call: "nmbm_lower_read_page ram_api d addr data oob mode = (ret, dat, ob, d')"
    and chip: "nm_lower d = chip16"
    by (simp_all add: nld_ro_def)
  have "snd (snd (snd (mtd_read_oob ram_api l a m len ol x y))) = l" for l a m len ol x y
    by (simp add: ram_api_def ram_read_oob_def)
  then have "nm_lower d' = nm_lower d"
    using call by (auto simp: nmbm_lower_read_page_def Let_def case_prod_beta split: if_splits)
  then show "nm_lower d' = nm_lower d \<and> length dat = (if data then writesize nld_ro else 0) \<and>
      length ob \<le> (if oob then oobsize nld_ro else 0)"
    using ram.lower_read_page_law [OF _ call] chip by (auto simp: nld_ro_def split: if_splits)
qed (auto simp: nld_ro_def nmbm_probe_nld_def nmbm_lower_is_bad_block_def ram_api_def
    ram_block_isbad_def Let_def NMBM_F_READ_ONLY_def)

lemma ni_ro_ok:
  "attached_to nld_ro (\<lambda>d. nm_lower d = chip16) ni_ro" "inst_ok ni_ro"
  "flags nld_ro AND NMBM_F_READ_ONLY \<noteq> 0"
proof -
  have "geom ni_ro"
    by (simp add: geom_def ni_ro_def nld_ro_def ni16_def Let_def st_dom_def)
  then show "attached_to nld_ro (\<lambda>d. nm_lower d = chip16) ni_ro"
    by (simp add: attached_to_def dev_def ni_ro_def nld_ro_def)
  show "inst_ok ni_ro"
    using ni16_inst_ok by (simp add: ni_ro_def inst_ok_def tabs_def tlay_def)
  show "flags nld_ro AND NMBM_F_READ_ONLY \<noteq> 0"
    by (simp add: nld_ro_def NMBM_F_READ_ONLY_def)
qed

section \<open>The chip reports truthfully\<close>

lemma ram_api_simps:
  "mtd_oobavail ram_api = ram_oobavail" "mtd_read_oob ram_api = ram_read_oob"
  "mtd_write_oob ram_api = ram_write_oob" "mtd_erase ram_api = ram_erase"
  "mtd_block_isbad ram_api = ram_block_isbad" "mtd_block_markbad ram_api = ram_block_markbad"
  by (simp_all add: ram_api_def)

text \<open>The chip keeps its 16 blocks of 128 bytes.\<close>

definition ram_shape :: "ram mtd_info \<Rightarrow> bool" where
  "ram_shape l \<longleftrightarrow> mtd_geo l = mtd_geo chip16 \<and> length (ram_blocks (mtd_priv l)) = 16 \<and>
     (\<forall>bs\<in>set (ram_blocks (mtd_priv l)). length bs = 128)"

definition ram_page :: "ram nmbm_mtd_arg \<Rightarrow> nat \<Rightarrow> byte list" where
  "ram_page d a = fetch (ram_blocks (mtd_priv (nm_lower d))) (a div 128) (a mod 128 div 64 * 64) 64"

lemma ram_shapeD:
  assumes "ram_shape l"
  shows "mtd_erasesize l = 128" "mtd_writesize l = 64" "mtd_oobsize l = 4"
    "length (ram_blocks (mtd_priv l)) = 16" "b < 16 \<Longrightarrow> length (ram_blocks (mtd_priv l) ! b) = 128"
  using assms mtd_geoD(2-4) [of l chip16] by (auto simp: ram_shape_def)

lemma length_program_bytes [simp]: "off \<le> length xs \<Longrightarrow> length (program_bytes xs off ys) = length xs"
  by (simp add: program_bytes_def min_def)

lemma nth_program_bytes:
  assumes "i < length xs" and "off \<le> length xs"
  shows "program_bytes xs off ys ! i =
    (if off \<le> i \<and> i < off + length ys then xs ! i AND ys ! (i - off) else xs ! i)"
  using assms by (auto simp: program_bytes_def nth_append min_def)

text \<open>A page after programming: it has changed as programming does, every other page is the same.\<close>

lemma fetch_program:
  assumes "b < length bs" and "length (bs ! b) = 128" and "off + 64 \<le> 128" and "length ys = 64"
  shows "fetch (bs[b := program_bytes (bs ! b) off ys]) b off 64 = program (fetch bs b off 64) ys"
  by (rule nth_equalityI) (use assms in \<open>auto simp: fetch_def program_def nth_program_bytes\<close>)

lemma fetch_other:
  assumes "b < length bs" and "length (bs ! b) = 128" and "o' + 64 \<le> 128" and "off \<le> 128"
    and "c = b \<Longrightarrow> o' + 64 \<le> off \<or> off + length ys \<le> o'"
  shows "fetch (bs[b := program_bytes (bs ! b) off ys]) c o' 64 = fetch bs c o' 64"
proof (cases "c = b")
  case True
  then show ?thesis
    by (intro nth_equalityI) (use assms in \<open>auto simp: fetch_def nth_program_bytes\<close>)
qed (simp add: fetch_update)

lemma ram_shape_keeps:
  assumes "ram_shape l"
  shows "ram_shape (snd (ram_write_oob l addr m wd wo))" "ram_shape (snd (ram_erase l addr len))"
    "ram_shape (snd (ram_block_markbad l addr))"
proof -
  note d = ram_shapeD [OF assms]
  have "addr mod 128 \<le> 128"
    using mod_less_divisor [of 128 addr] by linarith
  then show "ram_shape (snd (ram_write_oob l addr m wd wo))" "ram_shape (snd (ram_erase l addr len))"
    "ram_shape (snd (ram_block_markbad l addr))"
    using assms d
    by (auto simp: ram_shape_def ram_write_oob_def ram_erase_def ram_block_markbad_def store_def Let_def
        dest!: subsetD [OF set_update_subset_insert] split: option.split)
qed

text \<open>Pages of the same block are the same or apart.\<close>

lemma page_halves:
  "(n :: nat) mod 128 = 64 * (n div 64 mod 2) + n mod 64" "n mod 128 div 64 = n div 64 mod 2"
  "n div 128 = n div 64 div 2"
proof -
  show "n mod 128 = 64 * (n div 64 mod 2) + n mod 64"
    using mod_mult2_eq [of n 64 2] by simp
  then show "n mod 128 div 64 = n div 64 mod 2"
    by simp
  show "n div 128 = n div 64 div 2"
    using div_mult2_eq [of n 64 2] by simp
qed

lemma page_start:
  assumes "(addr :: nat) mod 64 = 0"
  shows "addr mod 128 div 64 * 64 = addr mod 128" "addr mod 128 + 64 \<le> 128"
  using assms page_halves(1,2) [of addr] mod_less_divisor [of 2 "addr div 64"] by linarith+

lemma page_in_block: "(a :: nat) mod 128 div 64 * 64 + 64 \<le> 128"
  using page_halves(2) [of a] mod_less_divisor [of 2 "a div 64"] by linarith

lemma page_apart:
  assumes "(addr :: nat) mod 64 = 0" and "a div 64 \<noteq> addr div 64" and "a div 128 = addr div 128" and "k \<le> 64"
  shows "a mod 128 div 64 * 64 + 64 \<le> addr mod 128 \<or> addr mod 128 + k \<le> a mod 128 div 64 * 64"
proof -
  have "a div 64 mod 2 \<noteq> addr div 64 mod 2"
    using assms(2,3) unfolding page_halves(3) by (metis mult_div_mod_eq)
  then show ?thesis
    using assms(1,4) unfolding page_halves(1) [of addr] page_halves(2) [of a]
      not_mod_2_eq_0_eq_1 by (cases "a div 64 mod 2 = 0"; cases "addr div 64 mod 2 = 0") auto
qed

lemma ram_write_page:
  assumes "ram_shape l" and "addr mod 64 = 0" and "ram_write_oob l addr m wd wo = (ret, l')"
    and "nm_lower d = l" and "nm_lower d' = l'" and "\<And>ys. wd = Some ys \<Longrightarrow> length ys \<le> 64"
  shows "a div 64 \<noteq> addr div 64 \<Longrightarrow> ram_page d' a = ram_page d a"
    and "wd = Some ys \<Longrightarrow> length ys = 64 \<Longrightarrow> program (ram_page d' addr) ys = program (ram_page d addr) ys"
    and "wd = Some ys \<Longrightarrow> length ys = 64 \<Longrightarrow> ret = 0 \<Longrightarrow> ram_page d' addr = program (ram_page d addr) ys"
proof -
  note sh = ram_shapeD [OF assms(1)] and st = page_start [OF assms(2)]
  have idem: "program (program x ys) ys = program x ys" for x y
    by (rule nth_equalityI) (auto simp: program_def and.assoc)
  have l': "l' = l\<lparr>mtd_priv := (mtd_priv l)
        \<lparr>ram_blocks := store (ram_blocks (mtd_priv l)) (addr div 128) (addr mod 128) wd,
         ram_oobs := store (ram_oobs (mtd_priv l)) (addr div 128) (ram_oob_pos l addr) wo\<rparr>\<rparr>"
    if "addr div 128 < 16"
    using assms(3) sh that by (simp add: ram_write_oob_def ram_block_def split: if_splits)
  have same: "l' = l" "ret \<noteq> 0" if "\<not> addr div 128 < 16"
    using assms(3) sh that by (simp_all add: ram_write_oob_def ram_block_def errno_defs split: if_splits)
  have prog: "ram_page d' addr = program (ram_page d addr) ys"
    if "wd = Some ys" "length ys = 64" "addr div 128 < 16" for ys
    using that l' sh st assms(4,5) fetch_program [of "addr div 128" "ram_blocks (mtd_priv l)" "addr mod 128" ys]
    by (simp add: ram_page_def store_def)
  show "ram_page d' a = ram_page d a" if "a div 64 \<noteq> addr div 64"
  proof (cases "addr div 128 < 16")
    case True
    have "fetch ((ram_blocks (mtd_priv l))[addr div 128 := program_bytes (ram_blocks (mtd_priv l) ! (addr div 128)) (addr mod 128) ys])
        (a div 128) (a mod 128 div 64 * 64) 64 = fetch (ram_blocks (mtd_priv l)) (a div 128) (a mod 128 div 64 * 64) 64"
      if "wd = Some ys" for ys
    proof (rule fetch_other)
      show "a mod 128 div 64 * 64 + 64 \<le> addr mod 128 \<or> addr mod 128 + length ys \<le> a mod 128 div 64 * 64"
        if "a div 128 = addr div 128"
        by (rule page_apart [OF assms(2) \<open>a div 64 \<noteq> addr div 64\<close> that assms(6) [OF \<open>wd = Some ys\<close>]])
    qed (use True sh st page_in_block [of a] in auto)
    then show ?thesis
      using l' [OF True] assms(4,5) by (auto simp: ram_page_def store_def split: option.split)
  qed (use same assms(4,5) in \<open>simp add: ram_page_def\<close>)
  show "program (ram_page d' addr) ys = program (ram_page d addr) ys" if "wd = Some ys" "length ys = 64"
    using prog [OF that] same assms(4,5) idem by (cases "addr div 128 < 16") (auto simp: ram_page_def)
  show "ram_page d' addr = program (ram_page d addr) ys" if "wd = Some ys" "length ys = 64" "ret = 0"
    using prog [OF that(1,2)] same that(3) by blast
qed

lemma ram_erase_page:
  assumes "ram_shape l" and "ram_erase l addr len = (ret, l')" and "nm_lower d = l" and "nm_lower d' = l'"
  shows "a div 128 \<noteq> addr div 128 \<Longrightarrow> ram_page d' a = ram_page d a"
    and "ret = 0 \<Longrightarrow> a div 128 = addr div 128 \<Longrightarrow> ram_page d' a = replicate 64 0xff"
proof -
  note sh = ram_shapeD [OF assms(1)]
  have bl: "ram_blocks (mtd_priv l') =
      (if ret = 0 then (ram_blocks (mtd_priv l))[addr div 128 := replicate 128 0xff] else ram_blocks (mtd_priv l))"
    "ret = 0 \<Longrightarrow> addr div 128 < 16"
    using assms(2) sh by (auto simp: ram_erase_def ram_block_def errno_defs Let_def split: if_splits)
  show "ram_page d' a = ram_page d a" if "a div 128 \<noteq> addr div 128"
    using that assms(3,4) bl(1) by (simp add: ram_page_def fetch_update)
  show "ram_page d' a = replicate 64 0xff" if "ret = 0" "a div 128 = addr div 128"
    using that assms(4) bl sh page_in_block [of a] by (simp add: ram_page_def fetch_def min_def)
qed

lemma ram_mark_page:
  assumes "ram_block_markbad l addr = (ret, l')" and "nm_lower d = l" and "nm_lower d' = l'"
  shows "ram_page d' a = ram_page d a"
proof -
  have "ram_blocks (mtd_priv l') = ram_blocks (mtd_priv l)"
    using assms(1) by (auto simp: ram_block_markbad_def Let_def)
  then show ?thesis
    using assms(2,3) by (simp add: ram_page_def)
qed

lemma ram_read_page:
  assumes "ram_shape (nm_lower d)" and "nmbm_lower_read_page ram_api d addr data oob mode = (ret, dat, ob, d')"
  shows "nm_lower d' = nm_lower d" and "ram_page d' = ram_page d"
    and "data \<Longrightarrow> addr mod 64 = 0 \<Longrightarrow> dat = ram_page d addr"
proof -
  show eq: "nm_lower d' = nm_lower d"
    using assms(2) by (auto simp: nmbm_lower_read_page_def ram_api_simps ram_read_oob_def Let_def split: if_splits)
  then show "ram_page d' = ram_page d"
    by (simp add: ram_page_def fun_eq_iff)
  show "dat = ram_page d addr" if "data" "addr mod 64 = 0"
    using that assms(2) ram_shapeD [OF assms(1)] page_start [OF that(2)]
    by (auto simp: nmbm_lower_read_page_def ram_api_simps ram_read_oob_def ram_page_def ram_block_def Let_def
        split: if_splits)
qed

interpretation ramn: nand nld16 "\<lambda>d. ram_shape (nm_lower d)" ram_page
proof unfold_locales
  fix d d' :: "ram nmbm_mtd_arg" and addr
  assume I: "ram_shape (nm_lower d)"
  have geo: "mtd_geo (nm_lower d) = mtd_geo chip16"
    using I by (simp add: ram_shape_def)
  show "ram_shape (nm_lower d') \<and> ram_page d' = ram_page d \<and>
      length dat = (if data then writesize nld16 else 0) \<and> length ob \<le> (if oob then oobsize nld16 else 0)"
    if "read_page nld16 = Some rp" "rp d addr data oob mode = (ret, dat, ob, d')"
    for rp data oob mode ret dat ob
    using that I ram_read_page [OF I, of addr data oob mode ret dat ob d']
      ram.lower_read_page_law [OF geo, of addr data oob mode ret dat ob d'] by auto
  show "dat = ram_page d addr"
    if "read_page nld16 = Some rp" "addr mod writesize nld16 = 0" "rp d addr True oob mode = (ret, dat, ob, d')"
    for rp oob mode ret dat ob
    using that ram_read_page(3) [OF I, of addr True oob mode ret dat ob d'] by auto
  show "ram_shape (nm_lower d') \<and> (addr mod writesize nld16 = 0 \<longrightarrow>
      (\<forall>a. a div writesize nld16 \<noteq> addr div writesize nld16 \<longrightarrow> ram_page d' a = ram_page d a) \<and>
      (\<forall>data. dt = Some data \<and> length data = writesize nld16 \<longrightarrow>
         program (ram_page d' addr) data = program (ram_page d addr) data \<and>
         (ret = 0 \<longrightarrow> ram_page d' addr = program (ram_page d addr) data)))"
    if "write_page nld16 = Some wr" "wr d addr dt obx mode = (ret, d')" for wr dt obx mode ret
  proof -
    define wo where "wo = map_option (take (ram_oobavail (nm_lower d) (to_mtd_mode mode))) obx"
    have call: "ram_write_oob (nm_lower d) addr (to_mtd_mode mode) (map_option (take 64) dt) wo =
        (ret, nm_lower d')"
      using that ram_shapeD(2) [OF I]
      by (auto simp: nmbm_lower_write_page_def ram_api_simps wo_def Let_def case_prod_beta prod_eq_iff)
    have "length ys \<le> 64" if "map_option (take 64) dt = Some ys" for ys
      using that by auto
    note page = ram_write_page [OF I _ call refl refl this]
    show ?thesis
      using ram_shape_keeps(1) [OF I, of addr "to_mtd_mode mode" "map_option (take 64) dt" wo] call page
      by (auto simp: min_def)
  qed
  show "ram_shape (nm_lower d') \<and>
      (\<forall>a. a div erasesize nld16 \<noteq> addr div erasesize nld16 \<longrightarrow> ram_page d' a = ram_page d a) \<and>
      (ret = 0 \<longrightarrow> (\<forall>a. a div erasesize nld16 = addr div erasesize nld16 \<longrightarrow>
         ram_page d' a = replicate (writesize nld16) 0xff))"
    if "erase_block nld16 = Some er" "er d addr = (ret, d')" for er ret
    using that ram_shape_keeps(2) [OF I, of addr 128] ram_shapeD(1) [OF I]
      ram_erase_page [OF I, of addr 128 ret "nm_lower d'" d d']
    by (auto simp: nmbm_lower_erase_block_def ram_api_simps Let_def split: prod.splits)
  show "ram_shape (nm_lower d') \<and>
      (\<forall>a. a div erasesize nld16 \<noteq> addr div erasesize nld16 \<longrightarrow> ram_page d' a = ram_page d a)"
    if "mark_bad_block nld16 = Some mk" "mk d addr = (ret, d')" for mk ret
    using that ram_shape_keeps(3) [OF I, of addr] ram_mark_page [of "nm_lower d" addr ret "nm_lower d'" d d']
    by (auto simp: nmbm_lower_mark_bad_block_def ram_api_simps Let_def split: prod.splits)
  show "ram_shape (nm_lower (snd (ib d addr))) \<and> ram_page (snd (ib d addr)) = ram_page d"
    if "is_bad_block nld16 = Some ib" for ib
  proof -
    have "ib = nmbm_lower_is_bad_block ram_api"
      using that by simp
    then have "snd (ib d addr) = d"
      by (simp add: nmbm_lower_is_bad_block_def ram_api_simps ram_block_isbad_def Let_def)
    then show ?thesis
      using I by simp
  qed
qed auto

lemma ni16_nand: "attached_to nld16 (\<lambda>d. ram_shape (nm_lower d)) ni16"
  using ni16_geom by (simp add: attached_to_def dev_def ni16_def ram_shape_def) (simp add: chip16_def)

text \<open>The chip as it comes from the factory has no signature and can be attached.\<close>

lemma chip16_blank: "ram_page (arg nld16) a = replicate 64 0xff"
proof -
  have "arg nld16 = \<lparr> nm_lower = chip16, nm_upper_stats = \<lparr> corrected = 0, failed = 0 \<rparr> \<rparr>"
    by (simp add: nmbm_probe_nld_def)
  then show ?thesis
    using page_in_block [of a] by (simp add: ram_page_def fetch_def chip16_def min_def)
qed

lemma nld16_fresh:
  "nmbm_check_lower_members nld16 = (True, nld16)" "real_chip nld16" "no_signature nld16 ram_page (arg nld16)"
  "ram_shape (nm_lower (arg nld16))"
proof -
  show "nmbm_check_lower_members nld16 = (True, nld16)"
    by (simp add: nmbm_check_lower_members_def nmbm_probe_nld_def chip16_def env16_def is_power_of_2_u64_def
        is_power_of_2_def nmbm_const_defs sub64_def NMBM_MAX_RATIO_DEFAULT_def NMBM_MAX_BLOCKS_DEFAULT_def)
  show "real_chip nld16"
    by (simp add: real_chip_def nmbm_probe_nld_def chip16_def)
  have "[a..<a + 4] = [a, a + 1, a + 2, a + 3]" for a :: nat
    by (simp add: upt_rec)
  then show "no_signature nld16 ram_page (arg nld16)"
    by (simp add: no_signature_def chip16_blank nmbm_const_defs)
  show "ram_shape (nm_lower (arg nld16))"
    using ni16_nand by (simp add: attached_to_def dev_def ni16_def)
qed

definition zeroed16 :: "ram nmbm_mtd_arg nmbm_instance" where
  "zeroed16 = ni16\<lparr>signature := dec_signature (replicate 48 0)\<rparr>"

lemma zeroed16_signature:
  "length (sig_padding (signature zeroed16)) = 3" "length (sig_tail (signature zeroed16)) = 4"
  by (simp_all add: zeroed16_def dec_signature_def)

lemma nld16_flags: "flags nld16 AND NMBM_F_CREATE \<noteq> 0" "flags nld16 AND NMBM_F_READ_ONLY = 0"
  by (simp_all add: nmbm_probe_nld_def env16_def NMBM_F_CREATE_def NMBM_F_READ_ONLY_def)

lemma nld16_limits: "max_ratio nld16 = 1" "max_reserved_blocks nld16 = 256" "chip_size nld16 = 2048"
  by (simp_all add: nmbm_probe_nld_def env16_def chip16_def NMBM_MAX_RATIO_DEFAULT_def NMBM_MAX_BLOCKS_DEFAULT_def)

lemma ni16_end: "ba2addr ni16 (data_block_count ni16) = 1024"
  by (simp add: ba2addr_def ni16_def push_bit_eq_mult u64_def)

lemma ni16_erased: "logic_page ram_page ni16 a = replicate 64 0xff"
  using chip16_blank [of "phys_addr ni16 a"] by (simp add: logic_page_def dev_def ni16_fields)

lemma ni16_writable: "range_writable nld16 ram_page ni16 100 200"
proof -
  have "a div 128 \<in> {0, 1, 2}" if "100 \<le> a" "a < 300" for a :: nat
    using that by auto
  then have "block_mapping ni16 ! (a div 128) = int (a div 128)" if "100 \<le> a" "a < 300" for a :: nat
    using that by (fastforce simp: ni16_fields)
  then show ?thesis
    by (auto simp: range_writable_def ni16_erased)
qed

section \<open>A worn chip\<close>

lemma ni16_pool: "pool ni16 = [13, 14]"
  by (simp add: pool_def ni16_fields ni16_good_blocks upt_rec)

text \<open>The same chip with the top block of the pool gone bad.\<close>

definition ni16_bad :: "ram nmbm_mtd_arg nmbm_instance" where
  "ni16_bad = ni16\<lparr>block_state := st_put (block_state ni16) 14 BLOCK_ST_BAD\<rparr>"

lemma ni16_bad_ok:
  "geom ni16_bad" "inst_ok ni16_bad" "pool ni16_bad \<noteq> []" "block_count ni16_bad = 16"
  "st_get (block_state ni16_bad) (mapping_blocks_top_ba ni16_bad) \<noteq> BLOCK_ST_GOOD"
proof -
  have len: "length (st_put (block_state ni16) 14 BLOCK_ST_BAD) = length (block_state ni16)"
    by (simp add: st_put_def)
  have get: "st_get (block_state ni16_bad) b = (if b = 14 then BLOCK_ST_BAD else BLOCK_ST_GOOD)" if "b < 16" for b
    using that by (simp add: ni16_bad_def st_get_st_put st_dom_def ni16_fields ni16_good)
  show "geom ni16_bad"
    using ni16_geom geom_block_state [OF len] by (simp add: ni16_bad_def)
  show "inst_ok ni16_bad"
    using ni16_inst_ok len by (simp add: ni16_bad_def inst_ok_def tabs_def tlay_def st_dom_def)
  show "block_count ni16_bad = 16"
    by (simp add: ni16_bad_def ni16_fields)
  have "13 \<in> set (pool ni16_bad)"
    using get [of 13] by (simp add: pool_def set_good_blocks ni16_bad_def ni16_fields)
  then show "pool ni16_bad \<noteq> []"
    by auto
  show "st_get (block_state ni16_bad) (mapping_blocks_top_ba ni16_bad) \<noteq> BLOCK_ST_GOOD"
    using get [of 14] by (simp add: ni16_bad_def ni16_fields block_st_defs)
qed

text \<open>An info table with an offset far behind its end.\<close>

definition evil_header :: nmbm_info_table_header where
  "evil_header = \<lparr> ift_header = \<lparr> magic = NMBM_MAGIC_INFO_TABLE, version = NMBM_VER, hdr_size = 192, checksum = 0 \<rparr>,
     write_count = 1, state_table_off = 0, mapping_table_off = 2 ^ 31, ift_padding = 0 \<rparr>"

definition evil_table :: "byte list" where
  "evil_table = enc_info_table_header evil_header @ replicate 160 0"

lemma evil_table_header: "dec_info_table_header evil_table = evil_header" "length evil_table = 192"
proof -
  have "fits_info_table_header evil_header"
    by (simp add: fits_info_table_header_def fits_header_def evil_header_def nmbm_const_defs)
  then show "dec_info_table_header evil_table = evil_header"
    by (simp add: evil_table_def dec_enc_info_table_header)
  show "length evil_table = 192"
    by (simp add: evil_table_def)
qed

end
