(* ===== verification/Mtdsplit_Elf.thy ===== *)
theory Mtdsplit_Elf
  imports Mtdsplit_Fw
begin

text \<open>
  The splitter for ELF loaders, \<^verbatim>\<open>mtdsplit_elf.c\<close>: the size of the loader from its section header
  table or its program headers, for both ELF classes, and the division of the device behind
  it. The walk over the program headers is a partial function; that it ends on every device
  rests on reads failing outside the device.
\<close>

section \<open>Structures\<close>

definition ELF_MAGIC :: nat where "ELF_MAGIC = 0x7f454c46"
definition ELF_CLASS_32 :: nat where "ELF_CLASS_32 = 1"
definition ELF_CLASS_64 :: nat where "ELF_CLASS_64 = 2"

record elf_header_ident =
  ident_magic :: nat
  ident_class :: nat
  ident_data :: nat
  ident_version :: nat
  ident_osabi :: nat
  ident_abiversion :: nat
  ident_pad :: "byte list"

definition dec_elf_header_ident :: "byte list \<Rightarrow> elf_header_ident" where
  "dec_elf_header_ident hb =
     \<lparr>ident_magic = u32_at hb 0, ident_class = u8_at hb 4, ident_data = u8_at hb 5,
      ident_version = u8_at hb 6, ident_osabi = u8_at hb 7, ident_abiversion = u8_at hb 8,
      ident_pad = bytes_at hb 9 7\<rparr>"

text \<open>The members of the two headers, whose widths differ; the bytes start behind the identification.\<close>

record elf_header_members =
  eh_type :: nat
  eh_machine :: nat
  eh_version :: nat
  eh_entry :: nat
  eh_phoff :: nat
  eh_shoff :: nat
  eh_flags :: nat
  eh_ehsize :: nat
  eh_phentsize :: nat
  eh_phnum :: nat
  eh_shentsize :: nat
  eh_shnum :: nat
  eh_shstrndx :: nat

definition dec_elf_header_32 :: "byte list \<Rightarrow> elf_header_members" where
  "dec_elf_header_32 hb =
     \<lparr>eh_type = u16_at hb 0, eh_machine = u16_at hb 2, eh_version = u32_at hb 4,
      eh_entry = u32_at hb 8, eh_phoff = u32_at hb 12, eh_shoff = u32_at hb 16,
      eh_flags = u32_at hb 20, eh_ehsize = u16_at hb 24, eh_phentsize = u16_at hb 26,
      eh_phnum = u16_at hb 28, eh_shentsize = u16_at hb 30, eh_shnum = u16_at hb 32,
      eh_shstrndx = u16_at hb 34\<rparr>"

definition dec_elf_header_64 :: "byte list \<Rightarrow> elf_header_members" where
  "dec_elf_header_64 hb =
     \<lparr>eh_type = u16_at hb 0, eh_machine = u16_at hb 2, eh_version = u32_at hb 4,
      eh_entry = u64_at hb 8, eh_phoff = u64_at hb 16, eh_shoff = u64_at hb 24,
      eh_flags = u32_at hb 32, eh_ehsize = u16_at hb 36, eh_phentsize = u16_at hb 38,
      eh_phnum = u16_at hb 40, eh_shentsize = u16_at hb 42, eh_shnum = u16_at hb 44,
      eh_shstrndx = u16_at hb 46\<rparr>"

definition sizeof_elf_header_ident :: nat where "sizeof_elf_header_ident = 16"
definition sizeof_elf_header :: nat where "sizeof_elf_header = 64"

record elf_program_header =
  ph_type :: nat
  ph_flags :: nat
  ph_offset :: nat
  ph_vaddr :: nat
  ph_paddr :: nat
  ph_filesize :: nat
  ph_memsize :: nat

definition dec_elf_program_header_32 :: "byte list \<Rightarrow> elf_program_header" where
  "dec_elf_program_header_32 pb =
     \<lparr>ph_type = u32_at pb 0, ph_flags = u32_at pb 24, ph_offset = u32_at pb 4,
      ph_vaddr = u32_at pb 8, ph_paddr = u32_at pb 12, ph_filesize = u32_at pb 16,
      ph_memsize = u32_at pb 20\<rparr>"

definition dec_elf_program_header_64 :: "byte list \<Rightarrow> elf_program_header" where
  "dec_elf_program_header_64 pb =
     \<lparr>ph_type = u32_at pb 0, ph_flags = u32_at pb 4, ph_offset = u64_at pb 8,
      ph_vaddr = u64_at pb 16, ph_paddr = u64_at pb 24, ph_filesize = u64_at pb 32,
      ph_memsize = u64_at pb 40\<rparr>"

definition sizeof_elf_program_header_32 :: nat where "sizeof_elf_program_header_32 = 28"
definition sizeof_elf_program_header_64 :: nat where "sizeof_elf_program_header_64 = 48"

section \<open>The size of the loader\<close>

definition mtdsplit_elf_read_mtd :: "split_mtd \<Rightarrow> nat \<Rightarrow> nat \<Rightarrow> int + byte list" where
  "mtdsplit_elf_read_mtd m offset len =
     (case mi_read m offset len of (ret, bs) \<Rightarrow>
        if ret \<noteq> 0 then Inl ret
        else if length bs \<noteq> len then Inl (- EIO)
        else Inr bs)"

partial_function (option) elf32_ph_loop ::
    "split_mtd \<Rightarrow> nat \<Rightarrow> nat \<Rightarrow> nat \<Rightarrow> nat \<Rightarrow> (int + nat) option" where [code]:
  "elf32_ph_loop m phentsize ph_table_end ph_entry sz =
     (if ph_entry < ph_table_end
      then (case mtdsplit_elf_read_mtd m ph_entry sizeof_elf_program_header_32 of
              Inl err \<Rightarrow> Some (Inl err)
            | Inr pb \<Rightarrow>
                (let ph = dec_elf_program_header_32 pb;
                     section_end = u32 (ph_offset ph + ph_filesize ph)
                 in elf32_ph_loop m phentsize ph_table_end (u64 (ph_entry + phentsize))
                      (if section_end > sz then section_end else sz)))
      else Some (Inr sz))"

text \<open>The products of two \<^verbatim>\<open>uint16_t\<close> members are of type \<^verbatim>\<open>int\<close>.\<close>

definition elf32_determine_size :: "split_mtd \<Rightarrow> elf_header_members \<Rightarrow> (int + nat) option" where
  "elf32_determine_size m hdr32 =
     (if eh_shoff hdr32 > 0
      then Some (Inr (u32 (eh_shoff hdr32 + eh_shentsize hdr32 * eh_shnum hdr32)))
      else elf32_ph_loop m (eh_phentsize hdr32)
             (u32 (eh_phoff hdr32 + eh_phentsize hdr32 * eh_phnum hdr32)) (eh_phoff hdr32) 0)"

partial_function (option) elf64_ph_loop ::
    "split_mtd \<Rightarrow> nat \<Rightarrow> nat \<Rightarrow> nat \<Rightarrow> nat \<Rightarrow> (int + nat) option" where [code]:
  "elf64_ph_loop m phentsize ph_table_end ph_entry sz =
     (if ph_entry < ph_table_end
      then (case mtdsplit_elf_read_mtd m ph_entry sizeof_elf_program_header_64 of
              Inl err \<Rightarrow> Some (Inl err)
            | Inr pb \<Rightarrow>
                (let ph = dec_elf_program_header_64 pb;
                     section_end = u64 (ph_offset ph + ph_filesize ph)
                 in elf64_ph_loop m phentsize ph_table_end (u64 (ph_entry + phentsize))
                      (if section_end > sz then section_end else sz)))
      else Some (Inr sz))"

definition elf64_determine_size :: "split_mtd \<Rightarrow> elf_header_members \<Rightarrow> (int + nat) option" where
  "elf64_determine_size m hdr64 =
     (if eh_shoff hdr64 > 0
      then Some (Inr (add64_int (eh_shoff hdr64) (s32 (eh_shentsize hdr64 * eh_shnum hdr64))))
      else elf64_ph_loop m (eh_phentsize hdr64)
             (add64_int (eh_phoff hdr64) (s32 (eh_phentsize hdr64 * eh_phnum hdr64)))
             (eh_phoff hdr64) 0)"

section \<open>The parser\<close>

definition mtdsplit_parse_elf :: "bool \<Rightarrow> split_mtd \<Rightarrow> parsed" where
  "mtdsplit_parse_elf kz m =
     (case mtdsplit_elf_read_mtd m 0 sizeof_elf_header of
        Inl err \<Rightarrow> fail err
      | Inr hb \<Rightarrow>
        (let ident = dec_elf_header_ident hb;
             rest = drop sizeof_elf_header_ident hb in
         if be32_to_cpu (ident_magic ident) \<noteq> ELF_MAGIC then fail (- EINVAL)
         else do {
           sz \<leftarrow> (if ident_class ident = ELF_CLASS_32 then elf32_determine_size m (dec_elf_header_32 rest)
                  else if ident_class ident = ELF_CLASS_64
                  then elf64_determine_size m (dec_elf_header_64 rest)
                  else Some (Inl (- EINVAL)));
           case sz of
             Inl err \<Rightarrow> fail err
           | Inr loader_size \<Rightarrow>
               do {
                 found \<leftarrow> mtd_find_rootfs_from m loader_size (mi_size m);
                 case found of
                   Inl err \<Rightarrow> fail err
                 | Inr (rootfs_offset, type) \<Rightarrow>
                     if rootfs_offset = mi_size m then fail (- ENODEV)
                     else two_parts kz
                       (mk_part KERNEL_PART_NAME 0 rootfs_offset)
                       (mk_part (rootfs_name type) rootfs_offset (sub64 (mi_size m) rootfs_offset))
               }
         }))"

section \<open>The walk ends\<close>

lemma elf_read_eq: "mtdsplit_elf_read_mtd = split_read"
  by (simp add: fun_eq_iff mtdsplit_elf_read_mtd_def split_read_def)

definition size_result :: "int + nat \<Rightarrow> bool" where
  "size_result r \<longleftrightarrow> (case r of Inl err \<Rightarrow> err < 0 | Inr sz \<Rightarrow> True)"

lemma size_result_simps [simp]: "size_result (Inl err) \<longleftrightarrow> err < 0" "size_result (Inr sz)"
  by (simp_all add: size_result_def)

context split_device
begin

lemma entry_step:
  assumes "split_read m entry len = Inr pb" and "ent < 2 ^ 16"
  shows "u64 (entry + ent) = entry + ent"
  using split_read_inside [OF assms(1)] size_le assms(2) by (intro u64_id) simp

lemma elf32_loop_total:
  assumes "0 < ent" and "ent < 2 ^ 16"
  shows "ensures (elf32_ph_loop m ent end entry sz) size_result"
proof (induction "end - entry" arbitrary: entry sz rule: less_induct)
  case less
  show ?case
    using assms less entry_step [of entry _ _ ent]
    by (subst elf32_ph_loop.simps) (auto simp: elf_read_eq Let_def dest: split_read_error split: sum.split)
qed

lemma elf64_loop_total:
  assumes "0 < ent" and "ent < 2 ^ 16"
  shows "ensures (elf64_ph_loop m ent end entry sz) size_result"
proof (induction "end - entry" arbitrary: entry sz rule: less_induct)
  case less
  show ?case
    using assms less entry_step [of entry _ _ ent]
    by (subst elf64_ph_loop.simps) (auto simp: elf_read_eq Let_def dest: split_read_error split: sum.split)
qed

lemma elf32_size_total: "ensures (elf32_determine_size m (dec_elf_header_32 hb)) size_result"
proof (cases "eh_phentsize (dec_elf_header_32 hb) = 0")
  case True
  then show ?thesis
    by (simp add: elf32_determine_size_def elf32_ph_loop.simps leD [OF u32_le])
next
  case False
  then show ?thesis
    by (simp add: elf32_determine_size_def dec_elf_header_32_def elf32_loop_total member_bounds
        del: power_numeral)
qed

lemma elf64_size_total: "ensures (elf64_determine_size m (dec_elf_header_64 hb)) size_result"
proof (cases "eh_phentsize (dec_elf_header_64 hb) = 0")
  case True
  have "add64_int n 0 \<le> n" for n
    by (simp add: add64_int_def nat_mod_distrib)
  with True show ?thesis
    by (simp add: elf64_determine_size_def elf64_ph_loop.simps leD)
next
  case False
  then show ?thesis
    by (simp add: elf64_determine_size_def dec_elf_header_64_def elf64_loop_total member_bounds
        del: power_numeral)
qed

lemma parse_elf_divides: "ensures (mtdsplit_parse_elf kz m) (split_post (kernel_then_rootfs m))"
proof -
  have search: "ensures (do {
      found \<leftarrow> mtd_find_rootfs_from m n (mi_size m);
      case found of
        Inl err \<Rightarrow> fail err
      | Inr (off, type) \<Rightarrow>
          if off = mi_size m then fail (- ENODEV)
          else two_parts kz (mk_part KERNEL_PART_NAME 0 off)
            (mk_part (rootfs_name type) off (sub64 (mi_size m) off))
    }) (split_post (kernel_then_rootfs m))" for n
    by (rule ensures_bindI [OF find_rootfs_post])
      (auto simp: ensures_two_parts division0 ENODEV_def split: sum.splits)
  show ?thesis
    by (auto simp: mtdsplit_parse_elf_def elf_read_eq Let_def EINVAL_def search
        intro!: ensures_bindI [OF elf32_size_total] ensures_bindI [OF elf64_size_total]
        dest: split_read_error split: sum.splits)
qed

end

end
