(* ===== verification/Mtdsplit_Scan.thy ===== *)
theory Mtdsplit_Scan
  imports Mtdsplit_Fw
begin

text \<open>
  The splitters that look for an image at every erase block boundary: \<^verbatim>\<open>mtdsplit_trx.c\<close>,
  \<^verbatim>\<open>mtdsplit_uimage.c\<close>, \<^verbatim>\<open>mtdsplit_jimage.c\<close> and \<^verbatim>\<open>mtdsplit_fit.c\<close>. The scan of each is a partial
  function that yields the variables the code uses behind its loop. The lemmas show that the
  scans end and what the partitions are; the code keeps the size of an image that does not fit
  when the loop runs off the end of the device, which the last section takes up.
\<close>

section \<open>\<^verbatim>\<open>mtdsplit_trx.c\<close>\<close>

definition TRX_MAGIC :: nat where "TRX_MAGIC = 0x30524448"

record trx_header =
  trx_magic :: nat
  trx_len :: nat
  trx_crc32 :: nat
  trx_flag_version :: nat
  trx_offset :: "nat list"

definition sizeof_trx_header :: nat where "sizeof_trx_header = 32"

definition dec_trx_header :: "byte list \<Rightarrow> trx_header" where
  "dec_trx_header hb =
     \<lparr>trx_magic = u32_at hb 0, trx_len = u32_at hb 4, trx_crc32 = u32_at hb 8,
      trx_flag_version = u32_at hb 12,
      trx_offset = [u32_at hb 16, u32_at hb 20, u32_at hb 24, u32_at hb 28]\<rparr>"

definition read_trx_header :: "split_mtd \<Rightarrow> nat \<Rightarrow> int + trx_header" where
  "read_trx_header m offset =
     (case mi_read m offset sizeof_trx_header of (ret, bs) \<Rightarrow>
        if ret \<noteq> 0 then Inl ret
        else if length bs \<noteq> sizeof_trx_header then Inl (- EIO)
        else Inr (dec_trx_header bs))"

text \<open>\<^verbatim>\<open>offset\<close>, \<^verbatim>\<open>trx_size\<close> and \<^verbatim>\<open>hdr\<close> behind the loop.\<close>

partial_function (option) trx_scan ::
    "split_mtd \<Rightarrow> nat \<Rightarrow> nat \<Rightarrow> trx_header option \<Rightarrow> (nat \<times> nat \<times> trx_header option) option" where [code]:
  "trx_scan master offset trx_size hdr =
     (if offset < mi_size master
      then (let next_offset = u64 (offset + mi_erasesize master) in
        case read_trx_header master offset of
          Inl ret \<Rightarrow> trx_scan master next_offset 0 None
        | Inr hdr \<Rightarrow>
            if trx_magic hdr \<noteq> TRX_MAGIC then trx_scan master next_offset 0 (Some hdr)
            else (let trx_size = le32_to_cpu (trx_len hdr) in
              if u64 (offset + trx_size) > mi_size master
              then trx_scan master next_offset trx_size (Some hdr)
              else Some (offset, trx_size, Some hdr)))
      else Some (offset, trx_size, hdr))"

definition mtdsplit_parse_trx :: "bool \<Rightarrow> split_mtd \<Rightarrow> parsed" where
  "mtdsplit_parse_trx kz master =
     (if \<not> kz then fail (- ENOMEM)
      else do {
        (offset, trx_size, h) \<leftarrow> trx_scan master 0 0 None;
        if trx_size = 0 then fail (- ENODEV)
        else do {
          hdr \<leftarrow> h;
          let trx_offs = u64 (offset + trx_offset hdr ! 0);
          let rootfs_offset = u64 (offset + trx_offset hdr ! 1);
          let rootfs_size = sub64 (mi_size master) rootfs_offset;
          let trx_size = sub64 rootfs_offset trx_offs;
          if rootfs_size = 0 then fail (- ENODEV)
          else Some (2, Some [mk_part KERNEL_PART_NAME trx_offs trx_size,
                              mk_part ROOTFS_PART_NAME rootfs_offset rootfs_size])
        }
      })"

section \<open>The partitions around an image\<close>

text \<open>
  The second half of \<^verbatim>\<open>__mtdsplit_parse_uimage\<close> and of \<^verbatim>\<open>__mtdsplit_parse_jimage\<close>, which is the
  same: the root file system is behind an image at the start of the device, and before an image
  elsewhere.
\<close>

definition split_around_image :: "split_mtd \<Rightarrow> nat \<Rightarrow> nat \<Rightarrow> parsed" where
  "split_around_image master image_offset image_size =
     (if image_offset = 0
      then do {
        found \<leftarrow> mtd_find_rootfs_from master (u64 (image_offset + image_size)) (mi_size master);
        case found of
          Inl ret \<Rightarrow> fail ret
        | Inr (rootfs_offset, type) \<Rightarrow>
            (let rootfs_size = sub64 (mi_size master) rootfs_offset;
                 image_size = sub64 rootfs_offset image_offset in
             if rootfs_size = 0 then fail (- ENODEV)
             else Some (2, Some [mk_part KERNEL_PART_NAME image_offset image_size,
                                 mk_part (rootfs_name type) rootfs_offset rootfs_size]))
      }
      else (case mtd_check_rootfs_magic master 0 of
          Inl ret \<Rightarrow> fail ret
        | Inr type \<Rightarrow>
            (let rootfs_size = image_offset in
             if rootfs_size = 0 then fail (- ENODEV)
             else Some (2, Some [mk_part (rootfs_name type) 0 rootfs_size,
                                 mk_part KERNEL_PART_NAME image_offset image_size]))))"

section \<open>\<^verbatim>\<open>mtdsplit_uimage.c\<close>\<close>

definition IH_MAGIC :: nat where "IH_MAGIC = 0x27051956"
definition IH_OS_LINUX :: nat where "IH_OS_LINUX = 5"
definition IH_TYPE_KERNEL :: nat where "IH_TYPE_KERNEL = 2"

record uimage_header =
  ih_magic :: nat
  ih_hcrc :: nat
  ih_time :: nat
  ih_size :: nat
  ih_load :: nat
  ih_ep :: nat
  ih_dcrc :: nat
  ih_os :: nat
  ih_arch :: nat
  ih_type :: nat
  ih_comp :: nat
  ih_name :: "byte list"

definition sizeof_uimage_header :: nat where "sizeof_uimage_header = 64"

definition dec_uimage_header :: "byte list \<Rightarrow> uimage_header" where
  "dec_uimage_header hb =
     \<lparr>ih_magic = u32_at hb 0, ih_hcrc = u32_at hb 4, ih_time = u32_at hb 8, ih_size = u32_at hb 12,
      ih_load = u32_at hb 16, ih_ep = u32_at hb 20, ih_dcrc = u32_at hb 24, ih_os = u8_at hb 28,
      ih_arch = u8_at hb 29, ih_type = u8_at hb 30, ih_comp = u8_at hb 31, ih_name = bytes_at hb 32 32\<rparr>"

definition read_uimage_header :: "split_mtd \<Rightarrow> nat \<Rightarrow> nat \<Rightarrow> int + byte list" where
  "read_uimage_header m offset header_len =
     (case mi_read m offset header_len of (ret, bs) \<Rightarrow>
        if ret \<noteq> 0 then Inl ret
        else if length bs \<noteq> header_len then Inl (- EIO)
        else Inr bs)"

text \<open>The device tree node of a partition, as far as it is read, and the parameters taken from it.\<close>

record uimage_node =
  np_openwrt_uimage :: bool
  np_padding :: "nat option"
  np_ih_magic :: "nat option"
  np_ih_type :: "nat option"
  np_offset :: "nat option"
  np_partition_magic :: "nat option"

record uimage_params =
  up_extralen :: int
  up_ih_magic :: nat
  up_ih_type :: nat
  up_header_offset :: nat
  up_part_magic :: nat

definition uimage_defaults :: uimage_params where
  "uimage_defaults =
     \<lparr>up_extralen = 0, up_ih_magic = IH_MAGIC, up_ih_type = IH_TYPE_KERNEL, up_header_offset = 0,
      up_part_magic = 0\<rparr>"

definition uimage_parse_dt :: "uimage_node option \<Rightarrow> uimage_params \<Rightarrow> uimage_params" where
  "uimage_parse_dt np p =
     (case np of
        None \<Rightarrow> p
      | Some node \<Rightarrow>
          if \<not> np_openwrt_uimage node then p
          else \<lparr>up_extralen = (case np_padding node of None \<Rightarrow> up_extralen p | Some v \<Rightarrow> s32 v),
                up_ih_magic = (case np_ih_magic node of None \<Rightarrow> up_ih_magic p | Some v \<Rightarrow> u32 v),
                up_ih_type = (case np_ih_type node of None \<Rightarrow> up_ih_type p | Some v \<Rightarrow> u32 v),
                up_header_offset = (case np_offset node of None \<Rightarrow> up_header_offset p | Some v \<Rightarrow> u32 v),
                up_part_magic =
                  (case np_partition_magic node of None \<Rightarrow> up_part_magic p | Some v \<Rightarrow> u32 v)\<rparr>)"

definition uimage_verify_default :: "byte list \<Rightarrow> nat \<Rightarrow> nat \<Rightarrow> int" where
  "uimage_verify_default buf magic type =
     (let header = dec_uimage_header buf in
      if be32_to_cpu (ih_magic header) \<noteq> magic then - EINVAL
      else if ih_os header \<noteq> IH_OS_LINUX then - EINVAL
      else if ih_type header \<noteq> type then - EINVAL
      else 0)"

text \<open>\<^verbatim>\<open>offset\<close> and \<^verbatim>\<open>uimage_size\<close> behind the loop.\<close>

partial_function (option) uimage_scan ::
    "split_mtd \<Rightarrow> uimage_params \<Rightarrow> nat \<Rightarrow> nat \<Rightarrow> (nat \<times> nat) option" where [code]:
  "uimage_scan master p offset uimage_size =
     (if offset < mi_size master
      then (let next_offset = u64 (offset + mi_erasesize master);
                buflen = sizeof_uimage_header + up_header_offset p in
        case read_uimage_header master offset buflen of
          Inl ret \<Rightarrow> uimage_scan master p next_offset 0
        | Inr buf \<Rightarrow>
            if up_header_offset p \<noteq> 0 \<and> up_part_magic p \<noteq> 0 \<and>
               be32_to_cpu (u32_at buf 0) \<noteq> up_part_magic p
            then uimage_scan master p next_offset 0
            else if uimage_verify_default (drop (up_header_offset p) buf) (up_ih_magic p) (up_ih_type p) < 0
            then uimage_scan master p next_offset 0
            else (let header = dec_uimage_header (drop (up_header_offset p) buf);
                      uimage_size =
                        add64_int (sizeof_uimage_header + be32_to_cpu (ih_size header) + up_header_offset p)
                          (up_extralen p) in
              if u64 (offset + uimage_size) > mi_size master
              then uimage_scan master p next_offset uimage_size
              else Some (offset, uimage_size)))
      else Some (offset, uimage_size))"

definition mtdsplit_parse_uimage :: "bool \<Rightarrow> bool \<Rightarrow> uimage_node option \<Rightarrow> split_mtd \<Rightarrow> parsed" where
  "mtdsplit_parse_uimage kz vz np master =
     (if \<not> kz then fail (- ENOMEM)
      else if \<not> vz then fail (- ENOMEM)
      else do {
        (uimage_offset, uimage_size) \<leftarrow>
          uimage_scan master (uimage_parse_dt np uimage_defaults) 0 0;
        if uimage_size = 0 then fail (- ENODEV)
        else split_around_image master uimage_offset uimage_size
      })"

section \<open>\<^verbatim>\<open>mtdsplit_jimage.c\<close>\<close>

definition STAG_SIZE :: nat where "STAG_SIZE = 16"
definition STAG_ID :: nat where "STAG_ID = 0x04"
definition STAG_MAGIC :: nat where "STAG_MAGIC = 0x2B24"
definition SCH2_SIZE :: nat where "SCH2_SIZE = 40"
definition SCH2_MAGIC :: nat where "SCH2_MAGIC = 0x2124"
definition SCH2_VER :: nat where "SCH2_VER = 0x02"
definition MAX_HEADER_LEN :: nat where "MAX_HEADER_LEN = STAG_SIZE + SCH2_SIZE"

record jimage_header =
  stag_cmark :: nat
  stag_id :: nat
  stag_magic :: nat
  stag_time_stamp :: nat
  stag_image_length :: nat
  stag_image_checksum :: nat
  stag_tag_checksum :: nat
  sch2_magic :: nat
  sch2_cp_type :: nat
  sch2_version :: nat
  sch2_ram_addr :: nat
  sch2_image_len :: nat
  sch2_image_crc32 :: nat
  sch2_start_addr :: nat
  sch2_rootfs_addr :: nat
  sch2_rootfs_len :: nat
  sch2_rootfs_crc32 :: nat
  sch2_header_crc32 :: nat
  sch2_header_length :: nat
  sch2_cmd_line_length :: nat

definition sizeof_jimage_header :: nat where "sizeof_jimage_header = 56"

definition dec_jimage_header :: "byte list \<Rightarrow> jimage_header" where
  "dec_jimage_header hb =
     \<lparr>stag_cmark = u8_at hb 0, stag_id = u8_at hb 1, stag_magic = u16_at hb 2,
      stag_time_stamp = u32_at hb 4, stag_image_length = u32_at hb 8,
      stag_image_checksum = u16_at hb 12, stag_tag_checksum = u16_at hb 14, sch2_magic = u16_at hb 16,
      sch2_cp_type = u8_at hb 18, sch2_version = u8_at hb 19, sch2_ram_addr = u32_at hb 20,
      sch2_image_len = u32_at hb 24, sch2_image_crc32 = u32_at hb 28, sch2_start_addr = u32_at hb 32,
      sch2_rootfs_addr = u32_at hb 36, sch2_rootfs_len = u32_at hb 40, sch2_rootfs_crc32 = u32_at hb 44,
      sch2_header_crc32 = u32_at hb 48, sch2_header_length = u16_at hb 52,
      sch2_cmd_line_length = u16_at hb 54\<rparr>"

definition read_jimage_header :: "split_mtd \<Rightarrow> nat \<Rightarrow> nat \<Rightarrow> int + byte list" where
  "read_jimage_header m offset header_len =
     (case mi_read m offset header_len of (ret, bs) \<Rightarrow>
        if ret \<noteq> 0 then Inl ret
        else if length bs \<noteq> header_len then Inl (- EIO)
        else Inr bs)"

definition jimage_verify_default :: "byte list \<Rightarrow> nat \<Rightarrow> int" where
  "jimage_verify_default buf len =
     (let header = dec_jimage_header buf in
      if stag_magic header \<noteq> STAG_MAGIC then - EINVAL
      else if sch2_magic header \<noteq> SCH2_MAGIC then - EINVAL
      else if stag_cmark header \<noteq> stag_id header then - EINVAL
      else if stag_id header \<noteq> STAG_ID then - EINVAL
      else if sch2_version header \<noteq> SCH2_VER then - EINVAL
      else 0)"

text \<open>
  The header is read at the offset the callback returns, which has to leave room for it in the
  buffer.
\<close>

partial_function (option) jimage_scan ::
    "split_mtd \<Rightarrow> (byte list \<Rightarrow> nat \<Rightarrow> int) \<Rightarrow> nat \<Rightarrow> nat \<Rightarrow> (nat \<times> nat) option" where [code]:
  "jimage_scan master find_header offset jimage_size =
     (if offset < mi_size master
      then (let next_offset = u64 (offset + mi_erasesize master) in
        case read_jimage_header master offset MAX_HEADER_LEN of
          Inl ret \<Rightarrow> jimage_scan master find_header next_offset 0
        | Inr buf \<Rightarrow>
            (let ret = find_header buf MAX_HEADER_LEN in
             if ret < 0 then jimage_scan master find_header next_offset 0
             else do {
               hb \<leftarrow> mem_read buf (nat ret) sizeof_jimage_header;
               let jimage_size =
                 u64 (sizeof_jimage_header + sch2_image_len (dec_jimage_header hb) + nat ret);
               if u64 (offset + jimage_size) > mi_size master
               then jimage_scan master find_header next_offset jimage_size
               else Some (offset, jimage_size)
             }))
      else Some (offset, jimage_size))"

definition mtdsplit_parse_jimage ::
  "bool \<Rightarrow> bool \<Rightarrow> (byte list \<Rightarrow> nat \<Rightarrow> int) \<Rightarrow> split_mtd \<Rightarrow> parsed" where
  "mtdsplit_parse_jimage kz vz find_header master =
     (if \<not> kz then fail (- ENOMEM)
      else if \<not> vz then fail (- ENOMEM)
      else do {
        (jimage_offset, jimage_size) \<leftarrow> jimage_scan master find_header 0 0;
        if jimage_size = 0 then fail (- ENODEV)
        else split_around_image master jimage_offset jimage_size
      })"

definition mtdsplit_jimage_parse_generic :: "bool \<Rightarrow> bool \<Rightarrow> split_mtd \<Rightarrow> parsed" where
  "mtdsplit_jimage_parse_generic kz vz master =
     mtdsplit_parse_jimage kz vz jimage_verify_default master"

section \<open>\<^verbatim>\<open>mtdsplit_fit.c\<close>\<close>

definition OF_DT_HEADER :: nat where "OF_DT_HEADER = 0xd00dfeed"

record fdt_header =
  fdt_magic :: nat
  fdt_totalsize :: nat
  fdt_off_dt_struct :: nat
  fdt_off_dt_strings :: nat
  fdt_off_mem_rsvmap :: nat
  fdt_version :: nat
  fdt_last_comp_version :: nat
  fdt_boot_cpuid_phys :: nat
  fdt_size_dt_strings :: nat
  fdt_size_dt_struct :: nat

definition sizeof_fdt_header :: nat where "sizeof_fdt_header = 40"

definition dec_fdt_header :: "byte list \<Rightarrow> fdt_header" where
  "dec_fdt_header hb =
     \<lparr>fdt_magic = u32_at hb 0, fdt_totalsize = u32_at hb 4, fdt_off_dt_struct = u32_at hb 8,
      fdt_off_dt_strings = u32_at hb 12, fdt_off_mem_rsvmap = u32_at hb 16, fdt_version = u32_at hb 20,
      fdt_last_comp_version = u32_at hb 24, fdt_boot_cpuid_phys = u32_at hb 28,
      fdt_size_dt_strings = u32_at hb 32, fdt_size_dt_struct = u32_at hb 36\<rparr>"

text \<open>
  \<^verbatim>\<open>offset\<close> and \<^verbatim>\<open>hdr\<close> behind the loop, or the error it returns; \<^verbatim>\<open>hdr\<close> is not initialised when the
  device is too small for a header.
\<close>

partial_function (option) fit_scan ::
    "split_mtd \<Rightarrow> nat \<Rightarrow> fdt_header option \<Rightarrow> (int + nat \<times> fdt_header) option" where [code]:
  "fit_scan m offset hdr =
     (if u64 (offset + sizeof_fdt_header) \<le> mi_size m
      then (case split_read m offset sizeof_fdt_header of
          Inl ret \<Rightarrow> Some (Inl ret)
        | Inr hb \<Rightarrow>
            (let hdr = dec_fdt_header hb in
             if be32_to_cpu (fdt_magic hdr) \<noteq> OF_DT_HEADER
             then fit_scan m (u64 (offset + mi_erasesize m)) (Some hdr)
             else Some (Inr (offset, hdr))))
      else Option.bind hdr (\<lambda>hdr. Some (Inr (offset, hdr))))"

definition mtdsplit_fit_parse :: "bool \<Rightarrow> split_mtd \<Rightarrow> parsed" where
  "mtdsplit_fit_parse kz m =
     do {
       r \<leftarrow> fit_scan m 0 None;
       case r of
         Inl ret \<Rightarrow> fail ret
       | Inr (fit_offset, hdr) \<Rightarrow>
           (let fit_size = be32_to_cpu (fdt_totalsize hdr) in
            if fit_size = 0 then fail (- ENODEV)
            else do {
              found \<leftarrow> mtd_find_rootfs_from m (u64 (fit_offset + fit_size)) (mi_size m);
              case found of
                Inl ret \<Rightarrow> fail ret
              | Inr (rootfs_offset, type) \<Rightarrow>
                  two_parts kz
                    (mk_part KERNEL_PART_NAME fit_offset
                       (u64 (mtd_rounddown_to_eb fit_size m + mi_erasesize m)))
                    (mk_part ROOTFS_PART_NAME rootfs_offset (sub64 (mi_size m) rootfs_offset))
            })
     }"

section \<open>What the scans deliver\<close>

text \<open>
  \<open>image_at\<close>: a scan stops at an erase block boundary, and an image that starts inside the device
  ends inside it. \<open>image_layout\<close>: the device is divided into the kernel and the root file system
  behind it, or the root file system is at its start and the kernel follows at an erase block
  boundary. A kernel that starts inside the device lies inside it.
\<close>

definition image_at :: "split_mtd \<Rightarrow> nat \<times> nat \<Rightarrow> bool" where
  "image_at m r \<longleftrightarrow>
     (case r of (off, sz) \<Rightarrow> mi_erasesize m dvd off \<and> (off < mi_size m \<longrightarrow> off + sz \<le> mi_size m))"

definition rootfs_then_kernel :: "split_mtd \<Rightarrow> mtd_partition list \<Rightarrow> bool" where
  "rootfs_then_kernel m parts \<longleftrightarrow>
     length parts = 2 \<and> has_rootfs m (parts ! 0) \<and> part_offset (parts ! 0) = 0 \<and>
     part_size (parts ! 0) = part_offset (parts ! 1) \<and>
     image_at m (part_offset (parts ! 1), part_size (parts ! 1))"

definition image_layout :: "split_mtd \<Rightarrow> mtd_partition list \<Rightarrow> bool" where
  "image_layout m parts \<longleftrightarrow> kernel_then_rootfs m parts \<or> rootfs_then_kernel m parts"

lemma add64_int_id: "0 \<le> i \<Longrightarrow> a + nat i < 2 ^ 64 \<Longrightarrow> add64_int a i = a + nat i"
  by (simp add: add64_int_def mod_pos_pos_trivial nat_add_distrib)

lemma read_image_header_eq: "read_uimage_header = split_read" "read_jimage_header = split_read"
  by (simp_all add: fun_eq_iff read_uimage_header_def read_jimage_header_def split_read_def)

context split_device
begin

lemma scan_step: "off < mi_size m \<Longrightarrow> u64 (off + mi_erasesize m) = off + mi_erasesize m"
  using size_le erasesize_less by (intro u64_id) simp

lemma image_at_end: "\<not> off < mi_size m \<Longrightarrow> mi_erasesize m dvd off \<Longrightarrow> image_at m (off, sz)"
  by (simp add: image_at_def)

lemma image_at_found:
  assumes "off < mi_size m" and "mi_erasesize m dvd off" and "sz < 2 ^ 40"
    and "\<not> u64 (off + sz) > mi_size m"
  shows "image_at m (off, sz)"
proof -
  have "u64 (off + sz) = off + sz"
    using assms(1,3) size_le by (intro u64_id) simp
  then show ?thesis
    using assms by (simp add: image_at_def)
qed

lemma uimage_scan_post:
  assumes "0 \<le> up_extralen p" and "up_extralen p < 2 ^ 31" and "up_header_offset p < 2 ^ 32"
    and "mi_erasesize m dvd off"
  shows "ensures (uimage_scan m p off sz) (image_at m)"
  using assms(4)
proof (induction "mi_size m - off" arbitrary: off sz rule: less_induct)
  case less
  show ?case
  proof (cases "off < mi_size m")
    case True
    have "ensures (uimage_scan m p (u64 (off + mi_erasesize m)) sz') (image_at m)" for sz'
      unfolding scan_step [OF True] using less(2) True erasesize_pos by (intro less(1)) auto
    moreover have "add64_int (sizeof_uimage_header + be32_to_cpu n + up_header_offset p) (up_extralen p) < 2 ^ 40" for n
      using assms(1-3) member_bounds(4) [of n]
      by (subst add64_int_id) (simp_all add: sizeof_uimage_header_def)
    note found = image_at_found [OF True less(2) this]
    ultimately show ?thesis
      using True found by (subst uimage_scan.simps) (auto simp: Let_def split: sum.split)
  next
    case False
    then show ?thesis
      using less(2) by (subst uimage_scan.simps) (simp add: image_at_end)
  qed
qed

lemma jimage_scan_post:
  assumes "mi_erasesize m dvd off"
  shows "ensures (jimage_scan m jimage_verify_default off sz) (image_at m)"
  using assms
proof (induction "mi_size m - off" arbitrary: off sz rule: less_induct)
  case less
  show ?case
  proof (cases "off < mi_size m")
    case True
    have 1: "ensures (jimage_scan m jimage_verify_default (u64 (off + mi_erasesize m)) sz') (image_at m)" for sz'
      unfolding scan_step [OF True] using less(2) True erasesize_pos by (intro less(1)) auto
    have 2: "u64 (sizeof_jimage_header + sch2_image_len (dec_jimage_header hb)) < 2 ^ 40" for hb
      using member_bounds(2) [of hb 24] by (simp add: sizeof_jimage_header_def dec_jimage_header_def)
    have 3: "jimage_verify_default buf n < 0 \<or> jimage_verify_default buf n = 0" for buf n
      by (simp add: jimage_verify_default_def Let_def EINVAL_def)
    have 4: "split_read m off MAX_HEADER_LEN = Inr buf \<Longrightarrow> mem_read buf 0 sizeof_jimage_header = Some buf" for buf
      using split_read_length [of m off MAX_HEADER_LEN buf]
      by (simp add: mem_read_def MAX_HEADER_LEN_def STAG_SIZE_def SCH2_SIZE_def sizeof_jimage_header_def)
    show ?thesis
    proof (cases "split_read m off MAX_HEADER_LEN")
      case (Inl err)
      then show ?thesis
        using True 1 by (subst jimage_scan.simps) (simp add: read_image_header_eq Let_def)
    next
      case (Inr buf)
      then show ?thesis
        using True 1 3 [of buf MAX_HEADER_LEN] 4 image_at_found [OF True less(2) 2]
        by (subst jimage_scan.simps) (auto simp: read_image_header_eq Let_def)
    qed
  next
    case False
    then show ?thesis
      using less(2) by (subst jimage_scan.simps) (simp add: image_at_end)
  qed
qed

lemma split_around_image_layout:
  assumes "image_at m (off, sz)" and "sz \<noteq> 0"
  shows "ensures (split_around_image m off sz) (split_post (image_layout m))"
proof (cases "off = 0")
  case True
  show ?thesis
    unfolding split_around_image_def if_P [OF True]
    by (rule ensures_bindI [OF find_rootfs_post])
      (auto simp: Let_def ENODEV_def image_layout_def True division split: sum.splits)
next
  case False
  then show ?thesis
    using assms magic_error [of 0]
    by (auto simp: split_around_image_def Let_def image_layout_def rootfs_then_kernel_def
        has_rootfs_def split: sum.split)
qed

lemma parse_uimage_layout:
  assumes "\<And>node v. np = Some node \<Longrightarrow> np_padding node = Some v \<Longrightarrow> v < 2 ^ 31"
  shows "ensures (mtdsplit_parse_uimage kz vz np m) (split_post (image_layout m))"
proof -
  let ?p = "uimage_parse_dt np uimage_defaults"
  have "0 \<le> up_extralen ?p" "up_extralen ?p < 2 ^ 31" "up_header_offset ?p < 2 ^ 32"
    using assms u32_less by (auto simp: uimage_parse_dt_def uimage_defaults_def s32_id split: option.split)
  note scan = uimage_scan_post [OF this, of 0 0]
  show ?thesis
    by (auto simp: mtdsplit_parse_uimage_def ENOMEM_def ENODEV_def split_around_image_layout
        intro!: ensures_bindI [OF scan])
qed

lemma parse_jimage_layout: "ensures (mtdsplit_jimage_parse_generic kz vz m) (split_post (image_layout m))"
  by (auto simp: mtdsplit_jimage_parse_generic_def mtdsplit_parse_jimage_def ENOMEM_def ENODEV_def
      split_around_image_layout intro!: ensures_bindI [OF jimage_scan_post [of 0 0]])

text \<open>
  A TRX image is split where its header says. The offsets of the header are not checked against
  the device, so the partitions fit together as numbers of 64 bits, and properly when the
  offsets are in order and inside the device.
\<close>

lemma trx_scan_post:
  "ensures (trx_scan m off sz hdr) (\<lambda>(off', sz', hdr'). sz' \<noteq> 0 \<longrightarrow> hdr' \<noteq> None)"
  if "sz \<noteq> 0 \<longrightarrow> hdr \<noteq> None" for off sz hdr
  using that
proof (induction "mi_size m - off" arbitrary: off sz hdr rule: less_induct)
  case less
  show ?case
  proof (cases "off < mi_size m")
    case True
    have "ensures (trx_scan m (u64 (off + mi_erasesize m)) sz' hdr') (\<lambda>(off', sz', hdr'). sz' \<noteq> 0 \<longrightarrow> hdr' \<noteq> None)"
      if "sz' \<noteq> 0 \<longrightarrow> hdr' \<noteq> None" for sz' hdr'
      unfolding scan_step [OF True] using that True erasesize_pos by (intro less(1)) auto
    then show ?thesis
      using True by (subst trx_scan.simps) (auto simp: Let_def split: sum.split)
  next
    case False
    then show ?thesis
      using less(2) by (subst trx_scan.simps) simp
  qed
qed

end

definition trx_layout :: "split_mtd \<Rightarrow> mtd_partition list \<Rightarrow> bool" where
  "trx_layout m parts \<longleftrightarrow>
     length parts = 2 \<and>
     u64 (part_offset (parts ! 0) + part_size (parts ! 0)) = part_offset (parts ! 1) \<and>
     u64 (part_offset (parts ! 1) + part_size (parts ! 1)) = mi_size m \<and>
     (part_offset (parts ! 0) \<le> part_offset (parts ! 1) \<and> part_offset (parts ! 1) < mi_size m \<longrightarrow>
      part_offset (parts ! 0) + part_size (parts ! 0) = part_offset (parts ! 1) \<and>
      part_offset (parts ! 1) + part_size (parts ! 1) = mi_size m)"

lemma u64_add_sub64: "a < 2 ^ 64 \<Longrightarrow> u64 (b + sub64 a b) = a"
proof -
  assume "a < 2 ^ 64"
  have "int (u64 (b + sub64 a b)) = (int b + (int a - int b) mod 2 ^ 64) mod 2 ^ 64"
    by (simp add: u64_def sub64_def zmod_int)
  also have "\<dots> = int a mod 2 ^ 64"
    by (simp add: mod_add_right_eq)
  also have "\<dots> = int a"
    using \<open>a < 2 ^ 64\<close> by simp
  finally show ?thesis by simp
qed

context split_device
begin

lemma parse_trx_layout: "ensures (mtdsplit_parse_trx kz m) (split_post (trx_layout m))"
proof -
  have layout: "trx_layout m [mk_part kn (u64 a) (sub64 (u64 b) (u64 a)),
      mk_part rn (u64 b) (sub64 (mi_size m) (u64 b))]" for kn rn a b
  proof -
    have "u64 b < 2 ^ 64" "mi_size m < 2 ^ 64"
      using u64_less size_le by simp_all
    then show ?thesis
      using size_le by (auto simp: trx_layout_def u64_add_sub64 sub64_id' simp del: power_numeral)
  qed
  show ?thesis
    unfolding mtdsplit_parse_trx_def
    by (rule ensures_ifI, simp add: ENOMEM_def, rule ensures_bindI [OF trx_scan_post])
      (auto simp: Let_def ENODEV_def layout)
qed

end

section \<open>FIT images\<close>

text \<open>
  \<open>fit_layout\<close>: the kernel partition starts with a FIT image and covers it, the root file system
  behind the image runs to the end of the device, and both lie inside the device. They may
  overlap in the erase block in which the image ends.
\<close>

definition fit_layout :: "split_mtd \<Rightarrow> mtd_partition list \<Rightarrow> bool" where
  "fit_layout m parts \<longleftrightarrow>
     length parts = 2 \<and> has_rootfs m (parts ! 1) \<and> inside_device m parts \<and>
     part_offset (parts ! 1) + part_size (parts ! 1) = mi_size m \<and>
     (case split_read m (part_offset (parts ! 0)) sizeof_fdt_header of
        Inl err \<Rightarrow> False
      | Inr hb \<Rightarrow>
          be32_to_cpu (fdt_magic (dec_fdt_header hb)) = OF_DT_HEADER \<and>
          be32_to_cpu (fdt_totalsize (dec_fdt_header hb)) \<le> part_size (parts ! 0) \<and>
          part_offset (parts ! 0) + be32_to_cpu (fdt_totalsize (dec_fdt_header hb)) \<le> part_offset (parts ! 1))"

definition fit_found :: "split_mtd \<Rightarrow> int + nat \<times> fdt_header \<Rightarrow> bool" where
  "fit_found m r \<longleftrightarrow>
     (case r of
        Inl err \<Rightarrow> err < 0
      | Inr (off, hdr) \<Rightarrow>
          mi_erasesize m dvd off \<and>
          (mi_size m \<le> off \<and> off < 2 ^ 33 \<or>
           (\<exists>hb. split_read m off sizeof_fdt_header = Inr hb \<and> hdr = dec_fdt_header hb \<and>
             be32_to_cpu (fdt_magic hdr) = OF_DT_HEADER)))"

context split_device
begin

lemma fit_scan_post:
  assumes "sizeof_fdt_header \<le> mi_erasesize m" and "mi_erasesize m dvd mi_size m"
  shows "mi_erasesize m dvd off \<Longrightarrow> off \<le> mi_size m \<Longrightarrow> hdr \<noteq> None \<or> off < mi_size m \<Longrightarrow>
    ensures (fit_scan m off hdr) (fit_found m)"
proof (induction "mi_size m - off" arbitrary: off hdr rule: less_induct)
  case less
  have u: "u64 (off + sizeof_fdt_header) = off + sizeof_fdt_header"
    using less(3) size_le by (intro u64_id) (simp add: sizeof_fdt_header_def)
  show ?case
  proof (cases "off < mi_size m")
    case True
    have "mi_erasesize m dvd mi_size m - off"
      using assms(2) less(2) by (rule dvd_diff_nat)
    then have le: "off + mi_erasesize m \<le> mi_size m"
      using True by (auto dest!: dvd_imp_le)
    have "ensures (fit_scan m (u64 (off + mi_erasesize m)) (Some h)) (fit_found m)" for h
      unfolding scan_step [OF True] using less(2) le erasesize_pos True by (intro less(1)) auto
    then show ?thesis
      using True u le assms(1) less(2)
      by (subst fit_scan.simps)
        (auto simp: Let_def fit_found_def dest: split_read_error split: sum.split)
  next
    case False
    then have "off = mi_size m" and "hdr \<noteq> None" using less by auto
    then show ?thesis
      using u less(2) size_le by (subst fit_scan.simps) (auto simp: fit_found_def sizeof_fdt_header_def)
  qed
qed

lemma fit_kernel_inside:
  assumes "mi_erasesize m dvd off" and "mi_erasesize m dvd mi_size m" and "off + n < mi_size m"
  shows "u64 (mtd_rounddown_to_eb n m + mi_erasesize m) = n div mi_erasesize m * mi_erasesize m + mi_erasesize m"
    and "off + (n div mi_erasesize m * mi_erasesize m + mi_erasesize m) \<le> mi_size m"
    and "n \<le> n div mi_erasesize m * mi_erasesize m + mi_erasesize m"
proof -
  let ?e = "mi_erasesize m"
  have n: "n < 2 ^ 32" using assms(3) size_le by simp
  have r: "mtd_rounddown_to_eb n m = n div ?e * ?e" by (rule rounddown_eq [OF n])
  obtain i k where i: "off = ?e * i" and k: "mi_size m = ?e * k"
    using assms(1,2) by (auto elim!: dvdE)
  have "?e * (i + n div ?e) < ?e * k"
    using assms(3) times_div_less_eq_dividend [of ?e n] unfolding i k distrib_left by linarith
  then have "i + n div ?e + 1 \<le> k"
    by simp
  then have "?e * (i + n div ?e + 1) \<le> ?e * k"
    by (rule mult_le_mono2)
  then show b: "off + (n div ?e * ?e + ?e) \<le> mi_size m"
    unfolding i k by (simp add: algebra_simps)
  then show "u64 (mtd_rounddown_to_eb n m + ?e) = n div ?e * ?e + ?e"
    unfolding r using size_le by (intro u64_id) simp
  show "n \<le> n div ?e * ?e + ?e"
    using dividend_less_div_times [of ?e n] erasesize_pos by simp
qed

lemma fit_parts_layout:
  assumes es: "mi_erasesize m dvd mi_size m" "mi_erasesize m dvd off"
    and off: "mi_size m \<le> off \<and> off < 2 ^ 33 \<or> split_read m off sizeof_fdt_header = Inr hb"
    and hdr: "mi_size m \<le> off \<or> be32_to_cpu (fdt_magic (dec_fdt_header hb)) = OF_DT_HEADER \<and>
      n = be32_to_cpu (fdt_totalsize (dec_fdt_header hb))"
    and n: "n < 2 ^ 32"
  shows "ensures (do {
      found \<leftarrow> mtd_find_rootfs_from m (u64 (off + n)) (mi_size m);
      case found of
        Inl ret \<Rightarrow> fail ret
      | Inr (ro, type) \<Rightarrow>
          two_parts kz
            (mk_part KERNEL_PART_NAME off (u64 (mtd_rounddown_to_eb n m + mi_erasesize m)))
            (mk_part ROOTFS_PART_NAME ro (sub64 (mi_size m) ro))
    }) (split_post (fit_layout m))"
proof -
  have "off < 2 ^ 33"
    using off split_read_inside [of off sizeof_fdt_header hb] size_le by auto
  then have u: "u64 (off + n) = off + n"
    using n by (intro u64_id) simp
  show ?thesis
    unfolding u
  proof (rule ensures_bindI [OF find_rootfs_post], clarsimp split: sum.splits)
    fix ro type
    assume ro: "off + n \<le> ro" "mtd_check_rootfs_magic m ro = Inr type"
    have in_ro: "ro + 4 \<le> mi_size m" by (rule magic_inside [OF ro(2)])
    then have lt: "off + n < mi_size m" using ro(1) by simp
    note k = fit_kernel_inside [OF es(2,1) lt]
    have "inside_device m [mk_part KERNEL_PART_NAME off (u64 (mtd_rounddown_to_eb n m + mi_erasesize m)),
        mk_part ROOTFS_PART_NAME ro (sub64 (mi_size m) ro)]"
      using k(2) in_ro by (simp add: inside_device_def k(1) rest_size [OF ro(2)])
    then show "ensures (two_parts kz
        (mk_part KERNEL_PART_NAME off (u64 (mtd_rounddown_to_eb n m + mi_erasesize m)))
        (mk_part ROOTFS_PART_NAME ro (sub64 (mi_size m) ro))) (split_post (fit_layout m))"
      using k(3) lt ro off hdr in_ro unfolding k(1) rest_size [OF ro(2)]
      by (auto intro!: ensures_two_parts simp: fit_layout_def has_rootfs_def)
  qed
qed

lemma parse_fit_layout:
  assumes "sizeof_fdt_header \<le> mi_erasesize m" and "mi_erasesize m dvd mi_size m" and "0 < mi_size m"
  shows "ensures (mtdsplit_fit_parse kz m) (split_post (fit_layout m))"
proof -
  have "be32_to_cpu x < 4294967296" for x
    using member_bounds(4) [of x] by simp
  with assms(2,3) show ?thesis
    unfolding mtdsplit_fit_parse_def
    by (intro ensures_bindI [OF fit_scan_post [OF assms(1,2)]])
      (auto simp: Let_def ENODEV_def fit_found_def intro!: fit_parts_layout split: sum.splits)
qed

end

end
