(* ===== verification/Mtdsplit_Nmbm.thy ===== *)
theory Mtdsplit_Nmbm
  imports Mtdsplit_Elf Mtdsplit_Scan Mtdsplit_Wfi Nmbm_Ram
begin

text \<open>
  The devices the splitters run on. First the upper MTD device of NMBM: the kernel's \<^verbatim>\<open>mtd_read\<close>
  checks the range, calls the \<^verbatim>\<open>_read_oob\<close> method of the driver, here \<^verbatim>\<open>nmbm_mtd_read_oob\<close>, and turns
  a number of corrected bit flips below the threshold into a success. Such a device keeps the
  contract \<open>split_device\<close> whenever NMBM is in order. Second a firmware image in memory, on which
  the witnesses evaluate the splitters.
\<close>

section \<open>NMBM as the device below a splitter\<close>

definition nmbm_split_read :: "'m mtd_api \<Rightarrow> 'm nmbm_mtd \<Rightarrow> nat \<Rightarrow> nat \<Rightarrow> int \<times> byte list" where
  "nmbm_split_read api nm from len =
     (if from + len > nm_upper_size nm then (- EINVAL, [])
      else (case nmbm_mtd_read_oob api nm from MTD_OPS_PLACE_OOB True False len 0 0 of
          None \<Rightarrow> (- EIO, [])
        | Some (ret, dat, ob, nm') \<Rightarrow> (if ret \<ge> 0 then 0 else ret, dat)))"

definition nmbm_split_mtd :: "'m mtd_api \<Rightarrow> string \<Rightarrow> 'm nmbm_mtd \<Rightarrow> split_mtd" where
  "nmbm_split_mtd api name nm =
     \<lparr>mi_name = name, mi_size = nm_upper_size nm, mi_erasesize = mtd_erasesize (lower_mtd nm),
      mi_read = nmbm_split_read api nm,
      mi_mod_by_eb = (\<lambda>sz. sz mod mtd_erasesize (lower_mtd nm)),
      mi_div_by_eb = (\<lambda>sz. u32 (sz div mtd_erasesize (lower_mtd nm)))\<rparr>"

context lower_device
begin

lemma read_range_length:
  assumes "aok ni0 ni" and "addr + sz < 2 ^ 64"
  shows "ensures (nmbm_read_range ni addr sz mode) (\<lambda>(ret, bs, retlen, ni'). length bs \<le> sz)"
proof (cases "addr + sz \<le> ba2addr ni0 (data_block_count ni0)")
  case True
  have "ensures (nmbm_read_range_loop ni addr sz mode [] False 0 0)
    (\<lambda>(ret, e', m', bs, rem, ni'). length bs \<le> sz)"
    using read_range_loop_a [OF assms(1) True, of mode "[]"] by (rule ensures_mono) auto
  then show ?thesis
    using True assms aok_fields [OF assms(1)]
    by (auto simp: nmbm_read_range_def ensures_bind Let_def errno_defs elim!: ensures_mono)
next
  case False
  then show ?thesis
    using assms aok_fields [OF assms(1)] by (auto simp: nmbm_read_range_def Let_def)
qed

end

context mtd_device
begin

lemma split_read_length_nmbm:
  assumes "upper_ok api env geo nm" and "nm_state nm = FL_READY" and "from + len < 2 ^ 64"
  shows "ensures (nmbm_mtd_read_oob api nm from omode True False len 0 0) (\<lambda>(ret, dat, ob, nm'). length dat \<le> len)"
proof -
  have "low.aok (nm_ni nm) (nm_ni nm)"
    using uok_refl [OF assms(1)] by (simp add: uok_def)
  note rd = low.read_range_length [OF this assms(3)]
  show ?thesis
    using assms(2,3)
    by (auto simp: nmbm_mtd_read_oob_def Let_def ensures_bind get_device_ready intro!: ensures_mono [OF rd])
qed

lemma nmbm_split_device:
  assumes "upper_ok api env geo nm" and "nm_state nm = FL_READY" and "nm_upper_size nm \<le> 2 ^ 32"
    and "0 < mtd_erasesize geo" and "mtd_erasesize geo < 2 ^ 32"
  shows "split_device (nmbm_split_mtd api name nm)"
proof
  have es: "mtd_erasesize (lower_mtd nm) = mtd_erasesize geo"
    using mtd_geoD [of "lower_mtd nm" geo] low.att_I [of "nm_ni nm"] assms(1)
    by (auto simp: upper_ok_def lower_mtd_def attached_to_def)
  show "0 < mi_erasesize (nmbm_split_mtd api name nm)" "mi_erasesize (nmbm_split_mtd api name nm) < 2 ^ 32"
    using assms(4,5) by (simp_all add: nmbm_split_mtd_def es)
  show "mi_size (nmbm_split_mtd api name nm) \<le> 2 ^ 32"
    using assms(3) by (simp add: nmbm_split_mtd_def)
  fix off len
  show "fst (mi_read (nmbm_split_mtd api name nm) off len) \<le> 0"
    by (auto simp: nmbm_split_mtd_def nmbm_split_read_def errno_defs split: option.split)
  show "length (snd (mi_read (nmbm_split_mtd api name nm) off len)) \<le> len"
    using split_read_length_nmbm [OF assms(1,2), of off len MTD_OPS_PLACE_OOB] assms(3)
    by (auto simp: nmbm_split_mtd_def nmbm_split_read_def ensures_iff split: option.split)
qed (auto simp: nmbm_split_mtd_def nmbm_split_read_def errno_defs split: if_splits option.splits)

end

text \<open>The splitters run on the example chip of \<open>Nmbm_Ram\<close>.\<close>

interpretation split16: split_device "nmbm_split_mtd ram_api ''firmware'' nm16"
  by (rule ram.nmbm_split_device [OF nm16_upper_ok]) (simp_all add: nm16_def)

section \<open>A firmware image in memory\<close>

definition image_mtd :: "string \<Rightarrow> nat \<Rightarrow> byte list \<Rightarrow> split_mtd" where
  "image_mtd name es img =
     \<lparr>mi_name = name, mi_size = length img, mi_erasesize = es,
      mi_read = (\<lambda>off len. if off + len \<le> length img then (0, take len (drop off img)) else (- EINVAL, [])),
      mi_mod_by_eb = (\<lambda>sz. sz mod es), mi_div_by_eb = (\<lambda>sz. u32 (sz div es))\<rparr>"

lemma image_device:
  "0 < es \<Longrightarrow> es < 2 ^ 32 \<Longrightarrow> length img \<le> 2 ^ 32 \<Longrightarrow> split_device (image_mtd name es img)"
  by unfold_locales (auto simp: image_mtd_def EINVAL_def split: if_splits)

lemma image_mtd_simps [simp]:
  "mi_name (image_mtd name es img) = name" "mi_size (image_mtd name es img) = length img"
  "mi_erasesize (image_mtd name es img) = es"
  "mi_read (image_mtd name es img) off len =
     (if off + len \<le> length img then (0, take len (drop off img)) else (- EINVAL, []))"
  "mi_mod_by_eb (image_mtd name es img) sz = sz mod es"
  "mi_div_by_eb (image_mtd name es img) sz = u32 (sz div es)"
  by (simp_all add: image_mtd_def)

text \<open>The equations with which the simplifier runs the splitters on an image.\<close>

lemmas split_eval = split_read_def bytes_at_def u8_at_def u16_at_def u32_at_def u64_at_def
  le32_to_cpu_def le64_to_cpu_def be32_to_cpu_eq mtd_find_rootfs_from.simps mtd_check_rootfs_magic_def
  mtd_next_eb_def mtd_rounddown_to_eb_def mtd_roundup_to_eb_def SQUASHFS_MAGIC_def UBI_EC_MAGIC_def
  two_parts_def sub64_def u64_def u32_def EINVAL_def rootfs_name_def

lemmas uimage_eval = split_eval mtdsplit_parse_uimage_def uimage_scan.simps read_uimage_header_def
  dec_uimage_header_def sizeof_uimage_header_def uimage_parse_dt_def uimage_defaults_def
  uimage_verify_default_def IH_MAGIC_def IH_OS_LINUX_def IH_TYPE_KERNEL_def add64_int_def
  split_around_image_def

section \<open>Example images\<close>

text \<open>An LZMA header, and a squashfs image in the second of two erase blocks of 16 bytes.\<close>

definition lzma_image :: "byte list" where
  "lzma_image = [0x5d, 0, 0, 0x80, 0] @ [0, 1, 0, 0] @ [0, 0, 0, 0] @ replicate 3 0 @
     [0x68, 0x73, 0x71, 0x73] @ replicate 12 0"

abbreviation lzma_dev :: split_mtd where "lzma_dev \<equiv> image_mtd ''firmware'' 16 lzma_image"

lemma length_lzma_image [simp]: "length lzma_image = 32"
  by (simp add: lzma_image_def)

lemma lzma_dev_ok: "split_device lzma_dev"
  by (rule image_device) simp_all

lemma lzma_dev_rootfs: "mtd_find_rootfs_from lzma_dev 3 32 = Some (Inr (16, MTDSPLIT_PART_TYPE_SQUASHFS))"
  by (simp add: lzma_image_def split_eval)

lemma lzma_dev_parsed: "mtdsplit_parse_lzma True lzma_dev =
    Some (2, Some [mk_part KERNEL_PART_NAME 0 16, mk_part ROOTFS_PART_NAME 16 16])"
  by (simp add: mtdsplit_parse_lzma_def lzma_image_def dec_lzma_header_def sizeof_lzma_header_def
      log2_is_power_of_2_def split_eval)

text \<open>A brnImage footer before a squashfs image at offset 2048.\<close>

definition brn_image :: "byte list" where
  "brn_image = replicate 2036 0 @ [0xf4, 0x07, 0, 0] @ replicate 8 0 @ [0x68, 0x73, 0x71, 0x73] @
     replicate 1020 0"

abbreviation brn_dev :: split_mtd where "brn_dev \<equiv> image_mtd ''firmware'' 1024 brn_image"

lemma length_brn_image [simp]: "length brn_image = 3072"
  by (simp add: brn_image_def)

lemma brn_dev_ok: "split_device brn_dev"
  by (rule image_device) simp_all

lemma brn_dev_parsed: "mtdsplit_parse_brnimage True brn_dev =
    Some (2, Some [mk_part KERNEL_PART_NAME 0 2036, mk_part ROOTFS_PART_NAME 2048 1012])"
  by (simp add: mtdsplit_parse_brnimage_def brn_image_def brnimage_search.simps
      BRNIMAGE_ALIGN_BYTES_def BRNIMAGE_FOOTER_SIZE_def BRNIMAGE_MIN_OVERHEAD_def
      BRNIMAGE_MAX_OVERHEAD_def split_eval)

text \<open>A uImage header of an empty image, and a squashfs image in the next erase block.\<close>

definition uimage_image :: "byte list" where
  "uimage_image = [0x27, 0x05, 0x19, 0x56] @ replicate 24 0 @ [5, 0, 2, 0] @ replicate 32 0 @
     [0x68, 0x73, 0x71, 0x73] @ replicate 60 0"

abbreviation uimage_dev :: split_mtd where "uimage_dev \<equiv> image_mtd ''firmware'' 64 uimage_image"

lemma length_uimage_image [simp]: "length uimage_image = 128"
  by (simp add: uimage_image_def)

lemma uimage_dev_ok: "split_device uimage_dev"
  by (rule image_device) simp_all

lemma uimage_dev_parsed: "mtdsplit_parse_uimage True True None uimage_dev =
    Some (2, Some [mk_part KERNEL_PART_NAME 0 64, mk_part ROOTFS_PART_NAME 64 64])"
  by (simp add: uimage_image_def uimage_eval)

text \<open>
  A squashfs image in the first erase block, and in the last one a uImage header that announces
  more data than there is.
\<close>

definition long_uimage :: "byte list" where
  "long_uimage = [0x68, 0x73, 0x71, 0x73] @ replicate 60 0 @
     [0x27, 0x05, 0x19, 0x56] @ replicate 8 0 @ [0, 0, 1, 0] @ replicate 12 0 @ [5, 0, 2, 0] @
     replicate 32 0"

abbreviation long_dev :: split_mtd where "long_dev \<equiv> image_mtd ''firmware'' 64 long_uimage"

text \<open>A squashfs image of 50 bytes in a partition of 96 bytes, at offset 32 of a flash.\<close>

definition squashfs_image :: "byte list" where
  "squashfs_image = [0x68, 0x73, 0x71, 0x73] @ replicate 36 0 @ [50, 0, 0, 0, 0, 0, 0, 0] @ replicate 48 0"

abbreviation squashfs_dev :: split_mtd where "squashfs_dev \<equiv> image_mtd ''rootfs'' 16 squashfs_image"

abbreviation flash_dev :: split_mtd where "flash_dev \<equiv> image_mtd ''flash'' 16 (replicate 128 0)"

lemma length_squashfs_image [simp]: "length squashfs_image = 96"
  by (simp add: squashfs_image_def)

lemma squashfs_dev_ok: "split_device squashfs_dev" "split_device flash_dev"
  by (rule image_device; simp)+

lemma squashfs_dev_parsed:
  "mtdsplit_parse_squashfs True squashfs_dev (Some (flash_dev, 32)) =
     Some (1, Some [mk_part ROOTFS_SPLIT_NAME 64 32])"
proof -
  have "mtd_get_squashfs_len squashfs_dev 0 = Inr 50"
    by (simp add: squashfs_image_def mtd_get_squashfs_len_def dec_squashfs_super_block_def
        sizeof_squashfs_super_block_def split_eval)
  moreover have "mtd_roundup_to_eb 82 flash_dev = 96" "mtd_rounddown_to_eb 32 squashfs_dev = 32"
    by (simp_all add: mtd_roundup_to_eb_def mtd_rounddown_to_eb_def u32_def)
  ultimately show ?thesis
    by (simp add: mtdsplit_parse_squashfs_def mtd_get_master_def mtdpart_get_offset_def sub64_def)
qed

text \<open>
  The directory entries of \<^verbatim>\<open>1-openwrt\<close> and of \<^verbatim>\<open>vmlinux.lz\<close>, with checksums of 0, in the first of two
  erase blocks, and the UBI magic number in the second.
\<close>

definition wfi_image :: "byte list" where
  "wfi_image =
     [0x85, 0x19, 0x01, 0xe0, 52, 0, 0, 0] @ replicate 12 0 @ [1, 0, 0, 0] @ replicate 4 0 @
     [9, 0, 0, 0] @ replicate 8 0 @ [0x31, 0x2d, 0x6f, 0x70, 0x65, 0x6e, 0x77, 0x72, 0x74, 0, 0, 0] @
     [0x85, 0x19, 0x01, 0xe0, 52, 0, 0, 0] @ replicate 12 0 @ [1, 0, 0, 0] @ replicate 4 0 @
     [10, 0, 0, 0] @ replicate 8 0 @
     [0x76, 0x6d, 0x6c, 0x69, 0x6e, 0x75, 0x78, 0x2e, 0x6c, 0x7a, 0, 0] @ replicate 24 0 @
     [0x55, 0x42, 0x49, 0x23] @ replicate 124 0"

abbreviation wfi_dev :: split_mtd where "wfi_dev \<equiv> image_mtd ''firmware'' 128 wfi_image"

abbreviation zero_crc :: wfi_crc where "zero_crc \<equiv> (\<lambda>_ _. 0)"

lemma length_wfi_image [simp]: "length wfi_image = 256"
  by (simp add: wfi_image_def)

lemma wfi_dev_ok: "split_device wfi_dev"
  by (rule image_device) simp_all

lemmas node_eval = jffs2_dirent_valid_def node_u16_def node_u32_def mem_read_def
  JFFS2_MAGIC_BITMASK_def JFFS2_NODETYPE_DIRENT_def jffs2_dirent_crc_def sizeof_jffs2_raw_dirent_def

lemma wfi_names:
  "OPENWRT_NAME = [0x31, 0x2d, 0x6f, 0x70, 0x65, 0x6e, 0x77, 0x72, 0x74]"
  "KERNEL_NAME = [0x76, 0x6d, 0x6c, 0x69, 0x6e, 0x75, 0x78, 0x2e, 0x6c, 0x7a]"
  by (simp_all add: str_bytes_def OPENWRT_NAME_def KERNEL_NAME_def)

lemma wfi_dev_parsed: "parse_bcm_wfi zero_crc True None wfi_dev 0 256 False =
    Some (3, Some [mk_part PART_FIRMWARE 0 256, mk_part KERNEL_PART_NAME 0 128, mk_part UBI_PART_NAME 128 128])"
  by (simp add: wfi_image_def parse_bcm_wfi_def jffs2_find_file_def jffs2_find_file_loop.simps
      jffs2_block_walk.simps ubifs_find_def ubifs_find_loop.simps BCM_WFI_PARTS_def wfi_names
      UBI_MAGIC_def push_bit_eq_mult drop_bit_eq_div node_eval split_eval)

lemma less_32_cases:
  "(n :: nat) < 32 \<Longrightarrow> n \<in> {0, 1, 2, 3, 4, 5, 6, 7, 8, 9, 10, 11, 12, 13, 14, 15, 16, 17, 18, 19, 20, 21,
    22, 23, 24, 25, 26, 27, 28, 29, 30, 31}"
  by simp arith

lemma wfi_node_ok0: "k < 32 \<Longrightarrow> node_ok zero_crc (take 128 wfi_image) (4 * k)"
  by (drule less_32_cases, elim insertE emptyE; simp add: wfi_image_def node_ok_def node_eval split_eval)

lemma wfi_node_ok1: "k < 32 \<Longrightarrow> node_ok zero_crc (take 128 (drop 128 wfi_image)) (4 * k)"
  by (drule less_32_cases, elim insertE emptyE; simp add: wfi_image_def node_ok_def node_eval split_eval)

lemma wfi_nodes_ok: "nodes_ok zero_crc wfi_dev"
proof -
  have "node_ok zero_crc (take 128 (drop offs wfi_image)) node"
    if a: "128 dvd offs" "offs + 128 \<le> 256" "node < 128" "4 dvd node" for offs node
  proof -
    have "offs = 0 \<or> offs = 128" using a(1,2) by (auto elim!: dvdE)
    moreover obtain k where "node = 4 * k" "k < 32" using a(3,4) by (auto elim!: dvdE)
    ultimately show ?thesis
      using wfi_node_ok0 wfi_node_ok1 by auto
  qed
  then show ?thesis
    by (auto simp: nodes_ok_def EINVAL_def split: if_splits)
qed

section \<open>Mistakes in the splitters\<close>

text \<open>
  A TRX header whose second offset lies behind the device is accepted: the root file system starts
  outside the device and its size wraps around.
\<close>

definition trx_image :: "byte list" where
  "trx_image = [0x48, 0x44, 0x52, 0x30] @ [32, 0, 0, 0] @ replicate 8 0 @ [28, 0, 0, 0] @ [64, 0, 0, 0] @
     replicate 8 0"

lemma trx_offsets_unchecked: "mtdsplit_parse_trx True (image_mtd ''firmware'' 32 trx_image) =
    Some (2, Some [mk_part KERNEL_PART_NAME 28 36, mk_part ROOTFS_PART_NAME 64 (2 ^ 64 - 32)])"
  by (simp add: mtdsplit_parse_trx_def trx_image_def trx_scan.simps read_trx_header_def dec_trx_header_def
      sizeof_trx_header_def TRX_MAGIC_def split_eval)

text \<open>A node of length 0 at the start of a boot file system keeps the walk where it is for ever.\<close>

lemma bootfs_walk_stuck:
  assumes "mi_read m 0 sizeof_jffs2_raw_dirent = (0, bs)" and "length bs = sizeof_jffs2_raw_dirent"
    and "de_magic (dec_jffs2_raw_dirent bs) = JFFS2_MAGIC_BITMASK"
    and "de_totlen (dec_jffs2_raw_dirent bs) = 0" and "0 < mi_size m"
  shows "cfe_bootfs_walk m 0 = None"
proof -
  define stuck where "stuck = (\<lambda>m' off (y :: nat). \<not> (m' = m \<and> off = (0 :: nat)))"
  have "stuck m' off y" if "cfe_bootfs_walk m' off = Some y" for m' off y
    using _ that
  proof (rule cfe_bootfs_walk.raw_induct)
    fix walk m' off y
    assume "\<And>off b y. walk off b = Some y \<Longrightarrow> stuck off b y"
      and "(case mi_read m' off sizeof_jffs2_raw_dirent of (err, bs) \<Rightarrow>
        if err \<noteq> 0 \<or> length bs \<noteq> sizeof_jffs2_raw_dirent then Some off
        else if de_magic (dec_jffs2_raw_dirent bs) \<noteq> JFFS2_MAGIC_BITMASK then Some off
        else (let off = u64 (off + de_totlen (dec_jffs2_raw_dirent bs)); off = u64 (align4 off)
              in if off < mi_size m' then walk m' off else Some off)) = Some y"
    then show "stuck m' off y"
      using assms by (cases "m' = m \<and> off = 0") (auto simp: stuck_def align4_def)
  qed
  then show ?thesis
    by (cases "cfe_bootfs_walk m 0") (auto simp: stuck_def)
qed

end
