(* ===== verification/Spec2Isabelle.thy ===== *)
theory Spec2Isabelle
  imports Mtdtool_Spec Nmbm_Ram Nmbm_Pool Nmbm_Image Mtdsplit_Nmbm
begin

text \<open>
  A verification of NMBM, the NAND bad block management layer of the MediaTek targets
  (\<^verbatim>\<open>src/target/linux/generic/files-5.4/drivers/mtd/nmbm/nmbm-core.c\<close>, \<^verbatim>\<open>nmbm-mtd.c\<close>,
  \<^verbatim>\<open>nmbm-private.h\<close> and \<^verbatim>\<open>include/nmbm/nmbm.h\<close>, \<^verbatim>\<open>nmbm-os.h\<close>), of the splitters that divide a flash partition
  with firmware into kernel and root file system
  (\<^verbatim>\<open>src/target/linux/generic/files/drivers/mtd/mtdsplit/\<close>, with the rounding functions of
  \<^verbatim>\<open>pending-5.4/404-mtd-add-more-helper-functions.patch\<close>), and of the \<^verbatim>\<open>mtd\<close> tool that puts firmware on
  flash (\<^verbatim>\<open>src/package/system/mtd/src/\<close>).

  \<^bold>\<open>The program.\<close> NMBM presents a NAND chip as an array of logic blocks without bad blocks. The
  physical chip has a data area, a management area and, at its end, a signature. The management area
  holds two copies of the info table (a header, two bits of state for every physical block, and the
  physical block of every logic block) and a pool of replacement blocks that is used from its top
  downwards. The layers of the code, bottom up:
  \<^item> the driver below, a structure of function pointers (\<^verbatim>\<open>struct nmbm_lower_device\<close>);
  \<^item> access to pages and blocks with retries, bad block marks;
  \<^item> block states, walks over good blocks, the initial mapping;
  \<^item> verified writing of management data, info tables with their rescue and update, the signature;
  \<^item> attaching: sizes, search for a signature, creation or loading of the tables;
  \<^item> the API on logic addresses: erase, read, write, bad block query and mark;
  \<^item> the MTD layer: callbacks on a lower MTD device, exclusive use, the operations of the upper MTD
    device, probe and remove.

  The splitters run on such a device, or on any other MTD device: each reads the header of one kind of
  firmware image (Seama, LZMA, WRGG, Minor, ELF, EVA, TP-Link, brnImage, CFE bootfs, squashfs, TRX,
  uImage, jImage, FIT, Broadcom WFI), at the start of the device or at the first erase block that
  carries it, searches the erase blocks behind it for a root file system (\<^verbatim>\<open>mtdsplit.c\<close>), and returns
  an array of partitions or an error.

  The \<^verbatim>\<open>mtd\<close> tool is the program that works on these partitions from user space, through the character
  device of a partition. Its parts: opening a device by name, bad blocks, erasing and writing
  (\<^verbatim>\<open>mtd.c\<close>); the commands that write, verify, dump and erase images (\<^verbatim>\<open>mtd.c\<close>), which append the saved
  configuration as a file of a JFFS2 file system (\<^verbatim>\<open>jffs2.c\<close>); the repair of the length and checksum in
  image headers after the file system behind them has changed (\<^verbatim>\<open>trx.c\<close>, \<^verbatim>\<open>seama.c\<close>, \<^verbatim>\<open>wrg.c\<close>, \<^verbatim>\<open>wrgg.c\<close>,
  with the checksums of \<^verbatim>\<open>crc32.c\<close> and \<^verbatim>\<open>md5.c\<close>); messages to the boot loader (\<^verbatim>\<open>linksys_bootcount.c\<close>,
  \<^verbatim>\<open>tpl_ramips_recoveryflag.c\<close>).

  \<^bold>\<open>The model.\<close> Every function of the sources that keeps state or computes is a HOL function of the
  same name on an explicit state (\<^verbatim>\<open>'d nmbm_instance\<close>, where \<open>'d\<close> is the state of the device behind
  \<^verbatim>\<open>lower.arg\<close>). Loops are recursive functions named after the function they belong to
  (\<^verbatim>\<open>nmbm_read_range_loop\<close>); \<^verbatim>\<open>goto\<close> targets are functions of their own
  (\<^verbatim>\<open>nmbm_remap_logic_block\<close>). The result is an option: \<open>None\<close> is undefined behaviour (an access
  outside an array or buffer, a NULL callback) or a loop that does not end, so that \<open>ensures m Q\<close>
  says that the function returns, is memory safe and establishes \<open>Q\<close>. \<^verbatim>\<open>uint32_t\<close> and \<^verbatim>\<open>uint64_t\<close>
  are \<open>nat\<close> with the wrap-around written out (\<open>u32\<close>, \<open>u64\<close>, \<open>sub32\<close>, \<open>sub64\<close>), \<^verbatim>\<open>int32_t\<close> and
  error codes are \<open>int\<close>, bitmaps and checksums are \<open>32 word\<close>, buffers are byte lists.
  The two loops without an evident bound, the update of the info tables and the retry of the logic
  block erasure, are \<^verbatim>\<open>partial_function (option)\<close>; that they end is proved, with no fuel: every retry
  changes the state of a block for the worse or takes a block off the pool.
  The system calls of the \<^verbatim>\<open>mtd\<close> tool are a record of functions (\<open>mtd_sys\<close>) on the state of the world behind
  them; a function that may call \<^verbatim>\<open>exit\<close> yields \<open>Exit\<close> with the code, or \<open>Ret\<close> with its result. Its
  static variables are the records \<open>tool\<close>, \<open>jffs2\<close> and \<open>writer\<close>, the options of the command line the record
  \<open>settings\<close>. Its loops over blocks and over the image are \<^verbatim>\<open>partial_function (option)\<close>, and that they end
  is part of what is proved. The model is that of a little-endian machine with 64-bit pointers.

  \<^bold>\<open>The theories\<close>, in the order of the code:
  \<^item> \<open>Nmbm_Prelude\<close>: machine integers, error numbers, array and buffer access, little-endian
    encoding, the weakest-precondition calculus.
  \<^item> \<open>Nmbm_Types\<close>: the constants and structures of \<^verbatim>\<open>nmbm-private.h\<close> and \<^verbatim>\<open>nmbm.h\<close> with their layout.
  \<^item> \<open>Nmbm_Phys\<close>, \<open>Nmbm_Header\<close>, \<open>Nmbm_State\<close>, \<open>Nmbm_Mgmt\<close>, \<open>Nmbm_Info\<close>, \<open>Nmbm_Load\<close>, \<open>Nmbm_Attach\<close>,
    \<open>Nmbm_Logic\<close>: \<^verbatim>\<open>nmbm-core.c\<close> from top to bottom.
  \<^item> \<open>Nmbm_Mtd\<close>: \<^verbatim>\<open>nmbm-mtd.c\<close>. \<open>Nmbm_Lock\<close>: its callers as a step relation over threads.
  \<^item> \<open>Nmbm_Steps\<close>, \<open>Nmbm_Device\<close>, \<open>Nmbm_Tables\<close>, \<open>Nmbm_Update\<close>, \<open>Nmbm_Api\<close>: the invariants (\<open>geom\<close>,
    \<open>tabs\<close>, \<open>tlay\<close>, \<open>inst_ok\<close>) and that every operation keeps them, in the locale \<open>lower_device\<close>.
  \<^item> \<open>Nmbm_Pool\<close>: which block a remapping takes. \<open>Nmbm_Image\<close>: the generated image of the tables.
  \<^item> \<open>Nmbm_Create\<close>: sizes and creation of the management area. \<open>Nmbm_Fresh\<close>: attaching and probing a
    chip without signature.
  \<^item> \<open>Nmbm_Nand\<close>, \<open>Nmbm_Store\<close>: the logic flash image and what reading, writing and erasing do to it,
    in the locale \<open>nand\<close>.
  \<^item> \<open>Nmbm_Upper\<close>: the operations of the upper device, in the locale \<open>mtd_device\<close>.
  \<^item> \<open>Nmbm_Ram\<close>: a chip in memory that satisfies all three interfaces, for the witnesses.
  \<^item> \<open>Mtdsplit\<close>: \<^verbatim>\<open>mtdsplit.c\<close>, \<^verbatim>\<open>mtdsplit.h\<close> and the rounding functions, with the locale \<open>split_device\<close>.
  \<^item> \<open>Mtdsplit_Fw\<close> (Seama, LZMA, WRGG, Minor), \<open>Mtdsplit_Elf\<close>, \<open>Mtdsplit_Vendor\<close> (EVA, TP-Link, brnImage,
    CFE bootfs, squashfs), \<open>Mtdsplit_Scan\<close> (TRX, uImage, jImage, FIT), \<open>Mtdsplit_Wfi\<close> (Broadcom, with the
    JFFS2 directory entries): one file of \<^verbatim>\<open>mtdsplit/\<close> after the other, each with its lemmas.
  \<^item> \<open>Mtdsplit_Nmbm\<close>: the device of NMBM as a device for the splitters, and example images.
  \<^item> \<open>Crc32\<close>, \<open>Md5\<close>: the checksums of the \<^verbatim>\<open>mtd\<close> tool, each with its reference definition.
  \<^item> \<open>Mtdtool\<close>: the system calls, device access of \<^verbatim>\<open>mtd.c\<close>, the locale \<open>mtd_chardev\<close>. \<open>Mtdtool_Fix\<close>: the
    image headers. \<open>Mtdtool_Boot\<close>: the messages to the boot loader. Both with their lemmas.
  \<^item> \<open>Mtdtool_Jffs2\<close>: \<^verbatim>\<open>jffs2.c\<close>. \<open>Mtdtool_Write\<close>: the commands of \<^verbatim>\<open>mtd.c\<close>.
  \<^item> \<open>Mtdtool_Image\<close>: what writing, dumping and erasing do, in the locale \<open>mtd_stream\<close>. \<open>Mtdtool_Append\<close>: what
    the JFFS2 writer puts into the blocks, in the locale \<open>mtd_append\<close>.
  \<^item> \<open>Mtdtool_Ram\<close>: a flash in memory that satisfies the three interfaces, for the witnesses.
    \<open>Mtdtool_Spec\<close>: the properties of the tool.

  \<^bold>\<open>The interfaces\<close> are locales. \<open>lower_device lo R W I\<close> states what the core relies on of a driver:
  buffers of the announced length, and that calls on blocks in \<open>W\<close> respect the preorder \<open>R\<close>; with
  \<open>R\<close> total its lemmas are safety and termination, with \<open>R\<close> "block \<open>b\<close> keeps its contents" they are
  isolation, with \<open>W\<close> empty they are the read-only mode. \<open>nand lo I pg\<close> adds that the driver reports
  truthfully and that programming clears bits and erasing sets them; two sublocales give
  \<open>lower_device\<close>. \<open>mtd_device\<close> states what NMBM relies on of the kernel's MTD core; the callbacks of
  \<^verbatim>\<open>nmbm-mtd.c\<close> on it satisfy \<open>lower_device\<close>. \<open>incremental_crc\<close> states that a checksum can be
  continued; the kernel's \<^verbatim>\<open>crc32_le\<close> is not part of the sources and is a parameter \<open>crc\<close>, which
  \<open>Crc32\<close> interprets with the repository's own implementation. \<open>split_device m\<close> states what the splitters
  rely on of a device: a read inside it fills the buffer or reports an error, and the division by the
  erase block size is that of the kernel; the upper device of NMBM satisfies it. \<open>mtd_chardev\<close> states what the
  \<^verbatim>\<open>mtd\<close> tool relies on of the character device of a partition (\<^verbatim>\<open>open\<close>, the ioctls, \<^verbatim>\<open>pread\<close> and \<^verbatim>\<open>pwrite\<close>):
  any call may fail, but one that reports success did what it should, and erasing or writing a range
  changes nothing else; \<open>mtd_stream\<close> adds the file position, the image and the standard output;
  \<open>mtd_append\<close> adds that good blocks can be erased and written, which the JFFS2 writer does not check.
  Whether the kernel
  has memory (\<open>kz\<close>, \<open>vz\<close>) and what the device tree says are arguments of the splitters.

  \<^bold>\<open>What is shown.\<close> Reading, writing and erasing refine an array of bytes on flash, up to the round trip
  of erase, write and read; the operations of the API and of the upper device are total, memory safe
  and keep the invariant on every driver that keeps its side of the interface, whatever fails; they
  touch no block but those of the range and of the management area; read-only means read-only; the
  update of the info tables and the retry of the erasure end; attaching to and probing of a chip
  without signature establish the invariant; the generated tables pass the checks of loading; the
  lock of the MTD layer excludes, makes progress, and the shutdown is final; the checksum is the
  division by its polynomial. The search for a root file system finds the first one; the splitters
  return on every device and either fail or give partitions of the layout of their image format, inside
  the device, also on the device of NMBM.
  The MD5 of the tool is that of RFC 1321. The repair of a header returns and leaves a header whose
  length and checksum are those of the data, or fails having changed at most the block of the header.
  Writing an image puts it into the good blocks in order, filled up to a whole block, dumping delivers
  what was written, erasing clears the good blocks and spares the bad ones, and an appended file is found by a walk
  over the nodes of the blocks; resetting the boot counter and setting the recovery flag do that and nothing else.
  Four properties pin down mistakes in the code: a bad block on
  top of the pool makes two logic blocks share a physical block, the header check of the info table
  accepts offsets that overflow, removing a device leaves it in the list, and an oversize uImage in the
  last erase block gives a partition behind the end of the device. Two lemmas of \<open>Mtdsplit_Nmbm\<close> add that
  the offsets of a TRX header are not checked and that the walk over a CFE bootfs does not end at a
  node of length 0; the properties of the Broadcom splitters exclude such nodes (\<open>nodes_ok\<close>). The refinement of erasure is
  stated for a single block because the first of these mistakes lets the erasure of a later block
  harm an earlier one.

  \<^bold>\<open>Bounds.\<close> The geometry of a chip (\<open>geom\<close>, \<open>real_chip\<close>) is limited to \<open>2 ^ 31\<close> blocks, \<open>2 ^ 63\<close>
  bytes, and for the creation \<open>2 ^ 24\<close> blocks with pages and OOB areas of at most \<open>2 ^ 24\<close> bytes and
  at least 16 blocks; within these no size wraps around. Ranges whose end exceeds \<open>2 ^ 64\<close> are
  excluded, since the code does not check for them. A device for the splitters has at most 4 GiB, since
  they keep sizes in 32 bits in many places, and the padding a device tree asks for is less than
  \<open>2 ^ 31\<close>. The \<^verbatim>\<open>mtd\<close> tool keeps sizes in \<^verbatim>\<open>int\<close>: devices are smaller than \<open>2 ^ 31\<close> bytes, with erase blocks
  of a power of two. The Seama, WRG and WRGG headers are those at offset 0, since the code computes
  the block of any other offset before it knows the size of a block. Resetting the boot counter is shown for pages of at most 2048 bytes
  (its buffer has no more), appending a file for erase blocks of at least 512 bytes and names of at
  most 254 bytes (longer ones are written behind the buffer of a small block, or with a truncated length),
  writing for the whole of one device (no \<^verbatim>\<open>part_offset\<close>, no list of devices).

  \<^bold>\<open>Not modelled.\<close> Log messages and the debug colours (output only; the log level is kept); the
  registration of the driver with the kernel, reference counts and the wait queue itself (a waiting
  thread is a thread that has not taken its step yet); the kernel's MTD core and list code, of which
  only what the sources use is stated; the registration of the splitters. Loading is modelled in full in \<open>Nmbm_Load\<close>, but since it trusts
  offsets and mapping entries it reads from the chip, no totality is claimed for it; likewise
  \<^verbatim>\<open>mtd_write_jffs2\<close>, which walks over the nodes it finds on flash and does not end at a node of length 0.
  Of the \<^verbatim>\<open>mtd\<close> tool, the parsing of options, messages, the reboot, the RedBoot partition table
  (\<^verbatim>\<open>fis.c\<close> and the branches for it) and the Broadcom image tag (\<^verbatim>\<open>imagetag.c\<close>) are left out; the MD5 of libubox,
  with which \<^verbatim>\<open>verify\<close> compares, is a parameter. The rest of the repository (network and switch drivers, file
  systems, build system) is vendor and third-party code and outside this development.
\<close>

section \<open>The info tables\<close>

text \<open>
  C5: on any working device, updating the info tables ends, has a defined result, and leaves an
  attached instance in order: the tables lie in the management area in the right order, the mapping
  is the one of the caller, and after a success nothing is left to be written.
\<close>

theorem update_info_table_total:
  assumes "lower_device lo R (\<lambda>_. True) I" and "attached_to lo I ni" and "inst_ok ni"
  shows "ensures (nmbm_update_info_table crc ni) (\<lambda>(success, ni').
    attached_to lo I ni' \<and> inst_ok ni' \<and> block_mapping ni' = block_mapping ni \<and>
    (success \<and> \<not> protected ni \<longrightarrow> \<not> dirty ni'))"
  by (rule ensures_mono [OF lower_device.update_info_table_a [OF assms(1)
        lower_device.aok_refl [OF assms] lower_device.all_areas(1) [OF assms(1)]]])
    (auto simp: lower_device.aok_def [OF assms(1)])

theorem update_info_table_total_witness:
  "ensures (nmbm_update_info_table crc32 ni16) (\<lambda>(success, ni'). inst_ok ni' \<and> (success \<longrightarrow> \<not> dirty ni'))"
  using update_info_table_total [OF ram.low.lower_device_axioms ni16_attached ni16_inst_ok, of crc32]
  by (auto simp: ensures_iff ni16_def)

section \<open>Logic blocks\<close>

text \<open>
  C6: erasing a logic block ends on any working device, although the code retries as long as it finds
  a block to map; the instance stays in order and no other logic block is remapped.
\<close>

theorem erase_logic_block_total:
  assumes "lower_device lo R (\<lambda>_. True) I" and "attached_to lo I ni" and "inst_ok ni"
    and "lb < block_count ni"
  shows "ensures (nmbm_erase_logic_block crc ni lb) (\<lambda>(ret, ni').
    attached_to lo I ni' \<and> inst_ok ni' \<and> (\<forall>i. i \<noteq> lb \<longrightarrow> block_mapping ni' ! i = block_mapping ni ! i))"
  by (rule ensures_mono [OF lower_device.erase_logic_block_a [OF assms(1)
        lower_device.aok_refl [OF assms(1-3)] lower_device.all_areas(1) [OF assms(1)] assms(4)]])
    (auto simp: lower_device.aok_def [OF assms(1)] may_change_def)

theorem erase_logic_block_total_witness:
  "ensures (nmbm_erase_logic_block crc32 ni16 3) (\<lambda>(ret, ni'). inst_ok ni' \<and> block_mapping ni' ! 0 = 0)"
  using erase_logic_block_total [OF ram.low.lower_device_axioms ni16_attached ni16_inst_ok, of 3 crc32]
  by (auto simp: ensures_iff ni16_def)

text \<open>
  \<^verbatim>\<open>nmbm_erase_block_range\<close> makes no access out of bounds and keeps the invariant, for every range
  whose end does not wrap around.
\<close>

lemma erase_block_range_total:
  assumes "lower_device lo R (\<lambda>_. True) I" and "attached_to lo I ni" and "inst_ok ni"
    and "addr + sz < 2 ^ 64"
  shows "ensures (nmbm_erase_block_range crc ni addr sz) (\<lambda>(ret, failed, ni').
    attached_to lo I ni' \<and> inst_ok ni')"
  by (rule ensures_mono [OF lower_device.erase_block_range_a [OF assms(1)
        lower_device.aok_refl [OF assms(1-3)] lower_device.all_areas(1) [OF assms(1)] assms(4)
        lower_device.all_areas(2) [OF assms(1)]]])
    (auto simp: lower_device.aok_def [OF assms(1)])

text \<open>
  \<^verbatim>\<open>nmbm_read_range\<close> is defined for every range; the buffer holds \<^verbatim>\<open>*retlen\<close> bytes, at most the
  requested size, and all of it unless a page could not be read (an uncorrectable ECC error does not
  stop the transfer).
\<close>

lemma read_range_total:
  assumes "lower_device lo R (\<lambda>_. True) I" and "attached_to lo I ni" and "inst_ok ni"
    and "addr + sz < 2 ^ 64"
  shows "ensures (nmbm_read_range ni addr sz mode) (\<lambda>(ret, bs, retlen, ni').
    attached_to lo I ni' \<and> inst_ok ni' \<and>
    (\<forall>n. retlen = Some n \<longrightarrow> length bs = n \<and> n \<le> sz \<and> (0 \<le> ret \<or> ret = - EBADMSG \<longrightarrow> n = sz)))"
  by (rule ensures_mono [OF lower_device.read_range_a [OF assms(1)
        lower_device.aok_refl [OF assms(1-3)] assms(4)]])
    (auto simp: lower_device.aok_def [OF assms(1)])

text \<open>
  \<^verbatim>\<open>nmbm_write_range\<close> is defined for every range and buffer of its size; \<^verbatim>\<open>*retlen\<close> is at most the
  size, and the size on success.
\<close>

lemma write_range_total:
  assumes "lower_device lo R (\<lambda>_. True) I" and "attached_to lo I ni" and "inst_ok ni"
    and "addr + sz < 2 ^ 64" and "sz \<le> length data"
  shows "ensures (nmbm_write_range crc ni addr sz data mode) (\<lambda>(ret, retlen, ni').
    attached_to lo I ni' \<and> inst_ok ni' \<and> (\<forall>n. retlen = Some n \<longrightarrow> n \<le> sz \<and> (ret = 0 \<longrightarrow> n = sz)))"
  by (rule ensures_mono [OF lower_device.write_range_a [OF assms(1)
        lower_device.aok_refl [OF assms(1-3)] lower_device.all_areas(1) [OF assms(1)] assms(4,5)
        lower_device.all_areas(2) [OF assms(1)]]])
    (auto simp: lower_device.aok_def [OF assms(1)])

text \<open>
  Marking a logic block bad is defined at every address and keeps the invariant.
\<close>

lemma mark_bad_block_total:
  assumes "lower_device lo R (\<lambda>_. True) I" and "attached_to lo I ni" and "inst_ok ni"
  shows "ensures (nmbm_mark_bad_block crc ni addr) (\<lambda>(ret, ni'). attached_to lo I ni' \<and> inst_ok ni')"
  by (rule ensures_mono [OF lower_device.mark_bad_block_a [OF assms(1)
        lower_device.aok_refl [OF assms(1-3)] lower_device.all_areas [OF assms(1)]]])
    (auto simp: lower_device.aok_def [OF assms(1)])

text \<open>
  C19: the operations on logic addresses have a defined result, make no access out of bounds and keep
  the instance in order, for every range whose end does not wrap around. A read delivers \<^verbatim>\<open>*retlen\<close>
  bytes, at most the size and all of it unless a page could not be read; a write reports at most the
  size, and the size on success.
\<close>

theorem range_operations_total:
  assumes "lower_device lo R (\<lambda>_. True) I" and "attached_to lo I ni" and "inst_ok ni"
    and "addr + sz < 2 ^ 64" and "sz \<le> length data"
  shows "ensures (nmbm_erase_block_range crc ni addr sz) (\<lambda>(ret, failed, ni').
      attached_to lo I ni' \<and> inst_ok ni') \<and>
    ensures (nmbm_read_range ni addr sz mode) (\<lambda>(ret, bs, retlen, ni').
      attached_to lo I ni' \<and> inst_ok ni' \<and>
      (\<forall>n. retlen = Some n \<longrightarrow> length bs = n \<and> n \<le> sz \<and> (0 \<le> ret \<or> ret = - EBADMSG \<longrightarrow> n = sz))) \<and>
    ensures (nmbm_write_range crc ni addr sz data mode) (\<lambda>(ret, retlen, ni').
      attached_to lo I ni' \<and> inst_ok ni' \<and> (\<forall>n. retlen = Some n \<longrightarrow> n \<le> sz \<and> (ret = 0 \<longrightarrow> n = sz))) \<and>
    ensures (nmbm_mark_bad_block crc ni addr) (\<lambda>(ret, ni'). attached_to lo I ni' \<and> inst_ok ni')"
  using erase_block_range_total [OF assms(1-4)] read_range_total [OF assms(1-4)]
    write_range_total [OF assms] mark_bad_block_total [OF assms(1-3)] by blast

theorem range_operations_total_witness:
  "ensures (nmbm_read_range ni16 100 200 NMBM_MODE_PLACE_OOB) (\<lambda>(ret, bs, retlen, ni'). inst_ok ni' \<and>
      (\<forall>n. retlen = Some n \<longrightarrow> n \<le> 200)) \<and>
   ensures (nmbm_write_range crc32 ni16 100 200 (replicate 200 1) NMBM_MODE_PLACE_OOB)
      (\<lambda>(ret, retlen, ni'). inst_ok ni')"
  using range_operations_total [OF ram.low.lower_device_axioms ni16_attached ni16_inst_ok,
      of 100 200 "replicate 200 1" crc32 NMBM_MODE_PLACE_OOB]
  by (auto simp: ensures_iff)

section \<open>Isolation\<close>

text \<open>
  Erasing a range leaves alone every block outside the management area to which no logic block of
  the range is mapped, whatever the erasures, remappings and table updates on the way do.
  \<open>img d b\<close> is anything one can observe of block \<open>b\<close> that calls for other blocks keep.
\<close>

lemma erase_isolated:
  assumes "lower_device lo R (\<lambda>x. x \<noteq> b) I" and "\<And>d d'. R d d' \<Longrightarrow> img d' b = img d b"
    and "attached_to lo I ni" and "inst_ok ni" and "addr + sz < 2 ^ 64"
    and "b < mgmt_start_ba ni \<or> mapping_blocks_top_ba ni < b"
    and "\<And>lb. addr div nmbm_lower_device.erasesize lo \<le> lb \<Longrightarrow> lb \<le> (addr + sz - 1) div nmbm_lower_device.erasesize lo \<Longrightarrow>
           block_mapping ni ! lb \<noteq> int b"
  shows "ensures (nmbm_erase_block_range crc ni addr sz)
    (\<lambda>(ret, failed, ni'). img (dev ni') b = img (dev ni) b)"
  by (rule ensures_mono [OF lower_device.erase_block_range_a [OF assms(1)
        lower_device.aok_refl [OF assms(1,3,4)]
        lower_device.areas_except(1) [OF assms(1) _ assms(6)] assms(5)
        lower_device.areas_except(2) [OF assms(1) _ assms(7)]]])
    (use assms(2) in \<open>auto simp: lower_device.aok_def [OF assms(1)]\<close>)

text \<open>
  Writing a range changes no block outside the management area but those its logic blocks are
  mapped to.
\<close>

lemma write_isolated:
  assumes "lower_device lo R (\<lambda>x. x \<noteq> b) I" and "\<And>d d'. R d d' \<Longrightarrow> img d' b = img d b"
    and "attached_to lo I ni" and "inst_ok ni" and "addr + sz < 2 ^ 64" and "sz \<le> length data"
    and "b < mgmt_start_ba ni \<or> mapping_blocks_top_ba ni < b"
    and "\<And>a. addr \<le> a \<Longrightarrow> a < addr + sz \<Longrightarrow> block_mapping ni ! (a div nmbm_lower_device.erasesize lo) \<noteq> int b"
  shows "ensures (nmbm_write_range crc ni addr sz data mode)
    (\<lambda>(ret, retlen, ni'). img (dev ni') b = img (dev ni) b)"
  by (rule ensures_mono [OF lower_device.write_range_a [OF assms(1)
        lower_device.aok_refl [OF assms(1,3,4)]
        lower_device.areas_except(1) [OF assms(1) _ assms(7)] assms(5,6)
        lower_device.areas_except(2) [OF assms(1) _ assms(8)]]])
    (use assms(2) in \<open>auto simp: lower_device.aok_def [OF assms(1)]\<close>)

text \<open>
  C18: erasing or writing a range leaves alone every block outside the management area to which no logic
  block of the range is mapped, whatever the erasures, remappings and table updates on the way do.
  \<open>img d b\<close> is anything one can observe of block \<open>b\<close> that calls for other blocks keep.
\<close>

theorem ranges_isolated:
  assumes "lower_device lo R (\<lambda>x. x \<noteq> b) I" and "\<And>d d'. R d d' \<Longrightarrow> img d' b = img d b"
    and "attached_to lo I ni" and "inst_ok ni" and "addr + sz < 2 ^ 64" and "sz \<le> length data"
    and "b < mgmt_start_ba ni \<or> mapping_blocks_top_ba ni < b"
    and "\<And>lb. addr div nmbm_lower_device.erasesize lo \<le> lb \<Longrightarrow> lb \<le> (addr + sz - 1) div nmbm_lower_device.erasesize lo \<Longrightarrow>
           block_mapping ni ! lb \<noteq> int b"
  shows "ensures (nmbm_erase_block_range crc ni addr sz)
      (\<lambda>(ret, failed, ni'). img (dev ni') b = img (dev ni) b) \<and>
    ensures (nmbm_write_range crc ni addr sz data mode)
      (\<lambda>(ret, retlen, ni'). img (dev ni') b = img (dev ni) b)"
proof -
  have "block_mapping ni ! (a div nmbm_lower_device.erasesize lo) \<noteq> int b" if "addr \<le> a" "a < addr + sz" for a
    using that by (intro assms(8) div_le_mono) auto
  then show ?thesis
    using erase_isolated [where img = img, OF assms(1,2,3,4,5,7,8)] write_isolated [where img = img, OF assms(1-7)]
    by blast
qed

theorem ranges_isolated_witness:
  "ensures (nmbm_erase_block_range crc32 ni16 128 256) (\<lambda>(ret, failed, ni').
     ram_contents (nm_lower (dev ni')) 5 = ram_contents (nm_lower (dev ni16)) 5) \<and>
   ensures (nmbm_write_range crc32 ni16 128 256 (replicate 256 1) NMBM_MODE_PLACE_OOB)
    (\<lambda>(ret, retlen, ni'). ram_contents (nm_lower (dev ni')) 5 = ram_contents (nm_lower (dev ni16)) 5)"
proof -
  have "block_mapping ni16 ! lb \<noteq> int 5" if "1 \<le> lb" "lb \<le> 2" for lb
    using that less_Suc_eq [of lb 2] by (auto simp: ni16_def le_Suc_eq numeral_2_eq_2)
  then show ?thesis
    by (intro ranges_isolated [OF ram5.low.lower_device_axioms _ ni16_attached ni16_inst_ok,
          where img = "\<lambda>d. ram_contents (nm_lower d)"])
      (auto simp: ni16_def)
qed

section \<open>The upper MTD device\<close>






text \<open>
  Asking whether a block is bad answers 0 or 1, or \<^verbatim>\<open>-EINVAL\<close> beyond the end, and changes
  nothing of the invariant.
\<close>

lemma mtd_block_isbad_total:
  assumes "mtd_device api geo Rm W" and "upper_ok api env geo nm" and "nm_state nm = FL_READY"
  shows "ensures (nmbm_mtd_block_isbad nm offs)
    (\<lambda>(ret, nm'). upper_ok api env geo nm' \<and> nm_state nm' = FL_READY \<and> ret \<in> {0, 1, - EINVAL})"
  by (rule ensures_mono [OF mtd_device.mtd_block_isbad_ok [OF assms]])
    (auto dest: mtd_device.uok_upper_ok [OF assms(1)])

text \<open>
  Marking a block bad through the upper device.
\<close>

lemma mtd_block_markbad_total:
  assumes "mtd_device api geo Rm (\<lambda>_. True)" and "upper_ok api env geo nm" and "nm_state nm = FL_READY"
  shows "ensures (nmbm_mtd_block_markbad crc nm offs)
    (\<lambda>(ret, nm'). upper_ok api env geo nm' \<and> nm_state nm' = FL_READY)"
  by (rule ensures_mono [OF mtd_device.mtd_block_markbad_ok [OF assms(1) TrueI assms(2,3)]])
    (auto dest: mtd_device.uok_upper_ok [OF assms(1)])

section \<open>Concurrent callers\<close>

text \<open>
  C10: however the callers are interleaved, a thread that holds the device for anything but the
  shutdown is the only one that holds it.
\<close>

theorem device_exclusive:
  assumes "nm_state nm0 = FL_READY" and "lock_reach (nm0, \<lambda>_. Idle) (nm, pcs)"
    and "pcs t = Holds a" and "a \<noteq> FL_PM_SUSPENDED" and "pcs u = Holds b"
  shows "u = t"
proof -
  have "lock_inv (nm, pcs)"
    by (rule lock_inv_reach [OF assms(2)]) (simp add: lock_inv_def)
  then show ?thesis
    using assms(3-5) by (blast intro: lock_inv_excl)
qed

theorem device_exclusive_witness:
  "\<exists>nm pcs. lock_reach (nm16, \<lambda>_. Idle) (nm, pcs) \<and> pcs 0 = Holds FL_READING \<and>
     pcs 1 = Wants FL_WRITING \<and> (\<forall>u b. pcs u = Holds b \<longrightarrow> u = 0)"
proof -
  define p1 where "p1 = (\<lambda>_ :: nat. Idle)(0 := Wants FL_READING)"
  define p2 where "p2 = p1(1 := Wants FL_WRITING)"
  define p3 where "p3 = p2(0 := Holds FL_READING)"
  have "lock_reach (nm16, \<lambda>_. Idle) (nm16, p1)"
    unfolding p1_def by (rule lock_reach.step [OF lock_reach.start]) (simp add: lock_step.request)
  then have "lock_reach (nm16, \<lambda>_. Idle) (nm16, p2)"
    unfolding p2_def by (rule lock_reach.step) (rule lock_step.request, simp_all add: p1_def)
  then have reach: "lock_reach (nm16, \<lambda>_. Idle) (nm16\<lparr>nm_state := FL_READING\<rparr>, p3)"
    unfolding p3_def by (rule lock_reach.step)
      (rule lock_step.acquire, simp_all add: p1_def p2_def nmbm_get_device_def)
  have held: "p3 0 = Holds FL_READING" "p3 1 = Wants FL_WRITING"
    by (simp_all add: p3_def p2_def)
  have "u = 0" if "p3 u = Holds b" for u b
    by (rule device_exclusive [OF nm16_fields(1) reach held(1) _ that]) simp
  with reach held show ?thesis
    by blast
qed



section \<open>Checksums and structures on flash\<close>

text \<open>
  A structure whose checksum has been updated passes the check of its header, and only the
  checksum has changed; \<open>crc\<close> is any checksum that can be continued over a second buffer.
\<close>

lemma checksum_roundtrip:
  assumes "incremental_crc crc" and "sizeof_header \<le> hdr_size (dec_header buf)"
    and "hdr_size (dec_header buf) \<le> length buf" and "hdr_size (dec_header buf) \<le> sz"
  shows "ensures (nmbm_update_checksum crc buf) (\<lambda>buf'.
    length buf' = length buf \<and> drop 16 buf' = drop 16 buf \<and> take 12 buf' = take 12 buf \<and>
    nmbm_check_header crc buf' sz = Some True)"
  using assms(2) by (intro incremental_crc.check_update_checksum [OF assms(1) _ assms(3,4)])
    (simp add: sizeof_header_def)

text \<open>
  C37: the repository's \<^verbatim>\<open>crc32\<close> is the division by the polynomial \<^verbatim>\<open>0xedb88320\<close>, one bit at a time.
\<close>

theorem crc32_is_division:
  "crc32 val bs = foldl (\<lambda>val s. (crc_bit ^^ 8) (val XOR ucast s)) val bs"
  by (simp add: crc32_def crc_byte_table)

text \<open>
  A signature that fits its members is read back from its bytes as it was.
\<close>

lemma signature_roundtrip:
  assumes "fits_signature s"
  shows "dec_signature (enc_signature s @ bs) = s \<and> length (enc_signature s) = sizeof_signature"
  using assms dec_enc_signature by (simp add: fits_signature_def sizeof_signature_def)

text \<open>
  The same for the header of an info table.
\<close>

lemma info_table_header_roundtrip:
  assumes "fits_info_table_header t"
  shows "dec_info_table_header (enc_info_table_header t @ bs) = t \<and>
    length (enc_info_table_header t) = sizeof_info_table_header"
  using assms dec_enc_info_table_header by (simp add: sizeof_info_table_header_def)

section \<open>Block states, walks and the initial mapping\<close>

text \<open>
  C9: setting the state of a block is read back, leaves the state of every other block alone, and
  reports and counts a change exactly when the state was a different one.
\<close>

theorem block_state_set_get:
  assumes "ba < st_dom (block_state ni)" and "ba' < st_dom (block_state ni)"
  shows "ensures (nmbm_set_block_state ni ba st) (\<lambda>(changed, ni').
    nmbm_get_block_state ni' ba' =
      (if ba' = ba then Some (st AND BLOCK_ST_MASK) else nmbm_get_block_state ni ba') \<and>
    changed = (nmbm_get_block_state ni ba \<noteq> Some (st AND BLOCK_ST_MASK)) \<and>
    block_state_changed ni' = (if changed then u32 (block_state_changed ni + 1) else block_state_changed ni))"
  using assms by (simp add: set_block_state_eq get_block_state_eq st_get_st_put Let_def)

theorem block_state_set_get_witness:
  "ensures (nmbm_set_block_state ni16 3 BLOCK_ST_BAD) (\<lambda>(changed, ni').
     changed \<and> nmbm_get_block_state ni' 3 = Some BLOCK_ST_BAD)"
  by (rule ensures_mono [OF block_state_set_get [where ba' = 3]])
    (auto simp: ni16_good get_block_state_eq st_dom_def ni16_fields split: if_splits)



text \<open>
  C26: the initial mapping enumerates the usable blocks below the management area in ascending order;
  the rest of the table is unmapped and the number of data blocks is the number of usable ones.
\<close>

theorem build_mapping_table_correct:
  assumes "mgmt_start_ba ni \<le> block_count ni" and "block_count ni \<le> st_dom (block_state ni)"
    and "block_count ni \<le> 2 ^ 31" and "length (block_mapping ni) = block_count ni"
  shows "nmbm_build_mapping_table ni =
    (let usable = filter (\<lambda>pb. nmbm_get_block_state ni pb \<noteq> Some BLOCK_ST_BAD) [0..<mgmt_start_ba ni]
     in Some (ni\<lparr>block_mapping := map int usable @ replicate (block_count ni - length usable) (- 1),
                 data_block_count := length usable\<rparr>))"
proof -
  have "filter (\<lambda>pb. nmbm_get_block_state ni pb \<noteq> Some BLOCK_ST_BAD) [0..<mgmt_start_ba ni] =
      usable_blocks ni 0"
    using assms by (auto simp: usable_blocks_def get_block_state_eq intro: filter_cong)
  then show ?thesis
    using build_mapping_table_eq [OF assms] by (simp add: Let_def)
qed

theorem build_mapping_table_correct_witness:
  "ensures (nmbm_build_mapping_table ni16) (\<lambda>ni'. data_block_count ni' = 8)"
  by (subst build_mapping_table_correct)
    (simp_all add: ni16_fields st_dom_def get_block_state_eq ni16_good upt_rec)

section \<open>Read-only devices\<close>

text \<open>
  C27: on a device attached read-only no operation of the API writes, erases or marks anything:
  whatever the reads preserve (\<open>R\<close>) is preserved.
\<close>

theorem read_only_kept:
  assumes "lower_device lo R (\<lambda>_. False) I" and "flags lo AND NMBM_F_READ_ONLY \<noteq> 0"
    and "attached_to lo I ni" and "inst_ok ni" and "addr + sz < 2 ^ 64" and "sz \<le> length data"
  shows "ensures (nmbm_erase_block_range crc ni addr sz) (\<lambda>(ret, failed, ni'). R (dev ni) (dev ni')) \<and>
    ensures (nmbm_write_range crc ni addr sz data mode) (\<lambda>(ret, retlen, ni'). R (dev ni) (dev ni')) \<and>
    ensures (nmbm_mark_bad_block crc ni addr) (\<lambda>(ret, ni'). R (dev ni) (dev ni'))"
proof -
  note aok = lower_device.aok_refl [OF assms(1,3,4)] and aok_def = lower_device.aok_def [OF assms(1)]
  note areas = lower_device.read_only_areas [OF assms(1,2)]
  show ?thesis
    using lower_device.erase_block_range_a [OF assms(1) aok areas(1) assms(5) areas(2), of crc]
      lower_device.write_range_a [OF assms(1) aok areas(1) assms(5,6) areas(2), of crc mode]
      lower_device.mark_bad_block_a [OF assms(1) aok areas(1) areas(2), of crc addr]
    by (auto simp: aok_def elim!: ensures_mono)
qed

theorem read_only_kept_witness:
  "ensures (nmbm_erase_block_range crc32 ni_ro 128 256) (\<lambda>(ret, failed, ni').
     nm_lower (dev ni') = nm_lower (dev ni_ro))"
  using read_only_kept [OF ro.lower_device_axioms ni_ro_ok(3,1,2), of 128 256 "replicate 256 0" crc32]
  by (auto elim!: ensures_mono)

section \<open>The logic flash array\<close>

text \<open>
  C2: on a NAND driver that reports truthfully, the API refines a flash array of bytes: a read that
  reports no error, of any range, returns the bytes of the logic image, and changes no page.
\<close>

theorem read_range_refines:
  assumes "nand lo I pg" and "attached_to lo I ni" and "inst_ok ni" and "addr + sz < 2 ^ 64"
  shows "ensures (nmbm_read_range ni addr sz mode) (\<lambda>(ret, bs, retlen, ni').
    (0 \<le> ret \<longrightarrow> bs = map (logic_byte pg ni) [addr..<addr + sz]) \<and> pg (dev ni') = pg (dev ni))"
  by (rule nand.read_range_nd [OF assms])

theorem read_range_refines_witness:
  "ensures (nmbm_read_range ni16 100 300 NMBM_MODE_PLACE_OOB) (\<lambda>(ret, bs, retlen, ni').
    0 \<le> ret \<longrightarrow> bs = map (logic_byte ram_page ni16) [100..<400])"
  by (rule ensures_mono [OF read_range_refines [OF ramn.nand_axioms ni16_nand ni16_inst_ok]]) auto

text \<open>
  C3: data written to a range of erased pages whose blocks are mapped to different blocks is the
  contents of the logic image afterwards if the write reports success, and no byte on other pages has
  changed.
\<close>

theorem write_range_refines:
  assumes "nand lo I pg" and "attached_to lo I ni" and "inst_ok ni" and "addr + sz < 2 ^ 64"
    and "sz \<le> length data" and "range_writable lo pg ni addr sz"
  shows "ensures (nmbm_write_range crc ni addr sz data mode) (\<lambda>(ret, retlen, ni'). ret = 0 \<longrightarrow>
    map (logic_byte pg ni') [addr..<addr + sz] = take sz data \<and>
    (\<forall>a. \<not> in_pages lo ni addr sz (phys_addr ni (page_of ni a)) \<longrightarrow> logic_byte pg ni' a = logic_byte pg ni a))"
  by (rule nand.write_range_nd [OF assms])

theorem write_range_refines_witness:
  "ensures (nmbm_write_range crc32 ni16 100 200 (replicate 200 1) NMBM_MODE_PLACE_OOB) (\<lambda>(ret, retlen, ni').
     ret = 0 \<longrightarrow> map (logic_byte ram_page ni') [100..<300] = replicate 200 1)"
  by (rule ensures_mono [OF write_range_refines [OF ramn.nand_axioms ni16_nand ni16_inst_ok _ _ ni16_writable]]) auto

text \<open>
  C4: erasing a range inside a logic block, if it reports success, leaves the whole logic block
  mapped and erased, whether or not it has been remapped on the way.
\<close>

theorem erase_refines:
  assumes "nand lo I pg" and "attached_to lo I ni" and "inst_ok ni"
    and "addr + sz \<le> ba2addr ni (data_block_count ni)" and "addr div nmbm_lower_device.erasesize lo = lb"
    and "(addr + sz - 1) div nmbm_lower_device.erasesize lo = lb" and "0 < sz"
  shows "ensures (nmbm_erase_block_range crc ni addr sz) (\<lambda>(ret, failed, ni').
    ret = 0 \<longrightarrow> block_erased lo pg ni' lb)"
  by (rule nand.erase_block_range_nd [OF assms])

theorem erase_refines_witness:
  "ensures (nmbm_erase_block_range crc32 ni16 128 128) (\<lambda>(ret, failed, ni').
     ret = 0 \<longrightarrow> block_erased nld16 ram_page ni' 1)"
  by (rule erase_refines [OF ramn.nand_axioms ni16_nand ni16_inst_ok]) (auto simp: ni16_end)

text \<open>
  C1: erase, write, read: whatever happens to the blocks, if the three calls report success the data
  comes back.
\<close>

theorem erase_write_read:
  assumes "nand lo I pg" and "attached_to lo I ni" and "inst_ok ni"
    and "addr + sz \<le> ba2addr ni (data_block_count ni)" and "addr div nmbm_lower_device.erasesize lo = lb"
    and "(addr + sz - 1) div nmbm_lower_device.erasesize lo = lb" and "0 < sz" and "sz \<le> length data"
  shows "ensures (do {
      (r1, _, ni) \<leftarrow> nmbm_erase_block_range crc ni addr sz;
      (r2, _, ni) \<leftarrow> nmbm_write_range crc ni addr sz data mode;
      (r3, bs, _, ni) \<leftarrow> nmbm_read_range ni addr sz mode;
      Some (r1, r2, r3, bs)
    }) (\<lambda>(r1, r2, r3, bs). r1 = 0 \<and> r2 = 0 \<and> 0 \<le> r3 \<longrightarrow> bs = take sz data)"
  by (rule nand.erase_write_read_pg [OF assms])

theorem erase_write_read_witness:
  "ensures (do {
      (r1, _, ni) \<leftarrow> nmbm_erase_block_range crc32 ni16 130 100;
      (r2, _, ni) \<leftarrow> nmbm_write_range crc32 ni 130 100 (replicate 100 7) NMBM_MODE_PLACE_OOB;
      (r3, bs, _, ni) \<leftarrow> nmbm_read_range ni 130 100 NMBM_MODE_PLACE_OOB;
      Some (r1, r2, r3, bs)
    }) (\<lambda>(r1, r2, r3, bs). r1 = 0 \<and> r2 = 0 \<and> 0 \<le> r3 \<longrightarrow> bs = replicate 100 7)"
  by (rule ensures_mono [OF erase_write_read [OF ramn.nand_axioms ni16_nand ni16_inst_ok, where lb = 1]])
    (auto simp: ni16_end)

section \<open>Attaching\<close>

text \<open>
  C7: attaching to a chip that carries no signature, with permission to create one, ends and either
  fails with \<^verbatim>\<open>-ENODEV\<close> or leaves an attached instance that satisfies the invariant.
\<close>

theorem attach_fresh_chip:
  assumes "nand lo I pg" and "nmbm_check_lower_members nld = (True, lo)" and "real_chip nld"
    and "I (arg lo)" and "length (sig_padding (signature ni)) = 3" and "length (sig_tail (signature ni)) = 4"
    and "flags lo AND NMBM_F_CREATE \<noteq> 0" and "flags lo AND NMBM_F_READ_ONLY = 0"
    and "no_signature lo pg (arg lo)"
  shows "ensures (nmbm_attach crc nld ni) (\<lambda>(ret, ni').
    attached_to lo I ni' \<and> ret \<in> {0, - ENODEV} \<and> (ret = 0 \<longrightarrow> inst_ok ni'))"
  by (rule nand.attach_fresh [OF assms])

theorem attach_fresh_chip_witness:
  "ensures (nmbm_attach crc32 nld16 zeroed16) (\<lambda>(ret, ni'). ret \<in> {0, - ENODEV} \<and> (ret = 0 \<longrightarrow> inst_ok ni'))"
  by (rule ensures_mono [OF attach_fresh_chip [OF ramn.nand_axioms nld16_fresh(1,2,4) zeroed16_signature
        nld16_flags nld16_fresh(3)]]) auto

text \<open>
  C23: probing such a chip gives an upper device that satisfies the invariant of the MTD layer, or no
  device and an error.
\<close>

theorem probe_fresh_chip:
  assumes "nand (nmbm_probe_nld api env low) I pg" and "\<And>d. I d \<Longrightarrow> mtd_geo (nm_lower d) = mtd_geo low"
    and "by_node env = Some (Some low)"
    and "nmbm_check_lower_members (nmbm_probe_nld api env low) = (True, nmbm_probe_nld api env low)"
    and "real_chip (nmbm_probe_nld api env low)" and "I (arg (nmbm_probe_nld api env low))"
    and "length (sig_padding (signature zeroed)) = 3" and "length (sig_tail (signature zeroed)) = 4"
    and "prop_forced_create env"
    and "no_signature (nmbm_probe_nld api env low) pg (arg (nmbm_probe_nld api env low))"
  shows "ensures (nmbm_probe crc api env zeroed pdev devs) (\<lambda>(ret, nm, put, devs').
    (ret = 0 \<longleftrightarrow> nm \<noteq> None) \<and> (\<forall>m. nm = Some m \<longrightarrow> upper_ok api env low m \<and> nm_state m = FL_READY \<and>
       devs' = list_add_tail pdev devs))"
  by (rule probe_fresh_ok [OF assms])

theorem probe_fresh_chip_witness:
  "ensures (nmbm_probe crc32 ram_api env16 zeroed16 1 []) (\<lambda>(ret, nm, put, devs').
     \<forall>m. nm = Some m \<longrightarrow> upper_ok ram_api env16 chip16 m \<and> devs' = Some [1])"
  by (rule ensures_mono [OF probe_fresh_chip [OF ramn.nand_axioms _ _ nld16_fresh(1,2,4) zeroed16_signature
        _ nld16_fresh(3)]])
    (auto simp: ram_shape_def env16_def list_add_tail_def)

text \<open>
  The search for a signature ends on every chip of at least 16 blocks and finds it inside the
  chip.
\<close>

lemma find_signature_total:
  assumes "lower_device lo R W I" and "attached_to lo I ni" and "16 \<le> block_count ni"
    and "block_count ni \<le> 2 ^ 24" and "block_count ni * nmbm_lower_device.erasesize lo = chip_size lo"
    and "0 < max_ratio lo" and "max_ratio lo < 15"
    and "max_reserved_blocks lo = 0 \<or> 32 \<le> max_reserved_blocks lo"
  shows "ensures (nmbm_find_signature crc ni) (\<lambda>(r, ni'). attached_to lo I ni' \<and>
    (\<forall>sig b. r = Some (sig, b) \<longrightarrow> b < block_count ni))"
  by (rule ensures_mono [OF lower_device.find_signature_ok [OF assms]])
    (auto intro: lower_device.nok_att [OF assms(1)])

text \<open>
  Detaching an instance in order ends with the code 0 and keeps the invariant.
\<close>

lemma detach_total:
  assumes "lower_device lo R (\<lambda>_. True) I" and "attached_to lo I ni" and "inst_ok ni"
  shows "ensures (nmbm_detach crc ni) (\<lambda>(ret, ni'). ret = 0 \<and> attached_to lo I ni' \<and> inst_ok ni')"
  by (rule detach_ok [OF assms])

section \<open>The pool of replacement blocks\<close>

text \<open>
  C24: as long as the pool holds a good block, mapping succeeds and takes the highest one; it has left
  the pool afterwards exactly if it was the top block, that is, if the top block is good.
\<close>

theorem map_block_from_pool:
  assumes "geom ni" and "inst_ok ni" and "pool ni \<noteq> []" and "lb < block_count ni"
  shows "ensures (nmbm_map_block crc ni lb) (\<lambda>(success, ni'). success \<and> pool_ok ni' \<and>
    block_mapping ni' = (block_mapping ni)[lb := int (last (pool ni))] \<and>
    (last (pool ni) \<in> set (pool ni') \<longleftrightarrow>
       st_get (block_state ni) (mapping_blocks_top_ba ni) \<noteq> BLOCK_ST_GOOD))"
  by (rule map_block_pool [OF inst_pool_ok [OF assms(1,2)] assms(3)]) (use assms(4) inst_okD(6) [OF assms(2)] in simp)

theorem map_block_from_pool_witness:
  "ensures (nmbm_map_block crc32 ni16 3) (\<lambda>(success, ni'). success \<and> block_mapping ni' ! 3 = 14)"
  by (rule ensures_mono [OF map_block_from_pool [OF ni16_geom ni16_inst_ok]])
    (auto simp: ni16_fields ni16_pool)

text \<open>
  C38: if the top block of the pool is not good, two calls in a row map two logic blocks to the same
  physical block: the code takes one block off the top of the pool, not the block it has mapped.
\<close>

theorem map_block_shares_block:
  assumes "geom ni" and "inst_ok ni" and "pool ni \<noteq> []" and "a < block_count ni" and "b < block_count ni"
    and "a \<noteq> b" and "st_get (block_state ni) (mapping_blocks_top_ba ni) \<noteq> BLOCK_ST_GOOD"
  shows "ensures (do {
      (s1, ni) \<leftarrow> nmbm_map_block crc ni a;
      (s2, ni) \<leftarrow> nmbm_map_block crc ni b;
      Some (s1, s2, ni)
    }) (\<lambda>(s1, s2, ni'). s1 \<and> s2 \<and> block_mapping ni' ! a = block_mapping ni' ! b \<and> 0 \<le> block_mapping ni' ! a)"
  by (rule map_block_twice [OF inst_pool_ok [OF assms(1,2)] assms(3)])
    (use assms(4-7) inst_okD(6) [OF assms(2)] in simp_all)

theorem map_block_shares_block_witness:
  "ensures (do {
      (s1, ni) \<leftarrow> nmbm_map_block crc32 ni16_bad 3;
      (s2, ni) \<leftarrow> nmbm_map_block crc32 ni 5;
      Some (s1, s2, ni)
    }) (\<lambda>(s1, s2, ni'). s1 \<and> s2 \<and> block_mapping ni' ! 3 = block_mapping ni' ! 5)"
  by (rule ensures_mono [OF map_block_shares_block [OF ni16_bad_ok(1,2,3)]])
    (auto simp: ni16_bad_ok)

section \<open>The info tables on flash\<close>



text \<open>
  C39: the check of the header of an info table accepts an offset of the mapping table far behind the
  end of the table, because the differences are unsigned; checking the table then reads behind the
  buffer.
\<close>

theorem info_table_header_overflow:
  assumes "info_table_size ni + mapping_table_size ni < 2 ^ 31" and "state_table_size ni \<le> 2 ^ 31"
    and "0 < data_block_count ni" and "length data = info_table_size ni" and "32 \<le> length data"
    and "magic (ift_header (dec_info_table_header data)) = NMBM_MAGIC_INFO_TABLE"
    and "hdr_size (ift_header (dec_info_table_header data)) = info_table_size ni"
    and "state_table_off (dec_info_table_header data) = 0"
    and "mapping_table_off (dec_info_table_header data) = 2 ^ 31"
  shows "nmbm_check_info_table_header ni (dec_info_table_header data) \<and>
    nmbm_check_info_table ni start_ba end_ba data = None"
proof -
  obtain n where n: "data_block_count ni = Suc n"
    using assms(3) gr0_implies_Suc by blast
  have "sub32 (info_table_size ni) (2 ^ 31) = info_table_size ni + 2 ^ 31"
  proof -
    have "(int (info_table_size ni) - 2 ^ 31) mod 2 ^ 32 = (int (info_table_size ni) + 2 ^ 31) mod 2 ^ 32"
      using mod_add_self2 [of "int (info_table_size ni) - 2 ^ 31" "2 ^ 32"] by (simp add: add.commute)
    then show ?thesis
      using assms(1) by (simp add: sub32_def)
  qed
  moreover have "sub32 (2 ^ 31) 0 = 2 ^ 31"
    by (simp add: sub32_def)
  ultimately have "nmbm_check_info_table_header ni (dec_info_table_header data)"
    using assms by (simp add: nmbm_check_info_table_header_def)
  moreover have "nmbm_check_info_table ni start_ba end_ba data = None"
  proof -
    have "drop (mapping_table_off (dec_info_table_header data)) data = []"
      using assms(1,4,9) by simp
    then show ?thesis
      using assms(5) n dec_info_take [of data]
      by (simp add: nmbm_check_info_table_def mem_read_def arr_get_def le_ints_def sizeof_info_table_header_def)
  qed
  ultimately show ?thesis ..
qed

theorem info_table_header_overflow_witness:
  "nmbm_check_info_table_header ni16 (dec_info_table_header evil_table) \<and>
   nmbm_check_info_table ni16 8 12 evil_table = None"
  by (rule info_table_header_overflow)
    (simp_all add: ni16_def evil_table_header, simp_all add: evil_header_def)

section \<open>Progress and removal\<close>





section \<open>The MTD splitters\<close>

text \<open>
  C30: the search for a root file system ends and returns the first offset that carries a magic
  number, among the offset it is given and the erase block boundaries behind it.
\<close>

theorem rootfs_search_first:
  assumes "split_device m" and "limit \<le> 2 ^ 32"
  shows "mtd_find_rootfs_from m from limit = Some (first_rootfs m from limit)"
  by (rule split_device.find_rootfs_eq [OF assms])

theorem rootfs_search_first_witness:
  "first_rootfs lzma_dev 3 32 = Inr (16, MTDSPLIT_PART_TYPE_SQUASHFS)"
  using rootfs_search_first [OF lzma_dev_ok, of 32 3] lzma_dev_rootfs by simp

text \<open>
  C31: the splitters that read one header or footer return on every device. They report an error and
  store nothing, or they give the kernel and the root file system. Those for Seama, LZMA, WRGG, Minor
  and ELF images divide the device, without gap or overlap, where a root file system begins; those for
  EVA and brnImage firmware put the root file system behind the kernel and both inside the device; the
  one for TP-Link firmware keeps both inside the device. A brnImage device has to be a multiple of the
  alignment.
\<close>

theorem header_splitters_divide:
  assumes "split_device m"
  shows "ensures (mtdsplit_parse_seama kz m) (split_post (kernel_then_rootfs m)) \<and>
    ensures (mtdsplit_parse_lzma kz m) (split_post (kernel_then_rootfs m)) \<and>
    ensures (mtdsplit_parse_wrgg kz m) (split_post (kernel_then_rootfs m)) \<and>
    ensures (mtdsplit_parse_minor kz m) (split_post (kernel_then_rootfs m)) \<and>
    ensures (mtdsplit_parse_elf kz m) (split_post (kernel_then_rootfs m)) \<and>
    ensures (mtdsplit_parse_eva kz m) (split_post (kernel_before_rootfs m)) \<and>
    ensures (mtdsplit_parse_tplink kz m)
      (split_post (\<lambda>parts. length parts = 2 \<and> has_rootfs m (parts ! 1) \<and> inside_device m parts)) \<and>
    (BRNIMAGE_ALIGN_BYTES dvd mi_size m \<longrightarrow> ensures (mtdsplit_parse_brnimage kz m) (split_post (kernel_before_rootfs m)))"
  by (intro conjI impI split_device.parse_seama_divides [OF assms] split_device.parse_lzma_divides [OF assms]
      split_device.parse_wrgg_divides [OF assms] split_device.parse_minor_divides [OF assms]
      split_device.parse_elf_divides [OF assms] split_device.parse_eva_bounds [OF assms]
      split_device.parse_tplink_bounds [OF assms] split_device.parse_brnimage_bounds [OF assms])

theorem header_splitters_divide_witness:
  "kernel_then_rootfs lzma_dev [mk_part KERNEL_PART_NAME 0 16, mk_part ROOTFS_PART_NAME 16 16] \<and>
   kernel_before_rootfs brn_dev [mk_part KERNEL_PART_NAME 0 2036, mk_part ROOTFS_PART_NAME 2048 1012]"
  using header_splitters_divide [OF lzma_dev_ok, of True] header_splitters_divide [OF brn_dev_ok, of True]
  by (simp add: lzma_dev_parsed brn_dev_parsed BRNIMAGE_ALIGN_BYTES_def)

text \<open>
  C32: the splitters that look for an image at every erase block return on every device. uImage and
  jImage firmware is divided into kernel and root file system in either order, and a kernel that starts
  inside the device ends inside it; the partition of a FIT image covers the image, which ends before
  the root file system.
\<close>

theorem scan_splitters_layout:
  assumes "split_device m" and "mi_erasesize m dvd mi_size m" and "sizeof_fdt_header \<le> mi_erasesize m"
    and "0 < mi_size m" and "\<And>node v. np = Some node \<Longrightarrow> np_padding node = Some v \<Longrightarrow> v < 2 ^ 31"
  shows "ensures (mtdsplit_parse_uimage kz vz np m) (split_post (image_layout m)) \<and>
    ensures (mtdsplit_jimage_parse_generic kz vz m) (split_post (image_layout m)) \<and>
    ensures (mtdsplit_fit_parse kz m) (split_post (fit_layout m))"
  by (intro conjI split_device.parse_uimage_layout [OF assms(1)] split_device.parse_jimage_layout [OF assms(1)]
      split_device.parse_fit_layout [OF assms(1,3,2,4)]) (rule assms(5))

theorem scan_splitters_layout_witness:
  "image_layout uimage_dev [mk_part KERNEL_PART_NAME 0 64, mk_part ROOTFS_PART_NAME 64 64]"
  using scan_splitters_layout [OF uimage_dev_ok, of None True True]
  by (simp add: uimage_dev_parsed sizeof_fdt_header_def)

text \<open>
  C33: the overlay partition that is split off a root file system lies behind the squashfs image and
  inside the device, starts at an erase block of the flash and is a multiple of the erase block size,
  if the device ends at an erase block.
\<close>

theorem overlay_behind_squashfs:
  assumes "split_device m" and "split_device parent" and "mi_erasesize parent dvd offset + mi_size m"
    and "offset + mi_size m < 2 ^ 32"
  shows "ensures (mtdsplit_parse_squashfs kz m (Some (parent, offset)))
    (split_post (overlay_ok m parent offset))"
  by (rule parse_squashfs_overlay [OF assms])

theorem overlay_behind_squashfs_witness:
  "overlay_ok squashfs_dev flash_dev 32 [mk_part ROOTFS_SPLIT_NAME 64 32]"
  using overlay_behind_squashfs [OF squashfs_dev_ok, of 32 True] by (simp add: squashfs_dev_parsed)

text \<open>
  C34: on a device whose directory entries are well formed, the splitters for Broadcom images return.
  The firmware partition consists of the kernel and the UBI partition and ends with the image, and the
  CFE RAM partition comes before it; with two images, every partition lies inside the device.
\<close>

theorem wfi_splitters_layout:
  assumes "split_device m" and "nodes_ok crc m" and "mi_erasesize m dvd mi_size m div 2" and "kz 5"
    and "mi_erasesize m dvd off" and "off + sz \<le> mi_size m"
  shows "ensures (parse_bcm_wfi crc kz1 node m off sz cfe) (split_post (wfi_layout m off sz cfe)) \<and>
    ensures (mtdsplit_parse_bcm_wfi_split crc kz node m) (two_images m)"
  using split_device.parse_bcm_wfi_layout [OF assms(1,2,6,5)]
    split_device.parse_wfi_split_total [where kz = kz, OF assms(1,2,4,3)] by blast

theorem wfi_splitters_layout_witness:
  "wfi_layout wfi_dev 0 256 False
     [mk_part PART_FIRMWARE 0 256, mk_part KERNEL_PART_NAME 0 128, mk_part UBI_PART_NAME 128 128]"
  using wfi_splitters_layout [OF wfi_dev_ok wfi_nodes_ok, of "\<lambda>_. True" 0 256 True None False]
  by (simp add: wfi_dev_parsed)




end
